(* ===== verification/Prelude.thy ===== *)
theory Prelude
  imports Main "HOL-Library.Word" "HOL-Library.List_Lexorder"
begin

text \<open>
  Shared vocabulary of the development: machine integers and byte strings, the
  state-and-error programs every component is written in, prefix and ordering facts on
  byte strings, and small facts on association lists. Nothing here models a particular
  file of the repository; the definitions stand for Rust's own types and control flow.
\<close>

named_theorems prog_simps \<open>unfolding rules for state-and-error programs\<close>

section \<open>Machine integers, byte strings and hashes\<close>

type_synonym u8 = "8 word"
type_synonym u32 = "32 word"
type_synonym u64 = "64 word"
type_synonym bytes = "u8 list"

text \<open>
  \<open>H256\<close> is the fixed-width hash of the Substrate crates, kept as the bytes it holds;
  \<open>H256::from_slice\<close> panics on a slice that is not 32 bytes long.
\<close>

datatype h256 = H256 (as_bytes: bytes)

definition h256_from_slice :: "bytes \<Rightarrow> h256 option" where
  "h256_from_slice b = (if length b = 32 then Some (H256 b) else None)"

definition h256_zero :: h256 where
  "h256_zero = H256 (replicate 32 0)"

definition wf_h256 :: "h256 \<Rightarrow> bool" where
  "wf_h256 h \<longleftrightarrow> length (as_bytes h) = 32"

lemma h256_from_slice_as_bytes: "wf_h256 h \<Longrightarrow> h256_from_slice (as_bytes h) = Some h"
  by (cases h) (simp add: h256_from_slice_def wf_h256_def)

lemma as_bytes_inject [simp]: "as_bytes h = as_bytes h' \<longleftrightarrow> h = h'"
  by (cases h; cases h') simp

text \<open>Rust's \<open>checked_add\<close> and \<open>saturating_sub\<close> on \<open>u32\<close>.\<close>

definition checked_add_u32 :: "u32 \<Rightarrow> u32 \<Rightarrow> u32 option" where
  "checked_add_u32 a b = (if unat a + unat b < 2 ^ 32 then Some (a + b) else None)"

definition saturating_sub_u32 :: "u32 \<Rightarrow> u32 \<Rightarrow> u32" where
  "saturating_sub_u32 a b = (if b \<le> a then a - b else 0)"

lemma unat_plus_one_u32: "(n :: u32) \<noteq> - 1 \<Longrightarrow> unat (n + 1) = unat n + 1"
  by (metis Suc_eq_plus1 add.commute eq_neg_iff_add_eq_0 unatSuc)

lemma checked_add_u32_one_Some:
  "checked_add_u32 n 1 = Some m \<longleftrightarrow> n \<noteq> - 1 \<and> m = n + 1"
proof (cases "n = - 1")
  case True
  then show ?thesis by (simp add: checked_add_u32_def unsigned_minus_1_eq_mask mask_eq_exp_minus_1)
next
  case False
  have "unat (n + 1) < 2 ^ LENGTH(32)"
    by (rule unsigned_less)
  then have "unat n + 1 < 2 ^ 32"
    by (simp add: unat_plus_one_u32 [OF False])
  with False show ?thesis by (auto simp: checked_add_u32_def)
qed

text \<open>The same check without the power, for evaluation.\<close>

lemma checked_add_u32_code [code]:
  "checked_add_u32 a b = (if a \<le> - 1 - b then Some (a + b) else None)"
proof -
  have b: "unat b < 2 ^ 32" using unsigned_less [of b] by simp
  have m: "unat (- 1 :: u32) = 2 ^ 32 - 1" by (simp add: unsigned_minus_1_eq_mask mask_eq_exp_minus_1)
  have "b \<le> - 1" by simp
  then have "unat (- 1 - b) = 2 ^ 32 - 1 - unat b" by (simp only: unat_sub m)
  with b have "unat a + unat b < 2 ^ 32 \<longleftrightarrow> a \<le> - 1 - b"
    unfolding word_le_nat_alt by linarith
  then show ?thesis by (simp add: checked_add_u32_def)
qed

lemma less_plus_one_u32: "(n :: u32) \<noteq> - 1 \<Longrightarrow> m < n + 1 \<longleftrightarrow> m \<le> n"
  by (simp add: word_less_nat_alt word_le_nat_alt unat_plus_one_u32 less_Suc_eq_le)

section \<open>Programs with state and errors\<close>

text \<open>
  A method that reads and writes shared state and returns \<open>Result<A, E>\<close> is a function
  from the state to a sum and the state after the call; the state is kept on the error
  path too, because an early return of the source keeps the effects made before it.
\<close>

type_synonym ('s, 'e, 'a) prog = "'s \<Rightarrow> ('e + 'a) \<times> 's"

definition ret :: "'a \<Rightarrow> ('s, 'e, 'a) prog" where
  "ret x = (\<lambda>s. (Inr x, s))"

definition fail :: "'e \<Rightarrow> ('s, 'e, 'a) prog" where
  "fail e = (\<lambda>s. (Inl e, s))"

definition bindE :: "('s, 'e, 'a) prog \<Rightarrow> ('a \<Rightarrow> ('s, 'e, 'b) prog) \<Rightarrow> ('s, 'e, 'b) prog" where
  "bindE m f = (\<lambda>s. case m s of (Inl e, s') \<Rightarrow> (Inl e, s') | (Inr x, s') \<Rightarrow> f x s')"

definition gets :: "('s \<Rightarrow> 'a) \<Rightarrow> ('s, 'e, 'a) prog" where
  "gets f = (\<lambda>s. (Inr (f s), s))"

definition modify :: "('s \<Rightarrow> 's) \<Rightarrow> ('s, 'e, unit) prog" where
  "modify f = (\<lambda>s. (Inr (), f s))"

text \<open>\<open>match m { Ok(v) => .., Err(e) => .. }\<close>, with both arms seeing the state after \<open>m\<close>.\<close>

definition matchE ::
  "('s, 'e, 'a) prog \<Rightarrow> ('e \<Rightarrow> ('s, 'f, 'b) prog) \<Rightarrow> ('a \<Rightarrow> ('s, 'f, 'b) prog) \<Rightarrow> ('s, 'f, 'b) prog" where
  "matchE m h f = (\<lambda>s. case m s of (Inl e, s') \<Rightarrow> h e s' | (Inr x, s') \<Rightarrow> f x s')"

text \<open>The \<open>?\<close> operator with a \<open>From\<close> conversion of the error.\<close>

definition map_err :: "('e \<Rightarrow> 'f) \<Rightarrow> ('s, 'e, 'a) prog \<Rightarrow> ('s, 'f, 'a) prog" where
  "map_err g m = (\<lambda>s. case m s of (Inl e, s') \<Rightarrow> (Inl (g e), s') | (Inr x, s') \<Rightarrow> (Inr x, s'))"

text \<open>A value already computed as a \<open>Result\<close>.\<close>

definition lift_sum :: "'e + 'a \<Rightarrow> ('s, 'e, 'a) prog" where
  "lift_sum r = (\<lambda>s. (r, s))"

text \<open>Running a program on a field of a larger state.\<close>

definition on_field ::
  "('s \<Rightarrow> 't) \<Rightarrow> ('t \<Rightarrow> 's \<Rightarrow> 's) \<Rightarrow> ('t, 'e, 'a) prog \<Rightarrow> ('s, 'e, 'a) prog" where
  "on_field g p m = (\<lambda>s. case m (g s) of (r, t) \<Rightarrow> (r, p t s))"

text \<open>A loop over a list that stops at the first error and collects the results.\<close>

fun each :: "('a \<Rightarrow> ('s, 'e, 'b) prog) \<Rightarrow> 'a list \<Rightarrow> ('s, 'e, 'b list) prog" where
  "each f [] = ret []"
| "each f (x # xs) = bindE (f x) (\<lambda>y. bindE (each f xs) (\<lambda>ys. ret (y # ys)))"

text \<open>
  Programs that may not return: the state-and-error programs with \<open>None\<close> for a run that
  goes on for ever. A loop whose end depends on what a server answers is one of these.
\<close>

type_synonym ('s, 'e, 'a) loop_prog = "'s \<Rightarrow> (('e + 'a) \<times> 's) option"

definition returns :: "('s, 'e, 'a) prog \<Rightarrow> ('s, 'e, 'a) loop_prog" where
  "returns m = (\<lambda>s. Some (m s))"

definition bindL ::
  "('s, 'e, 'a) loop_prog \<Rightarrow> ('a \<Rightarrow> ('s, 'e, 'b) loop_prog) \<Rightarrow> ('s, 'e, 'b) loop_prog" where
  "bindL m f = (\<lambda>s. case m s of None \<Rightarrow> None
     | Some (Inl e, s') \<Rightarrow> Some (Inl e, s') | Some (Inr x, s') \<Rightarrow> f x s')"

definition map_errL :: "('e \<Rightarrow> 'f) \<Rightarrow> ('s, 'e, 'a) loop_prog \<Rightarrow> ('s, 'f, 'a) loop_prog" where
  "map_errL g m = (\<lambda>s. case m s of None \<Rightarrow> None
     | Some (Inl e, s') \<Rightarrow> Some (Inl (g e), s') | Some (Inr x, s') \<Rightarrow> Some (Inr x, s'))"

definition on_fieldL ::
  "('s \<Rightarrow> 't) \<Rightarrow> ('t \<Rightarrow> 's \<Rightarrow> 's) \<Rightarrow> ('t, 'e, 'a) loop_prog \<Rightarrow> ('s, 'e, 'a) loop_prog" where
  "on_fieldL g p m = (\<lambda>s. case m (g s) of None \<Rightarrow> None | Some (r, t) \<Rightarrow> Some (r, p t s))"

lemma loop_apply [prog_simps]:
  "returns m s = Some (m s)"
  "bindL l f s = (case l s of None \<Rightarrow> None
     | Some (Inl e, s') \<Rightarrow> Some (Inl e, s') | Some (Inr x, s') \<Rightarrow> f x s')"
  "map_errL g l s = (case l s of None \<Rightarrow> None
     | Some (Inl e, s') \<Rightarrow> Some (Inl (g e), s') | Some (Inr x, s') \<Rightarrow> Some (Inr x, s'))"
  by (simp_all add: returns_def bindL_def map_errL_def)

lemma on_fieldL_apply [prog_simps]:
  "on_fieldL g p l s = (case l (g s) of None \<Rightarrow> None | Some (r, t) \<Rightarrow> Some (r, p t s))"
  by (simp add: on_fieldL_def)

lemma ret_apply [prog_simps]: "ret x s = (Inr x, s)"
  by (simp add: ret_def)

lemma fail_apply [prog_simps]: "fail e s = (Inl e, s)"
  by (simp add: fail_def)

lemma gets_apply [prog_simps]: "gets f s = (Inr (f s), s)"
  by (simp add: gets_def)

lemma modify_apply [prog_simps]: "modify f s = (Inr (), f s)"
  by (simp add: modify_def)

lemma lift_sum_apply [prog_simps]: "lift_sum r s = (r, s)"
  by (simp add: lift_sum_def)

lemma bindE_apply [prog_simps]:
  "bindE m f s = (case m s of (Inl e, s') \<Rightarrow> (Inl e, s') | (Inr x, s') \<Rightarrow> f x s')"
  by (simp add: bindE_def)

lemma matchE_apply [prog_simps]:
  "matchE m h f s = (case m s of (Inl e, s') \<Rightarrow> h e s' | (Inr x, s') \<Rightarrow> f x s')"
  by (simp add: matchE_def)

lemma map_err_apply [prog_simps]:
  "map_err g m s = (case m s of (Inl e, s') \<Rightarrow> (Inl (g e), s') | (Inr x, s') \<Rightarrow> (Inr x, s'))"
  by (simp add: map_err_def)

lemma on_field_apply [prog_simps]: "on_field g p m s = (case m (g s) of (r, t) \<Rightarrow> (r, p t s))"
  by (simp add: on_field_def)

text \<open>Evaluation runs a program only once it has its state.\<close>

declare ret_apply [code] fail_apply [code] gets_apply [code] modify_apply [code] lift_sum_apply [code]
  bindE_apply [code] matchE_apply [code] map_err_apply [code] on_field_apply [code]
  loop_apply [code] on_fieldL_apply [code]

lemma bindE_Inr:
  "bindE m f s = (Inr y, s'') \<longleftrightarrow> (\<exists>x s'. m s = (Inr x, s') \<and> f x s' = (Inr y, s''))"
  by (auto simp: bindE_def split: prod.splits sum.splits)

lemma bindE_Inl:
  "bindE m f s = (Inl e, s'') \<longleftrightarrow>
     m s = (Inl e, s'') \<or> (\<exists>x s'. m s = (Inr x, s') \<and> f x s' = (Inl e, s''))"
  by (auto simp: bindE_def split: prod.splits sum.splits)

lemma map_err_Inr [simp]: "map_err g m s = (Inr x, s') \<longleftrightarrow> m s = (Inr x, s')"
  by (auto simp: map_err_def split: prod.splits sum.splits)

lemma matchE_Inr:
  "matchE m h f s = (Inr y, s'') \<longleftrightarrow>
     (\<exists>e s'. m s = (Inl e, s') \<and> h e s' = (Inr y, s'')) \<or>
     (\<exists>x s'. m s = (Inr x, s') \<and> f x s' = (Inr y, s''))"
  by (auto simp: matchE_def split: prod.splits sum.splits)

lemma on_field_Inr:
  "on_field g p m s = (Inr x, s') \<longleftrightarrow> (\<exists>t. m (g s) = (Inr x, t) \<and> s' = p t s)"
  by (auto simp: on_field_def split: prod.splits)

text \<open>What a program that returned a value has run through.\<close>

lemmas Inr_simps = bindE_Inr matchE_Inr on_field_Inr map_err_Inr ret_apply fail_apply gets_apply
  modify_apply lift_sum_apply

section \<open>Conditions on the runs of a program\<close>

text \<open>
  \<open>wp m Q E s\<close>: run from \<open>s\<close>, the program ends with a value and a state in \<open>Q\<close>, or with an
  error and a state in \<open>E\<close>. The rules below follow the shape of the code, one per
  constructor, so that \<open>intro wp_intros\<close> with the rules of the operations called is most of
  a proof. \<open>wpL\<close> says besides that the program returns.
\<close>

definition wp ::
  "('s, 'e, 'a) prog \<Rightarrow> ('a \<Rightarrow> 's \<Rightarrow> bool) \<Rightarrow> ('e \<Rightarrow> 's \<Rightarrow> bool) \<Rightarrow> 's \<Rightarrow> bool" where
  "wp m Q E s \<longleftrightarrow> (case m s of (Inr x, s') \<Rightarrow> Q x s' | (Inl e, s') \<Rightarrow> E e s')"

definition wpL ::
  "('s, 'e, 'a) loop_prog \<Rightarrow> ('a \<Rightarrow> 's \<Rightarrow> bool) \<Rightarrow> ('e \<Rightarrow> 's \<Rightarrow> bool) \<Rightarrow> 's \<Rightarrow> bool" where
  "wpL l Q E s \<longleftrightarrow>
     (case l s of None \<Rightarrow> False | Some (Inr x, s') \<Rightarrow> Q x s' | Some (Inl e, s') \<Rightarrow> E e s')"

named_theorems wp_intros \<open>conditions on the runs of a program, by its constructors\<close>

lemma wp_cases:
  "wp m Q E s = (case m s of (Inr x, s') \<Rightarrow> Q x s' | (Inl e, s') \<Rightarrow> E e s')"
  by (simp add: wp_def)

lemma wp_Inr: "wp m Q E s \<Longrightarrow> m s = (Inr x, s') \<Longrightarrow> Q x s'"
  by (simp add: wp_def)

lemma wp_Inl: "wp m Q E s \<Longrightarrow> m s = (Inl e, s') \<Longrightarrow> E e s'"
  by (simp add: wp_def)

lemma wpI:
  "(\<And>x s'. m s = (Inr x, s') \<Longrightarrow> Q x s') \<Longrightarrow> (\<And>e s'. m s = (Inl e, s') \<Longrightarrow> E e s') \<Longrightarrow> wp m Q E s"
  by (auto simp: wp_def split: prod.splits sum.splits)

lemma wp_mono:
  "wp m Q E s \<Longrightarrow> (\<And>x s'. Q x s' \<Longrightarrow> Q' x s') \<Longrightarrow> (\<And>e s'. E e s' \<Longrightarrow> E' e s') \<Longrightarrow> wp m Q' E' s"
  by (auto simp: wp_def split: prod.splits sum.splits)

lemma wp_state: "wp m (\<lambda>_. I) (\<lambda>_. I) s \<longleftrightarrow> I (snd (m s))"
  by (auto simp: wp_def split: prod.splits sum.splits)

lemma wp_ret [wp_intros]: "Q x s \<Longrightarrow> wp (ret x) Q E s"
  by (simp add: wp_def ret_def)

lemma wp_fail [wp_intros]: "E e s \<Longrightarrow> wp (fail e) Q E s"
  by (simp add: wp_def fail_def)

lemma wp_gets [wp_intros]: "Q (f s) s \<Longrightarrow> wp (gets f) Q E s"
  by (simp add: wp_def gets_def)

lemma wp_modify [wp_intros]: "Q () (f s) \<Longrightarrow> wp (modify f) Q E s"
  by (simp add: wp_def modify_def)

lemma wp_lift_sum [wp_intros]:
  "(\<And>x. r = Inr x \<Longrightarrow> Q x s) \<Longrightarrow> (\<And>e. r = Inl e \<Longrightarrow> E e s) \<Longrightarrow> wp (lift_sum r) Q E s"
  by (auto simp: wp_def lift_sum_def split: sum.splits)

lemma wp_bindE [wp_intros]: "wp m (\<lambda>x. wp (f x) Q E) E s \<Longrightarrow> wp (bindE m f) Q E s"
  by (auto simp: wp_def bindE_def split: prod.splits sum.splits)

lemma wp_matchE [wp_intros]:
  "wp m (\<lambda>x. wp (f x) Q E) (\<lambda>e. wp (h e) Q E) s \<Longrightarrow> wp (matchE m h f) Q E s"
  by (auto simp: wp_def matchE_def split: prod.splits sum.splits)

lemma wp_map_err [wp_intros]: "wp m Q (\<lambda>e. E (g e)) s \<Longrightarrow> wp (map_err g m) Q E s"
  by (auto simp: wp_def map_err_def split: prod.splits sum.splits)

lemma wp_on_field:
  "wp m (\<lambda>x t. Q x (p t s)) (\<lambda>e t. E e (p t s)) (g s) \<Longrightarrow> wp (on_field g p m) Q E s"
  by (auto simp: wp_def on_field_def split: prod.splits sum.splits)

lemma wp_if [wp_intros]:
  "(b \<Longrightarrow> wp m Q E s) \<Longrightarrow> (\<not> b \<Longrightarrow> wp m' Q E s) \<Longrightarrow> wp (if b then m else m') Q E s"
  by simp

lemma wp_case_option [wp_intros]:
  "(x = None \<Longrightarrow> wp m Q E s) \<Longrightarrow> (\<And>y. x = Some y \<Longrightarrow> wp (f y) Q E s) \<Longrightarrow>
     wp (case x of None \<Rightarrow> m | Some y \<Rightarrow> f y) Q E s"
  by (cases x) auto

lemma wp_case_prod [wp_intros]:
  "(\<And>a b. x = (a, b) \<Longrightarrow> wp (f a b) Q E s) \<Longrightarrow> wp (case x of (a, b) \<Rightarrow> f a b) Q E s"
  by (cases x) auto

lemma wp_case_sum [wp_intros]:
  "(\<And>a. x = Inl a \<Longrightarrow> wp (f a) Q E s) \<Longrightarrow> (\<And>b. x = Inr b \<Longrightarrow> wp (g b) Q E s) \<Longrightarrow>
     wp (case x of Inl a \<Rightarrow> f a | Inr b \<Rightarrow> g b) Q E s"
  by (cases x) auto

text \<open>A loop over a list whose body keeps \<open>I\<close> and relates each result to its element.\<close>

lemma wp_each:
  assumes "\<And>x s. x \<in> set xs \<Longrightarrow> I s \<Longrightarrow> wp (f x) (\<lambda>y s'. I s' \<and> R x y) (\<lambda>e s'. I s') s" and "I s"
  shows "wp (each f xs) (\<lambda>ys s'. I s' \<and> list_all2 R xs ys) (\<lambda>e s'. I s') s"
  using assms
proof (induction xs arbitrary: s)
  case (Cons x xs)
  have "wp (each f xs) (\<lambda>ys s'. I s' \<and> list_all2 R xs ys) (\<lambda>e s'. I s') s'" if "I s'" for s'
    by (rule Cons.IH) (use Cons.prems that in auto)
  then show ?case
    by (auto intro!: wp_intros wp_mono [OF Cons.prems(1)] intro: wp_mono simp: Cons.prems(2))
qed (simp add: wp_def ret_def)

text \<open>A run from the value it returns, for runs that have been evaluated.\<close>

lemma run_of_fst: "fst r = x \<Longrightarrow> r = (x, snd r)"
  by (cases r) simp

lemma run_ok: "\<not> isl (fst r) \<Longrightarrow> r = (Inr (projr (fst r)), snd r)"
  by (cases r) (auto simp: isl_def sum.case_eq_if split: sum.splits)

lemma run_of_map_fst: "map_option fst r = Some x \<Longrightarrow> r = Some (x, snd (the r))"
  by (cases r) auto

lemma loop_cases:
  obtains "x = None" | e s' where "x = Some (Inl e, s')" | y s' where "x = Some (Inr y, s')"
  by (metis obj_sumE option.exhaust surj_pair)

lemma wpL_mono:
  "wpL l Q E s \<Longrightarrow> (\<And>x s'. Q x s' \<Longrightarrow> Q' x s') \<Longrightarrow> (\<And>e s'. E e s' \<Longrightarrow> E' e s') \<Longrightarrow> wpL l Q' E' s"
  by (cases "l s" rule: loop_cases) (auto simp: wpL_def)

lemma wpL_returns [wp_intros]: "wp m Q E s \<Longrightarrow> wpL (returns m) Q E s"
  by (auto simp: wpL_def wp_def returns_def split: prod.splits sum.splits)

lemma wpL_bindL [wp_intros]: "wpL l (\<lambda>x. wpL (f x) Q E) E s \<Longrightarrow> wpL (bindL l f) Q E s"
  by (cases "l s" rule: loop_cases) (auto simp: wpL_def bindL_def)

lemma wpL_map_errL [wp_intros]: "wpL l Q (\<lambda>e. E (g e)) s \<Longrightarrow> wpL (map_errL g l) Q E s"
  by (cases "l s" rule: loop_cases) (auto simp: wpL_def map_errL_def)

lemma wpL_on_fieldL:
  "wpL l (\<lambda>x t. Q x (p t s)) (\<lambda>e t. E e (p t s)) (g s) \<Longrightarrow> wpL (on_fieldL g p l) Q E s"
  by (cases "l (g s)" rule: loop_cases) (auto simp: wpL_def on_fieldL_def)

lemma wpL_if [wp_intros]:
  "(b \<Longrightarrow> wpL m Q E s) \<Longrightarrow> (\<not> b \<Longrightarrow> wpL m' Q E s) \<Longrightarrow> wpL (if b then m else m') Q E s"
  by simp

lemma wpL_case_option [wp_intros]:
  "(x = None \<Longrightarrow> wpL m Q E s) \<Longrightarrow> (\<And>y. x = Some y \<Longrightarrow> wpL (f y) Q E s) \<Longrightarrow>
     wpL (case x of None \<Rightarrow> m | Some y \<Rightarrow> f y) Q E s"
  by (cases x) auto

lemma wpL_Some: "wpL l Q E s \<Longrightarrow> \<exists>r s'. l s = Some (r, s')"
  by (cases "l s" rule: loop_cases) (auto simp: wpL_def)

section \<open>Prefixes of byte strings\<close>

definition starts_with :: "'a list \<Rightarrow> 'a list \<Rightarrow> bool" where
  "starts_with k p \<longleftrightarrow> take (length p) k = p"

lemma starts_with_Nil [simp]: "starts_with k []"
  by (simp add: starts_with_def)

lemma starts_with_Nil_Cons [simp]: "\<not> starts_with [] (x # p)"
  by (simp add: starts_with_def)

lemma starts_with_Cons [simp]: "starts_with (y # k) (x # p) \<longleftrightarrow> x = y \<and> starts_with k p"
  by (auto simp: starts_with_def)

lemma starts_with_refl [simp]: "starts_with k k"
  by (simp add: starts_with_def)

lemma starts_with_append: "starts_with (p @ k) p"
  by (simp add: starts_with_def)

lemma starts_with_take: "starts_with k (take n k)"
  by (metis append_take_drop_id starts_with_append)

lemma starts_with_trans: "starts_with k p \<Longrightarrow> starts_with p q \<Longrightarrow> starts_with k q"
  unfolding starts_with_def by (metis append_eq_conv_conj append_take_drop_id length_take min.absorb_iff2 min.cobounded1 take_take)

definition ends_with :: "'a list \<Rightarrow> 'a list \<Rightarrow> bool" where
  "ends_with k p \<longleftrightarrow> length p \<le> length k \<and> drop (length k - length p) k = p"

definition bytes_of_string :: "string \<Rightarrow> bytes" where
  "bytes_of_string s = map (\<lambda>c. of_nat (of_char c)) s"

fun contains :: "string \<Rightarrow> string \<Rightarrow> bool" where
  "contains [] pat = starts_with [] pat"
| "contains (c # s) pat = (starts_with (c # s) pat \<or> contains s pat)"

text \<open>\<^verbatim>\<open>to_le_bytes\<close>, the \<open>n\<close> lowest bytes, the lowest first.\<close>

definition to_le_bytes :: "nat \<Rightarrow> 'a::len word \<Rightarrow> bytes" where
  "to_le_bytes n w = map (\<lambda>i. ucast (drop_bit (8 * i) w)) [0..<n]"

lemma length_to_le_bytes [simp]: "length (to_le_bytes n w) = n"
  by (simp add: to_le_bytes_def)

definition ascii_lowercase_char :: "char \<Rightarrow> char" where
  "ascii_lowercase_char c =
     (let n = (of_char c :: nat) in if 65 \<le> n \<and> n \<le> 90 then char_of (n + 32) else c)"

definition to_ascii_lowercase :: "string \<Rightarrow> string" where
  "to_ascii_lowercase s = map ascii_lowercase_char s"

text \<open>The decimal digits of a number.\<close>

fun digits :: "nat \<Rightarrow> string" where
  "digits n = (if n < 10 then [char_of (48 + n)] else digits (n div 10) @ [char_of (48 + n mod 10)])"

section \<open>Association lists and hash maps\<close>

text \<open>\<open>HashMap::insert\<close> on a map whose entries are enumerated (\<open>iter\<close>) somewhere.\<close>

fun alist_insert :: "'k \<Rightarrow> 'v \<Rightarrow> ('k \<times> 'v) list \<Rightarrow> ('k \<times> 'v) list" where
  "alist_insert k v [] = [(k, v)]"
| "alist_insert k v (e # m) = (if fst e = k then (k, v) # m else e # alist_insert k v m)"

lemma map_of_alist_insert [simp]: "map_of (alist_insert k v m) = (map_of m)(k \<mapsto> v)"
  by (induction m) auto

lemma keys_alist_insert [simp]: "fst ` set (alist_insert k v m) = insert k (fst ` set m)"
  by (induction m) auto

lemma distinct_alist_insert:
  "distinct (map fst m) \<Longrightarrow> distinct (map fst (alist_insert k v m))"
proof (induction m)
  case (Cons e m)
  have "fst e \<notin> fst ` set (alist_insert k v m)" if "fst e \<noteq> k"
    using Cons.prems that by simp
  with Cons show ?case by (auto simp del: keys_alist_insert)
qed simp

text \<open>Filling a \<open>HashMap\<close> from an iterator of pairs: a later pair replaces an earlier one.\<close>

definition collect_map :: "('k \<times> 'v) list \<Rightarrow> 'k \<rightharpoonup> 'v" where
  "collect_map kvs = foldl (\<lambda>m kv. m(fst kv \<mapsto> snd kv)) Map.empty kvs"

lemma foldl_map_upd: "foldl (\<lambda>m kv. m(fst kv \<mapsto> snd kv)) m kvs = m ++ map_of (rev kvs)"
  by (induction kvs arbitrary: m) (auto simp: map_add_def fun_eq_iff split: option.splits)

lemma collect_map_eq: "collect_map kvs = map_of (rev kvs)"
  by (simp add: collect_map_def foldl_map_upd)

lemma map_of_rev_distinct: "distinct (map fst kvs) \<Longrightarrow> map_of (rev kvs) = map_of kvs"
  by (rule map_of_eqI) (auto simp: rev_map [symmetric] map_of_eq_Some_iff)

lemma collect_map_distinct: "distinct (map fst kvs) \<Longrightarrow> collect_map kvs = map_of kvs"
  by (simp add: collect_map_eq map_of_rev_distinct)

text \<open>\<open>BTreeMap\<close>: the entries in key order.\<close>

fun btree_insert :: "'k :: linorder \<Rightarrow> 'v \<Rightarrow> ('k \<times> 'v) list \<Rightarrow> ('k \<times> 'v) list" where
  "btree_insert k v [] = [(k, v)]"
| "btree_insert k v ((k', v') # m) =
     (if k < k' then (k, v) # (k', v') # m
      else if k = k' then (k, v) # m
      else (k', v') # btree_insert k v m)"

lemma map_of_btree_insert [simp]: "map_of (btree_insert k v m) = (map_of m)(k \<mapsto> v)"
  by (induction m) auto

lemma keys_btree_insert [simp]: "fst ` set (btree_insert k v m) = insert k (fst ` set m)"
proof (induction m)
  case (Cons e m)
  obtain k' v' where e: "e = (k', v')" by (cases e)
  have "fst ` set (btree_insert k v (e # m)) =
      (if k < k' then {k, k'} \<union> fst ` set m else if k = k' then insert k (fst ` set m)
       else insert k' (fst ` set (btree_insert k v m)))"
    unfolding e by (simp add: insert_commute)
  with Cons e show ?case by (simp add: insert_commute split: if_splits)
qed simp

lemma sorted_btree_insert:
  "sorted_wrt (<) (map fst m) \<Longrightarrow> sorted_wrt (<) (map fst (btree_insert k v m))"
proof (induction m)
  case (Cons e m)
  obtain k' v' where e: "e = (k', v')" by (cases e)
  have "\<forall>x \<in> fst ` set (btree_insert k v m). k' < x" if "k' < k"
    using Cons.prems that e by auto
  with Cons e show ?case by (auto simp del: keys_btree_insert)
qed simp

section \<open>Queries on tables\<close>

text \<open>
  A SQL table is the list of its rows. \<open>first\<close> under a filter is \<open>find\<close>, and
  \<open>select distinct .. order by\<close> is \<open>sort\<close> of \<open>remdups\<close>.
\<close>

lemma find_unique:
  assumes "x \<in> set xs" and "P x" and "\<And>y. y \<in> set xs \<Longrightarrow> P y \<Longrightarrow> y = x"
  shows "find P xs = Some x"
  using assms by (metis find_None_iff find_Some_iff nth_mem option.exhaust)

lemma find_None_all: "find P xs = None \<longleftrightarrow> (\<forall>x \<in> set xs. \<not> P x)"
  by (auto simp: find_None_iff)

lemma find_SomeD: "find P xs = Some x \<Longrightarrow> x \<in> set xs \<and> P x"
  by (auto simp: find_Some_iff)

lemma find_cong_pred: "(\<And>x. x \<in> set xs \<Longrightarrow> P x \<longleftrightarrow> Q x) \<Longrightarrow> find P xs = find Q xs"
  by (induction xs) auto

lemma head_filter_find: "(case filter P xs of [] \<Rightarrow> None | k # _ \<Rightarrow> Some k) = List.find P xs"
  by (induction xs) auto

text \<open>\<open>UPDATE\<close> of the rows a filter selects, seen through that filter and through a disjoint one.\<close>

lemma find_update_same:
  "(\<And>x. P x \<Longrightarrow> P (g x)) \<Longrightarrow> find P (map (\<lambda>x. if P x then g x else x) xs) = map_option g (find P xs)"
  by (induction xs) auto

lemma find_update_other:
  "(\<And>x. P x \<Longrightarrow> \<not> Q x \<and> \<not> Q (g x)) \<Longrightarrow> find Q (map (\<lambda>x. if P x then g x else x) xs) = find Q xs"
  by (induction xs) auto

lemma find_append_row:
  "find P (xs @ [x]) = (case find P xs of None \<Rightarrow> if P x then Some x else None | Some y \<Rightarrow> Some y)"
  by (induction xs) auto

lemma find_append_other: "\<not> P x \<Longrightarrow> find P (xs @ [x]) = find P xs"
  by (induction xs) auto

lemma not_list_ex_find: "\<not> list_ex P xs \<longleftrightarrow> find P xs = None"
  by (auto simp: list_ex_iff find_None_iff)

lemma find_map_upsert:
  "map_option f (find P (if list_ex P xs then map (\<lambda>x. if P x then g x else x) xs else xs @ [x0])) =
     Some v"
  if "\<And>x. P x \<Longrightarrow> P (g x) \<and> f (g x) = v" and "P x0" and "f x0 = v"
proof (cases "list_ex P xs")
  case True
  then obtain y where "find P xs = Some y" using not_list_ex_find by fastforce
  with True that find_SomeD [of P xs y] show ?thesis by (simp add: find_update_same)
next
  case False
  then have "find P xs = None" by (simp add: not_list_ex_find)
  with False that show ?thesis by (simp add: find_append_row)
qed

lemma find_other_upsert:
  "find Q (if list_ex P xs then map (\<lambda>x. if P x then g x else x) xs else xs @ [x0]) = find Q xs"
  if "\<And>x. P x \<Longrightarrow> \<not> Q x \<and> \<not> Q (g x)" and "\<not> Q x0"
  using that by (auto simp: find_update_other find_append_row split: option.splits)

section \<open>The interface of a source of state\<close>

text \<open>
  A layer that answers reads, possibly through caches, networks and failures, and keeps its
  own invariant whatever happens. Its clients rely on one law: a read that succeeds
  returns the value the layer stands for.
\<close>

locale state_source =
  fixes read :: "'k \<Rightarrow> ('s, 'e, 'v) prog"
    and inv :: "'s \<Rightarrow> bool"
    and val :: "'k \<Rightarrow> 'v"
  assumes read_wp: "inv s \<Longrightarrow> wp (read k) (\<lambda>v s'. inv s' \<and> v = val k) (\<lambda>e s'. inv s') s"
begin

lemma read_sound: "inv s \<Longrightarrow> read k s = (Inr v, s') \<Longrightarrow> v = val k \<and> inv s'"
  using wp_Inr [OF read_wp] by blast

lemma read_keeps: "inv s \<Longrightarrow> read k s = (r, s') \<Longrightarrow> inv s'"
  using wp_Inr [OF read_wp] wp_Inl [OF read_wp] by (cases r) blast+

lemma wp_read_all:
  "inv s \<Longrightarrow> wp (each read ks) (\<lambda>vs s'. inv s' \<and> vs = map val ks) (\<lambda>e s'. inv s') s"
  by (rule wp_mono [OF wp_each [where R = "\<lambda>k v. v = val k" and I = inv]])
    (auto intro: read_wp simp: list_all2_conv_all_nth intro!: nth_equalityI)

text \<open>Two reads of a key agree, whatever is read or fails in between.\<close>

lemma read_stable:
  assumes "inv s" and "read k s = (Inr v, s1)" and "each read ks s1 = (r, s2)"
    and "read k s2 = (Inr v', s3)"
  shows "v' = v"
proof -
  have "inv s1" using read_sound [OF assms(1,2)] by simp
  then have "inv s2"
    using wp_Inr [OF wp_read_all] wp_Inl [OF wp_read_all] assms(3) by (cases r) blast+
  then show ?thesis using read_sound [OF assms(1,2)] read_sound [OF _ assms(4)] by simp
qed

end

section \<open>The interface of a table with an upsert\<close>

text \<open>
  Several parts of the code keep a table they write by key, last write wins, and read by
  key: the cached storage rows, the cached blocks, the prefix scans, the local
  modifications. What their clients rely on is one law.
\<close>

locale upsert_table =
  fixes look :: "'s \<Rightarrow> 'k \<Rightarrow> 'v option"
    and put :: "'k \<Rightarrow> 'v \<Rightarrow> 's \<Rightarrow> 's"
  assumes look_put: "look (put k v s) k' = (if k' = k then Some v else look s k')"
begin

lemma look_put_same: "look (put k v s) k = Some v"
  by (simp add: look_put)

lemma look_put_other: "k' \<noteq> k \<Longrightarrow> look (put k v s) k' = look s k'"
  by (simp add: look_put)

lemma put_overwrites: "look (put k w (put k v s)) = look (put k w s)"
  by (simp add: look_put fun_eq_iff)

lemma puts_commute: "k \<noteq> k' \<Longrightarrow> look (put k v (put k' v' s)) = look (put k' v' (put k v s))"
  by (simp add: look_put fun_eq_iff)

lemma look_puts:
  "look (foldl (\<lambda>s (k, v). put k v s) s kvs) k =
     (case map_of (rev kvs) k of Some v \<Rightarrow> Some v | None \<Rightarrow> look s k)"
  by (induction kvs arbitrary: s) (auto simp: look_put map_add_def split: option.splits)

lemma look_puts_distinct:
  "distinct (map fst kvs) \<Longrightarrow>
     look (foldl (\<lambda>s (k, v). put k v s) s kvs) k =
     (case map_of kvs k of Some v \<Rightarrow> Some v | None \<Rightarrow> look s k)"
  by (simp add: look_puts map_of_rev_distinct)

lemma look_puts_notin:
  "k \<notin> fst ` set kvs \<Longrightarrow> look (foldl (\<lambda>s (k, v). put k v s) s kvs) k = look s k"
  by (metis look_puts map_of_eq_None_iff option.simps(4) set_rev)

end

interpretation alist: upsert_table map_of alist_insert
  by unfold_locales simp

end
