(* ===== verification/Storage_Cache.thy ===== *)
theory Storage_Cache
  imports Prelude
begin

text \<open>
  The SQLite storage cache, \<^verbatim>\<open>crates/pop-fork/src/cache.rs\<close>: the five tables of
  \<^verbatim>\<open>migrations/init\<close> as lists of rows, every query and every write of
  \<^verbatim>\<open>StorageCache\<close> as a program on them, and the retry loop around the writes.
  SQLite itself is not modelled beyond the meaning of the statements; what it does to an
  attempt (run it, refuse a connection, fail with a message) is a script the state holds,
  so that every theorem speaks about every sequence of failures.
\<close>

section \<open>Tables\<close>

text \<open>Rows of \<^verbatim>\<open>storage\<close>, \<^verbatim>\<open>blocks\<close>, \<^verbatim>\<open>local_keys\<close>,
  \<^verbatim>\<open>local_values\<close> and \<^verbatim>\<open>prefix_scans\<close>. \<^verbatim>\<open>BigInt\<close> and
  \<^verbatim>\<open>Integer\<close> columns are integers.\<close>

record storage_row =
  sr_block_hash :: bytes
  sr_key :: bytes
  sr_value :: "bytes option"
  sr_is_empty :: bool

record block_row =
  br_hash :: bytes
  br_number :: int
  br_parent_hash :: bytes
  br_header :: bytes

record local_key_row =
  lk_id :: int
  lk_key :: bytes

record local_value_row =
  lv_id :: int
  lv_key_id :: int
  lv_value :: "bytes option"
  lv_valid_from :: int
  lv_valid_until :: "int option"

record prefix_scan_row =
  ps_block_hash :: bytes
  ps_prefix :: bytes
  ps_last_scanned_key :: "bytes option"
  ps_is_complete :: bool

text \<open>The last two fields are the \<^verbatim>\<open>AUTOINCREMENT\<close> counters of the two local tables.\<close>

record db =
  storage_rows :: "storage_row list"
  block_rows :: "block_row list"
  local_key_rows :: "local_key_row list"
  local_value_rows :: "local_value_row list"
  prefix_scan_rows :: "prefix_scan_row list"
  local_key_seq :: int
  local_value_seq :: int

definition empty_db :: db where
  "empty_db = \<lparr>storage_rows = [], block_rows = [], local_key_rows = [], local_value_rows = [],
     prefix_scan_rows = [], local_key_seq = 0, local_value_seq = 0\<rparr>"

section \<open>Errors, connections and retries\<close>

datatype diesel_error =
    DatabaseError string
  | NotFound
  | OtherDieselError string

datatype cache_error =
    Database diesel_error
  | Connection string
  | DataCorruption string
  | DuplicatedKeys

text \<open>
  What the environment does to the next attempt to take a connection and run a statement
  or a transaction on it; an exhausted script means that everything works.
\<close>

datatype attempt =
    Runs
  | NoConnection string
  | Refused string
  | Breaks string

record cache =
  cache_db :: db
  cache_script :: "attempt list"
  cache_slept_ms :: nat

text \<open>\<^verbatim>\<open>StorageCache::in_memory\<close>: a fresh database after the migrations.\<close>

definition in_memory :: "attempt list \<Rightarrow> cache" where
  "in_memory script = \<lparr>cache_db = empty_db, cache_script = script, cache_slept_ms = 0\<rparr>"

definition next_attempt :: "cache \<Rightarrow> attempt \<times> cache" where
  "next_attempt c = (case cache_script c of [] \<Rightarrow> (Runs, c) | a # as \<Rightarrow> (a, c\<lparr>cache_script := as\<rparr>))"

definition MAX_LOCK_RETRIES :: nat where
  "MAX_LOCK_RETRIES = 30"

definition is_locked_error :: "diesel_error \<Rightarrow> bool" where
  "is_locked_error e = (case e of
     DatabaseError message \<Rightarrow>
       (let msg = to_ascii_lowercase message
        in contains msg ''database is locked'' \<or> contains msg ''busy'')
   | _ \<Rightarrow> False)"

text \<open>\<open>saturating_mul\<close> on \<open>u64\<close> of the delay; the counter never gets near the bound.\<close>

definition retry_conn :: "nat \<Rightarrow> cache \<Rightarrow> nat \<times> cache" where
  "retry_conn attempts c =
     (let attempts' = attempts + 1
      in (attempts', c\<lparr>cache_slept_ms := cache_slept_ms c + min (10 * attempts') (2 ^ 64 - 1)\<rparr>))"

text \<open>The delays that occur need no saturation, which evaluation relies on.\<close>

lemma retry_conn_code [code]:
  "retry_conn attempts c =
     (let attempts' = attempts + 1
      in (attempts', c\<lparr>cache_slept_ms := cache_slept_ms c +
           (if attempts' \<le> 100 then 10 * attempts' else min (10 * attempts') (2 ^ 64 - 1))\<rparr>))"
  by (simp add: retry_conn_def Let_def)

text \<open>A read: one connection, one statement, no retry.\<close>

definition query :: "(db \<Rightarrow> 'a) \<Rightarrow> (cache, cache_error, 'a) prog" where
  "query q = (\<lambda>c. case next_attempt c of
     (Runs, c') \<Rightarrow> (Inr (q (cache_db c')), c')
   | (NoConnection m, c') \<Rightarrow> (Inl (Connection m), c')
   | (Refused m, c') \<Rightarrow> (Inl (Database (DatabaseError m)), c')
   | (Breaks m, c') \<Rightarrow> (Inl (Database (OtherDieselError m)), c'))"

text \<open>
  A write: the \<open>loop\<close> with \<open>attempts\<close> that every writing method of the file has. The
  body is a statement or a transaction: it commits all of its effect or none of it.
\<close>

function retry_write ::
  "nat \<Rightarrow> (db \<Rightarrow> diesel_error + 'a \<times> db) \<Rightarrow> (cache, cache_error, 'a) prog" where
  "retry_write attempts body c =
     (let (a, c') = next_attempt c;
          handle = (\<lambda>e. if is_locked_error e \<and> attempts < MAX_LOCK_RETRIES
                         then (let (attempts', c'') = retry_conn attempts c'
                               in retry_write attempts' body c'')
                         else (Inl (Database e), c'))
      in case a of
           Runs \<Rightarrow> (case body (cache_db c') of
               Inr (x, d) \<Rightarrow> (Inr x, c'\<lparr>cache_db := d\<rparr>)
             | Inl e \<Rightarrow> handle e)
         | NoConnection m \<Rightarrow> (Inl (Connection m), c')
         | Refused m \<Rightarrow> handle (DatabaseError m)
         | Breaks m \<Rightarrow> handle (OtherDieselError m))"
  by pat_completeness auto
termination
  by (relation "measure (\<lambda>(attempts, _, _). MAX_LOCK_RETRIES - attempts)")
    (auto simp: retry_conn_def Let_def)

declare retry_write.simps [simp del]

text \<open>The common case of a statement that itself cannot fail.\<close>

definition write_stmt :: "(db \<Rightarrow> db) \<Rightarrow> (cache, cache_error, unit) prog" where
  "write_stmt f = retry_write 0 (\<lambda>d. Inr ((), f d))"

definition statement :: "(db \<Rightarrow> db) \<Rightarrow> db \<Rightarrow> diesel_error + unit \<times> db" where
  "statement f d = Inr ((), f d)"

lemma write_stmt_code [code]: "write_stmt f = retry_write 0 (statement f)"
proof -
  have "statement f = (\<lambda>d. Inr ((), f d))" by (rule ext) (simp add: statement_def)
  then show ?thesis by (simp add: write_stmt_def)
qed

section \<open>The \<open>storage\<close> table: cached remote values\<close>

definition is_storage_key :: "h256 \<Rightarrow> bytes \<Rightarrow> storage_row \<Rightarrow> bool" where
  "is_storage_key block_hash key r \<longleftrightarrow> sr_block_hash r = as_bytes block_hash \<and> sr_key r = key"

text \<open>What a stored row says: \<open>if empty { None } else { val }\<close>.\<close>

definition row_value :: "storage_row \<Rightarrow> bytes option" where
  "row_value r = (if sr_is_empty r then None else sr_value r)"

definition get_storage :: "h256 \<Rightarrow> bytes \<Rightarrow> (cache, cache_error, bytes option option) prog" where
  "get_storage block_hash key =
     query (\<lambda>d. map_option row_value (find (is_storage_key block_hash key) (storage_rows d)))"

text \<open>\<open>INSERT .. ON CONFLICT (block_hash, key) DO UPDATE SET value, is_empty\<close>.\<close>

definition upsert_storage :: "h256 \<Rightarrow> bytes \<Rightarrow> bytes option \<Rightarrow> db \<Rightarrow> db" where
  "upsert_storage block_hash key value d =
     (if list_ex (is_storage_key block_hash key) (storage_rows d)
      then d\<lparr>storage_rows := map (\<lambda>r. if is_storage_key block_hash key r
                 then r\<lparr>sr_value := value, sr_is_empty := (value = None)\<rparr> else r) (storage_rows d)\<rparr>
      else d\<lparr>storage_rows := storage_rows d @
                 [\<lparr>sr_block_hash = as_bytes block_hash, sr_key = key, sr_value = value,
                   sr_is_empty = (value = None)\<rparr>]\<rparr>)"

definition set_storage ::
  "h256 \<Rightarrow> bytes \<Rightarrow> bytes option \<Rightarrow> (cache, cache_error, unit) prog" where
  "set_storage block_hash key value = write_stmt (upsert_storage block_hash key value)"

text \<open>\<open>cache_map.remove\<close> for each key in turn.\<close>

fun remove_each :: "('k \<rightharpoonup> 'v) \<Rightarrow> 'k list \<Rightarrow> 'v option list" where
  "remove_each m [] = []"
| "remove_each m (k # ks) = m k # remove_each (m(k := None)) ks"

definition get_storage_batch ::
  "h256 \<Rightarrow> bytes list \<Rightarrow> (cache, cache_error, bytes option option list) prog" where
  "get_storage_batch block_hash keys =
     (if keys = [] then ret []
      else if \<not> distinct keys then fail DuplicatedKeys
      else query (\<lambda>d.
        let rows = filter (\<lambda>r. sr_block_hash r = as_bytes block_hash \<and> sr_key r \<in> set keys)
                     (storage_rows d);
            cache_map = collect_map (map (\<lambda>r. (sr_key r, row_value r)) rows)
        in remove_each cache_map keys))"

definition set_storage_batch ::
  "h256 \<Rightarrow> (bytes \<times> bytes option) list \<Rightarrow> (cache, cache_error, unit) prog" where
  "set_storage_batch block_hash entries =
     (if entries = [] then ret ()
      else if \<not> distinct (map fst entries) then fail DuplicatedKeys
      else write_stmt (\<lambda>d. foldl (\<lambda>d (key, value). upsert_storage block_hash key value d) d entries))"

text \<open>The same writes as a function of the tables, so that evaluation waits for the tables.\<close>

definition upsert_each :: "h256 \<Rightarrow> (bytes \<times> bytes option) list \<Rightarrow> db \<Rightarrow> db" where
  "upsert_each block_hash entries d =
     foldl (\<lambda>d (key, value). upsert_storage block_hash key value d) d entries"

lemma set_storage_batch_code [code]:
  "set_storage_batch block_hash entries =
     (if entries = [] then ret ()
      else if \<not> distinct (map fst entries) then fail DuplicatedKeys
      else write_stmt (upsert_each block_hash entries))"
proof -
  have "upsert_each block_hash entries =
      (\<lambda>d. foldl (\<lambda>d (key, value). upsert_storage block_hash key value d) d entries)"
    by (rule ext) (simp add: upsert_each_def)
  then show ?thesis by (simp add: set_storage_batch_def)
qed

section \<open>The local tables: values written by the fork, with validity intervals\<close>

definition get_local_key :: "bytes \<Rightarrow> (cache, cache_error, local_key_row option) prog" where
  "get_local_key key = query (\<lambda>d. find (\<lambda>r. lk_key r = key) (local_key_rows d))"

text \<open>\<open>INSERT INTO local_keys .. ON CONFLICT (key) DO NOTHING\<close>.\<close>

definition upsert_local_key :: "bytes \<Rightarrow> db \<Rightarrow> db" where
  "upsert_local_key key d =
     (if list_ex (\<lambda>r. lk_key r = key) (local_key_rows d) then d
      else d\<lparr>local_key_rows := local_key_rows d @ [\<lparr>lk_id = local_key_seq d + 1, lk_key = key\<rparr>],
             local_key_seq := local_key_seq d + 1\<rparr>)"

definition local_key_id :: "bytes \<Rightarrow> db \<Rightarrow> int option" where
  "local_key_id key d = map_option lk_id (find (\<lambda>r. lk_key r = key) (local_key_rows d))"

text \<open>The \<open>select\<close> after the insert is a read of its own, outside the retry loop.\<close>

definition insert_local_key :: "bytes \<Rightarrow> (cache, cache_error, int) prog" where
  "insert_local_key key =
     bindE (write_stmt (upsert_local_key key)) (\<lambda>_.
     bindE (query (local_key_id key)) (\<lambda>found.
     case found of Some key_id \<Rightarrow> ret key_id | None \<Rightarrow> fail (Database NotFound)))"

text \<open>\<open>valid_from <= block AND (valid_until IS NULL OR valid_until > block)\<close>.\<close>

definition valid_at :: "int \<Rightarrow> local_value_row \<Rightarrow> bool" where
  "valid_at block_num r \<longleftrightarrow> lv_valid_from r \<le> block_num \<and>
     (case lv_valid_until r of None \<Rightarrow> True | Some u \<Rightarrow> u > block_num)"

definition local_value_at :: "bytes \<Rightarrow> int \<Rightarrow> db \<Rightarrow> bytes option option" where
  "local_value_at key block_num d =
     (case local_key_id key d of
        None \<Rightarrow> None
      | Some key_id \<Rightarrow> map_option lv_value
          (find (\<lambda>r. lv_key_id r = key_id \<and> valid_at block_num r) (local_value_rows d)))"

text \<open>
  \<open>get_local_value_at_block\<close> runs its two statements on one connection; the second is
  reached only when the key is known.
\<close>

definition get_local_value_at_block ::
  "bytes \<Rightarrow> u32 \<Rightarrow> (cache, cache_error, bytes option option) prog" where
  "get_local_value_at_block key block_number =
     bindE (query (local_key_id key)) (\<lambda>found.
     case found of
       None \<Rightarrow> ret None
     | Some key_id \<Rightarrow> query (\<lambda>d. map_option lv_value
         (find (\<lambda>r. lv_key_id r = key_id \<and> valid_at (uint block_number) r) (local_value_rows d))))"

fun remove_each_via :: "('k \<rightharpoonup> 'i) \<Rightarrow> ('i \<rightharpoonup> 'v) \<Rightarrow> 'k list \<Rightarrow> 'v option list" where
  "remove_each_via ids m [] = []"
| "remove_each_via ids m (k # ks) =
     (case ids k of
        None \<Rightarrow> None # remove_each_via ids m ks
      | Some i \<Rightarrow> m i # remove_each_via ids (m(i := None)) ks)"

definition get_local_values_at_block_batch ::
  "bytes list \<Rightarrow> u32 \<Rightarrow> (cache, cache_error, bytes option option list) prog" where
  "get_local_values_at_block_batch keys block_number =
     (if keys = [] then ret []
      else if \<not> distinct keys then fail DuplicatedKeys
      else
        bindE (query (\<lambda>d. filter (\<lambda>r. lk_key r \<in> set keys) (local_key_rows d))) (\<lambda>key_rows.
        let key_to_id = collect_map (map (\<lambda>r. (lk_key r, lk_id r)) key_rows)
        in if key_rows = [] then ret (replicate (length keys) None)
           else
             bindE (query (\<lambda>d. filter (\<lambda>r. list_ex (\<lambda>k. key_to_id k = Some (lv_key_id r)) keys \<and>
                                        valid_at (uint block_number) r) (local_value_rows d)))
               (\<lambda>value_rows.
             let id_to_value = collect_map (map (\<lambda>r. (lv_key_id r, lv_value r)) value_rows)
             in ret (remove_each_via key_to_id id_to_value keys))))"

text \<open>The exclusive upper bound of a prefix range, popping trailing \<open>0xFF\<close> bytes.\<close>

fun increment_last :: "bytes \<Rightarrow> bytes option" where
  "increment_last [] = None"
| "increment_last (b # front) =
     (if b < 0xFF then Some (rev ((b + 1) # front)) else increment_last front)"

definition prefix_upper_bound :: "bytes \<Rightarrow> bytes option" where
  "prefix_upper_bound pre = increment_last (rev pre)"

text \<open>The same bound as the free function computes it, by index from the right.\<close>

fun increment_from :: "nat \<Rightarrow> bytes \<Rightarrow> bytes option" where
  "increment_from 0 result = None"
| "increment_from (Suc i) result =
     (if result ! i < 0xFF then Some (take (Suc i) (result[i := result ! i + 1]))
      else increment_from i result)"

definition increment_prefix :: "bytes \<Rightarrow> bytes option" where
  "increment_prefix pre = increment_from (length pre) pre"

definition in_range :: "bytes \<Rightarrow> bytes option \<Rightarrow> bytes \<Rightarrow> bool" where
  "in_range lower upper k \<longleftrightarrow> lower \<le> k \<and> (case upper of None \<Rightarrow> True | Some u \<Rightarrow> k < u)"

text \<open>
  The join of \<^verbatim>\<open>local_keys\<close> with \<^verbatim>\<open>local_values\<close> both key queries run; they
  differ in whether the value is or is not \<open>NULL\<close>.
\<close>

definition local_keys_where :: "(bytes option \<Rightarrow> bool) \<Rightarrow> bytes \<Rightarrow> int \<Rightarrow> db \<Rightarrow> bytes list" where
  "local_keys_where wanted pre block_num d =
     sort (remdups (map (\<lambda>(k, v). lk_key k)
       (filter (\<lambda>(k, v). lv_key_id v = lk_id k \<and> in_range pre (prefix_upper_bound pre) (lk_key k) \<and>
                          valid_at block_num v \<and> wanted (lv_value v))
         (List.product (local_key_rows d) (local_value_rows d)))))"

definition get_local_keys_at_block :: "bytes \<Rightarrow> u32 \<Rightarrow> (cache, cache_error, bytes list) prog" where
  "get_local_keys_at_block pre block_number =
     query (local_keys_where (\<lambda>v. v \<noteq> None) pre (uint block_number))"

definition get_local_deleted_keys_at_block ::
  "bytes \<Rightarrow> u32 \<Rightarrow> (cache, cache_error, bytes list) prog" where
  "get_local_deleted_keys_at_block pre block_number =
     query (local_keys_where (\<lambda>v. v = None) pre (uint block_number))"

definition add_local_value :: "int \<Rightarrow> bytes option \<Rightarrow> int \<Rightarrow> db \<Rightarrow> db" where
  "add_local_value key_id value valid_from d =
     d\<lparr>local_value_rows := local_value_rows d @
         [\<lparr>lv_id = local_value_seq d + 1, lv_key_id = key_id, lv_value = value,
           lv_valid_from = valid_from, lv_valid_until = None\<rparr>],
       local_value_seq := local_value_seq d + 1\<rparr>"

definition insert_local_value :: "int \<Rightarrow> bytes option \<Rightarrow> u32 \<Rightarrow> (cache, cache_error, unit) prog" where
  "insert_local_value key_id value valid_from =
     write_stmt (add_local_value key_id value (uint valid_from))"

definition close_row :: "int \<Rightarrow> int \<Rightarrow> local_value_row \<Rightarrow> local_value_row" where
  "close_row key_id valid_until r =
     (if lv_key_id r = key_id \<and> lv_valid_until r = None
      then r\<lparr>lv_valid_until := Some valid_until\<rparr> else r)"

definition close_open_values :: "int \<Rightarrow> int \<Rightarrow> db \<Rightarrow> db" where
  "close_open_values key_id valid_until d =
     d\<lparr>local_value_rows := map (close_row key_id valid_until) (local_value_rows d)\<rparr>"

definition close_local_value :: "int \<Rightarrow> u32 \<Rightarrow> (cache, cache_error, unit) prog" where
  "close_local_value key_id valid_until = write_stmt (close_open_values key_id (uint valid_until))"

text \<open>One entry of the commit transaction: upsert the key, close its open value, add the new one.\<close>

definition commit_entry :: "int \<Rightarrow> bytes \<times> bytes option \<Rightarrow> db \<Rightarrow> diesel_error + db" where
  "commit_entry block_num entry d =
     (let (key, value) = entry;
          d1 = upsert_local_key key d
      in case local_key_id key d1 of
           None \<Rightarrow> Inl NotFound
         | Some key_id \<Rightarrow>
             Inr (add_local_value key_id value block_num (close_open_values key_id block_num d1)))"

fun commit_entries :: "int \<Rightarrow> (bytes \<times> bytes option) list \<Rightarrow> db \<Rightarrow> diesel_error + db" where
  "commit_entries block_num [] d = Inr d"
| "commit_entries block_num (e # es) d =
     (case commit_entry block_num e d of Inl err \<Rightarrow> Inl err | Inr d' \<Rightarrow> commit_entries block_num es d')"

definition commit_local_changes ::
  "(bytes \<times> bytes option) list \<Rightarrow> u32 \<Rightarrow> (cache, cache_error, unit) prog" where
  "commit_local_changes entries block_number =
     (if entries = [] then ret ()
      else retry_write 0 (\<lambda>d. case commit_entries (uint block_number) entries d of
             Inl e \<Rightarrow> Inl e | Inr d' \<Rightarrow> Inr ((), d')))"

definition clear_local_storage :: "(cache, cache_error, unit) prog" where
  "clear_local_storage = write_stmt (\<lambda>d. d\<lparr>local_value_rows := [], local_key_rows := []\<rparr>)"

section \<open>The \<open>blocks\<close> and \<open>prefix_scans\<close> tables\<close>

definition block_row_of :: "h256 \<Rightarrow> u32 \<Rightarrow> h256 \<Rightarrow> bytes \<Rightarrow> block_row" where
  "block_row_of hash number parent_hash header =
     \<lparr>br_hash = as_bytes hash, br_number = uint number, br_parent_hash = as_bytes parent_hash,
      br_header = header\<rparr>"

definition upsert_block :: "h256 \<Rightarrow> u32 \<Rightarrow> h256 \<Rightarrow> bytes \<Rightarrow> db \<Rightarrow> db" where
  "upsert_block hash number parent_hash header d =
     (let row = block_row_of hash number parent_hash header
      in if list_ex (\<lambda>r. br_hash r = as_bytes hash) (block_rows d)
         then d\<lparr>block_rows := map (\<lambda>r. if br_hash r = as_bytes hash then row else r) (block_rows d)\<rparr>
         else d\<lparr>block_rows := block_rows d @ [row]\<rparr>)"

definition cache_block :: "h256 \<Rightarrow> u32 \<Rightarrow> h256 \<Rightarrow> bytes \<Rightarrow> (cache, cache_error, unit) prog" where
  "cache_block hash number parent_hash header =
     write_stmt (upsert_block hash number parent_hash header)"

text \<open>The sanity check on the stored number that both block queries end with.\<close>

definition checked_block_row :: "block_row option \<Rightarrow> (cache, cache_error, block_row option) prog" where
  "checked_block_row row = (case row of
     Some r \<Rightarrow> (if br_number r < 0 \<or> br_number r > 2 ^ 32 - 1
                 then fail (DataCorruption ''block number out of u32 range'')
                 else ret (Some r))
   | None \<Rightarrow> ret None)"

definition get_block :: "h256 \<Rightarrow> (cache, cache_error, block_row option) prog" where
  "get_block hash =
     bindE (query (\<lambda>d. find (\<lambda>r. br_hash r = as_bytes hash) (block_rows d))) checked_block_row"

definition get_block_by_number :: "u32 \<Rightarrow> (cache, cache_error, block_row option) prog" where
  "get_block_by_number block_number =
     bindE (query (\<lambda>d. find (\<lambda>r. br_number r = uint block_number) (block_rows d))) checked_block_row"

definition delete_block :: "h256 \<Rightarrow> db \<Rightarrow> db" where
  "delete_block hash d =
     d\<lparr>storage_rows := filter (\<lambda>r. sr_block_hash r \<noteq> as_bytes hash) (storage_rows d),
       block_rows := filter (\<lambda>r. br_hash r \<noteq> as_bytes hash) (block_rows d),
       prefix_scan_rows := filter (\<lambda>r. ps_block_hash r \<noteq> as_bytes hash) (prefix_scan_rows d)\<rparr>"

definition clear_block :: "h256 \<Rightarrow> (cache, cache_error, unit) prog" where
  "clear_block hash = write_stmt (delete_block hash)"

record prefix_scan_progress =
  last_scanned_key :: "bytes option"
  is_complete :: bool

definition is_scan_of :: "h256 \<Rightarrow> bytes \<Rightarrow> prefix_scan_row \<Rightarrow> bool" where
  "is_scan_of block_hash pre r \<longleftrightarrow> ps_block_hash r = as_bytes block_hash \<and> ps_prefix r = pre"

definition scan_progress :: "h256 \<Rightarrow> bytes \<Rightarrow> db \<Rightarrow> prefix_scan_progress option" where
  "scan_progress block_hash pre d =
     map_option (\<lambda>r. \<lparr>last_scanned_key = ps_last_scanned_key r, is_complete = ps_is_complete r\<rparr>)
       (find (is_scan_of block_hash pre) (prefix_scan_rows d))"

definition get_prefix_scan_progress ::
  "h256 \<Rightarrow> bytes \<Rightarrow> (cache, cache_error, prefix_scan_progress option) prog" where
  "get_prefix_scan_progress block_hash pre = query (scan_progress block_hash pre)"

definition upsert_scan :: "h256 \<Rightarrow> bytes \<Rightarrow> bytes \<Rightarrow> bool \<Rightarrow> db \<Rightarrow> db" where
  "upsert_scan block_hash pre last_key complete d =
     (if list_ex (is_scan_of block_hash pre) (prefix_scan_rows d)
      then d\<lparr>prefix_scan_rows := map (\<lambda>r. if is_scan_of block_hash pre r
                 then r\<lparr>ps_last_scanned_key := Some last_key, ps_is_complete := complete\<rparr> else r)
               (prefix_scan_rows d)\<rparr>
      else d\<lparr>prefix_scan_rows := prefix_scan_rows d @
                 [\<lparr>ps_block_hash = as_bytes block_hash, ps_prefix = pre,
                   ps_last_scanned_key = Some last_key, ps_is_complete = complete\<rparr>]\<rparr>)"

definition update_prefix_scan ::
  "h256 \<Rightarrow> bytes \<Rightarrow> bytes \<Rightarrow> bool \<Rightarrow> (cache, cache_error, unit) prog" where
  "update_prefix_scan block_hash pre last_key complete =
     write_stmt (upsert_scan block_hash pre last_key complete)"

text \<open>The rows of a block whose key lies in the prefix range, whatever their value.\<close>

definition rows_in_prefix :: "h256 \<Rightarrow> bytes \<Rightarrow> db \<Rightarrow> storage_row list" where
  "rows_in_prefix block_hash pre d =
     filter (\<lambda>r. sr_block_hash r = as_bytes block_hash \<and> in_range pre (increment_prefix pre) (sr_key r))
       (storage_rows d)"

definition get_keys_by_prefix :: "h256 \<Rightarrow> bytes \<Rightarrow> (cache, cache_error, bytes list) prog" where
  "get_keys_by_prefix block_hash pre = query (\<lambda>d. map sr_key (rows_in_prefix block_hash pre d))"

definition least_key :: "bytes list \<Rightarrow> bytes option" where
  "least_key ks = (case sort ks of [] \<Rightarrow> None | k # _ \<Rightarrow> Some k)"

definition next_cached_key :: "h256 \<Rightarrow> bytes \<Rightarrow> bytes \<Rightarrow> db \<Rightarrow> bytes option" where
  "next_cached_key block_hash pre key d =
     least_key (map sr_key (filter (\<lambda>r. sr_key r > key \<and> \<not> sr_is_empty r)
       (rows_in_prefix block_hash pre d)))"

definition next_key_from_cache ::
  "h256 \<Rightarrow> bytes \<Rightarrow> bytes \<Rightarrow> (cache, cache_error, bytes option) prog" where
  "next_key_from_cache block_hash pre key = query (next_cached_key block_hash pre key)"

definition count_keys_by_prefix :: "h256 \<Rightarrow> bytes \<Rightarrow> (cache, cache_error, nat) prog" where
  "count_keys_by_prefix block_hash pre = query (\<lambda>d. length (rows_in_prefix block_hash pre d))"

end
