(* ===== verification/Cache_Laws.thy ===== *)
theory Cache_Laws
  imports Storage_Cache
begin

text \<open>
  Laws of the storage cache: prefix ranges select exactly the keys with the prefix, a
  write commits all of its effect or none whatever the database does, the upserts are
  map updates, and the validity intervals of the local tables form a timeline that a
  commit extends at its block only.
\<close>

section \<open>Prefix ranges\<close>

lemma byte_le_max: "(b :: u8) \<le> 0xFF"
proof -
  have "unat b < 2 ^ LENGTH(8)" by (rule unsigned_less)
  then show ?thesis by (simp add: word_le_nat_alt)
qed

lemma max_byte: "(b :: u8) < 0xFF \<longleftrightarrow> b \<noteq> 0xFF"
  using byte_le_max [of b] by (auto simp: order_less_le)

lemma byte_less_plus_one: "(b :: u8) < 0xFF \<Longrightarrow> c < b + 1 \<longleftrightarrow> c \<le> b"
  by (simp add: word_less_nat_alt word_le_nat_alt unat_word_ariths less_Suc_eq_le)

lemma increment_last_snoc:
  "increment_last (r @ [b]) = (case increment_last r of
     Some u \<Rightarrow> Some (b # u)
   | None \<Rightarrow> if b < 0xFF then Some [b + 1] else None)"
  by (induction r) auto

lemma prefix_upper_bound_Nil [simp]: "prefix_upper_bound [] = None"
  by (simp add: prefix_upper_bound_def)

lemma prefix_upper_bound_Cons:
  "prefix_upper_bound (b # p) = (case prefix_upper_bound p of
     Some u \<Rightarrow> Some (b # u)
   | None \<Rightarrow> if b < 0xFF then Some [b + 1] else None)"
  by (simp add: prefix_upper_bound_def increment_last_snoc)

lemma increment_from_eq: "i \<le> length r \<Longrightarrow> increment_from i r = increment_last (rev (take i r))"
proof (induction i)
  case (Suc i)
  then have "take (Suc i) r = take i r @ [r ! i]"
    by (simp add: take_Suc_conv_app_nth)
  moreover have "take (Suc i) (r[i := x]) = take i r @ [x]" for x
    using Suc.prems by (simp add: take_Suc_conv_app_nth)
  ultimately show ?case using Suc by simp
qed simp

lemma increment_prefix_eq: "increment_prefix p = prefix_upper_bound p"
  by (simp add: increment_prefix_def prefix_upper_bound_def increment_from_eq)

lemma in_range_prefix: "in_range p (prefix_upper_bound p) k \<longleftrightarrow> starts_with k p"
proof (induction p arbitrary: k)
  case Nil
  then show ?case by (simp add: in_range_def)
next
  case (Cons b p)
  show ?case
  proof (cases k)
    case Nil
    then show ?thesis by (simp add: in_range_def)
  next
    case (Cons c k')
    have "p \<le> k'" if "prefix_upper_bound p = None" "starts_with k' p"
      using Cons.IH [of k'] that by (simp add: in_range_def)
    then show ?thesis
      using Cons.IH [of k'] Cons byte_le_max [of c]
      by (auto simp: in_range_def prefix_upper_bound_Cons byte_less_plus_one max_byte
          split: option.splits if_splits)
  qed
qed

section \<open>Reads and writes under any failure script\<close>

lemma next_attempt_db [simp]: "cache_db (snd (next_attempt c)) = cache_db c"
  by (simp add: next_attempt_def split: list.splits)

lemma retry_conn_db [simp]: "cache_db (snd (retry_conn n c)) = cache_db c"
  by (simp add: retry_conn_def Let_def)

lemma query_result:
  assumes "query q c = (r, c')"
  shows "cache_db c' = cache_db c" and "r = Inr x \<Longrightarrow> x = q (cache_db c)"
proof -
  obtain a c1 where a: "next_attempt c = (a, c1)" by fastforce
  then have c1: "cache_db c1 = cache_db c" by (metis next_attempt_db snd_conv)
  show "cache_db c' = cache_db c" and "r = Inr x \<Longrightarrow> x = q (cache_db c)"
    using assms a c1 by (auto simp: query_def split: attempt.splits)
qed

lemma retry_write_result:
  "retry_write n body c = (r, c') \<Longrightarrow>
     (\<exists>x d. r = Inr x \<and> body (cache_db c) = Inr (x, d) \<and> cache_db c' = d) \<or>
     (\<exists>e. r = Inl e \<and> cache_db c' = cache_db c)"
proof (induction n body c rule: retry_write.induct)
  case (1 n body c)
  obtain a c1 where a: "next_attempt c = (a, c1)" by fastforce
  then have c1: "cache_db c1 = cache_db c" by (metis next_attempt_db snd_conv)
  obtain n' c2 where n': "retry_conn n c1 = (n', c2)" by fastforce
  then have c2: "cache_db c2 = cache_db c" by (metis retry_conn_db c1 snd_conv)
  note step = "1.prems" [unfolded retry_write.simps [of n body c] Let_def a prod.case n']
  have handle: "(\<exists>x d. r = Inr x \<and> body (cache_db c) = Inr (x, d) \<and> cache_db c' = d) \<or>
      (\<exists>e. r = Inl e \<and> cache_db c' = cache_db c)"
    if "(if is_locked_error e \<and> n < MAX_LOCK_RETRIES then retry_write n' body c2
         else (Inl (Database e), c1)) = (r, c')" for e
    using that "1.IH" [OF refl a [symmetric] _ refl n' [symmetric], of e] c1 c2
    by (auto split: if_splits)
  show ?case
    using step handle c1 by (auto split: attempt.splits sum.splits prod.splits)
qed

lemma write_stmt_result:
  assumes "write_stmt f c = (r, c')"
  shows "r = Inr x \<Longrightarrow> cache_db c' = f (cache_db c)" and "r = Inl e \<Longrightarrow> cache_db c' = cache_db c"
  using retry_write_result [OF assms [unfolded write_stmt_def]] by auto

lemma query_runs: "cache_script c = [] \<Longrightarrow> query q c = (Inr (q (cache_db c)), c)"
  by (simp add: query_def next_attempt_def)

lemma retry_write_runs:
  "cache_script c = [] \<Longrightarrow> body (cache_db c) = Inr (x, d) \<Longrightarrow>
     retry_write n body c = (Inr x, c\<lparr>cache_db := d\<rparr>)"
  by (simp add: retry_write.simps [of n body c] next_attempt_def)

lemma write_stmt_runs:
  "cache_script c = [] \<Longrightarrow> write_stmt f c = (Inr (), c\<lparr>cache_db := f (cache_db c)\<rparr>)"
  by (simp add: write_stmt_def retry_write_runs)

lemmas healthy_cache = query_runs write_stmt_runs retry_write_runs

text \<open>The attempts a write makes and the time it sleeps are bounded by the retry limit.\<close>

lemma retry_write_bounds:
  "retry_write n body c = (r, c') \<Longrightarrow> n \<le> MAX_LOCK_RETRIES \<Longrightarrow>
     length (cache_script c) \<le> length (cache_script c') + (MAX_LOCK_RETRIES + 1 - n) \<and>
     cache_slept_ms c' \<le> cache_slept_ms c + (\<Sum>i \<in> {n<..MAX_LOCK_RETRIES}. 10 * i)"
proof (induction n body c rule: retry_write.induct)
  case (1 n body c)
  obtain a c1 where a: "next_attempt c = (a, c1)" by fastforce
  then have c1: "cache_slept_ms c1 = cache_slept_ms c"
      "length (cache_script c) \<le> length (cache_script c1) + 1"
    by (auto simp: next_attempt_def split: list.splits)
  obtain n' c2 where n': "retry_conn n c1 = (n', c2)" by fastforce
  then have c2: "cache_slept_ms c2 \<le> cache_slept_ms c1 + 10 * (n + 1)"
      "cache_script c2 = cache_script c1" "n' = n + 1"
    by (auto simp: retry_conn_def Let_def)
  note step = "1.prems" (1) [unfolded retry_write.simps [of n body c] Let_def a prod.case n']
  let ?goal = "length (cache_script c) \<le> length (cache_script c') + (MAX_LOCK_RETRIES + 1 - n) \<and>
     cache_slept_ms c' \<le> cache_slept_ms c + (\<Sum>i \<in> {n<..MAX_LOCK_RETRIES}. 10 * i)"
  have stop: "?goal" if "cache_script c' = cache_script c1" "cache_slept_ms c' = cache_slept_ms c1"
    using c1 that "1.prems" by simp
  have again: "?goal" if "retry_write n' body c2 = (r, c')" "is_locked_error e" "n < MAX_LOCK_RETRIES" for e
  proof -
    have "{n<..MAX_LOCK_RETRIES} = insert (n + 1) {n'<..MAX_LOCK_RETRIES}"
      using that(3) c2(3) by auto
    then have "(\<Sum>i \<in> {n<..MAX_LOCK_RETRIES}. 10 * i) =
        10 * (n + 1) + (\<Sum>i \<in> {n'<..MAX_LOCK_RETRIES}. 10 * i)"
      using c2(3) by simp
    moreover have "n' \<le> MAX_LOCK_RETRIES" using that(3) c2(3) by simp
    ultimately show ?thesis
      using "1.IH" [OF refl a [symmetric] _ refl n' [symmetric], of e] that c1 c2 by simp linarith
  qed
  show ?case
    using step stop again by (auto split: attempt.splits sum.splits prod.splits if_splits)
qed

text \<open>Locked attempts up to the limit are ridden out; one more is reported as the error.\<close>

lemma retry_write_locked:
  assumes "is_locked_error (DatabaseError m)" and "n \<le> MAX_LOCK_RETRIES"
    and "cache_script c = replicate k (Refused m)" and "body (cache_db c) = Inr (x, d)"
  shows "fst (retry_write n body c) =
     (if n + k \<le> MAX_LOCK_RETRIES then Inr x else Inl (Database (DatabaseError m)))"
  using assms
proof (induction k arbitrary: n c)
  case 0
  then show ?case by (simp add: retry_write_runs)
next
  case (Suc k)
  show ?case
  proof (cases "n < MAX_LOCK_RETRIES")
    case True
    obtain n' c2 where n': "retry_conn n (c\<lparr>cache_script := replicate k (Refused m)\<rparr>) = (n', c2)"
      by fastforce
    then have "n' = n + 1" "cache_script c2 = replicate k (Refused m)" "cache_db c2 = cache_db c"
      by (auto simp: retry_conn_def Let_def)
    with Suc.IH [of n' c2] Suc.prems True n' show ?thesis
      by (simp add: retry_write.simps [of n body c] next_attempt_def)
  next
    case False
    with Suc.prems have "n = MAX_LOCK_RETRIES" by simp
    with Suc.prems show ?thesis
      by (simp add: retry_write.simps [of MAX_LOCK_RETRIES body c] next_attempt_def)
  qed
qed

section \<open>The upserts are map updates\<close>

definition cached_value :: "db \<Rightarrow> h256 \<times> bytes \<Rightarrow> bytes option option" where
  "cached_value d hk =
     map_option row_value (find (is_storage_key (fst hk) (snd hk)) (storage_rows d))"

lemma storage_rows_upsert:
  "storage_rows (upsert_storage h k v d) =
     (if list_ex (is_storage_key h k) (storage_rows d)
      then map (\<lambda>r. if is_storage_key h k r
                then r\<lparr>sr_value := v, sr_is_empty := (v = None)\<rparr> else r) (storage_rows d)
      else storage_rows d @ [\<lparr>sr_block_hash = as_bytes h, sr_key = k, sr_value = v,
                  sr_is_empty = (v = None)\<rparr>])"
  by (simp add: upsert_storage_def)

lemma cached_value_upsert:
  "cached_value (upsert_storage h k v d) (h', k') =
     (if h' = h \<and> k' = k then Some v else cached_value d (h', k'))"
proof (cases "h' = h \<and> k' = k")
  case True
  have "map_option row_value (find (is_storage_key h k) (storage_rows (upsert_storage h k v d))) = Some v"
    unfolding storage_rows_upsert
    by (rule find_map_upsert) (auto simp: is_storage_key_def row_value_def)
  with True show ?thesis by (simp add: cached_value_def)
next
  case False
  have "find (is_storage_key h' k') (storage_rows (upsert_storage h k v d)) =
      find (is_storage_key h' k') (storage_rows d)"
    unfolding storage_rows_upsert
    by (rule find_other_upsert) (use False in \<open>auto simp: is_storage_key_def\<close>)
  with False show ?thesis by (auto simp: cached_value_def)
qed

interpretation storage_table: upsert_table cached_value "\<lambda>(h, k) v. upsert_storage h k v"
proof unfold_locales
  fix hk :: "h256 \<times> bytes" and v d and hk' :: "h256 \<times> bytes"
  show "cached_value ((case hk of (h, k) \<Rightarrow> upsert_storage h k) v d) hk' =
      (if hk' = hk then Some v else cached_value d hk')"
    by (cases hk; cases hk') (simp add: cached_value_upsert)
qed

lemma foldl_upsert_storage:
  "foldl (\<lambda>d (k, v). upsert_storage h k v d) d kvs =
     foldl (\<lambda>d (hk, v). (case hk of (h, k) \<Rightarrow> \<lambda>v. upsert_storage h k v) v d) d
       (map (\<lambda>(k, v). ((h, k), v)) kvs)"
  by (induction kvs arbitrary: d) auto

lemma cached_value_upserts:
  assumes "distinct (map fst kvs)"
  shows "cached_value (foldl (\<lambda>d (k, v). upsert_storage h k v d) d kvs) (h', k') =
     (if h' = h then (case map_of kvs k' of Some v \<Rightarrow> Some v | None \<Rightarrow> cached_value d (h', k'))
      else cached_value d (h', k'))"
proof -
  have 1: "distinct (map fst (map (\<lambda>(k, v). ((h, k), v)) kvs))"
    using assms by (auto simp: distinct_map inj_on_def comp_def case_prod_beta)
  have 2: "map_of (map (\<lambda>(k, v). ((h, k), v)) kvs) (h', k') = (if h' = h then map_of kvs k' else None)"
    by (induction kvs) auto
  show ?thesis
    unfolding foldl_upsert_storage storage_table.look_puts_distinct [OF 1] 2 by auto
qed

lemma upsert_storage_frame [simp]:
  "block_rows (upsert_storage h k v d) = block_rows d"
  "local_key_rows (upsert_storage h k v d) = local_key_rows d"
  "local_value_rows (upsert_storage h k v d) = local_value_rows d"
  "prefix_scan_rows (upsert_storage h k v d) = prefix_scan_rows d"
  "local_key_seq (upsert_storage h k v d) = local_key_seq d"
  "local_value_seq (upsert_storage h k v d) = local_value_seq d"
  by (simp_all add: upsert_storage_def)

lemma foldl_upsert_storage_frame [simp]:
  "block_rows (foldl (\<lambda>d (k, v). upsert_storage h k v d) d kvs) = block_rows d"
  "local_key_rows (foldl (\<lambda>d (k, v). upsert_storage h k v d) d kvs) = local_key_rows d"
  "local_value_rows (foldl (\<lambda>d (k, v). upsert_storage h k v d) d kvs) = local_value_rows d"
  "prefix_scan_rows (foldl (\<lambda>d (k, v). upsert_storage h k v d) d kvs) = prefix_scan_rows d"
  "local_key_seq (foldl (\<lambda>d (k, v). upsert_storage h k v d) d kvs) = local_key_seq d"
  by (induction kvs arbitrary: d) auto

definition cached_block :: "db \<Rightarrow> h256 \<Rightarrow> block_row option" where
  "cached_block d h = find (\<lambda>r. br_hash r = as_bytes h) (block_rows d)"

lemma block_rows_upsert:
  "block_rows (upsert_block h n p hdr d) =
     (if list_ex (\<lambda>r. br_hash r = as_bytes h) (block_rows d)
      then map (\<lambda>r. if br_hash r = as_bytes h then block_row_of h n p hdr else r) (block_rows d)
      else block_rows d @ [block_row_of h n p hdr])"
  by (simp add: upsert_block_def Let_def)

lemma cached_block_upsert:
  "cached_block (upsert_block h n p hdr d) h' =
     (if h' = h then Some (block_row_of h n p hdr) else cached_block d h')"
proof (cases "h' = h")
  case True
  have "map_option id (find (\<lambda>r. br_hash r = as_bytes h) (block_rows (upsert_block h n p hdr d))) =
      Some (block_row_of h n p hdr)"
    unfolding block_rows_upsert by (rule find_map_upsert) (auto simp: block_row_of_def)
  with True show ?thesis by (simp add: cached_block_def option.map_id)
next
  case False
  have "cached_block (upsert_block h n p hdr d) h' = cached_block d h'"
    unfolding cached_block_def block_rows_upsert
    by (rule find_other_upsert) (use False in \<open>auto simp: block_row_of_def\<close>)
  with False show ?thesis by simp
qed

lemma upsert_block_frame [simp]:
  "storage_rows (upsert_block h n p hdr d) = storage_rows d"
  "prefix_scan_rows (upsert_block h n p hdr d) = prefix_scan_rows d"
  "local_key_rows (upsert_block h n p hdr d) = local_key_rows d"
  "local_value_rows (upsert_block h n p hdr d) = local_value_rows d"
  "local_key_seq (upsert_block h n p hdr d) = local_key_seq d"
  by (simp_all add: upsert_block_def Let_def)

lemma prefix_scan_rows_upsert:
  "prefix_scan_rows (upsert_scan h p l c d) =
     (if list_ex (is_scan_of h p) (prefix_scan_rows d)
      then map (\<lambda>r. if is_scan_of h p r
                then r\<lparr>ps_last_scanned_key := Some l, ps_is_complete := c\<rparr> else r) (prefix_scan_rows d)
      else prefix_scan_rows d @ [\<lparr>ps_block_hash = as_bytes h, ps_prefix = p,
                  ps_last_scanned_key = Some l, ps_is_complete = c\<rparr>])"
  by (simp add: upsert_scan_def)

lemma scan_progress_upsert:
  "scan_progress h' p' (upsert_scan h p l c d) =
     (if h' = h \<and> p' = p then Some \<lparr>last_scanned_key = Some l, is_complete = c\<rparr>
      else scan_progress h' p' d)"
proof (cases "h' = h \<and> p' = p")
  case True
  have "scan_progress h p (upsert_scan h p l c d) = Some \<lparr>last_scanned_key = Some l, is_complete = c\<rparr>"
    unfolding scan_progress_def prefix_scan_rows_upsert
    by (rule find_map_upsert) (auto simp: is_scan_of_def)
  with True show ?thesis by simp
next
  case False
  have "find (is_scan_of h' p') (prefix_scan_rows (upsert_scan h p l c d)) =
      find (is_scan_of h' p') (prefix_scan_rows d)"
    unfolding prefix_scan_rows_upsert
    by (rule find_other_upsert) (use False in \<open>auto simp: is_scan_of_def\<close>)
  with False show ?thesis by (auto simp: scan_progress_def)
qed

lemma upsert_scan_frame [simp]:
  "storage_rows (upsert_scan h p l c d) = storage_rows d"
  "block_rows (upsert_scan h p l c d) = block_rows d"
  "local_key_rows (upsert_scan h p l c d) = local_key_rows d"
  "local_value_rows (upsert_scan h p l c d) = local_value_rows d"
  "local_key_seq (upsert_scan h p l c d) = local_key_seq d"
  by (simp_all add: upsert_scan_def)

section \<open>Batch reads\<close>

lemma remove_each_distinct: "distinct ks \<Longrightarrow> remove_each m ks = map m ks"
proof (induction ks arbitrary: m)
  case (Cons k ks)
  then show ?case by (auto intro!: map_cong)
qed simp

text \<open>The primary key of \<^verbatim>\<open>storage\<close>: at most one row per block and key.\<close>

definition storage_pk :: "db \<Rightarrow> bool" where
  "storage_pk d \<longleftrightarrow> distinct (map (\<lambda>r. (sr_block_hash r, sr_key r)) (storage_rows d))"

lemma storage_pk_upsert: "storage_pk d \<Longrightarrow> storage_pk (upsert_storage h k v d)"
proof -
  assume pk: "storage_pk d"
  have "map (\<lambda>r. (sr_block_hash r, sr_key r)) (map (\<lambda>r. if is_storage_key h k r
          then r\<lparr>sr_value := v, sr_is_empty := v = None\<rparr> else r) (storage_rows d)) =
      map (\<lambda>r. (sr_block_hash r, sr_key r)) (storage_rows d)"
    by simp
  with pk show ?thesis
    unfolding storage_pk_def upsert_storage_def
    by (auto simp: is_storage_key_def list_ex_iff simp del: map_map)
qed

lemma storage_pk_upserts:
  "storage_pk d \<Longrightarrow> storage_pk (foldl (\<lambda>d (k, v). upsert_storage h k v d) d kvs)"
  by (induction kvs arbitrary: d) (auto intro: storage_pk_upsert)

lemma batch_map_eq:
  assumes "storage_pk d" and "k \<in> set keys"
  shows "collect_map (map (\<lambda>r. (sr_key r, row_value r))
     (filter (\<lambda>r. sr_block_hash r = as_bytes h \<and> sr_key r \<in> set keys) (storage_rows d))) k =
     cached_value d (h, k)"
proof -
  let ?rows = "filter (\<lambda>r. sr_block_hash r = as_bytes h \<and> sr_key r \<in> set keys) (storage_rows d)"
  have "distinct (map (\<lambda>r. (sr_block_hash r, sr_key r)) ?rows)"
    using assms(1) unfolding storage_pk_def by (rule distinct_map_filter)
  then have "distinct (map sr_key ?rows)"
    by (auto simp: distinct_map inj_on_def)
  then have "collect_map (map (\<lambda>r. (sr_key r, row_value r)) ?rows) k =
      map_of (map (\<lambda>r. (sr_key r, row_value r)) ?rows) k"
    by (simp add: collect_map_distinct comp_def)
  also have "map_of (map (\<lambda>r. (sr_key r, row_value r)) (filter (\<lambda>r. sr_block_hash r = as_bytes h \<and>
      sr_key r \<in> set keys) rows)) k = map_option row_value (find (is_storage_key h k) rows)" for rows
    using assms(2) by (induction rows) (auto simp: is_storage_key_def)
  finally show ?thesis by (simp add: cached_value_def)
qed

lemma get_storage_result:
  assumes "get_storage h k c = (r, c')"
  shows "cache_db c' = cache_db c" and "r = Inr x \<Longrightarrow> x = cached_value (cache_db c) (h, k)"
  using query_result [OF assms [unfolded get_storage_def]] by (auto simp: cached_value_def)

lemma get_storage_batch_result:
  assumes "get_storage_batch h keys c = (r, c')"
  shows "cache_db c' = cache_db c"
    and "storage_pk (cache_db c) \<Longrightarrow> r = Inr xs \<Longrightarrow>
      distinct keys \<and> xs = map (\<lambda>k. cached_value (cache_db c) (h, k)) keys"
proof -
  show "cache_db c' = cache_db c"
    using assms by (auto simp: get_storage_batch_def prog_simps split: if_splits dest: query_result(1))
  assume pk: "storage_pk (cache_db c)" and r: "r = Inr xs"
  show "distinct keys \<and> xs = map (\<lambda>k. cached_value (cache_db c) (h, k)) keys"
    using assms r pk
    by (auto simp: get_storage_batch_def prog_simps Let_def remove_each_distinct batch_map_eq
        split: if_splits dest!: query_result(2) [OF _ refl])
qed

section \<open>The local tables as timelines\<close>

text \<open>
  The invariant of the two local tables after commits up to block \<open>b\<close>: keys and ids are
  unique, no value belongs to an id not yet given out, every interval starts and ends at or
  before \<open>b\<close>, and at each block at most one value of a key is valid.
\<close>

definition local_inv :: "int \<Rightarrow> db \<Rightarrow> bool" where
  "local_inv b d \<longleftrightarrow>
     distinct (map lk_key (local_key_rows d)) \<and>
     distinct (map lk_id (local_key_rows d)) \<and>
     (\<forall>k \<in> set (local_key_rows d). lk_id k \<le> local_key_seq d) \<and>
     (\<forall>v \<in> set (local_value_rows d). lv_key_id v \<le> local_key_seq d \<and> lv_valid_from v \<le> b \<and>
        (case lv_valid_until v of None \<Rightarrow> True | Some u \<Rightarrow> u \<le> b)) \<and>
     (\<forall>n. \<forall>v \<in> set (local_value_rows d). \<forall>v' \<in> set (local_value_rows d).
        lv_key_id v = lv_key_id v' \<and> valid_at n v \<and> valid_at n v' \<longrightarrow> v = v')"

lemma local_inv_empty: "local_inv b empty_db"
  by (simp add: local_inv_def empty_db_def)

lemma local_inv_mono: "local_inv b d \<Longrightarrow> b \<le> b' \<Longrightarrow> local_inv b' d"
  unfolding local_inv_def by (force split: option.splits)

lemma local_inv_frame:
  "local_key_rows d' = local_key_rows d \<Longrightarrow> local_value_rows d' = local_value_rows d \<Longrightarrow>
     local_key_seq d' = local_key_seq d \<Longrightarrow> local_inv b d' \<longleftrightarrow> local_inv b d"
  by (simp add: local_inv_def)

lemma local_value_at_frame:
  "local_key_rows d' = local_key_rows d \<Longrightarrow> local_value_rows d' = local_value_rows d \<Longrightarrow>
     local_value_at k n d' = local_value_at k n d"
  by (simp add: local_value_at_def local_key_id_def split: option.splits)

definition value_at_id :: "int \<Rightarrow> int \<Rightarrow> local_value_row list \<Rightarrow> bytes option option" where
  "value_at_id key_id n vs = map_option lv_value (find (\<lambda>r. lv_key_id r = key_id \<and> valid_at n r) vs)"

lemma local_value_at_id:
  "local_value_at k n d =
     (case local_key_id k d of None \<Rightarrow> None | Some i \<Rightarrow> value_at_id i n (local_value_rows d))"
  by (simp add: local_value_at_def value_at_id_def split: option.splits)

lemma local_key_id_upsert:
  "local_key_id k' (upsert_local_key k d) =
     (if k' = k \<and> local_key_id k d = None then Some (local_key_seq d + 1) else local_key_id k' d)"
  by (auto simp: local_key_id_def upsert_local_key_def not_list_ex_find find_append_row
      split: option.splits)

lemma upsert_local_key_frame [simp]:
  "local_value_rows (upsert_local_key k d) = local_value_rows d"
  "storage_rows (upsert_local_key k d) = storage_rows d"
  "block_rows (upsert_local_key k d) = block_rows d"
  "prefix_scan_rows (upsert_local_key k d) = prefix_scan_rows d"
  by (simp_all add: upsert_local_key_def)

lemma local_inv_upsert_key:
  assumes "local_inv b d"
  shows "local_inv b (upsert_local_key k d)"
proof (cases "list_ex (\<lambda>r. lk_key r = k) (local_key_rows d)")
  case True
  then show ?thesis using assms by (simp add: upsert_local_key_def)
next
  case False
  then have "k \<notin> lk_key ` set (local_key_rows d)"
    by (auto simp: list_ex_iff)
  moreover have "local_key_seq d + 1 \<notin> lk_id ` set (local_key_rows d)"
    using assms by (force simp: local_inv_def)
  ultimately show ?thesis
    using assms False unfolding local_inv_def upsert_local_key_def
    by (force split: option.splits)
qed

text \<open>The two row updates of a commit, seen through the validity filter.\<close>

lemma close_row_simps [simp]:
  "lv_key_id (close_row key_id b r) = lv_key_id r"
  "lv_value (close_row key_id b r) = lv_value r"
  "lv_valid_from (close_row key_id b r) = lv_valid_from r"
  "lv_valid_until (close_row key_id b r) =
     (if lv_key_id r = key_id \<and> lv_valid_until r = None then Some b else lv_valid_until r)"
  by (simp_all add: close_row_def)

lemma valid_at_close_row:
  "valid_at n (close_row key_id b r) \<longleftrightarrow>
     valid_at n r \<and> (lv_key_id r = key_id \<and> lv_valid_until r = None \<longrightarrow> n < b)"
  by (auto simp: valid_at_def split: option.splits)

definition intervals_upto :: "int \<Rightarrow> local_value_row list \<Rightarrow> bool" where
  "intervals_upto b vs \<longleftrightarrow> (\<forall>v \<in> set vs. lv_valid_from v \<le> b \<and>
     (case lv_valid_until v of None \<Rightarrow> True | Some u \<Rightarrow> u \<le> b))"

definition disjoint_values :: "local_value_row list \<Rightarrow> bool" where
  "disjoint_values vs \<longleftrightarrow> (\<forall>n. \<forall>v \<in> set vs. \<forall>v' \<in> set vs.
     lv_key_id v = lv_key_id v' \<and> valid_at n v \<and> valid_at n v' \<longrightarrow> v = v')"

definition commit_rows :: "local_value_row \<Rightarrow> local_value_row list \<Rightarrow> local_value_row list" where
  "commit_rows new vs = map (close_row (lv_key_id new) (lv_valid_from new)) vs @ [new]"

lemma closed_before:
  assumes "intervals_upto b vs" and "r \<in> set vs" and "valid_at n (close_row key_id b r)"
    and "lv_key_id r = key_id"
  shows "n < b"
  using assms
  by (auto simp: intervals_upto_def valid_at_close_row valid_at_def split: option.splits if_splits)

lemma value_at_id_commit:
  assumes "intervals_upto (lv_valid_from new) vs" and "lv_valid_until new = None"
  shows "value_at_id i n (commit_rows new vs) =
     (if i = lv_key_id new \<and> lv_valid_from new \<le> n then Some (lv_value new) else value_at_id i n vs)"
proof -
  let ?g = "close_row (lv_key_id new) (lv_valid_from new)"
  let ?P = "\<lambda>r. lv_key_id r = i \<and> valid_at n r"
  show ?thesis
  proof (cases "i = lv_key_id new \<and> lv_valid_from new \<le> n")
    case True
    then have "find ?P (map ?g vs) = None"
      using closed_before [OF assms(1)] by (fastforce simp: find_None_all)
    with True assms(2) show ?thesis
      by (simp add: value_at_id_def commit_rows_def find_append_row valid_at_def)
  next
    case False
    have "?P (?g r) \<longleftrightarrow> ?P r" for r
      using False by (auto simp: valid_at_close_row)
    then have "map_option lv_value (find ?P (map ?g vs)) = map_option lv_value (find ?P vs)"
      by (induction vs) auto
    moreover have "\<not> ?P new"
      using False assms(2) by (auto simp: valid_at_def)
    ultimately show ?thesis
      using False by (auto simp: value_at_id_def commit_rows_def find_append_other)
  qed
qed

lemma disjoint_values_commit:
  assumes "intervals_upto (lv_valid_from new) vs" and "disjoint_values vs"
  shows "disjoint_values (commit_rows new vs)"
proof -
  let ?g = "close_row (lv_key_id new) (lv_valid_from new)"
  have new: "\<not> valid_at n new" if "r \<in> set vs" "lv_key_id r = lv_key_id new" "valid_at n (?g r)" for r n
    using closed_before [OF assms(1) that(1,3,2)] by (simp add: valid_at_def)
  have old: "?g r = ?g r'"
    if "r \<in> set vs" "r' \<in> set vs" "lv_key_id r = lv_key_id r'" "valid_at n (?g r)" "valid_at n (?g r')"
    for r r' n
    using assms(2) that unfolding disjoint_values_def valid_at_close_row by metis
  show ?thesis
    unfolding disjoint_values_def commit_rows_def
    using new old by (auto simp del: close_row_simps(4))
qed

lemma intervals_upto_commit:
  "intervals_upto (lv_valid_from new) vs \<Longrightarrow> lv_valid_until new = None \<Longrightarrow>
     intervals_upto (lv_valid_from new) (commit_rows new vs)"
  by (auto simp: intervals_upto_def commit_rows_def split: option.splits)

lemma local_inv_alt:
  "local_inv b d \<longleftrightarrow>
     distinct (map lk_key (local_key_rows d)) \<and>
     distinct (map lk_id (local_key_rows d)) \<and>
     (\<forall>k \<in> set (local_key_rows d). lk_id k \<le> local_key_seq d) \<and>
     (\<forall>v \<in> set (local_value_rows d). lv_key_id v \<le> local_key_seq d) \<and>
     intervals_upto b (local_value_rows d) \<and> disjoint_values (local_value_rows d)"
  by (auto simp: local_inv_def intervals_upto_def disjoint_values_def)

lemma commit_entry_ok:
  assumes "local_inv b' d" and "b' \<le> b"
  obtains d' where "commit_entry b (k, v) d = Inr d'" and "local_inv b d'"
    and "\<And>k' n. local_value_at k' n d' = (if k' = k \<and> b \<le> n then Some v else local_value_at k' n d)"
    and "storage_rows d' = storage_rows d" and "block_rows d' = block_rows d"
    and "prefix_scan_rows d' = prefix_scan_rows d"
proof -
  let ?d1 = "upsert_local_key k d"
  have inv: "local_inv b ?d1"
    using local_inv_mono [OF assms] by (rule local_inv_upsert_key)
  obtain i where i: "local_key_id k ?d1 = Some i"
    by (cases "local_key_id k d") (auto simp: local_key_id_upsert)
  then obtain kr where kr: "kr \<in> set (local_key_rows ?d1)" "lk_key kr = k" "lk_id kr = i"
    by (auto simp: local_key_id_def dest: find_SomeD)
  let ?new = "\<lparr>lv_id = local_value_seq ?d1 + 1, lv_key_id = i, lv_value = v, lv_valid_from = b,
                lv_valid_until = None\<rparr>"
  let ?d2 = "add_local_value i v b (close_open_values i b ?d1)"
  have rows: "local_value_rows ?d2 = commit_rows ?new (local_value_rows d)"
    by (simp add: add_local_value_def close_open_values_def commit_rows_def)
  have upto: "intervals_upto b (local_value_rows d)"
    using inv by (simp add: local_inv_alt)
  have keys: "local_key_rows ?d2 = local_key_rows ?d1" "local_key_seq ?d2 = local_key_seq ?d1"
    by (simp_all add: add_local_value_def close_open_values_def)
  have "local_inv b ?d2"
    using inv kr intervals_upto_commit [of ?new] disjoint_values_commit [of ?new]
    unfolding local_inv_alt rows keys by (auto simp: commit_rows_def)
  moreover have "local_value_at k' n ?d2 =
      (if k' = k \<and> b \<le> n then Some v else local_value_at k' n d)" for k' n
  proof -
    have id2: "local_key_id x ?d2 = local_key_id x ?d1" for x
      by (simp add: local_key_id_def keys)
    have new_id: "value_at_id i n (local_value_rows d) = None" if "local_key_id k d = None"
    proof -
      have "i = local_key_seq d + 1" using i that by (simp add: local_key_id_upsert)
      then show ?thesis
        using assms(1) by (force simp: value_at_id_def find_None_all local_inv_alt)
    qed
    have inj: "local_key_id k' ?d1 = Some i \<longleftrightarrow> k' = k"
    proof
      assume "local_key_id k' ?d1 = Some i"
      then obtain kr' where "kr' \<in> set (local_key_rows ?d1)" "lk_key kr' = k'" "lk_id kr' = i"
        by (auto simp: local_key_id_def dest: find_SomeD)
      with kr inv show "k' = k"
        by (auto simp: local_inv_alt distinct_map dest!: inj_onD [of lk_id])
    qed (use i in simp)
    show ?thesis
    proof (cases "k' = k")
      case True
      then show ?thesis
        using i new_id upto
        by (auto simp: local_value_at_id id2 rows value_at_id_commit local_key_id_upsert
            split: option.splits if_splits)
    next
      case False
      then show ?thesis
        using inj upto
        by (auto simp: local_value_at_id id2 rows value_at_id_commit local_key_id_upsert
            split: option.splits)
    qed
  qed
  ultimately show ?thesis
    using i by (intro that [of ?d2])
      (auto simp: commit_entry_def Let_def add_local_value_def close_open_values_def)
qed

lemma commit_entries_ok:
  assumes "local_inv b' d" and "b' \<le> b"
  obtains d' where "commit_entries b es d = Inr d'" and "local_inv b d'"
    and "\<And>k n. local_value_at k n d' =
      (if b \<le> n then (case map_of (rev es) k of Some v \<Rightarrow> Some v | None \<Rightarrow> local_value_at k n d)
       else local_value_at k n d)"
    and "storage_rows d' = storage_rows d" and "block_rows d' = block_rows d"
    and "prefix_scan_rows d' = prefix_scan_rows d"
  using assms
proof (induction es arbitrary: d b' thesis)
  case Nil
  show ?case
    by (rule Nil.prems(1) [of d]) (use local_inv_mono [OF Nil.prems(2,3)] in auto)
next
  case (Cons e es)
  obtain k v where e: "e = (k, v)" by (cases e)
  obtain d1 where d1: "commit_entry b (k, v) d = Inr d1" "local_inv b d1"
      "\<And>k' n. local_value_at k' n d1 = (if k' = k \<and> b \<le> n then Some v else local_value_at k' n d)"
      "storage_rows d1 = storage_rows d" "block_rows d1 = block_rows d"
      "prefix_scan_rows d1 = prefix_scan_rows d"
    using commit_entry_ok [OF Cons.prems(2,3)] by metis
  obtain d2 where d2: "commit_entries b es d1 = Inr d2" "local_inv b d2"
      "\<And>k n. local_value_at k n d2 =
        (if b \<le> n then (case map_of (rev es) k of Some v \<Rightarrow> Some v | None \<Rightarrow> local_value_at k n d1)
         else local_value_at k n d1)"
      "storage_rows d2 = storage_rows d1" "block_rows d2 = block_rows d1"
      "prefix_scan_rows d2 = prefix_scan_rows d1"
    using Cons.IH [OF _ d1(2)] by (metis order_refl)
  show ?case
    by (rule Cons.prems(1) [of d2])
      (use d1 d2 e in \<open>auto simp: map_add_def split: option.splits\<close>)
qed

end
