(* ===== verification/Rpc_Client.thy ===== *)
theory Rpc_Client
  imports Prelude
begin

text \<open>
  The RPC client of the fork, \<^verbatim>\<open>crates/pop-fork/src/rpc.rs\<close>. The node it talks to, the
  connection and the Substrate codecs are not code of the repository: they are the fields
  of \<open>upstream\<close>, functions over a network state \<open>'n\<close> that may answer differently each
  time, fail, or drop the connection. What the fork relies on, that an answer which does
  arrive is the one of the chain, is the predicate \<open>honest\<close>.
\<close>

section \<open>The node\<close>

record node_header =
  nh_parent_hash :: h256
  nh_number :: u32
  nh_state_root :: h256
  nh_extrinsics_root :: h256
  nh_digest :: "bytes list"

record node_block =
  nb_header :: node_header
  nb_extrinsics :: "bytes list"

text \<open>
  \<^verbatim>\<open>LegacyRpcMethods\<close> of subxt, one function per method; the error is the text of the
  error. The last four are the codecs the client calls: the encoding of a header and of a
  version number, the decoding of \<^verbatim>\<open>Option<Vec<u8>>\<close> and of the metadata.
\<close>

record ('n, 'm) upstream =
  u_endpoint :: string
  u_connect :: "string \<Rightarrow> ('n, string, unit) prog"
  u_system_chain :: "('n, string, string) prog"
  u_finalized_head :: "('n, string, h256) prog"
  u_get_header :: "h256 \<Rightarrow> ('n, string, node_header option) prog"
  u_get_block_hash :: "u32 \<Rightarrow> ('n, string, h256 option) prog"
  u_get_block :: "h256 \<Rightarrow> ('n, string, node_block option) prog"
  u_get_storage :: "bytes \<Rightarrow> h256 \<Rightarrow> ('n, string, bytes option) prog"
  u_query_storage_at :: "bytes list \<Rightarrow> h256 \<Rightarrow> ('n, string, (bytes \<times> bytes option) list list) prog"
  u_get_keys_paged :: "bytes \<Rightarrow> u32 \<Rightarrow> bytes option \<Rightarrow> h256 \<Rightarrow> ('n, string, bytes list) prog"
  u_get_metadata :: "h256 \<Rightarrow> ('n, string, bytes) prog"
  u_state_call :: "string \<Rightarrow> bytes \<Rightarrow> h256 option \<Rightarrow> ('n, string, bytes) prog"
  u_encode_header :: "node_header \<Rightarrow> bytes"
  u_encode_u32 :: "u32 \<Rightarrow> bytes"
  u_decode_opaque :: "bytes \<Rightarrow> string + bytes option"
  u_decode_metadata :: "bytes \<Rightarrow> string + 'm"

datatype rpc_error =
    ConnectionFailed string string
  | RequestFailed string string
  | Timeout string
  | InvalidResponse string
  | StorageNotFound string
  | MetadataDecodingFailed string

definition METADATA_V14 :: u32 where
  "METADATA_V14 = 14"

definition METADATA_LATEST :: u32 where
  "METADATA_LATEST = 15"

definition CODE :: bytes where
  "CODE = [0x3a, 0x63, 0x6f, 0x64, 0x65]"

section \<open>Requests\<close>

definition request :: "string \<Rightarrow> ('n, string, 'a) prog \<Rightarrow> ('n, rpc_error, 'a) prog" where
  "request method m = map_err (RequestFailed method) m"

definition create_connection :: "('n, 'm) upstream \<Rightarrow> string \<Rightarrow> ('n, rpc_error, unit) prog" where
  "create_connection U endpoint = map_err (ConnectionFailed endpoint) (u_connect U endpoint)"

text \<open>
  The liveness check comes first: a connection another task has already replaced is kept.
\<close>

definition reconnect :: "('n, 'm) upstream \<Rightarrow> ('n, rpc_error, unit) prog" where
  "reconnect U =
     matchE (u_system_chain U) (\<lambda>_. create_connection U (u_endpoint U)) (\<lambda>_. ret ())"

definition finalized_head :: "('n, 'm) upstream \<Rightarrow> ('n, rpc_error, h256) prog" where
  "finalized_head U = request ''chain_getFinalisedHead'' (u_finalized_head U)"

definition rpc_header :: "('n, 'm) upstream \<Rightarrow> h256 \<Rightarrow> ('n, rpc_error, node_header) prog" where
  "rpc_header U hash =
     bindE (request ''chain_getHeader'' (u_get_header U hash)) (\<lambda>h.
     case h of Some hdr \<Rightarrow> ret hdr | None \<Rightarrow> fail (InvalidResponse ''No header found''))"

definition block_hash_at :: "('n, 'm) upstream \<Rightarrow> u32 \<Rightarrow> ('n, rpc_error, h256 option) prog" where
  "block_hash_at U block_number = request ''chain_getBlockHash'' (u_get_block_hash U block_number)"

definition block_by_hash :: "('n, 'm) upstream \<Rightarrow> h256 \<Rightarrow> ('n, rpc_error, node_block option) prog" where
  "block_by_hash U block_hash = request ''chain_getBlock'' (u_get_block U block_hash)"

definition block_by_number ::
  "('n, 'm) upstream \<Rightarrow> u32 \<Rightarrow> ('n, rpc_error, (h256 \<times> node_block) option) prog" where
  "block_by_number U block_number =
     bindE (block_hash_at U block_number) (\<lambda>block_hash.
     case block_hash of
       None \<Rightarrow> ret None
     | Some hash \<Rightarrow>
         bindE (request ''chain_getBlock'' (u_get_block U hash)) (\<lambda>block.
         ret (map_option (\<lambda>b. (hash, b)) block)))"

definition rpc_storage :: "('n, 'm) upstream \<Rightarrow> bytes \<Rightarrow> h256 \<Rightarrow> ('n, rpc_error, bytes option) prog" where
  "rpc_storage U key at = request ''state_getStorage'' (u_get_storage U key at)"

text \<open>The change sets of the answer are poured into one map; keys it lacks read as absent.\<close>

definition storage_batch ::
  "('n, 'm) upstream \<Rightarrow> bytes list \<Rightarrow> h256 \<Rightarrow> ('n, rpc_error, bytes option list) prog" where
  "storage_batch U keys at =
     (if keys = [] then ret []
      else
        bindE (request ''state_queryStorageAt'' (u_query_storage_at U keys at)) (\<lambda>result.
        let changes = collect_map (concat result)
        in ret (map (\<lambda>key. Option.bind (changes key) (\<lambda>v. v)) keys)))"

definition storage_keys_paged ::
  "('n, 'm) upstream \<Rightarrow> bytes \<Rightarrow> u32 \<Rightarrow> bytes option \<Rightarrow> h256 \<Rightarrow> ('n, rpc_error, bytes list) prog" where
  "storage_keys_paged U pre count start_key at =
     request ''state_getKeysPaged'' (u_get_keys_paged U pre count start_key at)"

definition metadata_at_version ::
  "('n, 'm) upstream \<Rightarrow> u32 \<Rightarrow> h256 \<Rightarrow> ('n, rpc_error, bytes option) prog" where
  "metadata_at_version U version at =
     bindE (request ''state_call''
       (u_state_call U ''Metadata_metadata_at_version'' (u_encode_u32 U version) (Some at))) (\<lambda>result.
     map_err InvalidResponse (lift_sum (u_decode_opaque U result)))"

text \<open>The fallback loop, from the latest version down; a failing request ends it.\<close>

fun metadata_fallback ::
  "('n, 'm) upstream \<Rightarrow> h256 \<Rightarrow> string \<Rightarrow> u32 list \<Rightarrow> ('n, rpc_error, 'm) prog" where
  "metadata_fallback U at default_err [] = fail (MetadataDecodingFailed default_err)"
| "metadata_fallback U at default_err (version # versions) =
     bindE (metadata_at_version U version at) (\<lambda>found.
     case Option.bind found (\<lambda>b. case u_decode_metadata U b of Inr m \<Rightarrow> Some m | Inl _ \<Rightarrow> None) of
       Some m \<Rightarrow> ret m
     | None \<Rightarrow> metadata_fallback U at default_err versions)"

definition rpc_metadata :: "('n, 'm) upstream \<Rightarrow> h256 \<Rightarrow> ('n, rpc_error, 'm) prog" where
  "rpc_metadata U at =
     bindE (request ''state_getMetadata'' (u_get_metadata U at)) (\<lambda>raw.
     case u_decode_metadata U raw of
       Inr m \<Rightarrow> ret m
     | Inl default_err \<Rightarrow>
         metadata_fallback U at default_err
           (rev (map (\<lambda>i. METADATA_V14 + of_nat i)
             [0..<Suc (unat METADATA_LATEST - unat METADATA_V14)])))"

definition runtime_code :: "('n, 'm) upstream \<Rightarrow> h256 \<Rightarrow> ('n, rpc_error, bytes) prog" where
  "runtime_code U at =
     bindE (rpc_storage U CODE at) (\<lambda>v.
     case v of Some code \<Rightarrow> ret code | None \<Rightarrow> fail (StorageNotFound '':code''))"

definition system_chain :: "('n, 'm) upstream \<Rightarrow> ('n, rpc_error, string) prog" where
  "system_chain U = request ''system_chain'' (u_system_chain U)"

definition state_call ::
  "('n, 'm) upstream \<Rightarrow> string \<Rightarrow> bytes \<Rightarrow> h256 option \<Rightarrow> ('n, rpc_error, bytes) prog" where
  "state_call U fn call_parameters at = request ''state_call'' (u_state_call U fn call_parameters at)"

section \<open>A chain and a node that serves it\<close>

text \<open>
  The chain behind the node: the state of every block as the key-value pairs in key order,
  the blocks, and the canonical hash of every number.
\<close>

record chain =
  ch_state :: "h256 \<Rightarrow> (bytes \<times> bytes) list"
  ch_block :: "h256 \<Rightarrow> node_block option"
  ch_hash :: "u32 \<Rightarrow> h256 option"

definition chain_value :: "chain \<Rightarrow> h256 \<Rightarrow> bytes \<Rightarrow> bytes option" where
  "chain_value C h k = map_of (ch_state C h) k"

definition chain_keys :: "chain \<Rightarrow> h256 \<Rightarrow> bytes \<Rightarrow> bytes list" where
  "chain_keys C h pre = filter (\<lambda>k. starts_with k pre) (map fst (ch_state C h))"

text \<open>The page \<^verbatim>\<open>state_getKeysPaged\<close> answers with: at most \<open>count\<close> keys after the start key.\<close>

definition keys_after :: "bytes option \<Rightarrow> bytes list \<Rightarrow> bytes list" where
  "keys_after start ks = (case start of None \<Rightarrow> ks | Some s \<Rightarrow> filter (\<lambda>k. s < k) ks)"

text \<open>
  A chain as a node serves one: the keys of a state are in order, a hash has 32 bytes, the
  block under the hash of a number carries that number.
\<close>

definition wf_chain :: "chain \<Rightarrow> bool" where
  "wf_chain C \<longleftrightarrow>
     (\<forall>h. sorted_wrt (<) (map fst (ch_state C h))) \<and>
     (\<forall>h b. ch_block C h = Some b \<longrightarrow> wf_h256 h \<and> wf_h256 (nh_parent_hash (nb_header b))) \<and>
     (\<forall>m h b. ch_hash C m = Some h \<longrightarrow> ch_block C h = Some b \<longrightarrow> nh_number (nb_header b) = m)"

definition honest :: "('n, 'm) upstream \<Rightarrow> chain \<Rightarrow> bool" where
  "honest U C \<longleftrightarrow> wf_chain C \<and>
     (\<forall>k h n v n'. u_get_storage U k h n = (Inr v, n') \<longrightarrow> v = chain_value C h k) \<and>
     (\<forall>ks h n css n'. u_query_storage_at U ks h n = (Inr css, n') \<longrightarrow>
        (\<forall>k \<in> set ks. Option.bind (collect_map (concat css) k) (\<lambda>v. v) = chain_value C h k)) \<and>
     (\<forall>p c s h n ks n'. u_get_keys_paged U p c s h n = (Inr ks, n') \<longrightarrow>
        ks = take (unat c) (keys_after s (chain_keys C h p))) \<and>
     (\<forall>m n h n'. u_get_block_hash U m n = (Inr h, n') \<longrightarrow> h = ch_hash C m) \<and>
     (\<forall>h n b n'. u_get_block U h n = (Inr b, n') \<longrightarrow> b = ch_block C h) \<and>
     (\<forall>h n b n'. u_get_header U h n = (Inr b, n') \<longrightarrow> b = map_option nb_header (ch_block C h))"

lemma honestD:
  assumes "honest U C"
  shows "wf_chain C"
    and "u_get_storage U k h n = (Inr v, n') \<Longrightarrow> v = chain_value C h k"
    and "u_query_storage_at U ks h n = (Inr css, n') \<Longrightarrow> k \<in> set ks \<Longrightarrow>
      Option.bind (collect_map (concat css) k) (\<lambda>v. v) = chain_value C h k"
    and "u_get_keys_paged U p c s h n = (Inr ks, n') \<Longrightarrow>
      ks = take (unat c) (keys_after s (chain_keys C h p))"
    and "u_get_block_hash U m n = (Inr h', n') \<Longrightarrow> h' = ch_hash C m"
    and "u_get_block U h n = (Inr b, n') \<Longrightarrow> b = ch_block C h"
    and "u_get_header U h n = (Inr b', n') \<Longrightarrow> b' = map_option nb_header (ch_block C h)"
  using assms unfolding honest_def by - ((elim conjE)?, meson | fast)+

lemma request_Inr [simp]: "request method m s = (Inr x, s') \<longleftrightarrow> m s = (Inr x, s')"
  by (simp add: request_def)

lemma storage_honest: "honest U C \<Longrightarrow> rpc_storage U k h n = (Inr v, n') \<Longrightarrow> v = chain_value C h k"
  unfolding rpc_storage_def request_Inr by (rule honestD)

lemma storage_batch_honest:
  assumes "honest U C" and "storage_batch U ks h n = (Inr vs, n')"
  shows "vs = map (chain_value C h) ks"
  using assms(2) honestD(3) [OF assms(1)]
  by (auto simp: storage_batch_def Inr_simps Let_def split: if_splits)

lemma storage_keys_paged_honest:
  "honest U C \<Longrightarrow> storage_keys_paged U p c s h n = (Inr ks, n') \<Longrightarrow>
     ks = take (unat c) (keys_after s (chain_keys C h p))"
  unfolding storage_keys_paged_def request_Inr by (rule honestD)

lemma block_by_hash_honest:
  "honest U C \<Longrightarrow> block_by_hash U h n = (Inr b, n') \<Longrightarrow> b = ch_block C h"
  unfolding block_by_hash_def request_Inr by (rule honestD)

lemma block_hash_at_honest:
  "honest U C \<Longrightarrow> block_hash_at U m n = (Inr h, n') \<Longrightarrow> h = ch_hash C m"
  unfolding block_hash_at_def request_Inr by (rule honestD)

lemma header_honest:
  assumes "honest U C" and "rpc_header U h n = (Inr hdr, n')"
  shows "map_option nb_header (ch_block C h) = Some hdr"
proof -
  have "u_get_header U h n = (Inr (Some hdr), n')"
    using assms(2) by (auto simp: rpc_header_def Inr_simps split: option.splits)
  then show ?thesis by (simp add: honestD(7) [OF assms(1), symmetric])
qed

lemma block_by_number_honest:
  assumes "honest U C" and "block_by_number U m n = (Inr r, n')"
  shows "r = Option.bind (ch_hash C m) (\<lambda>h. map_option (\<lambda>b. (h, b)) (ch_block C h))"
proof -
  obtain ho n1 where ho: "block_hash_at U m n = (Inr ho, n1)"
    using assms(2) by (auto simp: block_by_number_def Inr_simps)
  with block_hash_at_honest [OF assms(1)] have "ho = ch_hash C m" by blast
  with ho assms(2) show ?thesis
    by (auto simp: block_by_number_def Inr_simps split: option.splits dest!: honestD(6) [OF assms(1)])
qed

text \<open>A reconnect asks the node first and opens a connection only when it does not answer.\<close>

lemma reconnect_cases:
  "reconnect U n = (case u_system_chain U n of
     (Inr _, n1) \<Rightarrow> (Inr (), n1)
   | (Inl _, n1) \<Rightarrow> create_connection U (u_endpoint U) n1)"
  by (auto simp: reconnect_def prog_simps split: prod.splits sum.splits)

end
