(* ===== verification/Remote_Layer.thy ===== *)
theory Remote_Layer
  imports Cache_Laws Rpc_Client
begin

text \<open>
  The remote storage layer, \<^verbatim>\<open>crates/pop-fork/src/remote.rs\<close>: reads of the forked chain
  through the SQLite cache, with the speculative prefetch of a storage item's first page,
  the resumable prefix scan, and the retry after a reconnect. The state is the cache, the
  network and the access counters, which all clones of the layer share.
\<close>

section \<open>State, counters and errors\<close>

definition DEFAULT_PREFETCH_PAGE_SIZE :: u32 where
  "DEFAULT_PREFETCH_PAGE_SIZE = 1000"

definition MIN_STORAGE_KEY_PREFIX_LEN :: nat where
  "MIN_STORAGE_KEY_PREFIX_LEN = 32"

record storage_stats =
  cache_hits :: u64
  prefetch_hits :: u64
  rpc_misses :: u64
  next_key_cache :: u64
  next_key_rpc :: u64

definition zero_stats :: storage_stats where
  "zero_stats = \<lparr>cache_hits = 0, prefetch_hits = 0, rpc_misses = 0, next_key_cache = 0,
     next_key_rpc = 0\<rparr>"

record 'n remote =
  r_cache :: cache
  r_net :: 'n
  r_stats :: storage_stats

text \<open>\<open>RemotePanic\<close> is the panic of \<open>H256::from_slice\<close> on a stored hash of the wrong width.\<close>

datatype remote_error =
    RpcErr rpc_error
  | CacheErr cache_error
  | RemotePanic

definition new_remote :: "'n \<Rightarrow> cache \<Rightarrow> 'n remote" where
  "new_remote rpc c = \<lparr>r_cache = c, r_net = rpc, r_stats = zero_stats\<rparr>"

definition stats :: "('n remote, 'e, storage_stats) prog" where
  "stats = gets r_stats"

definition reset_stats :: "('n remote, 'e, unit) prog" where
  "reset_stats = modify (\<lambda>s. s\<lparr>r_stats := zero_stats\<rparr>)"

text \<open>\<open>self.cache.op(..).await?\<close> and \<open>self.rpc.op(..).await?\<close>.\<close>

definition cached :: "(cache, cache_error, 'a) prog \<Rightarrow> ('n remote, remote_error, 'a) prog" where
  "cached m = map_err CacheErr (on_field r_cache (\<lambda>c s. s\<lparr>r_cache := c\<rparr>) m)"

definition rpc :: "('n, rpc_error, 'a) prog \<Rightarrow> ('n remote, remote_error, 'a) prog" where
  "rpc m = map_err RpcErr (on_field r_net (\<lambda>n s. s\<lparr>r_net := n\<rparr>) m)"

definition count_stat :: "(storage_stats \<Rightarrow> storage_stats) \<Rightarrow> ('n remote, remote_error, unit) prog" where
  "count_stat f = modify (\<lambda>s. s\<lparr>r_stats := f (r_stats s)\<rparr>)"

text \<open>\<open>match call { Ok(v) => v, Err(_) => { reconnect?; call? } }\<close>.\<close>

definition with_reconnect ::
  "('n, 'm) upstream \<Rightarrow> ('n, rpc_error, 'a) prog \<Rightarrow> ('n remote, remote_error, 'a) prog" where
  "with_reconnect U call =
     matchE (rpc call) (\<lambda>_. bindE (rpc (reconnect U)) (\<lambda>_. rpc call)) ret"

section \<open>Prefix scans\<close>

text \<open>
  The part of a page both scans share: fetch the values of the keys, cache them, record the
  last key and whether the page was the last one.
\<close>

definition cache_page ::
  "('n, 'm) upstream \<Rightarrow> h256 \<Rightarrow> bytes \<Rightarrow> bytes list \<Rightarrow> bool \<Rightarrow> ('n remote, remote_error, unit) prog" where
  "cache_page U block_hash pre keys is_last_page =
     bindE (with_reconnect U (storage_batch U keys block_hash)) (\<lambda>values.
     bindE (cached (set_storage_batch block_hash (zip keys values))) (\<lambda>_.
     cached (update_prefix_scan block_hash pre (last keys) is_last_page)))"

text \<open>One turn of the loop: \<open>None\<close> breaks out, \<open>Some\<close> is the start key of the next turn.\<close>

definition prefetch_step ::
  "('n, 'm) upstream \<Rightarrow> h256 \<Rightarrow> bytes \<Rightarrow> u32 \<Rightarrow> bytes option \<Rightarrow>
     ('n remote, remote_error, bytes option) prog" where
  "prefetch_step U block_hash pre page_size start_key =
     bindE (with_reconnect U (storage_keys_paged U pre page_size start_key block_hash)) (\<lambda>keys.
     if keys = []
     then (if start_key = None
           then bindE (cached (update_prefix_scan block_hash pre pre True)) (\<lambda>_. ret None)
           else ret None)
     else
       let is_last_page = length keys < unat page_size in
       bindE (cache_page U block_hash pre keys is_last_page) (\<lambda>_.
       ret (if is_last_page then None else Some (last keys))))"

partial_function (option) prefetch_loop ::
  "('n, 'm) upstream \<Rightarrow> h256 \<Rightarrow> bytes \<Rightarrow> u32 \<Rightarrow> bytes option \<Rightarrow>
     ('n remote, remote_error, unit) loop_prog" where
  "prefetch_loop U block_hash pre page_size start_key s =
     (case prefetch_step U block_hash pre page_size start_key s of
        (Inl e, s') \<Rightarrow> Some (Inl e, s')
      | (Inr None, s') \<Rightarrow> Some (Inr (), s')
      | (Inr (Some next), s') \<Rightarrow> prefetch_loop U block_hash pre page_size (Some next) s')"

definition prefetch_prefix ::
  "('n, 'm) upstream \<Rightarrow> h256 \<Rightarrow> bytes \<Rightarrow> u32 \<Rightarrow> ('n remote, remote_error, nat) loop_prog" where
  "prefetch_prefix U block_hash pre page_size =
     bindL (returns (cached (get_prefix_scan_progress block_hash pre))) (\<lambda>progress.
     if (case progress of Some p \<Rightarrow> is_complete p | None \<Rightarrow> False)
     then returns (cached (count_keys_by_prefix block_hash pre))
     else
       bindL (prefetch_loop U block_hash pre page_size (Option.bind progress last_scanned_key))
         (\<lambda>_. returns (cached (count_keys_by_prefix block_hash pre))))"

definition prefetch_prefix_single_page ::
  "('n, 'm) upstream \<Rightarrow> h256 \<Rightarrow> bytes \<Rightarrow> u32 \<Rightarrow> ('n remote, remote_error, nat) prog" where
  "prefetch_prefix_single_page U block_hash pre page_size =
     bindE (cached (get_prefix_scan_progress block_hash pre)) (\<lambda>progress.
     case progress of
       Some p \<Rightarrow> (if is_complete p then cached (count_keys_by_prefix block_hash pre) else ret 0)
     | None \<Rightarrow>
         bindE (with_reconnect U (storage_keys_paged U pre page_size None block_hash)) (\<lambda>keys.
         if keys = []
         then bindE (cached (update_prefix_scan block_hash pre pre True)) (\<lambda>_. ret 0)
         else bindE (cache_page U block_hash pre keys (length keys < unat page_size))
                (\<lambda>_. ret (length keys))))"

definition get_keys ::
  "('n, 'm) upstream \<Rightarrow> h256 \<Rightarrow> bytes \<Rightarrow> ('n remote, remote_error, bytes list) loop_prog" where
  "get_keys U block_hash pre =
     bindL (prefetch_prefix U block_hash pre DEFAULT_PREFETCH_PAGE_SIZE) (\<lambda>_.
     returns (cached (get_keys_by_prefix block_hash pre)))"

section \<open>Reads\<close>

text \<open>
  The speculative part of \<open>get\<close>: a failing prefetch is swallowed, a failing cache read is not.
\<close>

definition speculate ::
  "('n, 'm) upstream \<Rightarrow> h256 \<Rightarrow> bytes \<Rightarrow> ('n remote, remote_error, bytes option option) prog" where
  "speculate U block_hash key =
     (if MIN_STORAGE_KEY_PREFIX_LEN \<le> length key
      then
        let pre = take MIN_STORAGE_KEY_PREFIX_LEN key in
        bindE (cached (get_prefix_scan_progress block_hash pre)) (\<lambda>progress.
        if progress = None
        then matchE (prefetch_prefix_single_page U block_hash pre DEFAULT_PREFETCH_PAGE_SIZE)
               (\<lambda>_. ret None)
               (\<lambda>_. bindE (cached (get_storage block_hash key)) (\<lambda>found.
                    case found of
                      Some v \<Rightarrow> bindE (count_stat (\<lambda>t. t\<lparr>prefetch_hits := prefetch_hits t + 1\<rparr>))
                                  (\<lambda>_. ret (Some v))
                    | None \<Rightarrow> ret None))
        else ret None)
      else ret None)"

definition remote_get ::
  "('n, 'm) upstream \<Rightarrow> h256 \<Rightarrow> bytes \<Rightarrow> ('n remote, remote_error, bytes option) prog" where
  "remote_get U block_hash key =
     bindE (cached (get_storage block_hash key)) (\<lambda>found.
     case found of
       Some v \<Rightarrow> bindE (count_stat (\<lambda>t. t\<lparr>cache_hits := cache_hits t + 1\<rparr>)) (\<lambda>_. ret v)
     | None \<Rightarrow>
         bindE (speculate U block_hash key) (\<lambda>found.
         case found of
           Some v \<Rightarrow> ret v
         | None \<Rightarrow>
             bindE (count_stat (\<lambda>t. t\<lparr>rpc_misses := rpc_misses t + 1\<rparr>)) (\<lambda>_.
             bindE (with_reconnect U (rpc_storage U key block_hash)) (\<lambda>value.
             bindE (cached (set_storage block_hash key value)) (\<lambda>_. ret value)))))"

text \<open>
  The indices are those of the cached results that are \<open>None\<close>; \<open>storage_batch\<close> answers one
  value per key, so that the zips drop nothing.
\<close>

definition remote_get_batch ::
  "('n, 'm) upstream \<Rightarrow> h256 \<Rightarrow> bytes list \<Rightarrow> ('n remote, remote_error, bytes option list) prog" where
  "remote_get_batch U block_hash keys =
     (if keys = [] then ret []
      else
        bindE (cached (get_storage_batch block_hash keys)) (\<lambda>cached_results.
        let uncached_indices = filter (\<lambda>i. cached_results ! i = None) [0..<length cached_results];
            uncached_keys = map (\<lambda>i. keys ! i) uncached_indices;
            flat = map (\<lambda>c. Option.bind c (\<lambda>v. v)) cached_results
        in if uncached_keys = [] then ret flat
           else
             bindE (with_reconnect U (storage_batch U uncached_keys block_hash)) (\<lambda>fetched_values.
             bindE (cached (set_storage_batch block_hash (zip uncached_keys fetched_values))) (\<lambda>_.
             ret (foldl (\<lambda>results (idx, v). results[idx := v]) flat
                    (zip uncached_indices fetched_values))))))"

text \<open>The candidate prefixes: the exact one, then its first 32 and 16 bytes.\<close>

fun scan_covers ::
  "h256 \<Rightarrow> bytes \<Rightarrow> nat list \<Rightarrow> ('n remote, remote_error, bool) prog" where
  "scan_covers block_hash pre [] = ret False"
| "scan_covers block_hash pre (len # lens) =
     (if length pre < len then scan_covers block_hash pre lens
      else
        bindE (cached (get_prefix_scan_progress block_hash (take len pre))) (\<lambda>progress.
        if (case progress of Some p \<Rightarrow> is_complete p | None \<Rightarrow> False) then ret True
        else scan_covers block_hash pre lens))"

definition remote_next_key ::
  "('n, 'm) upstream \<Rightarrow> h256 \<Rightarrow> bytes \<Rightarrow> bytes \<Rightarrow> ('n remote, remote_error, bytes option) prog" where
  "remote_next_key U block_hash pre key =
     bindE (scan_covers block_hash pre [length pre, 32, 16]) (\<lambda>covered.
     if covered
     then bindE (count_stat (\<lambda>t. t\<lparr>next_key_cache := next_key_cache t + 1\<rparr>)) (\<lambda>_.
          cached (next_key_from_cache block_hash pre key))
     else
       bindE (count_stat (\<lambda>t. t\<lparr>next_key_rpc := next_key_rpc t + 1\<rparr>)) (\<lambda>_.
       bindE (with_reconnect U (storage_keys_paged U pre 1 (Some key) block_hash)) (\<lambda>keys.
       ret (case keys of [] \<Rightarrow> None | k # _ \<Rightarrow> Some k))))"

section \<open>Blocks\<close>

definition fetch_and_cache_block_by_number ::
  "('n, 'm) upstream \<Rightarrow> u32 \<Rightarrow> ('n remote, remote_error, block_row option) prog" where
  "fetch_and_cache_block_by_number U block_number =
     bindE (rpc (block_by_number U block_number)) (\<lambda>found.
     case found of
       None \<Rightarrow> ret None
     | Some (block_hash, block) \<Rightarrow>
         let hdr = nb_header block;
             header_encoded = u_encode_header U hdr
         in bindE (cached (cache_block block_hash block_number (nh_parent_hash hdr) header_encoded)) (\<lambda>_.
            ret (Some (block_row_of block_hash block_number (nh_parent_hash hdr) header_encoded))))"

definition remote_block_body ::
  "('n, 'm) upstream \<Rightarrow> h256 \<Rightarrow> ('n remote, remote_error, bytes list option) prog" where
  "remote_block_body U hash =
     bindE (rpc (block_by_hash U hash)) (\<lambda>block. ret (map_option nb_extrinsics block))"

definition remote_block_header ::
  "('n, 'm) upstream \<Rightarrow> h256 \<Rightarrow> ('n remote, remote_error, bytes option) prog" where
  "remote_block_header U hash =
     matchE (on_field r_net (\<lambda>n s. s\<lparr>r_net := n\<rparr>) (rpc_header U hash))
       (\<lambda>e. case e of InvalidResponse _ \<Rightarrow> ret None | _ \<Rightarrow> fail (RpcErr e))
       (\<lambda>h. ret (Some (u_encode_header U h)))"

definition block_hash_by_number ::
  "('n, 'm) upstream \<Rightarrow> u32 \<Rightarrow> ('n remote, remote_error, h256 option) prog" where
  "block_hash_by_number U block_number = rpc (block_hash_at U block_number)"

text \<open>\<open>block.number as u32\<close> truncates; the row has been checked to fit.\<close>

definition block_number_by_hash ::
  "('n, 'm) upstream \<Rightarrow> h256 \<Rightarrow> ('n remote, remote_error, u32 option) prog" where
  "block_number_by_hash U hash =
     bindE (cached (get_block hash)) (\<lambda>found.
     case found of
       Some row \<Rightarrow> ret (Some (word_of_int (br_number row)))
     | None \<Rightarrow>
         bindE (rpc (block_by_hash U hash)) (\<lambda>block.
         case block of
           Some b \<Rightarrow>
             let hdr = nb_header b in
             bindE (cached (cache_block hash (nh_number hdr) (nh_parent_hash hdr)
                      (u_encode_header U hdr))) (\<lambda>_.
             ret (Some (nh_number hdr)))
         | None \<Rightarrow> ret None))"

definition remote_parent_hash ::
  "('n, 'm) upstream \<Rightarrow> h256 \<Rightarrow> ('n remote, remote_error, h256 option) prog" where
  "remote_parent_hash U hash =
     bindE (cached (get_block hash)) (\<lambda>found.
     case found of
       Some row \<Rightarrow> (case h256_from_slice (br_parent_hash row) of
                      Some p \<Rightarrow> ret (Some p) | None \<Rightarrow> fail RemotePanic)
     | None \<Rightarrow>
         bindE (rpc (block_by_hash U hash)) (\<lambda>block.
         case block of
           Some b \<Rightarrow>
             let hdr = nb_header b in
             bindE (cached (cache_block hash (nh_number hdr) (nh_parent_hash hdr)
                      (u_encode_header U hdr))) (\<lambda>_.
             ret (Some (nh_parent_hash hdr)))
         | None \<Rightarrow> ret None))"

definition remote_block_by_number ::
  "('n, 'm) upstream \<Rightarrow> u32 \<Rightarrow> ('n remote, remote_error, (h256 \<times> node_block) option) prog" where
  "remote_block_by_number U block_number = rpc (block_by_number U block_number)"

definition remote_finalized_head :: "('n, 'm) upstream \<Rightarrow> ('n remote, remote_error, h256) prog" where
  "remote_finalized_head U = rpc (finalized_head U)"

definition remote_metadata :: "('n, 'm) upstream \<Rightarrow> h256 \<Rightarrow> ('n remote, remote_error, 'm) prog" where
  "remote_metadata U block_hash = rpc (rpc_metadata U block_hash)"

end
