(* ===== verification/Local_Layer.thy ===== *)
theory Local_Layer
  imports Remote_Layer
begin

text \<open>
  The local storage layer, \<^verbatim>\<open>crates/pop-fork/src/local.rs\<close>: the modifications of the
  block being built, the deleted prefixes and the metadata versions, on top of the remote
  layer and of the validity intervals of committed blocks. All clones of a layer share
  these maps (the state \<open>fork\<close>); the fork point and the current block number belong to
  each clone (the handle \<open>layer\<close>).
\<close>

section \<open>State\<close>

definition ONE_BLOCK :: u32 where
  "ONE_BLOCK = 1"

record shared_value =
  last_modification_block :: u32
  sv_value :: "bytes option"

type_synonym modification_map = "(bytes \<times> shared_value option) list"

datatype local_error =
    Arithmetic
  | LCache cache_error
  | LRemote remote_error
  | LRpc rpc_error
  | LockError string
  | MetadataNotFound string
  | LocalPanic

text \<open>
  The three shared maps, each behind its lock; a poisoned lock makes every access to its map
  an error.
\<close>

record ('n, 'm) fork =
  f_remote :: "'n remote"
  modifications :: modification_map
  deleted_prefixes :: "bytes list"
  metadata_versions :: "(u32 \<times> 'm) list"
  modifications_poisoned :: bool
  prefixes_poisoned :: bool
  versions_poisoned :: bool

record layer =
  first_forked_block_hash :: h256
  first_forked_block_number :: u32
  current_block_number :: u32

text \<open>The sum of two \<open>u32\<close> without a check is the wrapping one of a release build.\<close>

definition new_layer :: "'n remote \<Rightarrow> u32 \<Rightarrow> h256 \<Rightarrow> 'm \<Rightarrow> layer \<times> ('n, 'm) fork" where
  "new_layer parent number hash metadata =
     (\<lparr>first_forked_block_hash = hash, first_forked_block_number = number,
       current_block_number = number + 1\<rparr>,
      \<lparr>f_remote = parent, modifications = [], deleted_prefixes = [],
       metadata_versions = btree_insert number metadata [],
       modifications_poisoned = False, prefixes_poisoned = False, versions_poisoned = False\<rparr>)"

definition parent :: "('n remote, remote_error, 'a) prog \<Rightarrow> (('n, 'm) fork, local_error, 'a) prog" where
  "parent m = map_err LRemote (on_field f_remote (\<lambda>r s. s\<lparr>f_remote := r\<rparr>) m)"

definition on_cache :: "(cache, cache_error, 'a) prog \<Rightarrow> (('n, 'm) fork, local_error, 'a) prog" where
  "on_cache m = map_err LCache (on_field f_remote (\<lambda>r s. s\<lparr>f_remote := r\<rparr>)
     (on_field r_cache (\<lambda>c r. r\<lparr>r_cache := c\<rparr>) m))"

definition on_rpc :: "('n, rpc_error, 'a) prog \<Rightarrow> (('n, 'm) fork, local_error, 'a) prog" where
  "on_rpc m = map_err LRpc (on_field f_remote (\<lambda>r s. s\<lparr>f_remote := r\<rparr>)
     (on_field r_net (\<lambda>n r. r\<lparr>r_net := n\<rparr>) m))"

definition lock :: "(('n, 'm) fork \<Rightarrow> bool) \<Rightarrow> (('n, 'm) fork, local_error, unit) prog" where
  "lock poisoned = bindE (gets poisoned) (\<lambda>p.
     if p then fail (LockError ''poisoned lock'') else ret ())"

section \<open>Blocks and metadata\<close>

definition layer_get_block ::
  "('n, 'm) upstream \<Rightarrow> u32 \<Rightarrow> (('n, 'm) fork, local_error, block_row option) prog" where
  "layer_get_block U block_number =
     bindE (on_cache (get_block_by_number block_number)) (\<lambda>found.
     case found of
       Some row \<Rightarrow> ret (Some row)
     | None \<Rightarrow> parent (fetch_and_cache_block_by_number U block_number))"

definition fetch_remote_metadata ::
  "('n, 'm) upstream \<Rightarrow> u32 \<Rightarrow> (('n, 'm) fork, local_error, 'm) prog" where
  "fetch_remote_metadata U block_number =
     bindE (on_rpc (block_hash_at U block_number)) (\<lambda>found.
     case found of
       None \<Rightarrow> fail (MetadataNotFound ''block not found on remote node'')
     | Some block_hash \<Rightarrow> on_rpc (rpc_metadata U block_hash))"

text \<open>\<open>versions.range(..=block_number).next_back()\<close>.\<close>

definition version_at :: "u32 \<Rightarrow> (u32 \<times> 'm) list \<Rightarrow> 'm option" where
  "version_at block_number versions =
     (case filter (\<lambda>(b, _). b \<le> block_number) versions of
        [] \<Rightarrow> None | vs \<Rightarrow> Some (snd (last vs)))"

definition metadata_at ::
  "('n, 'm) upstream \<Rightarrow> layer \<Rightarrow> u32 \<Rightarrow> (('n, 'm) fork, local_error, 'm) prog" where
  "metadata_at U L block_number =
     (if block_number < first_forked_block_number L then fetch_remote_metadata U block_number
      else
        bindE (lock versions_poisoned) (\<lambda>_.
        bindE (gets metadata_versions) (\<lambda>versions.
        case version_at block_number versions of
          Some m \<Rightarrow> ret m
        | None \<Rightarrow> fail (MetadataNotFound ''no metadata found for block''))))"

definition register_metadata_version :: "u32 \<Rightarrow> 'm \<Rightarrow> (('n, 'm) fork, local_error, unit) prog" where
  "register_metadata_version block_number m =
     bindE (lock versions_poisoned) (\<lambda>_.
     modify (\<lambda>s. s\<lparr>metadata_versions := btree_insert block_number m (metadata_versions s)\<rparr>))"

definition has_code_changed_at :: "u32 \<Rightarrow> (('n, 'm) fork, local_error, bool) prog" where
  "has_code_changed_at block_number =
     bindE (lock modifications_poisoned) (\<lambda>_.
     gets (\<lambda>s. case map_of (modifications s) CODE of
       Some (Some v) \<Rightarrow> last_modification_block v = block_number | _ \<Rightarrow> False))"

section \<open>Reads\<close>

text \<open>
  \<open>Some (Some v)\<close>: a modification valid at the block; \<open>Some None\<close>: a key under a deleted
  prefix; \<open>None\<close>: the local maps do not say.
\<close>

definition local_modification ::
  "layer \<Rightarrow> modification_map \<Rightarrow> bytes list \<Rightarrow> bytes \<Rightarrow> u32 \<Rightarrow> shared_value option option" where
  "local_modification L mods prefixes key block_number =
     (case map_of mods key of
        Some (Some v) \<Rightarrow>
          (if current_block_number L = block_number \<or> last_modification_block v < block_number
           then Some (Some v) else None)
      | Some None \<Rightarrow> None
      | None \<Rightarrow> (if list_ex (starts_with key) prefixes then Some None else None))"

definition get_local_modification ::
  "layer \<Rightarrow> bytes \<Rightarrow> u32 \<Rightarrow> (('n, 'm) fork, local_error, shared_value option option) prog" where
  "get_local_modification L key block_number =
     bindE (lock modifications_poisoned) (\<lambda>_.
     bindE (lock prefixes_poisoned) (\<lambda>_.
     gets (\<lambda>s. local_modification L (modifications s) (deleted_prefixes s) key block_number)))"

text \<open>A value of the remote layer or of the cache as a shared value.\<close>

definition outside_value :: "bytes option \<Rightarrow> shared_value" where
  "outside_value v = \<lparr>last_modification_block = 0, sv_value = v\<rparr>"

definition remote_value :: "bytes option \<Rightarrow> shared_value option" where
  "remote_value v = map_option (\<lambda>b. outside_value (Some b)) v"

text \<open>
  The three cases after the local maps. A lock error of the first step is not reported: the
  code only asks whether it returned a modification.
\<close>

definition layer_get ::
  "('n, 'm) upstream \<Rightarrow> layer \<Rightarrow> u32 \<Rightarrow> bytes \<Rightarrow> (('n, 'm) fork, local_error, shared_value option) prog" where
  "layer_get U L block_number key =
     (let latest_block_number = current_block_number L;
          beyond =
            (if block_number = latest_block_number
             then bindE (parent (remote_get U (first_forked_block_hash L) key)) (\<lambda>v. ret (remote_value v))
             else if first_forked_block_number L < block_number \<and> block_number < latest_block_number
             then
               bindE (on_cache (get_local_value_at_block key block_number)) (\<lambda>found.
               case found of
                 Some local_value \<Rightarrow> ret (Some (outside_value local_value))
               | None \<Rightarrow> bindE (parent (remote_get U (first_forked_block_hash L) key)) (\<lambda>v. ret (remote_value v)))
             else
               bindE (layer_get_block U block_number) (\<lambda>block.
               case block of
                 Some block_row \<Rightarrow>
                   (case h256_from_slice (br_hash block_row) of
                      Some block_hash \<Rightarrow>
                        bindE (parent (remote_get U block_hash key)) (\<lambda>v. ret (remote_value v))
                    | None \<Rightarrow> fail LocalPanic)
               | None \<Rightarrow> ret None))
      in matchE (get_local_modification L key block_number)
           (\<lambda>_. beyond)
           (\<lambda>found. case found of Some m \<Rightarrow> ret m | None \<Rightarrow> beyond))"

definition overwrite_at :: "'a list \<Rightarrow> (nat \<times> 'a) list \<Rightarrow> 'a list" where
  "overwrite_at xs ivs = foldl (\<lambda>rs (i, v). rs[i := v]) xs ivs"

definition missing_indices :: "'a option list \<Rightarrow> nat list" where
  "missing_indices local = filter (\<lambda>i. local ! i = None) [0..<length local]"

text \<open>
  The parts of \<open>get_batch\<close>: the keys the local maps do not know, from the remote layer at the
  fork point (latest block), from the local tables and then, one by one, from the remote
  layer (past block of the fork), and all keys from the remote layer (other blocks).
\<close>

definition batch_from_remote ::
  "('n, 'm) upstream \<Rightarrow> h256 \<Rightarrow> shared_value option list \<Rightarrow> nat list \<Rightarrow> bytes list \<Rightarrow>
     (('n, 'm) fork, local_error, shared_value option list) prog" where
  "batch_from_remote U at_fork results non_local_indices non_local_keys =
     (if non_local_keys = [] then ret results
      else
        bindE (parent (remote_get_batch U at_fork non_local_keys)) (\<lambda>parent_values.
        ret (overwrite_at results (zip non_local_indices (map remote_value parent_values)))))"

definition batch_from_cache ::
  "u32 \<Rightarrow> shared_value option list \<Rightarrow> nat list \<Rightarrow> bytes list \<Rightarrow>
     (('n, 'm) fork, local_error, shared_value option list) prog" where
  "batch_from_cache block_number results non_local_indices non_local_keys =
     (if non_local_keys = [] then ret results
      else
        bindE (on_cache (get_local_values_at_block_batch non_local_keys block_number)) (\<lambda>cached_values.
        ret (overwrite_at results
          (zip non_local_indices (map (map_option outside_value) cached_values)))))"

definition fill_from_remote ::
  "('n, 'm) upstream \<Rightarrow> h256 \<Rightarrow> shared_value option list \<Rightarrow> bytes list \<Rightarrow>
     (('n, 'm) fork, local_error, shared_value option list) prog" where
  "fill_from_remote U at_fork results keys =
     each (\<lambda>(value, key). if value \<noteq> None then ret value
             else bindE (parent (remote_get U at_fork key)) (\<lambda>v. ret (remote_value v)))
       (zip results keys)"

definition batch_at_block ::
  "('n, 'm) upstream \<Rightarrow> u32 \<Rightarrow> bytes list \<Rightarrow> (('n, 'm) fork, local_error, shared_value option list) prog" where
  "batch_at_block U block_number keys =
     bindE (layer_get_block U block_number) (\<lambda>block.
     case block of
       Some block_row \<Rightarrow>
         (case h256_from_slice (br_hash block_row) of
            Some block_hash \<Rightarrow>
              bindE (parent (remote_get_batch U block_hash keys)) (\<lambda>parent_values.
              ret (map remote_value parent_values))
          | None \<Rightarrow> fail LocalPanic)
     | None \<Rightarrow> ret (replicate (length keys) None))"

definition layer_get_batch ::
  "('n, 'm) upstream \<Rightarrow> layer \<Rightarrow> u32 \<Rightarrow> bytes list \<Rightarrow>
     (('n, 'm) fork, local_error, shared_value option list) prog" where
  "layer_get_batch U L block_number keys =
     (if keys = [] then ret []
      else
        bindE (each (\<lambda>key. get_local_modification L key block_number) keys) (\<lambda>local.
        let latest_block_number = current_block_number L;
            at_fork = first_forked_block_hash L;
            results = map (\<lambda>m. Option.bind m (\<lambda>v. v)) local;
            non_local_indices = missing_indices local;
            non_local_keys = map (\<lambda>i. keys ! i) non_local_indices
        in if block_number = latest_block_number
           then batch_from_remote U at_fork results non_local_indices non_local_keys
           else if first_forked_block_number L < block_number \<and> block_number < latest_block_number
           then bindE (batch_from_cache block_number results non_local_indices non_local_keys)
                  (\<lambda>results. fill_from_remote U at_fork results keys)
           else batch_at_block U block_number keys))"

text \<open>The loop over the parent's keys that skips the deleted ones.\<close>

partial_function (option) next_key_loop ::
  "('n, 'm) upstream \<Rightarrow> layer \<Rightarrow> bytes list \<Rightarrow> bytes \<Rightarrow> bytes \<Rightarrow>
     (('n, 'm) fork, local_error, bytes option) loop_prog" where
  "next_key_loop U L deleted pre current_key s =
     (case parent (remote_next_key U (first_forked_block_hash L) pre current_key) s of
        (Inl e, s') \<Rightarrow> Some (Inl e, s')
      | (Inr None, s') \<Rightarrow> Some (Inr None, s')
      | (Inr (Some next_key), s') \<Rightarrow>
          if list_ex (starts_with next_key) deleted
          then next_key_loop U L deleted pre next_key s'
          else Some (Inr (Some next_key), s'))"

definition layer_next_key ::
  "('n, 'm) upstream \<Rightarrow> layer \<Rightarrow> bytes \<Rightarrow> bytes \<Rightarrow>
     (('n, 'm) fork, local_error, bytes option) loop_prog" where
  "layer_next_key U L pre key =
     bindL (returns (lock prefixes_poisoned)) (\<lambda>_.
     bindL (returns (gets deleted_prefixes)) (\<lambda>deleted. next_key_loop U L deleted pre key))"

text \<open>A \<open>BTreeSet\<close> poured out: the keys in order, each once.\<close>

definition btree_set :: "bytes list \<Rightarrow> bytes list" where
  "btree_set ks = sort (remdups ks)"

definition is_live :: "shared_value option \<Rightarrow> bool" where
  "is_live v = (case v of Some sv \<Rightarrow> sv_value sv \<noteq> None | None \<Rightarrow> False)"

definition is_locally_deleted :: "modification_map \<Rightarrow> bytes \<Rightarrow> bool" where
  "is_locally_deleted mods key =
     (case map_of mods key of Some (Some sv) \<Rightarrow> sv_value sv = None | _ \<Rightarrow> False)"

definition merge_in_memory :: "modification_map \<Rightarrow> bytes list \<Rightarrow> bytes list \<Rightarrow> bytes \<Rightarrow> bytes list" where
  "merge_in_memory mods prefixes remote_keys pre =
     btree_set
       (filter (\<lambda>k. \<not> list_ex (starts_with k) prefixes \<and> \<not> is_locally_deleted mods k) remote_keys @
        map fst (filter (\<lambda>(key, v). starts_with key pre \<and> is_live v) mods))"

definition merge_keys_with_in_memory ::
  "bytes list \<Rightarrow> bytes \<Rightarrow> (('n, 'm) fork, local_error, bytes list) prog" where
  "merge_keys_with_in_memory remote_keys pre =
     bindE (lock modifications_poisoned) (\<lambda>_.
     bindE (lock prefixes_poisoned) (\<lambda>_.
     gets (\<lambda>s. merge_in_memory (modifications s) (deleted_prefixes s) remote_keys pre)))"

definition merge_keys_with_cache ::
  "bytes list \<Rightarrow> bytes \<Rightarrow> u32 \<Rightarrow> (('n, 'm) fork, local_error, bytes list) prog" where
  "merge_keys_with_cache remote_keys pre block_number =
     bindE (on_cache (get_local_keys_at_block pre block_number)) (\<lambda>local_live_keys.
     bindE (on_cache (get_local_deleted_keys_at_block pre block_number)) (\<lambda>local_deleted_keys.
     ret (btree_set (filter (\<lambda>k. k \<notin> set local_deleted_keys) remote_keys @ local_live_keys))))"

definition keys_by_prefix ::
  "('n, 'm) upstream \<Rightarrow> layer \<Rightarrow> bytes \<Rightarrow> u32 \<Rightarrow> (('n, 'm) fork, local_error, bytes list) loop_prog" where
  "keys_by_prefix U L pre block_number =
     bindL (map_errL LRemote (on_fieldL f_remote (\<lambda>r s. s\<lparr>f_remote := r\<rparr>)
              (get_keys U (first_forked_block_hash L) pre))) (\<lambda>remote_keys.
     returns
       (if current_block_number L \<le> block_number then merge_keys_with_in_memory remote_keys pre
        else merge_keys_with_cache remote_keys pre block_number))"

section \<open>Writes\<close>

definition put_modification :: "u32 \<Rightarrow> bytes \<Rightarrow> bytes option \<Rightarrow> ('n, 'm) fork \<Rightarrow> ('n, 'm) fork" where
  "put_modification b key value s =
     s\<lparr>modifications := alist_insert key
         (Some \<lparr>last_modification_block = b, sv_value = value\<rparr>) (modifications s)\<rparr>"

definition layer_set :: "layer \<Rightarrow> bytes \<Rightarrow> bytes option \<Rightarrow> (('n, 'm) fork, local_error, unit) prog" where
  "layer_set L key value =
     bindE (lock modifications_poisoned) (\<lambda>_.
     modify (put_modification (current_block_number L) key value))"

definition set_initial :: "layer \<Rightarrow> bytes \<Rightarrow> bytes option \<Rightarrow> (('n, 'm) fork, local_error, unit) prog" where
  "set_initial L key value =
     bindE (lock modifications_poisoned) (\<lambda>_.
     modify (put_modification (saturating_sub_u32 (first_forked_block_number L) ONE_BLOCK) key value))"

definition set_batch ::
  "layer \<Rightarrow> (bytes \<times> bytes option) list \<Rightarrow> (('n, 'm) fork, local_error, unit) prog" where
  "set_batch L entries =
     (if entries = [] then ret ()
      else
        bindE (lock modifications_poisoned) (\<lambda>_.
        modify (\<lambda>s. foldl (\<lambda>s (key, value). put_modification (current_block_number L) key value s)
          s entries)))"

definition set_batch_initial ::
  "layer \<Rightarrow> (bytes \<times> bytes option) list \<Rightarrow> (('n, 'm) fork, local_error, unit) prog" where
  "set_batch_initial L entries =
     (if entries = [] then ret ()
      else
        bindE (lock modifications_poisoned) (\<lambda>_.
        let initial_visibility_block = saturating_sub_u32 (first_forked_block_number L) ONE_BLOCK in
        modify (\<lambda>s. foldl (\<lambda>s (key, value). put_modification initial_visibility_block key value s)
          s entries)))"

text \<open>The same writes as a function of the fork, so that evaluation waits for the fork.\<close>

definition put_all :: "u32 \<Rightarrow> (bytes \<times> bytes option) list \<Rightarrow> ('n, 'm) fork \<Rightarrow> ('n, 'm) fork" where
  "put_all n kvs s = foldl (\<lambda>s (key, value). put_modification n key value s) s kvs"

lemma put_all_eta: "put_all n entries = (\<lambda>s. foldl (\<lambda>s (key, value). put_modification n key value s) s entries)"
  by (rule ext) (simp add: put_all_def)

lemma set_batch_code [code]:
  "set_batch L entries =
     (if entries = [] then ret ()
      else bindE (lock modifications_poisoned) (\<lambda>_. modify (put_all (current_block_number L) entries)))"
  by (simp add: set_batch_def put_all_eta)

lemma set_batch_initial_code [code]:
  "set_batch_initial L entries =
     (if entries = [] then ret ()
      else
        bindE (lock modifications_poisoned) (\<lambda>_.
        modify (put_all (saturating_sub_u32 (first_forked_block_number L) ONE_BLOCK) entries)))"
  by (simp add: set_batch_initial_def Let_def put_all_eta)

definition delete_prefix :: "bytes \<Rightarrow> (('n, 'm) fork, local_error, unit) prog" where
  "delete_prefix pre =
     bindE (lock modifications_poisoned) (\<lambda>_.
     bindE (lock prefixes_poisoned) (\<lambda>_.
     modify (\<lambda>s. s\<lparr>modifications := filter (\<lambda>(key, _). \<not> starts_with key pre) (modifications s),
       deleted_prefixes := deleted_prefixes s @ [pre]\<rparr>)))"

definition is_deleted :: "bytes \<Rightarrow> (('n, 'm) fork, local_error, bool) prog" where
  "is_deleted pre =
     bindE (lock prefixes_poisoned) (\<lambda>_.
     gets (\<lambda>s. list_ex (\<lambda>deleted_prefix. deleted_prefix = pre) (deleted_prefixes s)))"

definition diff :: "(('n, 'm) fork, local_error, modification_map) prog" where
  "diff = bindE (lock modifications_poisoned) (\<lambda>_. gets modifications)"

text \<open>The entries a commit writes: those last modified at the current block.\<close>

definition entries_to_commit :: "u32 \<Rightarrow> modification_map \<Rightarrow> (bytes \<times> bytes option) list" where
  "entries_to_commit block_number mods =
     List.map_filter (\<lambda>(key, shared_value). Option.bind shared_value (\<lambda>sv.
       if last_modification_block sv = block_number then Some (key, sv_value sv) else None)) mods"

definition layer_commit :: "layer \<Rightarrow> (('n, 'm) fork, local_error, layer) prog" where
  "layer_commit L =
     (case checked_add_u32 (current_block_number L) ONE_BLOCK of
        None \<Rightarrow> fail Arithmetic
      | Some new_latest_block \<Rightarrow>
          bindE diff (\<lambda>d.
          bindE (on_cache (commit_local_changes
                   (entries_to_commit (current_block_number L) d) (current_block_number L))) (\<lambda>_.
          ret (L\<lparr>current_block_number := new_latest_block\<rparr>))))"

end
