(* ===== verification/Remote_Laws.thy ===== *)
theory Remote_Laws
  imports Remote_Layer
begin

text \<open>
  Laws of the remote layer. The cache is kept coherent with the chain by every operation on
  every path, errors included; a read that returns a value returns the chain's; the prefix
  scan ends and leaves every key of the prefix cached; \<open>next_key\<close> gives the same answer
  from the cache and from the node.
\<close>

section \<open>Coherence of the cache\<close>

abbreviation rdb :: "'n remote \<Rightarrow> db" where
  "rdb s \<equiv> cache_db (r_cache s)"

definition local_tables :: "db \<Rightarrow> local_key_row list \<times> local_value_row list \<times> int" where
  "local_tables d = (local_key_rows d, local_value_rows d, local_key_seq d)"

definition row_of_block :: "('n, 'm) upstream \<Rightarrow> h256 \<Rightarrow> node_block \<Rightarrow> block_row" where
  "row_of_block U h b = block_row_of h (nh_number (nb_header b)) (nh_parent_hash (nb_header b))
     (u_encode_header U (nb_header b))"

text \<open>The keys a recorded scan vouches for.\<close>

definition scanned :: "prefix_scan_progress \<Rightarrow> bytes \<Rightarrow> bool" where
  "scanned pr k \<longleftrightarrow> is_complete pr \<or> (\<exists>l. last_scanned_key pr = Some l \<and> k \<le> l)"

definition values_ok :: "chain \<Rightarrow> db \<Rightarrow> bool" where
  "values_ok C d \<longleftrightarrow> storage_pk d \<and>
     (\<forall>r \<in> set (storage_rows d). sr_is_empty r \<longleftrightarrow> sr_value r = None) \<and>
     (\<forall>h k v. cached_value d (h, k) = Some v \<longrightarrow> v = chain_value C h k)"

definition scans_ok :: "chain \<Rightarrow> db \<Rightarrow> bool" where
  "scans_ok C d \<longleftrightarrow> (\<forall>h p pr k. scan_progress h p d = Some pr \<longrightarrow> k \<in> set (chain_keys C h p) \<longrightarrow>
     scanned pr k \<longrightarrow> cached_value d (h, k) \<noteq> None)"

definition blocks_ok :: "('n, 'm) upstream \<Rightarrow> chain \<Rightarrow> db \<Rightarrow> bool" where
  "blocks_ok U C d \<longleftrightarrow>
     (\<forall>row \<in> set (block_rows d). \<exists>h b. ch_block C h = Some b \<and> row = row_of_block U h b)"

definition remote_inv ::
  "('n, 'm) upstream \<Rightarrow> chain \<Rightarrow> local_key_row list \<times> local_value_row list \<times> int \<Rightarrow> 'n remote \<Rightarrow> bool"
  where
  "remote_inv U C T s \<longleftrightarrow> honest U C \<and> values_ok C (rdb s) \<and> scans_ok C (rdb s) \<and>
     blocks_ok U C (rdb s) \<and> local_tables (rdb s) = T"

lemma remote_inv_empty:
  "honest U C \<Longrightarrow> cache_db c = empty_db \<Longrightarrow> remote_inv U C ([], [], 0) (new_remote n c)"
  by (simp add: remote_inv_def new_remote_def values_ok_def scans_ok_def blocks_ok_def
      storage_pk_def cached_value_def scan_progress_def cached_block_def local_tables_def empty_db_def)

lemma row_flags_upsert:
  "\<forall>r \<in> set (storage_rows d). sr_is_empty r = (sr_value r = None) \<Longrightarrow>
     \<forall>r \<in> set (storage_rows (upsert_storage h k v d)). sr_is_empty r = (sr_value r = None)"
  unfolding storage_rows_upsert by auto

lemma row_flags_upserts:
  "\<forall>r \<in> set (storage_rows d). sr_is_empty r = (sr_value r = None) \<Longrightarrow>
     \<forall>r \<in> set (storage_rows (foldl (\<lambda>d (k, v). upsert_storage h k v d) d kvs)).
       sr_is_empty r = (sr_value r = None)"
proof (induction kvs arbitrary: d)
  case (Cons kv kvs)
  show ?case
    using Cons.IH [OF row_flags_upsert [OF Cons.prems, of h "fst kv" "snd kv"]]
    by (simp add: case_prod_beta)
qed simp

lemma values_ok_upserts:
  assumes "values_ok C d" and "distinct (map fst kvs)"
    and "\<And>k v. (k, v) \<in> set kvs \<Longrightarrow> v = chain_value C h k"
  shows "values_ok C (foldl (\<lambda>d (k, v). upsert_storage h k v d) d kvs)"
proof -
  let ?d = "foldl (\<lambda>d (k, v). upsert_storage h k v d) d kvs"
  have "v = chain_value C h' k" if "cached_value ?d (h', k) = Some v" for h' k v
  proof (cases "h' = h \<and> k \<in> fst ` set kvs")
    case True
    then obtain w where "map_of kvs k = Some w"
      by (metis map_of_eq_None_iff not_Some_eq)
    with that True assms(3) [OF map_of_SomeD [OF this]] show ?thesis
      by (simp add: cached_value_upserts [OF assms(2)])
  next
    case False
    then have "cached_value ?d (h', k) = cached_value d (h', k)"
      using map_of_eq_None_iff [of kvs k] by (auto simp: cached_value_upserts [OF assms(2)])
    with that assms(1) show ?thesis by (simp add: values_ok_def)
  qed
  with assms(1) storage_pk_upserts [of d h kvs] row_flags_upserts [of d h kvs] show ?thesis
    by (simp add: values_ok_def)
qed

lemma values_ok_upsert:
  "values_ok C d \<Longrightarrow> values_ok C (upsert_storage h k (chain_value C h k) d)"
proof -
  assume "values_ok C d"
  then have "values_ok C (foldl (\<lambda>d (k, v). upsert_storage h k v d) d [(k, chain_value C h k)])"
    by (rule values_ok_upserts) simp_all
  then show ?thesis by simp
qed

text \<open>Writing values loses no cached key, so scans stay good; recording a scan needs its keys.\<close>

lemma scan_progress_frame:
  "prefix_scan_rows d' = prefix_scan_rows d \<Longrightarrow> scan_progress h p d' = scan_progress h p d"
  by (simp add: scan_progress_def)

lemma cached_value_frame:
  "storage_rows d' = storage_rows d \<Longrightarrow> cached_value d' hk = cached_value d hk"
  by (simp add: cached_value_def)

lemma values_ok_frame: "storage_rows d' = storage_rows d \<Longrightarrow> values_ok C d' \<longleftrightarrow> values_ok C d"
  by (simp add: values_ok_def storage_pk_def cached_value_def)

lemma blocks_ok_frame: "block_rows d' = block_rows d \<Longrightarrow> blocks_ok U C d' \<longleftrightarrow> blocks_ok U C d"
  by (simp add: blocks_ok_def)

lemma scans_ok_mono:
  assumes "scans_ok C d" and "prefix_scan_rows d' = prefix_scan_rows d"
    and "\<And>hk. cached_value d hk \<noteq> None \<Longrightarrow> cached_value d' hk \<noteq> None"
  shows "scans_ok C d'"
  using assms unfolding scans_ok_def by (metis scan_progress_frame)

lemma scans_ok_upsert_scan:
  assumes "scans_ok C d"
    and "\<And>k. k \<in> set (chain_keys C h p) \<Longrightarrow> c \<or> k \<le> l \<Longrightarrow> cached_value d (h, k) \<noteq> None"
  shows "scans_ok C (upsert_scan h p l c d)"
  unfolding scans_ok_def
proof (intro allI impI)
  fix h' p' pr k
  assume *: "scan_progress h' p' (upsert_scan h p l c d) = Some pr" "k \<in> set (chain_keys C h' p')"
    "scanned pr k"
  have "cached_value d (h', k) \<noteq> None"
  proof (cases "h' = h \<and> p' = p")
    case True
    with * assms(2) [of k] show ?thesis by (auto simp: scan_progress_upsert scanned_def)
  next
    case False
    with *(1) have "scan_progress h' p' d = Some pr"
      by (simp add: scan_progress_upsert split: if_splits)
    with *(2,3) assms(1) show ?thesis unfolding scans_ok_def by blast
  qed
  then show "cached_value (upsert_scan h p l c d) (h', k) \<noteq> None"
    by (simp add: cached_value_frame [OF upsert_scan_frame(1)])
qed

lemma cached_upserts_mono:
  assumes "distinct (map fst kvs)" and "cached_value d hk \<noteq> None"
  shows "cached_value (foldl (\<lambda>d (k, v). upsert_storage h k v d) d kvs) hk \<noteq> None"
  using assms by (cases hk) (auto simp: cached_value_upserts split: option.splits)

lemma blocks_ok_upsert:
  "blocks_ok U C d \<Longrightarrow> ch_block C h = Some b \<Longrightarrow>
     blocks_ok U C (upsert_block h (nh_number (nb_header b)) (nh_parent_hash (nb_header b))
       (u_encode_header U (nb_header b)) d)"
  unfolding blocks_ok_def block_rows_upsert row_of_block_def by (auto split: if_splits)

section \<open>The calls of the layer\<close>

lemma wp_cached_query:
  assumes "remote_inv U C T s"
    and "\<And>s'. remote_inv U C T s' \<Longrightarrow> rdb s' = rdb s \<Longrightarrow> Q (q (rdb s)) s'"
    and "\<And>e s'. remote_inv U C T s' \<Longrightarrow> rdb s' = rdb s \<Longrightarrow> e \<noteq> RemotePanic \<Longrightarrow> E e s'"
  shows "wp (cached (query q)) Q E s"
proof -
  obtain r c where r: "query q (r_cache s) = (r, c)" by fastforce
  have c: "cache_db c = rdb s" using query_result(1) [OF r] .
  then have "remote_inv U C T (s\<lparr>r_cache := c\<rparr>)"
    using assms(1) by (simp add: remote_inv_def)
  with assms(2,3) [of "s\<lparr>r_cache := c\<rparr>"] c r query_result(2) [OF r] show ?thesis
    by (cases r) (auto simp: wp_def cached_def prog_simps)
qed


lemma wp_cached_write:
  assumes "remote_inv U C T s" and "remote_inv U C T (s\<lparr>r_cache := (r_cache s)\<lparr>cache_db := f (rdb s)\<rparr>\<rparr>)"
    and "\<And>s'. remote_inv U C T s' \<Longrightarrow> rdb s' = f (rdb s) \<Longrightarrow> Q () s'"
    and "\<And>e s'. remote_inv U C T s' \<Longrightarrow> rdb s' = rdb s \<Longrightarrow> e \<noteq> RemotePanic \<Longrightarrow> E e s'"
  shows "wp (cached (write_stmt f)) Q E s"
proof -
  obtain r c where r: "write_stmt f (r_cache s) = (r, c)" by fastforce
  show ?thesis
  proof (cases r)
    case (Inr x)
    with write_stmt_result(1) [OF r] have "cache_db c = f (rdb s)" by blast
    with assms(2) assms(3) [of "s\<lparr>r_cache := c\<rparr>"] r Inr show ?thesis
      by (simp add: wp_def cached_def prog_simps remote_inv_def)
  next
    case (Inl e)
    with write_stmt_result(2) [OF r] have "cache_db c = rdb s" by blast
    with assms(1) assms(4) [of "s\<lparr>r_cache := c\<rparr>"] r Inl show ?thesis
      by (simp add: wp_def cached_def prog_simps remote_inv_def)
  qed
qed

lemma wp_rpc:
  assumes "remote_inv U C T s"
    and "\<And>x s' n n'. m n = (Inr x, n') \<Longrightarrow> remote_inv U C T s' \<Longrightarrow> rdb s' = rdb s \<Longrightarrow> Q x s'"
    and "\<And>e s'. remote_inv U C T s' \<Longrightarrow> rdb s' = rdb s \<Longrightarrow> e \<noteq> RemotePanic \<Longrightarrow> E e s'"
  shows "wp (rpc m) Q E s"
proof -
  obtain r n where r: "m (r_net s) = (r, n)" by fastforce
  have "remote_inv U C T (s\<lparr>r_net := n\<rparr>)"
    using assms(1) by (simp add: remote_inv_def)
  with r assms(2) [of "r_net s" _ n "s\<lparr>r_net := n\<rparr>"] assms(3) [of "s\<lparr>r_net := n\<rparr>"] show ?thesis
    by (cases r) (simp_all add: wp_def rpc_def prog_simps)
qed

lemma wp_with_reconnect:
  assumes "remote_inv U C T s"
    and Q: "\<And>x s' n n'. m n = (Inr x, n') \<Longrightarrow> remote_inv U C T s' \<Longrightarrow> rdb s' = rdb s \<Longrightarrow> Q x s'"
    and E: "\<And>e s'. remote_inv U C T s' \<Longrightarrow> rdb s' = rdb s \<Longrightarrow> e \<noteq> RemotePanic \<Longrightarrow> E e s'"
  shows "wp (with_reconnect U m) Q E s"
proof -
  have again: "wp (rpc m) Q E s1" if "remote_inv U C T s1" "rdb s1 = rdb s" for s1
    by (rule wp_rpc [OF that(1)]) (use that Q E in auto)
  have retry: "wp (bindE (rpc (reconnect U)) (\<lambda>_. rpc m)) Q E s1"
    if "remote_inv U C T s1" "rdb s1 = rdb s" for s1
    by (intro wp_bindE wp_rpc [OF that(1)] again E) (use that in auto)
  show ?thesis
    unfolding with_reconnect_def
    by (intro wp_matchE wp_rpc [OF assms(1)] wp_ret retry) (use Q in auto)
qed

lemma wp_count:
  assumes "remote_inv U C T s" and "\<And>s'. remote_inv U C T s' \<Longrightarrow> rdb s' = rdb s \<Longrightarrow> Q () s'"
  shows "wp (count_stat f) Q E s"
  unfolding count_stat_def by (intro wp_modify assms(2)) (use assms(1) in \<open>simp_all add: remote_inv_def\<close>)

text \<open>The cache operations the layer uses, with the invariant.\<close>

lemma wp_cached_get_storage:
  assumes "remote_inv U C T s"
    and "\<And>x s'. remote_inv U C T s' \<Longrightarrow> rdb s' = rdb s \<Longrightarrow> x = cached_value (rdb s) (h, k) \<Longrightarrow> Q x s'"
    and "\<And>e s'. remote_inv U C T s' \<Longrightarrow> rdb s' = rdb s \<Longrightarrow> e \<noteq> RemotePanic \<Longrightarrow> E e s'"
  shows "wp (cached (get_storage h k)) Q E s"
  unfolding get_storage_def
  by (rule wp_cached_query [OF assms(1)]) (use assms(2,3) in \<open>simp_all add: cached_value_def\<close>)

lemma wp_cached_scan_progress:
  assumes "remote_inv U C T s"
    and "\<And>x s'. remote_inv U C T s' \<Longrightarrow> rdb s' = rdb s \<Longrightarrow> x = scan_progress h p (rdb s) \<Longrightarrow> Q x s'"
    and "\<And>e s'. remote_inv U C T s' \<Longrightarrow> rdb s' = rdb s \<Longrightarrow> e \<noteq> RemotePanic \<Longrightarrow> E e s'"
  shows "wp (cached (get_prefix_scan_progress h p)) Q E s"
  unfolding get_prefix_scan_progress_def
  by (rule wp_cached_query [OF assms(1)]) (use assms(2,3) in simp_all)

lemma wp_cached_set_storage:
  assumes "remote_inv U C T s"
    and "\<And>s'. remote_inv U C T s' \<Longrightarrow> cached_value (rdb s') (h, k) = Some (chain_value C h k) \<Longrightarrow> Q () s'"
    and "\<And>e s'. remote_inv U C T s' \<Longrightarrow> e \<noteq> RemotePanic \<Longrightarrow> E e s'"
  shows "wp (cached (set_storage h k (chain_value C h k))) Q E s"
  unfolding set_storage_def
proof (rule wp_cached_write [OF assms(1)])
  let ?f = "upsert_storage h k (chain_value C h k)"
  have mono: "cached_value (?f (rdb s)) hk \<noteq> None" if "cached_value (rdb s) hk \<noteq> None" for hk
    using that by (cases hk) (simp add: cached_value_upsert)
  have "scans_ok C (?f (rdb s))"
    by (rule scans_ok_mono [of C "rdb s"]) (use assms(1) mono in \<open>simp_all add: remote_inv_def\<close>)
  with assms(1) show "remote_inv U C T (s\<lparr>r_cache := (r_cache s)\<lparr>cache_db := ?f (rdb s)\<rparr>\<rparr>)"
    by (simp add: remote_inv_def values_ok_upsert blocks_ok_frame [OF upsert_storage_frame(1)]
        local_tables_def)
qed (use assms(2,3) in \<open>simp_all add: cached_value_upsert\<close>)

text \<open>A batch of fetched values: every key of it is cached afterwards, no key is lost.\<close>

lemma wp_cached_set_storage_batch:
  assumes "remote_inv U C T s" and "distinct keys"
    and "\<And>s'. remote_inv U C T s' \<Longrightarrow> prefix_scan_rows (rdb s') = prefix_scan_rows (rdb s) \<Longrightarrow>
      (\<And>k. k \<in> set keys \<Longrightarrow> cached_value (rdb s') (h, k) \<noteq> None) \<Longrightarrow>
      (\<And>hk. cached_value (rdb s) hk \<noteq> None \<Longrightarrow> cached_value (rdb s') hk \<noteq> None) \<Longrightarrow> Q () s'"
    and "\<And>e s'. remote_inv U C T s' \<Longrightarrow> e \<noteq> RemotePanic \<Longrightarrow> E e s'"
  shows "wp (cached (set_storage_batch h (zip keys (map (chain_value C h) keys)))) Q E s"
proof -
  let ?kvs = "zip keys (map (chain_value C h) keys)"
  let ?f = "\<lambda>d. foldl (\<lambda>d (k, v). upsert_storage h k v d) d ?kvs"
  have dist: "distinct (map fst ?kvs)" using assms(2) by simp
  have zip: "(k, v) \<in> set ?kvs \<Longrightarrow> v = chain_value C h k" for k v
    by (auto simp: zip_map2 zip_same_conv_map)
  have mono: "cached_value (?f (rdb s)) hk \<noteq> None" if "cached_value (rdb s) hk \<noteq> None" for hk
    using cached_upserts_mono [OF dist that] .
  have all: "cached_value (?f (rdb s)) (h, k) \<noteq> None" if "k \<in> set keys" for k
  proof -
    have "map_of ?kvs k = Some (chain_value C h k)"
      using that by (simp add: map_of_zip_map)
    then show ?thesis by (simp add: cached_value_upserts [OF dist])
  qed
  have "scans_ok C (?f (rdb s))"
    by (rule scans_ok_mono [of C "rdb s"]) (use assms(1) mono in \<open>simp_all add: remote_inv_def\<close>)
  moreover have "values_ok C (?f (rdb s))"
    by (rule values_ok_upserts [OF _ dist zip]) (use assms(1) in \<open>simp add: remote_inv_def\<close>)
  ultimately have inv: "remote_inv U C T (s\<lparr>r_cache := (r_cache s)\<lparr>cache_db := ?f (rdb s)\<rparr>\<rparr>)"
    using assms(1)
    by (simp add: remote_inv_def blocks_ok_frame [OF foldl_upsert_storage_frame(1)] local_tables_def)
  show ?thesis
  proof (cases "keys = []")
    case True
    with assms show ?thesis
      by (simp add: set_storage_batch_def wp_def cached_def prog_simps)
  next
    case False
    then have "?kvs \<noteq> []" by simp
    with dist have "set_storage_batch h ?kvs = write_stmt ?f"
      by (simp add: set_storage_batch_def)
    moreover have "wp (cached (write_stmt ?f)) Q E s"
      by (rule wp_cached_write [where f = ?f, OF assms(1) inv]) (use assms(3,4) mono all in simp_all)
    ultimately show ?thesis by simp
  qed
qed

lemma wp_cached_update_scan:
  assumes "remote_inv U C T s"
    and "\<And>k. k \<in> set (chain_keys C h p) \<Longrightarrow> c \<or> k \<le> l \<Longrightarrow> cached_value (rdb s) (h, k) \<noteq> None"
    and "\<And>s'. remote_inv U C T s' \<Longrightarrow> (\<And>hk. cached_value (rdb s') hk = cached_value (rdb s) hk) \<Longrightarrow>
      scan_progress h p (rdb s') = Some \<lparr>last_scanned_key = Some l, is_complete = c\<rparr> \<Longrightarrow> Q () s'"
    and "\<And>e s'. remote_inv U C T s' \<Longrightarrow> e \<noteq> RemotePanic \<Longrightarrow> E e s'"
  shows "wp (cached (update_prefix_scan h p l c)) Q E s"
  unfolding update_prefix_scan_def
proof (rule wp_cached_write [OF assms(1)])
  let ?f = "upsert_scan h p l c"
  have "scans_ok C (?f (rdb s))"
    by (rule scans_ok_upsert_scan) (use assms(1,2) in \<open>simp_all add: remote_inv_def\<close>)
  with assms(1) show "remote_inv U C T (s\<lparr>r_cache := (r_cache s)\<lparr>cache_db := ?f (rdb s)\<rparr>\<rparr>)"
    by (simp add: remote_inv_def values_ok_frame [OF upsert_scan_frame(1)]
        blocks_ok_frame [OF upsert_scan_frame(2)] local_tables_def)
qed (use assms(3,4) in \<open>simp_all add: cached_value_frame [OF upsert_scan_frame(1)] scan_progress_upsert\<close>)

section \<open>The prefix scan\<close>

text \<open>A page of a sorted list of keys: what precedes its last key is in it.\<close>

lemma sorted_page:
  fixes xs :: "bytes list"
  assumes "sorted_wrt (<) xs" and "take n xs \<noteq> []" and "x \<in> set xs" and "x \<le> last (take n xs)"
  shows "x \<in> set (take n xs)"
proof (rule ccontr)
  assume "x \<notin> set (take n xs)"
  moreover have "x \<in> set (take n xs @ drop n xs)" using assms(3) by simp
  ultimately have "x \<in> set (drop n xs)" by (simp del: append_take_drop_id)
  moreover have "sorted_wrt (<) (take n xs @ drop n xs)" using assms(1) by simp
  moreover have "last (take n xs) \<in> set (take n xs)" using assms(2) by (rule last_in_set)
  ultimately have "last (take n xs) < x" unfolding sorted_wrt_append by blast
  with assms(4) show False by simp
qed

lemma sorted_keys_after: "sorted_wrt (<) (xs :: bytes list) \<Longrightarrow> sorted_wrt (<) (keys_after s xs)"
  by (simp add: keys_after_def sorted_wrt_filter split: option.splits)

lemma sorted_chain_keys: "wf_chain C \<Longrightarrow> sorted_wrt (<) (chain_keys C h p)"
  by (simp add: wf_chain_def chain_keys_def sorted_wrt_filter)

lemma set_keys_after: "k \<in> set (keys_after s xs) \<longleftrightarrow> k \<in> set xs \<and> (\<forall>l. s = Some l \<longrightarrow> l < k)"
  by (auto simp: keys_after_def split: option.splits)

lemma distinct_page: "wf_chain C \<Longrightarrow> distinct (take n (keys_after s (chain_keys C h p)))"
  using strict_sorted_iff [of "keys_after s (chain_keys C h p)"] sorted_chain_keys sorted_keys_after
  by (metis distinct_take)

lemma wp_cache_page:
  assumes "remote_inv U C T s"
    and keys: "keys = take n (keys_after start (chain_keys C h p))" "keys \<noteq> []"
    and seen: "\<And>k l. k \<in> set (chain_keys C h p) \<Longrightarrow> start = Some l \<Longrightarrow> k \<le> l \<Longrightarrow>
      cached_value (rdb s) (h, k) \<noteq> None"
    and Q: "\<And>s'. remote_inv U C T s' \<Longrightarrow> (\<And>k. k \<in> set (chain_keys C h p) \<Longrightarrow>
      length keys < n \<or> k \<le> last keys \<Longrightarrow> cached_value (rdb s') (h, k) \<noteq> None) \<Longrightarrow>
      scan_progress h p (rdb s') =
        Some \<lparr>last_scanned_key = Some (last keys), is_complete = (length keys < n)\<rparr> \<Longrightarrow> Q () s'"
    and E: "\<And>e s'. remote_inv U C T s' \<Longrightarrow> e \<noteq> RemotePanic \<Longrightarrow> E e s'"
  shows "wp (cache_page U h p keys (length keys < n)) Q E s"
proof -
  have hon: "honest U C" using assms(1) by (simp add: remote_inv_def)
  then have wf: "wf_chain C" by (rule honestD)
  have page: "k \<in> set keys"
    if "k \<in> set (chain_keys C h p)" "length keys < n \<or> k \<le> last keys" "\<And>l. start = Some l \<Longrightarrow> l < k" for k
  proof -
    have k: "k \<in> set (keys_after start (chain_keys C h p))"
      using that(1,3) by (simp add: set_keys_after)
    show ?thesis
    proof (cases "length keys < n")
      case True
      then have "keys = keys_after start (chain_keys C h p)"
        using keys(1) by (simp add: min_def split: if_splits)
      with k show ?thesis by simp
    next
      case False
      with that(2) have "k \<le> last keys" by simp
      then show ?thesis
        using sorted_page [OF sorted_keys_after [OF sorted_chain_keys [OF wf]] _ k] keys by simp
    qed
  qed
  show ?thesis
    unfolding cache_page_def
  proof (intro wp_bindE wp_with_reconnect [OF assms(1)] E)
    fix fetched s1 n1 n2
    assume "storage_batch U keys h n1 = (Inr fetched, n2)" and s1: "remote_inv U C T s1" "rdb s1 = rdb s"
    then have vals: "fetched = map (chain_value C h) keys"
      using storage_batch_honest [OF hon] by blast
    have dist: "distinct keys" unfolding keys by (rule distinct_page [OF wf])
    show "wp (cached (set_storage_batch h (zip keys fetched)))
        (\<lambda>_. wp (cached (update_prefix_scan h p (last keys) (length keys < n))) Q E) E s1"
      unfolding vals
    proof (rule wp_cached_set_storage_batch [OF s1(1) dist _ E])
      fix s2 assume s2: "remote_inv U C T s2"
        and all: "\<And>k. k \<in> set keys \<Longrightarrow> cached_value (rdb s2) (h, k) \<noteq> None"
        and mono: "\<And>hk. cached_value (rdb s1) hk \<noteq> None \<Longrightarrow> cached_value (rdb s2) hk \<noteq> None"
      have good: "cached_value (rdb s2) (h, k) \<noteq> None"
        if "k \<in> set (chain_keys C h p)" "length keys < n \<or> k \<le> last keys" for k
      proof (cases "\<exists>l. start = Some l \<and> k \<le> l")
        case True
        with seen that(1) s1(2) mono show ?thesis by metis
      next
        case False
        with page [OF that] all show ?thesis by (metis not_le_imp_less)
      qed
      show "wp (cached (update_prefix_scan h p (last keys) (length keys < n))) Q E s2"
      proof (rule wp_cached_update_scan [OF s2 good _ E])
        fix s3 assume "remote_inv U C T s3" "\<And>hk. cached_value (rdb s3) hk = cached_value (rdb s2) hk"
          "scan_progress h p (rdb s3) =
            Some \<lparr>last_scanned_key = Some (last keys), is_complete = (length keys < n)\<rparr>"
        with good show "Q () s3" by (intro Q) simp_all
      qed
    qed
  qed
qed

lemma wp_keys_page:
  assumes "remote_inv U C T s"
    and "\<And>s'. remote_inv U C T s' \<Longrightarrow> rdb s' = rdb s \<Longrightarrow>
      Q (take (unat c) (keys_after start (chain_keys C h p))) s'"
    and "\<And>e s'. remote_inv U C T s' \<Longrightarrow> e \<noteq> RemotePanic \<Longrightarrow> E e s'"
  shows "wp (with_reconnect U (storage_keys_paged U p c start h)) Q E s"
proof (rule wp_with_reconnect [OF assms(1)])
  fix ks s' n n'
  assume "storage_keys_paged U p c start h n = (Inr ks, n')" "remote_inv U C T s'" "rdb s' = rdb s"
  moreover have "honest U C" using assms(1) by (simp add: remote_inv_def)
  ultimately show "Q ks s'" using storage_keys_paged_honest assms(2) by metis
qed (use assms(3) in simp)

lemma wp_single_page:
  assumes "remote_inv U C T s" and "0 < page_size"
    and Q: "\<And>n s'. remote_inv U C T s' \<Longrightarrow> scan_progress h p (rdb s') \<noteq> None \<Longrightarrow> Q n s'"
    and E: "\<And>e s'. remote_inv U C T s' \<Longrightarrow> e \<noteq> RemotePanic \<Longrightarrow> E e s'"
  shows "wp (prefetch_prefix_single_page U h p page_size) Q E s"
  unfolding prefetch_prefix_single_page_def
proof (intro wp_bindE wp_case_option wp_if wp_ret wp_cached_scan_progress [OF assms(1)] E; (elim conjE)?)
  fix x y s'
  assume "remote_inv U C T s'" "rdb s' = rdb s" "x = scan_progress h p (rdb s)" "x = Some y"
  then show "wp (cached (count_keys_by_prefix h p)) Q E s'"
    unfolding count_keys_by_prefix_def
    by (intro wp_cached_query [of U C T s'] Q E) (simp_all add: eq_commute [of "Some y"])
next
  fix x y s'
  assume "remote_inv U C T s'" "rdb s' = rdb s" "x = scan_progress h p (rdb s)" "x = Some y"
  then show "Q 0 s'" by (intro Q) (simp_all add: eq_commute [of "Some y"])
next
  fix x s1
  assume s1: "remote_inv U C T s1" "rdb s1 = rdb s"
  let ?keys = "take (unat page_size) (keys_after None (chain_keys C h p))"
  have pos: "0 < unat page_size" using assms(2) by (simp add: unat_gt_0 word_neq_0_conv)
  show "wp (with_reconnect U (storage_keys_paged U p page_size None h))
      (\<lambda>keys. wp (if keys = [] then bindE (cached (update_prefix_scan h p p True)) (\<lambda>_. ret 0)
         else bindE (cache_page U h p keys (length keys < unat page_size)) (\<lambda>_. ret (length keys))) Q E)
      E s1"
  proof (rule wp_keys_page [OF s1(1) _ E], intro wp_if wp_bindE)
    fix s2 assume s2: "remote_inv U C T s2"
    { assume "?keys = []"
      with pos have "chain_keys C h p = []" by (simp add: keys_after_def)
      then show "wp (cached (update_prefix_scan h p p True)) (\<lambda>_. wp (ret 0) Q E) E s2"
        by (intro wp_cached_update_scan [OF s2] wp_ret Q E) simp_all }
    { assume "?keys \<noteq> []"
      then show "wp (cache_page U h p ?keys (length ?keys < unat page_size))
          (\<lambda>_. wp (ret (length ?keys)) Q E) E s2"
        by (intro wp_cache_page [OF s2 refl] wp_ret Q E) simp_all }
  qed
qed

text \<open>The state a scan has reached: everything up to the start key is cached.\<close>

definition cached_upto :: "chain \<Rightarrow> h256 \<Rightarrow> bytes \<Rightarrow> bytes option \<Rightarrow> db \<Rightarrow> bool" where
  "cached_upto C h p start d \<longleftrightarrow>
     (\<forall>k l. k \<in> set (chain_keys C h p) \<longrightarrow> start = Some l \<longrightarrow> k \<le> l \<longrightarrow> cached_value d (h, k) \<noteq> None)"

definition all_cached :: "chain \<Rightarrow> h256 \<Rightarrow> bytes \<Rightarrow> db \<Rightarrow> bool" where
  "all_cached C h p d \<longleftrightarrow> (\<forall>k \<in> set (chain_keys C h p). cached_value d (h, k) \<noteq> None)"

lemma all_cached_upto:
  "cached_upto C h p start d \<Longrightarrow> keys_after start (chain_keys C h p) = [] \<Longrightarrow> all_cached C h p d"
proof -
  assume *: "cached_upto C h p start d" "keys_after start (chain_keys C h p) = []"
  have "cached_value d (h, k) \<noteq> None" if "k \<in> set (chain_keys C h p)" for k
  proof -
    have "k \<notin> set (keys_after start (chain_keys C h p))" using *(2) by simp
    then have "\<not> (\<forall>l. start = Some l \<longrightarrow> l < k)"
      using that unfolding set_keys_after by blast
    then obtain l where "start = Some l" "k \<le> l"
      by (auto simp: not_less)
    with *(1) that show ?thesis by (simp add: cached_upto_def)
  qed
  then show ?thesis by (simp add: all_cached_def)
qed

lemma wp_prefetch_step:
  assumes "remote_inv U C T s" and "0 < page_size" and "cached_upto C h p start (rdb s)"
    and Q: "\<And>next s'. remote_inv U C T s' \<Longrightarrow> (next = None \<Longrightarrow> all_cached C h p (rdb s')) \<Longrightarrow>
      cached_upto C h p next (rdb s') \<Longrightarrow>
      (\<And>l. next = Some l \<Longrightarrow> l \<in> set (keys_after start (chain_keys C h p))) \<Longrightarrow> Q next s'"
    and E: "\<And>e s'. remote_inv U C T s' \<Longrightarrow> e \<noteq> RemotePanic \<Longrightarrow> E e s'"
  shows "wp (prefetch_step U h p page_size start) Q E s"
proof -
  let ?rest = "keys_after start (chain_keys C h p)"
  let ?keys = "take (unat page_size) ?rest"
  have pos: "0 < unat page_size" using assms(2) by (simp add: unat_gt_0 word_neq_0_conv)
  show ?thesis
    unfolding prefetch_step_def Let_def
  proof (intro wp_bindE wp_keys_page [OF assms(1)] wp_if wp_ret E)
    fix s1 assume s1: "remote_inv U C T s1" "rdb s1 = rdb s"
    { assume none: "?keys = []" "start = None"
      with pos have "chain_keys C h p = []" by (simp add: keys_after_def)
      then show "wp (cached (update_prefix_scan h p p True)) (\<lambda>_. wp (ret None) Q E) E s1"
        by (intro wp_cached_update_scan [OF s1(1)] wp_ret Q E)
          (simp_all add: all_cached_def cached_upto_def) }
    { assume "?keys = []"
      with pos have "?rest = []" by simp
      with assms(3) s1(2) have "all_cached C h p (rdb s1)" by (intro all_cached_upto) simp_all
      then show "Q None s1" by (intro Q [OF s1(1)]) (simp_all add: cached_upto_def) }
    { assume ne: "?keys \<noteq> []"
      show "wp (cache_page U h p ?keys (length ?keys < unat page_size))
        (\<lambda>_. wp (ret (if length ?keys < unat page_size then None else Some (last ?keys))) Q E) E s1"
      proof (rule wp_cache_page [OF s1(1) refl ne _ _ E])
        show "cached_value (rdb s1) (h, k) \<noteq> None"
          if "k \<in> set (chain_keys C h p)" "start = Some l" "k \<le> l" for k l
          using assms(3) that s1(2) unfolding cached_upto_def by metis
        fix s2 assume s2: "remote_inv U C T s2"
          and good: "\<And>k. k \<in> set (chain_keys C h p) \<Longrightarrow>
            length ?keys < unat page_size \<or> k \<le> last ?keys \<Longrightarrow> cached_value (rdb s2) (h, k) \<noteq> None"
        have "last ?keys \<in> set ?rest" using last_in_set [OF ne] by (rule in_set_takeD)
        moreover have "all_cached C h p (rdb s2)" if "length ?keys < unat page_size"
          using good that unfolding all_cached_def by blast
        moreover have "cached_upto C h p (Some (last ?keys)) (rdb s2)"
          using good unfolding cached_upto_def by blast
        ultimately show "wp (ret (if length ?keys < unat page_size then None else Some (last ?keys))) Q E s2"
          by (intro wp_ret Q [OF s2]) (simp_all add: cached_upto_def split: if_splits)
      qed }
  qed
qed

lemma keys_after_shrinks:
  assumes "l \<in> set (keys_after start xs)"
  shows "length (keys_after (Some l) xs) < length (keys_after start xs)"
proof -
  have "keys_after (Some l) xs = filter (\<lambda>k. l < k) (keys_after start xs)"
    using assms by (auto simp: keys_after_def set_keys_after split: option.splits intro!: filter_cong)
  moreover have "length (filter (\<lambda>k. l < k) (keys_after start xs)) < length (keys_after start xs)"
    by (rule length_filter_less [OF assms]) simp
  ultimately show ?thesis by simp
qed

text \<open>The scan of an honest node's prefix ends, whatever fails on the way.\<close>

lemma wpL_prefetch_loop:
  assumes "remote_inv U C T s" and "0 < page_size" and "cached_upto C h p start (rdb s)"
  shows "wpL (prefetch_loop U h p page_size start)
     (\<lambda>_ s'. remote_inv U C T s' \<and> all_cached C h p (rdb s')) (\<lambda>e s'. remote_inv U C T s' \<and> e \<noteq> RemotePanic) s"
  using assms
proof (induction "length (keys_after start (chain_keys C h p))" arbitrary: start s rule: less_induct)
  case less
  obtain r s1 where r: "prefetch_step U h p page_size start s = (r, s1)" by fastforce
  have step: "wp (prefetch_step U h p page_size start) (\<lambda>next s'. remote_inv U C T s' \<and>
      (next = None \<longrightarrow> all_cached C h p (rdb s')) \<and> cached_upto C h p next (rdb s') \<and>
      (\<forall>l. next = Some l \<longrightarrow> l \<in> set (keys_after start (chain_keys C h p))))
      (\<lambda>e s'. remote_inv U C T s' \<and> e \<noteq> RemotePanic) s"
    by (rule wp_prefetch_step [OF less.prems]) auto
  show ?case
  proof (cases r)
    case (Inl e)
    with step r show ?thesis by (simp add: wpL_def wp_def prefetch_loop.simps [of U h p page_size start s])
  next
    case (Inr "next")
    note post = wp_Inr [OF step r [unfolded Inr]]
    show ?thesis
    proof (cases "next")
      case None
      with post r Inr show ?thesis
        by (simp add: wpL_def prefetch_loop.simps [of U h p page_size start s])
    next
      case (Some l)
      with post have "wpL (prefetch_loop U h p page_size (Some l))
          (\<lambda>_ s'. remote_inv U C T s' \<and> all_cached C h p (rdb s')) (\<lambda>e s'. remote_inv U C T s' \<and> e \<noteq> RemotePanic) s1"
        by (intro less.hyps keys_after_shrinks) (use less.prems in auto)
      with Some r Inr show ?thesis
        by (simp add: wpL_def prefetch_loop.simps [of U h p page_size start s])
    qed
  qed
qed

lemma scan_cached_upto:
  assumes "remote_inv U C T s"
  shows "cached_upto C h p (Option.bind (scan_progress h p (rdb s)) last_scanned_key) (rdb s)"
    and "scan_progress h p (rdb s) = Some pr \<Longrightarrow> is_complete pr \<Longrightarrow> all_cached C h p (rdb s)"
proof -
  have ok: "cached_value (rdb s) (h, k) \<noteq> None"
    if "scan_progress h p (rdb s) = Some pr" "k \<in> set (chain_keys C h p)" "scanned pr k" for pr k
    using assms that unfolding remote_inv_def scans_ok_def by blast
  show "cached_upto C h p (Option.bind (scan_progress h p (rdb s)) last_scanned_key) (rdb s)"
    unfolding cached_upto_def
  proof (intro allI impI)
    fix k l
    assume *: "k \<in> set (chain_keys C h p)" "k \<le> l"
      "Option.bind (scan_progress h p (rdb s)) last_scanned_key = Some l"
    then obtain pr' where "scan_progress h p (rdb s) = Some pr'" "last_scanned_key pr' = Some l"
      by (auto simp: Option.bind_eq_Some_conv)
    with ok * show "cached_value (rdb s) (h, k) \<noteq> None" by (simp add: scanned_def)
  qed
  show "scan_progress h p (rdb s) = Some pr \<Longrightarrow> is_complete pr \<Longrightarrow> all_cached C h p (rdb s)"
    using ok by (simp add: all_cached_def scanned_def)
qed

lemma wp_count_keys:
  assumes "remote_inv U C T s"
    and "\<And>s'. remote_inv U C T s' \<Longrightarrow> rdb s' = rdb s \<Longrightarrow> Q (length (rows_in_prefix h p (rdb s'))) s'"
    and "\<And>e s'. remote_inv U C T s' \<Longrightarrow> e \<noteq> RemotePanic \<Longrightarrow> E e s'"
  shows "wp (cached (count_keys_by_prefix h p)) Q E s"
  unfolding count_keys_by_prefix_def
  by (rule wp_cached_query [OF assms(1)]) (use assms(2,3) in \<open>metis+\<close>)

lemma wpL_prefetch_prefix:
  assumes "remote_inv U C T s" and "0 < page_size"
    and Q: "\<And>s'. remote_inv U C T s' \<Longrightarrow> all_cached C h p (rdb s') \<Longrightarrow>
      Q (length (rows_in_prefix h p (rdb s'))) s'"
    and E: "\<And>e s'. remote_inv U C T s' \<Longrightarrow> e \<noteq> RemotePanic \<Longrightarrow> E e s'"
  shows "wpL (prefetch_prefix U h p page_size) Q E s"
  unfolding prefetch_prefix_def
proof (intro wpL_bindL wpL_returns wp_cached_scan_progress [OF assms(1)] E wpL_if)
  fix x s1 assume s1: "remote_inv U C T s1" "rdb s1 = rdb s" "x = scan_progress h p (rdb s)"
  { assume "case x of Some p \<Rightarrow> is_complete p | None \<Rightarrow> False"
    then have "all_cached C h p (rdb s1)"
      using scan_cached_upto(2) [OF s1(1)] s1(2,3) by (auto split: option.splits)
    then show "wp (cached (count_keys_by_prefix h p)) Q E s1"
      by (intro wp_count_keys [OF s1(1)] E Q) simp_all }
  have upto: "cached_upto C h p (Option.bind x last_scanned_key) (rdb s1)"
    using scan_cached_upto(1) [OF s1(1)] s1(2,3) by simp
  show "wpL (prefetch_loop U h p page_size (Option.bind x last_scanned_key))
      (\<lambda>_. wpL (returns (cached (count_keys_by_prefix h p))) Q E) E s1"
    by (rule wpL_mono [OF wpL_prefetch_loop [OF s1(1) assms(2) upto]])
      (auto intro!: wpL_returns wp_count_keys Q E)
qed

text \<open>
  The keys the cache lists: those of the prefix with a row, the keys cached as absent too.
\<close>

lemma cached_value_row:
  "cached_value d (h, k) \<noteq> None \<longleftrightarrow>
     (\<exists>r \<in> set (storage_rows d). sr_block_hash r = as_bytes h \<and> sr_key r = k)"
  by (auto simp: cached_value_def find_None_all is_storage_key_def)

lemma set_rows_in_prefix:
  "k \<in> sr_key ` set (rows_in_prefix h p d) \<longleftrightarrow> starts_with k p \<and> cached_value d (h, k) \<noteq> None"
  unfolding cached_value_row
  by (auto simp: rows_in_prefix_def increment_prefix_eq in_range_prefix)

lemma wpL_get_keys:
  assumes "remote_inv U C T s"
    and Q: "\<And>ks s'. remote_inv U C T s' \<Longrightarrow> all_cached C h p (rdb s') \<Longrightarrow>
      (\<And>k. k \<in> set ks \<longleftrightarrow> starts_with k p \<and> cached_value (rdb s') (h, k) \<noteq> None) \<Longrightarrow> Q ks s'"
    and E: "\<And>e s'. remote_inv U C T s' \<Longrightarrow> e \<noteq> RemotePanic \<Longrightarrow> E e s'"
  shows "wpL (get_keys U h p) Q E s"
  unfolding get_keys_def get_keys_by_prefix_def
proof (intro wpL_bindL wpL_prefetch_prefix [OF assms(1)] wpL_returns E)
  show "0 < DEFAULT_PREFETCH_PAGE_SIZE" by (simp add: DEFAULT_PREFETCH_PAGE_SIZE_def)
  fix s1 assume s1: "remote_inv U C T s1" "all_cached C h p (rdb s1)"
  show "wp (cached (query (\<lambda>d. map sr_key (rows_in_prefix h p d)))) Q E s1"
  proof (intro wp_cached_query [OF s1(1)] E)
    fix s2 assume "remote_inv U C T s2" "rdb s2 = rdb s1"
    with s1(2) show "Q (map sr_key (rows_in_prefix h p (rdb s1))) s2"
      by (intro Q) (simp_all only: set_map set_rows_in_prefix)
  qed
qed

section \<open>Reads through the cache\<close>

lemma wp_speculate:
  assumes "remote_inv U C T s"
    and Q: "\<And>r s'. remote_inv U C T s' \<Longrightarrow>
      (\<And>v. r = Some v \<Longrightarrow> v = chain_value C h k \<and> cached_value (rdb s') (h, k) = Some v) \<Longrightarrow> Q r s'"
    and E: "\<And>e s'. remote_inv U C T s' \<Longrightarrow> e \<noteq> RemotePanic \<Longrightarrow> E e s'"
  shows "wp (speculate U h k) Q E s"
proof -
  have none: "Q None s'" if "remote_inv U C T s'" for s' by (rule Q [OF that]) simp
  have page: "0 < DEFAULT_PREFETCH_PAGE_SIZE" by (simp add: DEFAULT_PREFETCH_PAGE_SIZE_def)
  have ok: "v = chain_value C h k" if "remote_inv U C T s'" "cached_value (rdb s') (h, k) = Some v" for s' v
    using that by (simp add: remote_inv_def values_ok_def)
  have again: "wp (cached (get_storage h k)) (\<lambda>found. wp (case found of
      Some v \<Rightarrow> bindE (count_stat (\<lambda>t. t\<lparr>prefetch_hits := prefetch_hits t + 1\<rparr>)) (\<lambda>_. ret (Some v))
    | None \<Rightarrow> ret None) Q E) E s'" if s': "remote_inv U C T s'" for s'
  proof (intro wp_cached_get_storage [OF s'] wp_case_option wp_bindE wp_ret none E)
    fix x v s1
    assume *: "remote_inv U C T s1" "rdb s1 = rdb s'" "x = cached_value (rdb s') (h, k)" "x = Some v"
    then have "v = chain_value C h k" by (intro ok [OF s']) simp_all
    moreover have "cached_value (rdb s1) (h, k) = Some v" using *(2-4) by metis
    ultimately show "wp (count_stat (\<lambda>t. t\<lparr>prefetch_hits := prefetch_hits t + 1\<rparr>)) (\<lambda>_. wp (ret (Some v)) Q E) E s1"
      by (intro wp_count [OF *(1)] wp_ret Q) simp_all
  qed
  show ?thesis
    unfolding speculate_def Let_def
    by (intro wp_if wp_bindE wp_matchE wp_ret none wp_cached_scan_progress [OF assms(1)]
        wp_single_page [OF _ page] again E) (use assms(1) in simp_all)
qed

lemma wp_remote_get:
  assumes "remote_inv U C T s"
    and Q: "\<And>s'. remote_inv U C T s' \<Longrightarrow> cached_value (rdb s') (h, k) = Some (chain_value C h k) \<Longrightarrow>
      Q (chain_value C h k) s'"
    and E: "\<And>e s'. remote_inv U C T s' \<Longrightarrow> e \<noteq> RemotePanic \<Longrightarrow> E e s'"
  shows "wp (remote_get U h k) Q E s"
  unfolding remote_get_def
proof (intro wp_bindE wp_cached_get_storage [OF assms(1)] wp_case_option E wp_ret)
  have hon: "honest U C" using assms(1) by (simp add: remote_inv_def)
  fix x s1
  assume s1: "remote_inv U C T s1" "rdb s1 = rdb s" "x = cached_value (rdb s) (h, k)"
  { fix v assume "x = Some v"
    then have "v = chain_value C h k" "cached_value (rdb s1) (h, k) = Some v"
      using s1 by (auto simp: remote_inv_def values_ok_def)
    then show "wp (count_stat (\<lambda>t. t\<lparr>cache_hits := cache_hits t + 1\<rparr>)) (\<lambda>_. wp (ret v) Q E) E s1"
      by (intro wp_count [OF s1(1)] wp_ret) (use Q in simp) }
  show "wp (speculate U h k) (\<lambda>found. wp (case found of Some v \<Rightarrow> ret v | None \<Rightarrow>
      bindE (count_stat (\<lambda>t. t\<lparr>rpc_misses := rpc_misses t + 1\<rparr>)) (\<lambda>_.
      bindE (with_reconnect U (rpc_storage U k h)) (\<lambda>value.
      bindE (cached (set_storage h k value)) (\<lambda>_. ret value)))) Q E) E s1"
  proof (intro wp_speculate [OF s1(1)] wp_case_option wp_ret wp_bindE E)
    fix r s2 assume s2: "remote_inv U C T s2"
      and r: "\<And>v. r = Some v \<Longrightarrow> v = chain_value C h k \<and> cached_value (rdb s2) (h, k) = Some v"
    show "Q y s2" if "r = Some y" for y using r [OF that] Q [OF s2] by simp
    show "wp (count_stat (\<lambda>t. t\<lparr>rpc_misses := rpc_misses t + 1\<rparr>)) (\<lambda>_.
      wp (bindE (with_reconnect U (rpc_storage U k h)) (\<lambda>value.
      bindE (cached (set_storage h k value)) (\<lambda>_. ret value))) Q E) E s2"
    proof (intro wp_count [OF s2] wp_bindE wp_with_reconnect E)
      fix s3 got s4 n n'
      assume "rpc_storage U k h n = (Inr got, n')" and s4: "remote_inv U C T s4"
      then have "got = chain_value C h k" using storage_honest [OF hon] by blast
      then show "wp (cached (set_storage h k got)) (\<lambda>_. wp (ret got) Q E) E s4"
        by (auto intro!: wp_cached_set_storage [OF s4] wp_ret Q E)
    qed
  qed
qed

lemma foldl_list_update:
  "length (foldl (\<lambda>rs (i, v). rs[i := v]) xs (map (\<lambda>i. (i, g i)) is)) = length xs"
  "j < length xs \<Longrightarrow> foldl (\<lambda>rs (i, v). rs[i := v]) xs (map (\<lambda>i. (i, g i)) is) ! j =
     (if j \<in> set is then g j else xs ! j)"
  by (induction "is" arbitrary: xs) auto

lemma zip_map_self: "zip xs (map f xs) = map (\<lambda>x. (x, f x)) xs"
  by (induction xs) auto

lemma wp_remote_get_batch:
  assumes "remote_inv U C T s"
    and Q: "\<And>s'. remote_inv U C T s' \<Longrightarrow> Q (map (chain_value C h) keys) s'"
    and E: "\<And>e s'. remote_inv U C T s' \<Longrightarrow> e \<noteq> RemotePanic \<Longrightarrow> E e s'"
  shows "wp (remote_get_batch U h keys) Q E s"
proof -
  have hon: "honest U C" using assms(1) by (simp add: remote_inv_def)
  let ?cv = "\<lambda>k. cached_value (rdb s) (h, k)"
  let ?res = "map ?cv keys"
  let ?idx = "filter (\<lambda>i. ?res ! i = None) [0..<length ?res]"
  let ?flat = "map (\<lambda>c. Option.bind c (\<lambda>v. v)) ?res"
  let ?ukeys = "map (\<lambda>i. keys ! i) ?idx"
  have cv: "w = chain_value C h k" if "?cv k = Some w" for k w
    using assms(1) that by (simp add: remote_inv_def values_ok_def)
  have flat: "?flat ! i = chain_value C h (keys ! i)" if "i < length keys" "i \<notin> set ?idx" for i
    using that cv [of "keys ! i"] by (auto split: option.splits)
  have batch: "wp (cached (get_storage_batch h keys)) (\<lambda>rs s'. remote_inv U C T s' \<and> rdb s' = rdb s \<and>
      rs = ?res \<and> distinct keys) (\<lambda>e s'. remote_inv U C T s' \<and> e \<noteq> RemotePanic) s"
  proof -
    obtain r c where r: "get_storage_batch h keys (r_cache s) = (r, c)" by fastforce
    note batch = get_storage_batch_result [OF r]
    have "remote_inv U C T (s\<lparr>r_cache := c\<rparr>)"
      using assms(1) batch(1) by (simp add: remote_inv_def)
    moreover have "storage_pk (rdb s)" using assms(1) by (simp add: remote_inv_def values_ok_def)
    ultimately show ?thesis
      using r batch by (cases r) (auto simp: wp_def cached_def prog_simps)
  qed
  have final: "foldl (\<lambda>results (idx, v). results[idx := v]) ?flat
      (zip ?idx (map (chain_value C h) ?ukeys)) = map (chain_value C h) keys"
  proof (rule nth_equalityI)
    let ?g = "\<lambda>i. chain_value C h (keys ! i)"
    have zip: "zip ?idx (map (chain_value C h) ?ukeys) = map (\<lambda>i. (i, ?g i)) ?idx"
      by (simp add: zip_map_self [symmetric] comp_def)
    show "length (foldl (\<lambda>results (idx, v). results[idx := v]) ?flat
        (zip ?idx (map (chain_value C h) ?ukeys))) = length (map (chain_value C h) keys)"
      unfolding zip foldl_list_update(1) by simp
    fix j assume "j < length (foldl (\<lambda>results (idx, v). results[idx := v]) ?flat
        (zip ?idx (map (chain_value C h) ?ukeys)))"
    then have j: "j < length ?flat" unfolding zip foldl_list_update(1) .
    then show "foldl (\<lambda>results (idx, v). results[idx := v]) ?flat
        (zip ?idx (map (chain_value C h) ?ukeys)) ! j = map (chain_value C h) keys ! j"
      unfolding zip foldl_list_update(2) [OF j] using flat [of j] by (simp del: set_filter)
  qed
  have all: "?flat = map (chain_value C h) keys" if "?ukeys = []"
    by (rule nth_equalityI) (use that flat in auto)
  show ?thesis
    unfolding remote_get_batch_def Let_def
  proof (intro wp_if wp_ret wp_bindE wp_mono [OF batch] E; (elim conjE)?)
    show "Q [] s" if "keys = []" using that Q [OF assms(1)] by simp
    fix rs s1
    assume rs: "rs = ?res" "distinct keys" and s1: "remote_inv U C T s1" "rdb s1 = rdb s"
    { assume "map (\<lambda>i. keys ! i) (filter (\<lambda>i. rs ! i = None) [0..<length rs]) = []"
      then show "Q (map (\<lambda>c. Option.bind c (\<lambda>v. v)) rs) s1"
        unfolding rs(1) using all Q [OF s1(1)] by metis }
    have dist: "distinct ?ukeys"
      using rs(2) by (auto simp: distinct_map inj_on_def nth_eq_iff_index_eq)
    show "wp (with_reconnect U (storage_batch U (map ((!) keys)
        (filter (\<lambda>i. rs ! i = None) [0..<length rs])) h))
      (\<lambda>fetched_values. wp (bindE (cached (set_storage_batch h (zip (map ((!) keys)
          (filter (\<lambda>i. rs ! i = None) [0..<length rs])) fetched_values))) (\<lambda>_.
         ret (foldl (\<lambda>results (idx, v). results[idx := v]) (map (\<lambda>c. Option.bind c (\<lambda>v. v)) rs)
           (zip (filter (\<lambda>i. rs ! i = None) [0..<length rs]) fetched_values)))) Q E) E s1"
      unfolding rs(1)
    proof (intro wp_with_reconnect [OF s1(1)] wp_bindE E)
      fix fetched s2 n n'
      assume "storage_batch U ?ukeys h n = (Inr fetched, n')" and s2: "remote_inv U C T s2"
      then have vals: "fetched = map (chain_value C h) ?ukeys"
        using storage_batch_honest [OF hon] by blast
      show "wp (cached (set_storage_batch h (zip ?ukeys fetched)))
        (\<lambda>_. wp (ret (foldl (\<lambda>results (idx, v). results[idx := v]) ?flat (zip ?idx fetched))) Q E) E s2"
        unfolding vals final by (intro wp_cached_set_storage_batch [OF s2 dist] wp_ret Q E) simp_all
    qed
  qed
qed

section \<open>The next key\<close>

definition next_chain_key :: "chain \<Rightarrow> h256 \<Rightarrow> bytes \<Rightarrow> bytes \<Rightarrow> bytes option" where
  "next_chain_key C h p key =
     (case filter (\<lambda>k. key < k) (chain_keys C h p) of [] \<Rightarrow> None | k # _ \<Rightarrow> Some k)"

lemma least_key_sorted:
  assumes "set ks = set xs" and "sorted_wrt (<) xs"
  shows "least_key ks = (case xs of [] \<Rightarrow> None | x # _ \<Rightarrow> Some x)"
proof (cases xs)
  case Nil
  with assms(1) show ?thesis by (simp add: least_key_def)
next
  case (Cons x xs')
  with assms(1) obtain y ys where ys: "sort ks = y # ys"
    by (cases "sort ks") (auto dest: arg_cong [of _ _ set])
  then have "set (y # ys) = set xs" "sorted (y # ys)"
    using assms(1) by (metis set_sort, metis sorted_sort)
  then have "y \<le> x" "y \<in> set xs" using Cons by auto
  with Cons assms(2) have "y = x" by auto
  with ys Cons show ?thesis by (simp add: least_key_def)
qed

lemma live_row:
  assumes "values_ok C d"
  shows "(\<exists>r \<in> set (storage_rows d). sr_block_hash r = as_bytes h \<and> sr_key r = k \<and> \<not> sr_is_empty r)
     \<longleftrightarrow> cached_value d (h, k) \<noteq> None \<and> chain_value C h k \<noteq> None"
proof
  assume "\<exists>r \<in> set (storage_rows d). sr_block_hash r = as_bytes h \<and> sr_key r = k \<and> \<not> sr_is_empty r"
  then obtain r where r: "r \<in> set (storage_rows d)" "sr_block_hash r = as_bytes h" "sr_key r = k"
    "\<not> sr_is_empty r" by blast
  then have "sr_value r \<noteq> None" using assms by (simp add: values_ok_def)
  have "find (is_storage_key h k) (storage_rows d) = Some r"
  proof (rule find_unique [OF r(1)])
    show "is_storage_key h k r" using r by (simp add: is_storage_key_def)
    show "y = r" if "y \<in> set (storage_rows d)" "is_storage_key h k y" for y
      by (rule inj_onD [of "\<lambda>r. (sr_block_hash r, sr_key r)" "set (storage_rows d)"])
        (use assms that r in \<open>auto simp: values_ok_def storage_pk_def distinct_map is_storage_key_def\<close>)
  qed
  then have cv: "cached_value d (h, k) = Some (sr_value r)"
    using r(4) by (simp add: cached_value_def row_value_def)
  then have "sr_value r = chain_value C h k" using assms unfolding values_ok_def by blast
  with cv \<open>sr_value r \<noteq> None\<close> show "cached_value d (h, k) \<noteq> None \<and> chain_value C h k \<noteq> None" by simp
next
  assume *: "cached_value d (h, k) \<noteq> None \<and> chain_value C h k \<noteq> None"
  then obtain r where r: "find (is_storage_key h k) (storage_rows d) = Some r"
    by (auto simp: cached_value_def)
  then have "cached_value d (h, k) = Some (row_value r)" by (simp add: cached_value_def)
  then have "row_value r = chain_value C h k" using assms unfolding values_ok_def by blast
  with * have "\<not> sr_is_empty r" by (auto simp: row_value_def)
  with find_SomeD [OF r]
  show "\<exists>r \<in> set (storage_rows d). sr_block_hash r = as_bytes h \<and> sr_key r = k \<and> \<not> sr_is_empty r"
    by (auto simp: is_storage_key_def)
qed

lemma in_chain_keys: "k \<in> set (chain_keys C h p) \<longleftrightarrow> starts_with k p \<and> chain_value C h k \<noteq> None"
  by (auto simp: chain_keys_def chain_value_def map_of_eq_None_iff)

lemma next_cached_key_complete:
  assumes "wf_chain C" and "values_ok C d" and "all_cached C h q d" and "starts_with p q"
  shows "next_cached_key h p key d = next_chain_key C h p key"
proof -
  let ?ks = "map sr_key (filter (\<lambda>r. sr_key r > key \<and> \<not> sr_is_empty r) (rows_in_prefix h p d))"
  have rows: "k \<in> set ?ks \<longleftrightarrow> starts_with k p \<and> key < k \<and> cached_value d (h, k) \<noteq> None \<and>
      chain_value C h k \<noteq> None" for k
    unfolding live_row [OF assms(2), symmetric]
    by (auto simp: rows_in_prefix_def increment_prefix_eq in_range_prefix)
  have seen: "cached_value d (h, k) \<noteq> None" if "starts_with k p" "chain_value C h k \<noteq> None" for k
  proof -
    have "k \<in> set (chain_keys C h q)"
      using that starts_with_trans [OF that(1) assms(4)] by (simp add: in_chain_keys)
    with assms(3) show ?thesis by (simp add: all_cached_def)
  qed
  have "k \<in> set (filter (\<lambda>k. key < k) (chain_keys C h p)) \<longleftrightarrow>
      starts_with k p \<and> key < k \<and> chain_value C h k \<noteq> None" for k
    by (auto simp: in_chain_keys)
  then have "set ?ks = set (filter (\<lambda>k. key < k) (chain_keys C h p))"
    using rows seen by (intro set_eqI) (metis (mono_tags))
  then show ?thesis
    unfolding next_cached_key_def next_chain_key_def
    by (rule least_key_sorted) (intro sorted_wrt_filter sorted_chain_keys assms(1))
qed

lemma wp_scan_covers:
  assumes "remote_inv U C T s"
    and "\<And>b s'. remote_inv U C T s' \<Longrightarrow> (b \<Longrightarrow> \<exists>q. starts_with p q \<and> all_cached C h q (rdb s')) \<Longrightarrow> Q b s'"
    and "\<And>e s'. remote_inv U C T s' \<Longrightarrow> e \<noteq> RemotePanic \<Longrightarrow> E e s'"
  shows "wp (scan_covers h p lens) Q E s"
  using assms(1)
proof (induction lens arbitrary: s)
  case Nil
  then show ?case by (auto intro!: wp_ret assms(2))
next
  case (Cons len lens)
  show ?case
    unfolding scan_covers.simps
  proof (intro wp_if Cons.IH Cons.prems wp_bindE wp_cached_scan_progress [OF Cons.prems] wp_ret
      assms(2) assms(3))
    fix x s' assume *: "remote_inv U C T s'" "rdb s' = rdb s"
      "x = scan_progress h (take len p) (rdb s)" "case x of Some p \<Rightarrow> is_complete p | None \<Rightarrow> False"
    then have "all_cached C h (take len p) (rdb s')"
      using scan_cached_upto(2) [OF *(1)] by (auto split: option.splits)
    then show "\<exists>q. starts_with p q \<and> all_cached C h q (rdb s')" using starts_with_take by blast
  qed
qed

lemma wp_remote_next_key:
  assumes "remote_inv U C T s"
    and Q: "\<And>s'. remote_inv U C T s' \<Longrightarrow> Q (next_chain_key C h p key) s'"
    and E: "\<And>e s'. remote_inv U C T s' \<Longrightarrow> e \<noteq> RemotePanic \<Longrightarrow> E e s'"
  shows "wp (remote_next_key U h p key) Q E s"
proof -
  have wf: "wf_chain C" using assms(1) unfolding remote_inv_def by (blast dest: honestD)
  show ?thesis
    unfolding remote_next_key_def
  proof (intro wp_bindE wp_scan_covers [OF assms(1)] wp_if E)
    fix b s1 assume s1: "remote_inv U C T s1"
      and cov: "b \<Longrightarrow> \<exists>q. starts_with p q \<and> all_cached C h q (rdb s1)"
    { assume b
      then obtain q where q: "starts_with p q" "all_cached C h q (rdb s1)" using cov by blast
      show "wp (count_stat (\<lambda>t. t\<lparr>next_key_cache := next_key_cache t + 1\<rparr>))
          (\<lambda>_. wp (cached (next_key_from_cache h p key)) Q E) E s1"
        unfolding next_key_from_cache_def
      proof (intro wp_count [OF s1] wp_cached_query E)
        fix s2 s3 assume "remote_inv U C T s2" "rdb s2 = rdb s1" and s3: "remote_inv U C T s3"
        then have "next_cached_key h p key (rdb s2) = next_chain_key C h p key"
          using q s1 wf by (intro next_cached_key_complete) (simp_all add: remote_inv_def)
        then show "Q (next_cached_key h p key (rdb s2)) s3" using Q [OF s3] by simp
      qed }
    show "wp (count_stat (\<lambda>t. t\<lparr>next_key_rpc := next_key_rpc t + 1\<rparr>))
        (\<lambda>_. wp (bindE (with_reconnect U (storage_keys_paged U p 1 (Some key) h))
            (\<lambda>keys. ret (case keys of [] \<Rightarrow> None | k # _ \<Rightarrow> Some k))) Q E) E s1"
    proof (intro wp_count [OF s1] wp_bindE wp_keys_page wp_ret E)
      fix s2 s3 assume s3: "remote_inv U C T s3"
      have "(case take (unat (1::u32)) (keys_after (Some key) (chain_keys C h p)) of
          [] \<Rightarrow> None | k # _ \<Rightarrow> Some k) = next_chain_key C h p key"
        by (simp add: next_chain_key_def keys_after_def split: list.split)
      then show "Q (case take (unat (1::u32)) (keys_after (Some key) (chain_keys C h p)) of
          [] \<Rightarrow> None | k # _ \<Rightarrow> Some k) s3" using Q [OF s3] by simp
    qed
  qed
qed

section \<open>Blocks\<close>

lemma wp_cached_get_block:
  assumes "remote_inv U C T s"
    and Some: "\<And>s' b. remote_inv U C T s' \<Longrightarrow> ch_block C h = Some b \<Longrightarrow> Q (Some (row_of_block U h b)) s'"
    and None: "\<And>s'. remote_inv U C T s' \<Longrightarrow> Q None s'"
    and E: "\<And>e s'. remote_inv U C T s' \<Longrightarrow> e \<noteq> RemotePanic \<Longrightarrow> E e s'"
  shows "wp (cached (get_block h)) Q E s"
proof -
  obtain r c where r: "query (\<lambda>d. find (\<lambda>r. br_hash r = as_bytes h) (block_rows d)) (r_cache s) = (r, c)"
    by fastforce
  have c: "remote_inv U C T (s\<lparr>r_cache := c\<rparr>)"
    using query_result(1) [OF r] assms(1) by (simp add: remote_inv_def)
  show ?thesis
  proof (cases r)
    case (Inl e)
    with r E [OF c] show ?thesis by (simp add: wp_def cached_def get_block_def prog_simps)
  next
    case (Inr found)
    with query_result(2) [OF r] have found: "found = find (\<lambda>r. br_hash r = as_bytes h) (block_rows (rdb s))"
      by simp
    show ?thesis
    proof (cases found)
      case None
      with r Inr assms(3) [OF c] show ?thesis
        by (simp add: wp_def cached_def get_block_def checked_block_row_def prog_simps)
    next
      case (Some row)
      then have row: "row \<in> set (block_rows (rdb s))" "br_hash row = as_bytes h"
        using found by (auto dest: find_SomeD)
      with assms(1) obtain h' b where b: "ch_block C h' = Some b" "row = row_of_block U h' b"
        by (auto simp: remote_inv_def blocks_ok_def)
      with row have "h' = h" by (simp add: row_of_block_def block_row_of_def)
      moreover have "0 \<le> br_number row" "br_number row \<le> 2 ^ 32 - 1"
        using b uint_bounded [of "nh_number (nb_header b)"]
        by (simp_all add: row_of_block_def block_row_of_def)
      ultimately show ?thesis
        using r Inr Some b assms(2) [OF c, of b]
        by (simp add: wp_def cached_def get_block_def checked_block_row_def prog_simps)
    qed
  qed
qed

lemma wp_cached_cache_block:
  assumes "remote_inv U C T s" and "ch_block C h = Some b"
    and "\<And>s'. remote_inv U C T s' \<Longrightarrow> Q () s'" and "\<And>e s'. remote_inv U C T s' \<Longrightarrow> e \<noteq> RemotePanic \<Longrightarrow> E e s'"
  shows "wp (cached (cache_block h (nh_number (nb_header b)) (nh_parent_hash (nb_header b))
     (u_encode_header U (nb_header b)))) Q E s"
  unfolding cache_block_def
proof (rule wp_cached_write [OF assms(1)])
  let ?d = "upsert_block h (nh_number (nb_header b)) (nh_parent_hash (nb_header b))
     (u_encode_header U (nb_header b)) (rdb s)"
  have "scans_ok C ?d"
    by (rule scans_ok_mono [of C "rdb s"])
      (use assms(1) in \<open>simp_all add: remote_inv_def cached_value_frame [OF upsert_block_frame(1)]\<close>)
  with assms(1,2) show "remote_inv U C T (s\<lparr>r_cache := (r_cache s)\<lparr>cache_db := ?d\<rparr>\<rparr>)"
    by (simp add: remote_inv_def values_ok_frame [OF upsert_block_frame(1)] blocks_ok_upsert
        local_tables_def)
qed (use assms(3,4) in simp_all)

lemma wp_block_number_by_hash:
  assumes "remote_inv U C T s"
    and Q: "\<And>s'. remote_inv U C T s' \<Longrightarrow> Q (map_option (\<lambda>b. nh_number (nb_header b)) (ch_block C h)) s'"
    and E: "\<And>e s'. remote_inv U C T s' \<Longrightarrow> e \<noteq> RemotePanic \<Longrightarrow> E e s'"
  shows "wp (block_number_by_hash U h) Q E s"
proof -
  have hon: "honest U C" using assms(1) by (simp add: remote_inv_def)
  show ?thesis
    unfolding block_number_by_hash_def Let_def
  proof (intro wp_bindE wp_cached_get_block [OF assms(1)] E)
    show "wp (case Some (row_of_block U h b) of Some row \<Rightarrow> ret (Some (word_of_int (br_number row)))
        | None \<Rightarrow> g) Q E s'"
      if "remote_inv U C T s'" "ch_block C h = Some b" for s' b g
      using Q [OF that(1)] that(2) by (simp add: wp_def ret_def row_of_block_def block_row_of_def)
    fix s1 assume s1: "remote_inv U C T s1"
    show "wp (case None of Some row \<Rightarrow> ret (Some (word_of_int (br_number row)))
        | None \<Rightarrow> bindE (rpc (block_by_hash U h)) (\<lambda>block. case block of
            Some b \<Rightarrow> bindE (cached (cache_block h (nh_number (nb_header b))
              (nh_parent_hash (nb_header b)) (u_encode_header U (nb_header b))))
                (\<lambda>_. ret (Some (nh_number (nb_header b))))
          | None \<Rightarrow> ret None)) Q E s1"
    proof (simp only: option.case, intro wp_bindE wp_rpc [OF s1] E wp_case_option)
      fix x s2 n n'
      assume x: "block_by_hash U h n = (Inr x, n')" and s2: "remote_inv U C T s2"
      have chx: "x = ch_block C h" using block_by_hash_honest [OF hon x] .
      show "wp (ret None) Q E s2" if "x = None"
        by (rule wp_ret) (use Q [OF s2] chx that in simp)
      show "wp (cached (cache_block h (nh_number (nb_header b)) (nh_parent_hash (nb_header b))
          (u_encode_header U (nb_header b)))) (\<lambda>_. wp (ret (Some (nh_number (nb_header b)))) Q E) E s2"
        if "x = Some b" for b
      proof (intro wp_cached_cache_block [OF s2] wp_ret E)
        show "ch_block C h = Some b" using chx that by simp
        then show "Q (Some (nh_number (nb_header b))) s3" if "remote_inv U C T s3" for s3
          using Q [OF that] by simp
      qed
    qed
  qed
qed

text \<open>The stored parent hash has 32 bytes, so that \<open>from_slice\<close> does not panic.\<close>

lemma wp_remote_parent_hash:
  assumes "remote_inv U C T s"
    and Q: "\<And>s'. remote_inv U C T s' \<Longrightarrow> Q (map_option (\<lambda>b. nh_parent_hash (nb_header b)) (ch_block C h)) s'"
    and E: "\<And>e s'. remote_inv U C T s' \<Longrightarrow> e \<noteq> RemotePanic \<Longrightarrow> E e s'"
  shows "wp (remote_parent_hash U h) Q E s"
proof -
  have hon: "honest U C" using assms(1) by (simp add: remote_inv_def)
  show ?thesis
    unfolding remote_parent_hash_def Let_def
  proof (intro wp_bindE wp_cached_get_block [OF assms(1)] E)
    show "wp (case Some (row_of_block U h b) of Some row \<Rightarrow> (case h256_from_slice (br_parent_hash row) of
          Some p \<Rightarrow> ret (Some p) | None \<Rightarrow> fail RemotePanic) | None \<Rightarrow> g) Q E s'"
      if "remote_inv U C T s'" "ch_block C h = Some b" for s' b g
    proof -
      have "wf_h256 (nh_parent_hash (nb_header b))"
        using honestD(1) [OF hon] that(2) unfolding wf_chain_def by blast
      then show ?thesis
        using Q [OF that(1)] that(2)
        by (simp add: wp_def ret_def row_of_block_def block_row_of_def h256_from_slice_as_bytes)
    qed
    fix s1 assume s1: "remote_inv U C T s1"
    show "wp (case None of Some row \<Rightarrow> (case h256_from_slice (br_parent_hash row) of
          Some p \<Rightarrow> ret (Some p) | None \<Rightarrow> fail RemotePanic)
        | None \<Rightarrow> bindE (rpc (block_by_hash U h)) (\<lambda>block. case block of
            Some b \<Rightarrow> bindE (cached (cache_block h (nh_number (nb_header b))
              (nh_parent_hash (nb_header b)) (u_encode_header U (nb_header b))))
                (\<lambda>_. ret (Some (nh_parent_hash (nb_header b))))
          | None \<Rightarrow> ret None)) Q E s1"
    proof (simp only: option.case, intro wp_bindE wp_rpc [OF s1] E wp_case_option)
      fix x s2 n n'
      assume x: "block_by_hash U h n = (Inr x, n')" and s2: "remote_inv U C T s2"
      have chx: "x = ch_block C h" using block_by_hash_honest [OF hon x] .
      show "wp (ret None) Q E s2" if "x = None"
        by (rule wp_ret) (use Q [OF s2] chx that in simp)
      show "wp (cached (cache_block h (nh_number (nb_header b)) (nh_parent_hash (nb_header b))
          (u_encode_header U (nb_header b)))) (\<lambda>_. wp (ret (Some (nh_parent_hash (nb_header b)))) Q E) E s2"
        if "x = Some b" for b
      proof (intro wp_cached_cache_block [OF s2] wp_ret E)
        show "ch_block C h = Some b" using chx that by simp
        then show "Q (Some (nh_parent_hash (nb_header b))) s3" if "remote_inv U C T s3" for s3
          using Q [OF that] by simp
      qed
    qed
  qed
qed

section \<open>The layer as a source of state, and what clearing keeps\<close>

interpretation remote_source: state_source "\<lambda>(h, k). remote_get U h k" "remote_inv U C T"
    "\<lambda>(h, k). chain_value C h k" for U C T
  by unfold_locales (auto intro!: wp_remote_get)

interpretation remote_batch_source: state_source "\<lambda>(h, ks). remote_get_batch U h ks" "remote_inv U C T"
    "\<lambda>(h, ks). map (chain_value C h) ks" for U C T
  by unfold_locales (auto intro!: wp_remote_get_batch)

interpretation next_key_source: state_source "\<lambda>(h, p, k). remote_next_key U h p k" "remote_inv U C T"
    "\<lambda>(h, p, k). next_chain_key C h p k" for U C T
  by unfold_locales (auto intro!: wp_remote_next_key)

lemma cached_value_delete:
  "cached_value (delete_block b d) (h, k) = (if h = b then None else cached_value d (h, k))"
proof (cases "h = b")
  case True
  then show ?thesis
    by (auto simp: cached_value_def delete_block_def find_None_all is_storage_key_def)
next
  case False
  have "find (is_storage_key h k) (filter (\<lambda>r. sr_block_hash r \<noteq> as_bytes b) rs) =
      find (is_storage_key h k) rs" for rs
    using False by (induction rs) (auto simp: is_storage_key_def)
  with False show ?thesis by (simp add: cached_value_def delete_block_def)
qed

lemma scan_progress_delete:
  "scan_progress h p (delete_block b d) = (if h = b then None else scan_progress h p d)"
proof (cases "h = b")
  case True
  then show ?thesis
    by (auto simp: scan_progress_def delete_block_def find_None_all is_scan_of_def)
next
  case False
  have "find (is_scan_of h p) (filter (\<lambda>r. ps_block_hash r \<noteq> as_bytes b) rs) =
      find (is_scan_of h p) rs" for rs
    using False by (induction rs) (auto simp: is_scan_of_def)
  with False show ?thesis by (simp add: scan_progress_def delete_block_def)
qed

lemma cached_block_delete:
  "cached_block (delete_block b d) h = (if h = b then None else cached_block d h)"
proof -
  have "find (\<lambda>r. br_hash r = as_bytes h) (filter (\<lambda>r. br_hash r \<noteq> as_bytes b) rs) =
      (if h = b then None else find (\<lambda>r. br_hash r = as_bytes h) rs)" for rs
    by (induction rs) auto
  moreover have "block_rows (delete_block b d) = filter (\<lambda>r. br_hash r \<noteq> as_bytes b) (block_rows d)"
    by (simp add: delete_block_def)
  ultimately show ?thesis by (simp only: cached_block_def)
qed

lemma delete_block_coherent:
  assumes "values_ok C d" and "scans_ok C d" and "blocks_ok U C d"
  shows "values_ok C (delete_block b d)" and "scans_ok C (delete_block b d)"
    and "blocks_ok U C (delete_block b d)"
proof -
  have "storage_pk (delete_block b d)"
    using assms(1) unfolding values_ok_def storage_pk_def delete_block_def
    by (simp add: distinct_map_filter)
  moreover have "\<forall>r \<in> set (storage_rows (delete_block b d)). sr_is_empty r = (sr_value r = None)"
    using assms(1) unfolding values_ok_def by (simp add: delete_block_def)
  ultimately show "values_ok C (delete_block b d)"
    using assms(1) unfolding values_ok_def cached_value_delete by simp
  show "scans_ok C (delete_block b d)"
    using assms(2) unfolding scans_ok_def cached_value_delete scan_progress_delete by simp
  show "blocks_ok U C (delete_block b d)"
    using assms(3) by (auto simp: blocks_ok_def delete_block_def)
qed

end
