(* ===== verification/Local_Laws.thy ===== *)
theory Local_Laws
  imports Local_Layer Remote_Laws
begin

text \<open>
  Laws of the local layer: what a read returns in every case (\<open>layer_value\<close>), that reads
  change nothing a read can see, and that \<open>set\<close>, \<open>delete_prefix\<close>, \<open>set_initial\<close> and
  \<open>commit\<close> are the expected updates of a store with one version per block.
\<close>

section \<open>The value a layer stands for\<close>

text \<open>
  The canonical chain: every known block is the one of its number, and every numbered
  hash has its block.
\<close>

definition canonical :: "chain \<Rightarrow> bool" where
  "canonical C \<longleftrightarrow>
     (\<forall>h b. ch_block C h = Some b \<longrightarrow> ch_hash C (nh_number (nb_header b)) = Some h) \<and>
     (\<forall>m h. ch_hash C m = Some h \<longrightarrow> ch_block C h \<noteq> None)"

definition block_value :: "chain \<Rightarrow> u32 \<Rightarrow> bytes \<Rightarrow> bytes option" where
  "block_value C n k = Option.bind (ch_hash C n) (\<lambda>h. chain_value C h k)"

abbreviation fdb :: "('n, 'm) fork \<Rightarrow> db" where
  "fdb s \<equiv> rdb (f_remote s)"

text \<open>What is read when the local maps do not say: by block number, as the three cases.\<close>

definition beyond_value :: "layer \<Rightarrow> chain \<Rightarrow> ('n, 'm) fork \<Rightarrow> u32 \<Rightarrow> bytes \<Rightarrow> bytes option" where
  "beyond_value L C s n k =
     (if n = current_block_number L then chain_value C (first_forked_block_hash L) k
      else if first_forked_block_number L < n \<and> n < current_block_number L
      then (case local_value_at k (uint n) (fdb s) of
              Some v \<Rightarrow> v | None \<Rightarrow> chain_value C (first_forked_block_hash L) k)
      else block_value C n k)"

definition layer_value :: "layer \<Rightarrow> chain \<Rightarrow> ('n, 'm) fork \<Rightarrow> u32 \<Rightarrow> bytes \<Rightarrow> bytes option" where
  "layer_value L C s n k =
     (case local_modification L (modifications s) (deleted_prefixes s) k n of
        Some m \<Rightarrow> Option.bind m sv_value
      | None \<Rightarrow> beyond_value L C s n k)"

definition fork_inv :: "('n, 'm) upstream \<Rightarrow> chain \<Rightarrow> layer \<Rightarrow> ('n, 'm) fork \<Rightarrow> bool" where
  "fork_inv U C L s \<longleftrightarrow>
     remote_inv U C (local_tables (fdb s)) (f_remote s) \<and> canonical C \<and>
     ch_hash C (first_forked_block_number L) = Some (first_forked_block_hash L) \<and>
     first_forked_block_number L < current_block_number L \<and>
     \<not> modifications_poisoned s \<and> \<not> prefixes_poisoned s \<and> \<not> versions_poisoned s"

text \<open>What a read leaves alone.\<close>

definition same_fork :: "('n, 'm) fork \<Rightarrow> ('n, 'm) fork \<Rightarrow> bool" where
  "same_fork s s' \<longleftrightarrow> modifications s' = modifications s \<and> deleted_prefixes s' = deleted_prefixes s \<and>
     metadata_versions s' = metadata_versions s \<and> local_tables (fdb s') = local_tables (fdb s)"

lemma same_fork_refl [simp]: "same_fork s s"
  by (simp add: same_fork_def)

lemma same_fork_trans: "same_fork s s1 \<Longrightarrow> same_fork s1 s2 \<Longrightarrow> same_fork s s2"
  by (simp add: same_fork_def)

lemma local_tables_frame:
  "local_tables d' = local_tables d \<Longrightarrow> local_value_at k n d' = local_value_at k n d"
  "local_tables d' = local_tables d \<Longrightarrow> local_inv b d' \<longleftrightarrow> local_inv b d"
  by (rule local_value_at_frame; simp add: local_tables_def)
    (simp add: local_tables_def local_inv_def)

lemma layer_value_same: "same_fork s s' \<Longrightarrow> layer_value L C s' = layer_value L C s"
  using local_tables_frame(1) [of "fdb s'" "fdb s"]
  by (auto simp: same_fork_def layer_value_def beyond_value_def fun_eq_iff split: option.splits)

section \<open>The calls of the layer\<close>

text \<open>Reads do not run into a stored hash of the wrong width.\<close>

definition no_panic :: "local_error \<Rightarrow> bool" where
  "no_panic e \<longleftrightarrow> e \<noteq> LocalPanic \<and> e \<noteq> LRemote RemotePanic"

lemma no_panic_simps [simp]:
  "no_panic (LCache c)" "no_panic (LRemote r) \<longleftrightarrow> r \<noteq> RemotePanic" "no_panic (LRpc x)"
  "no_panic (LockError m)" "no_panic (MetadataNotFound m)" "\<not> no_panic LocalPanic" "no_panic Arithmetic"
  by (simp_all add: no_panic_def)

lemma fork_inv_remote:
  "fork_inv U C L s \<Longrightarrow> remote_inv U C (local_tables (fdb s)) r \<Longrightarrow>
     fork_inv U C L (s\<lparr>f_remote := r\<rparr>) \<and> same_fork s (s\<lparr>f_remote := r\<rparr>)"
  by (auto simp: fork_inv_def same_fork_def remote_inv_def)

text \<open>A remote operation with its rule, as an operation of the fork.\<close>

lemma wp_parent:
  assumes inv: "fork_inv U C L s"
    and m: "remote_inv U C (local_tables (fdb s)) (f_remote s) \<Longrightarrow>
      wp m (\<lambda>x r. remote_inv U C (local_tables (fdb s)) r \<and> P x)
        (\<lambda>e r. remote_inv U C (local_tables (fdb s)) r \<and> e \<noteq> RemotePanic) (f_remote s)"
    and Q: "\<And>x s'. fork_inv U C L s' \<Longrightarrow> same_fork s s' \<Longrightarrow> P x \<Longrightarrow> Q x s'"
    and E: "\<And>e s'. fork_inv U C L s' \<Longrightarrow> same_fork s s' \<Longrightarrow> no_panic e \<Longrightarrow> E e s'"
  shows "wp (parent m) Q E s"
proof -
  have "remote_inv U C (local_tables (fdb s)) (f_remote s)" using inv by (simp add: fork_inv_def)
  then show ?thesis
    unfolding parent_def
    by (intro wp_map_err wp_on_field) (use fork_inv_remote [OF inv] in \<open>auto intro!: wp_mono [OF m] Q E\<close>)
qed

lemma wp_on_cache:
  assumes inv: "fork_inv U C L s"
    and m: "\<And>c r c'. m c = (r, c') \<Longrightarrow> cache_db c = fdb s \<Longrightarrow>
      cache_db c' = cache_db c \<and> (\<forall>x. r = Inr x \<longrightarrow> P x)"
    and Q: "\<And>x s'. fork_inv U C L s' \<Longrightarrow> same_fork s s' \<Longrightarrow> P x \<Longrightarrow> Q x s'"
    and E: "\<And>e s'. fork_inv U C L s' \<Longrightarrow> same_fork s s' \<Longrightarrow> no_panic e \<Longrightarrow> E e s'"
  shows "wp (on_cache m) Q E s"
proof -
  obtain r c where r: "m (r_cache (f_remote s)) = (r, c)" by fastforce
  have c: "cache_db c = fdb s" "\<And>x. r = Inr x \<Longrightarrow> P x" using m [OF r] by auto
  have "remote_inv U C (local_tables (fdb s)) ((f_remote s)\<lparr>r_cache := c\<rparr>)"
    using inv c(1) by (simp add: fork_inv_def remote_inv_def)
  note s' = fork_inv_remote [OF inv this]
  show ?thesis
    using r s' c(2) Q [of "s\<lparr>f_remote := (f_remote s)\<lparr>r_cache := c\<rparr>\<rparr>"]
      E [of "s\<lparr>f_remote := (f_remote s)\<lparr>r_cache := c\<rparr>\<rparr>"]
    by (cases r) (auto simp: wp_def on_cache_def prog_simps)
qed

lemma wp_lock: "\<not> p s \<Longrightarrow> Q () s \<Longrightarrow> wp (lock p) Q E s"
  by (simp add: wp_def lock_def prog_simps)

lemma get_local_value_result:
  assumes "get_local_value_at_block k n c = (r, c')"
  shows "cache_db c' = cache_db c \<and> (\<forall>x. r = Inr x \<longrightarrow> x = local_value_at k (uint n) (cache_db c))"
proof -
  obtain r1 c1 where q1: "query (local_key_id k) c = (r1, c1)" by fastforce
  note 1 = query_result [OF q1]
  show ?thesis
  proof (cases r1)
    case (Inl e)
    with assms q1 1(1) show ?thesis by (auto simp: get_local_value_at_block_def prog_simps)
  next
    case (Inr i)
    then have i: "i = local_key_id k (cache_db c)" using 1(2) by simp
    show ?thesis
    proof (cases i)
      case None
      with assms q1 Inr 1(1) i show ?thesis
        by (auto simp: get_local_value_at_block_def prog_simps local_value_at_def)
    next
      case (Some j)
      then have "query (\<lambda>d. map_option lv_value
          (find (\<lambda>r. lv_key_id r = j \<and> valid_at (uint n) r) (local_value_rows d))) c1 = (r, c')"
        using assms q1 Inr by (simp add: get_local_value_at_block_def prog_simps)
      note 2 = query_result [OF this]
      with 1(1) show ?thesis
        unfolding local_value_at_def i [symmetric] Some by simp
    qed
  qed
qed

text \<open>The batch read of the local tables agrees with the single one.\<close>

lemma remove_each_via_distinct:
  assumes "distinct ks" and "\<And>k k' i. k \<in> set ks \<Longrightarrow> k' \<in> set ks \<Longrightarrow> ids k = Some i \<Longrightarrow> ids k' = Some i \<Longrightarrow> k = k'"
  shows "remove_each_via ids m ks = map (\<lambda>k. Option.bind (ids k) m) ks"
  using assms
proof (induction ks arbitrary: m)
  case (Cons k ks)
  show ?case
  proof (cases "ids k")
    case None
    with Cons show ?thesis by simp
  next
    case (Some i)
    have "Option.bind (ids k') (m(i := None)) = Option.bind (ids k') m" if "k' \<in> set ks" for k'
      using Cons.prems Some that by (cases "ids k'") auto
    with Cons Some show ?thesis by simp
  qed
qed simp

lemma local_key_unique:
  assumes "local_inv b d" and "local_key_id k d = Some i" and "local_key_id k' d = Some i"
  shows "k = k'"
proof -
  obtain r r' where r: "r \<in> set (local_key_rows d)" "lk_key r = k" "lk_id r = i"
    "r' \<in> set (local_key_rows d)" "lk_key r' = k'" "lk_id r' = i"
    using assms(2,3) by (auto simp: local_key_id_def dest: find_SomeD)
  then have "r = r'"
    using assms(1) by (auto simp: local_inv_alt distinct_map dest: inj_onD)
  with r show ?thesis by simp
qed

lemma key_to_id_map:
  assumes "local_inv b d" and "k \<in> set keys"
  shows "collect_map (map (\<lambda>r. (lk_key r, lk_id r)) (filter (\<lambda>r. lk_key r \<in> set keys) (local_key_rows d))) k =
     local_key_id k d"
proof -
  let ?rows = "filter (\<lambda>r. lk_key r \<in> set keys) (local_key_rows d)"
  have "distinct (map lk_key ?rows)"
    using assms(1) by (simp add: local_inv_def distinct_map_filter)
  then have "collect_map (map (\<lambda>r. (lk_key r, lk_id r)) ?rows) k = map_of (map (\<lambda>r. (lk_key r, lk_id r)) ?rows) k"
    by (simp add: collect_map_distinct comp_def)
  also have "map_of (map (\<lambda>r. (lk_key r, lk_id r)) (filter (\<lambda>r. lk_key r \<in> set keys) rows)) k =
      map_option lk_id (find (\<lambda>r. lk_key r = k) rows)" for rows
    using assms(2) by (induction rows) auto
  finally show ?thesis by (simp add: local_key_id_def)
qed

lemma id_to_value_map:
  assumes "disjoint_values vs" and "P i"
  shows "collect_map (map (\<lambda>r. (lv_key_id r, lv_value r)) (filter (\<lambda>r. P (lv_key_id r) \<and> valid_at n r) vs)) i =
     map_option lv_value (find (\<lambda>r. lv_key_id r = i \<and> valid_at n r) vs)"
proof (cases "find (\<lambda>r. lv_key_id r = i \<and> valid_at n r) vs")
  case None
  then have "map_of (rev (map (\<lambda>r. (lv_key_id r, lv_value r))
      (filter (\<lambda>r. P (lv_key_id r) \<and> valid_at n r) vs))) i = None"
    by (auto simp: find_None_all map_of_eq_None_iff)
  with None show ?thesis by (simp add: collect_map_eq)
next
  case (Some r)
  let ?rows = "filter (\<lambda>r. P (lv_key_id r) \<and> valid_at n r) vs"
  have r: "r \<in> set vs" "lv_key_id r = i" "valid_at n r" using find_SomeD [OF Some] by auto
  then have "(i, lv_value r) \<in> set (rev (map (\<lambda>r. (lv_key_id r, lv_value r)) ?rows))"
    using assms(2) by auto
  then obtain v where v: "map_of (rev (map (\<lambda>r. (lv_key_id r, lv_value r)) ?rows)) i = Some v"
    using weak_map_of_SomeI [of i "lv_value r" "rev (map (\<lambda>r. (lv_key_id r, lv_value r)) ?rows)"] by blast
  then obtain r' where "r' \<in> set vs" "valid_at n r'" "lv_key_id r' = i" "lv_value r' = v"
    by (auto dest!: map_of_SomeD)
  with r assms(1) have "v = lv_value r" unfolding disjoint_values_def by metis
  with v Some show ?thesis by (simp add: collect_map_eq)
qed

lemma get_local_values_batch_result:
  assumes "get_local_values_at_block_batch keys n c = (r, c')"
  shows "cache_db c' = cache_db c"
    and "local_inv b (cache_db c) \<Longrightarrow> r = Inr xs \<Longrightarrow>
      distinct keys \<and> xs = map (\<lambda>k. local_value_at k (uint n) (cache_db c)) keys"
proof -
  show "cache_db c' = cache_db c"
    using assms
    by (auto simp: get_local_values_at_block_batch_def prog_simps Let_def split: if_splits prod.splits sum.splits
        dest!: query_result(1))
  assume inv: "local_inv b (cache_db c)" and r: "r = Inr xs"
  show "distinct keys \<and> xs = map (\<lambda>k. local_value_at k (uint n) (cache_db c)) keys"
  proof (cases "keys = []")
    case True
    with assms r show ?thesis by (auto simp: get_local_values_at_block_batch_def prog_simps)
  next
    case False
    let ?krows = "filter (\<lambda>r. lk_key r \<in> set keys) (local_key_rows (cache_db c))"
    let ?ids = "collect_map (map (\<lambda>r. (lk_key r, lk_id r)) ?krows)"
    have ids: "?ids k = local_key_id k (cache_db c)" if "k \<in> set keys" for k
      using key_to_id_map [OF inv that] .
    have dist: "distinct keys"
      using assms r False by (auto simp: get_local_values_at_block_batch_def prog_simps split: if_splits)
    obtain c1 krows where q1: "query (\<lambda>d. filter (\<lambda>r. lk_key r \<in> set keys) (local_key_rows d)) c = (Inr krows, c1)"
      using assms r False dist
      by (auto simp: get_local_values_at_block_batch_def prog_simps split: prod.splits sum.splits)
    have krows: "krows = ?krows" using query_result(2) [OF q1] by simp
    have c1: "cache_db c1 = cache_db c" using query_result(1) [OF q1] .
    show ?thesis
    proof (cases "krows = []")
      case True
      then have "local_key_id k (cache_db c) = None" if "k \<in> set keys" for k
        using that krows by (auto simp: local_key_id_def find_None_all filter_empty_conv)
      then have "map (\<lambda>k. local_value_at k (uint n) (cache_db c)) keys = replicate (length keys) None"
        by (auto simp: local_value_at_def map_replicate_const [symmetric])
      with assms r False dist q1 True show ?thesis
        by (auto simp: get_local_values_at_block_batch_def prog_simps)
    next
      case nonempty: False
      let ?P = "\<lambda>i. list_ex (\<lambda>k. ?ids k = Some i) keys"
      let ?q = "\<lambda>d. filter (\<lambda>r. ?P (lv_key_id r) \<and> valid_at (uint n) r) (local_value_rows d)"
      obtain vrows where q2: "query ?q c1 = (Inr vrows, c')" and
        xs: "xs = remove_each_via ?ids (collect_map (map (\<lambda>r. (lv_key_id r, lv_value r)) vrows)) keys"
        using assms r False dist q1 nonempty krows
        by (auto simp: get_local_values_at_block_batch_def prog_simps Let_def split: prod.splits sum.splits)
      have vrows: "vrows = ?q (cache_db c)" using query_result(2) [OF q2] c1 by simp
      have "xs = map (\<lambda>k. Option.bind (?ids k) (collect_map (map (\<lambda>r. (lv_key_id r, lv_value r)) vrows))) keys"
        unfolding xs
      proof (rule remove_each_via_distinct [OF dist])
        show "k = k'" if "k \<in> set keys" "k' \<in> set keys" "?ids k = Some i" "?ids k' = Some i" for k k' i
          using local_key_unique [OF inv, of k i k'] ids that by simp
      qed
      moreover have "Option.bind (?ids k) (collect_map (map (\<lambda>r. (lv_key_id r, lv_value r)) vrows)) =
          local_value_at k (uint n) (cache_db c)" if k: "k \<in> set keys" for k
      proof (cases "local_key_id k (cache_db c)")
        case None
        with ids [OF k] show ?thesis by (simp add: local_value_at_def)
      next
        case (Some i)
        have "?P i" using ids [OF k] Some k by (auto simp: list_ex_iff)
        moreover have "disjoint_values (local_value_rows (cache_db c))" using inv by (simp add: local_inv_alt)
        ultimately have "collect_map (map (\<lambda>r. (lv_key_id r, lv_value r)) vrows) i =
            map_option lv_value (find (\<lambda>r. lv_key_id r = i \<and> valid_at (uint n) r)
              (local_value_rows (cache_db c)))"
          unfolding vrows by (intro id_to_value_map [where P = ?P])
        then show ?thesis using ids [OF k] Some by (simp add: local_value_at_def)
      qed
      ultimately show ?thesis using dist by simp
    qed
  qed
qed

lemma get_block_by_number_result:
  assumes "get_block_by_number n c = (r, c')"
  shows "cache_db c' = cache_db c"
    and "r = Inr (Some row) \<Longrightarrow> row \<in> set (block_rows (cache_db c)) \<and> br_number row = uint n"
proof -
  obtain r1 c1 where q: "query (\<lambda>d. find (\<lambda>r. br_number r = uint n) (block_rows d)) c = (r1, c1)" by fastforce
  note q' = query_result [OF q]
  show "cache_db c' = cache_db c"
    using assms q q'(1)
    by (auto simp: get_block_by_number_def checked_block_row_def prog_simps
        split: sum.splits option.splits if_splits)
  assume "r = Inr (Some row)"
  with assms q have "r1 = Inr (Some row)"
    by (auto simp: get_block_by_number_def checked_block_row_def prog_simps
        split: sum.splits option.splits if_splits)
  with q'(2) have "find (\<lambda>r. br_number r = uint n) (block_rows (cache_db c)) = Some row" by simp
  then show "row \<in> set (block_rows (cache_db c)) \<and> br_number row = uint n"
    by (rule find_SomeD)
qed

lemma wp_fetch_block:
  assumes "remote_inv U C T s"
    and "\<And>s'. remote_inv U C T s' \<Longrightarrow> Q (Option.bind (ch_hash C n)
      (\<lambda>h. map_option (row_of_block U h) (ch_block C h))) s'"
    and "\<And>e s'. remote_inv U C T s' \<Longrightarrow> e \<noteq> RemotePanic \<Longrightarrow> E e s'"
  shows "wp (fetch_and_cache_block_by_number U n) Q E s"
proof -
  have hon: "honest U C" using assms(1) by (simp add: remote_inv_def)
  show ?thesis
    unfolding fetch_and_cache_block_by_number_def Let_def
  proof (intro wp_bindE wp_rpc [OF assms(1)] wp_case_option wp_case_prod wp_ret assms(3))
    fix x s1 m m' assume x: "block_by_number U n m = (Inr x, m')" and s1: "remote_inv U C T s1"
    note x = block_by_number_honest [OF hon x]
    show "Q None s1" if "x = None"
      using assms(2) [OF s1] x that by (cases "ch_hash C n") auto
    show "wp (cached (cache_block h n (nh_parent_hash (nb_header b)) (u_encode_header U (nb_header b))))
        (\<lambda>_. wp (ret (Some (block_row_of h n (nh_parent_hash (nb_header b))
          (u_encode_header U (nb_header b))))) Q E) E s1"
      if "x = Some y" "y = (h, b)" for y h b
    proof -
      have b: "ch_hash C n = Some h" "ch_block C h = Some b"
        using x [symmetric] that by (auto simp: Option.bind_eq_Some_conv)
      then have n: "n = nh_number (nb_header b)"
        using honestD(1) [OF hon] unfolding wf_chain_def by blast
      show ?thesis
        unfolding n
        by (intro wp_cached_cache_block [OF s1 b(2)] wp_ret assms(3))
          (use assms(2) b n in \<open>simp_all add: row_of_block_def\<close>)
    qed
  qed
qed

lemma wp_layer_get_block:
  assumes inv: "fork_inv U C L s"
    and Q: "\<And>s'. fork_inv U C L s' \<Longrightarrow> same_fork s s' \<Longrightarrow>
      Q (Option.bind (ch_hash C n) (\<lambda>h. map_option (row_of_block U h) (ch_block C h))) s'"
    and E: "\<And>e s'. fork_inv U C L s' \<Longrightarrow> same_fork s s' \<Longrightarrow> no_panic e \<Longrightarrow> E e s'"
  shows "wp (layer_get_block U n) Q E s"
proof -
  let ?row = "Option.bind (ch_hash C n) (\<lambda>h. map_option (row_of_block U h) (ch_block C h))"
  have ok: "blocks_ok U C (fdb s)" "canonical C" using inv by (simp_all add: fork_inv_def remote_inv_def)
  have by_num: "?row = Some row"
    if row: "row \<in> set (block_rows (fdb s))" "br_number row = uint n" for row
  proof -
    obtain h b where b: "ch_block C h = Some b" "row = row_of_block U h b"
      using bspec [OF ok(1) [unfolded blocks_ok_def] row(1)] by (elim exE conjE)
    then have "nh_number (nb_header b) = n" using row(2)
      by (simp add: row_of_block_def block_row_of_def word_uint_eq_iff)
    then have "ch_hash C n = Some h" using ok(2) b(1) unfolding canonical_def by blast
    with b show ?thesis by simp
  qed
  show ?thesis
    unfolding layer_get_block_def
  proof (intro wp_bindE wp_on_cache [OF inv, where P = "\<lambda>x. \<forall>row. x = Some row \<longrightarrow> ?row = Some row"]
      wp_case_option wp_ret E)
    show "cache_db c' = cache_db c \<and>
        (\<forall>x. r = Inr x \<longrightarrow> (\<forall>row. x = Some row \<longrightarrow> ?row = Some row))"
      if c: "get_block_by_number n c = (r, c')" "cache_db c = fdb s" for c r c'
      using get_block_by_number_result [OF c(1)] by_num c(2) by auto
    fix x s1 assume s1: "fork_inv U C L s1" "same_fork s s1"
      and x: "\<forall>row. x = Some row \<longrightarrow> ?row = Some row"
    show "Q (Some y) s1" if "x = Some y" for y using Q [OF s1] x that by simp
    show "wp (parent (fetch_and_cache_block_by_number U n)) Q E s1"
    proof (rule wp_parent [OF s1(1), where P = "\<lambda>x. x = ?row"])
      show "wp (fetch_and_cache_block_by_number U n)
          (\<lambda>x r. remote_inv U C (local_tables (fdb s1)) r \<and> x = ?row)
          (\<lambda>e r. remote_inv U C (local_tables (fdb s1)) r \<and> e \<noteq> RemotePanic) (f_remote s1)"
        if "remote_inv U C (local_tables (fdb s1)) (f_remote s1)"
        by (intro wp_fetch_block [OF that]) auto
    qed (use Q E same_fork_trans [OF s1(2)] in auto)
  qed
qed

section \<open>Reads\<close>

lemma wp_parent_get:
  assumes inv: "fork_inv U C L s"
    and Q: "\<And>s'. fork_inv U C L s' \<Longrightarrow> same_fork s s' \<Longrightarrow> Q (chain_value C h k) s'"
    and E: "\<And>e s'. fork_inv U C L s' \<Longrightarrow> same_fork s s' \<Longrightarrow> no_panic e \<Longrightarrow> E e s'"
  shows "wp (parent (remote_get U h k)) Q E s"
  by (rule wp_parent [OF inv, where P = "\<lambda>x. x = chain_value C h k"])
    (auto intro!: wp_remote_get Q E)

lemma wp_parent_get_batch:
  assumes inv: "fork_inv U C L s"
    and Q: "\<And>s'. fork_inv U C L s' \<Longrightarrow> same_fork s s' \<Longrightarrow> Q (map (chain_value C h) ks) s'"
    and E: "\<And>e s'. fork_inv U C L s' \<Longrightarrow> same_fork s s' \<Longrightarrow> no_panic e \<Longrightarrow> E e s'"
  shows "wp (parent (remote_get_batch U h ks)) Q E s"
  by (rule wp_parent [OF inv, where P = "\<lambda>x. x = map (chain_value C h) ks"])
    (auto intro!: wp_remote_get_batch Q E)

lemma wp_get_local_modification:
  assumes "fork_inv U C L s"
    and "Q (local_modification L (modifications s) (deleted_prefixes s) k n) s"
  shows "wp (get_local_modification L k n) Q E s"
  unfolding get_local_modification_def
  by (intro wp_bindE wp_lock wp_gets) (use assms in \<open>simp_all add: fork_inv_def\<close>)

lemma remote_value_value [simp]: "Option.bind (remote_value v) sv_value = v"
  by (cases v) (simp_all add: remote_value_def outside_value_def)

lemma block_row_hash:
  assumes "fork_inv U C L s" and "Option.bind (ch_hash C n) (\<lambda>h. map_option (row_of_block U h) (ch_block C h)) = r"
  shows "r = None \<Longrightarrow> block_value C n k = None"
    and "r = Some row \<Longrightarrow> \<exists>h. h256_from_slice (br_hash row) = Some h \<and> block_value C n k = chain_value C h k"
proof -
  have hon: "wf_chain C" "canonical C"
    using assms(1) unfolding fork_inv_def remote_inv_def by (blast dest: honestD)+
  show "block_value C n k = None" if "r = None"
    using assms(2) that hon(2) unfolding canonical_def block_value_def
    by (cases "ch_hash C n") auto
  assume "r = Some row"
  with assms(2) obtain h b where b: "ch_hash C n = Some h" "ch_block C h = Some b" "row = row_of_block U h b"
    by (auto simp: Option.bind_eq_Some_conv)
  with hon(1) have "wf_h256 h" unfolding wf_chain_def by blast
  with b show "\<exists>h. h256_from_slice (br_hash row) = Some h \<and> block_value C n k = chain_value C h k"
    by (auto simp: row_of_block_def block_row_of_def h256_from_slice_as_bytes block_value_def)
qed

lemma wp_layer_get:
  assumes inv: "fork_inv U C L s"
    and Q: "\<And>v s'. fork_inv U C L s' \<Longrightarrow> same_fork s s' \<Longrightarrow>
      Option.bind v sv_value = layer_value L C s n k \<Longrightarrow> Q v s'"
    and E: "\<And>e s'. fork_inv U C L s' \<Longrightarrow> same_fork s s' \<Longrightarrow> no_panic e \<Longrightarrow> E e s'"
  shows "wp (layer_get U L n k) Q E s"
proof -
  let ?lm = "local_modification L (modifications s) (deleted_prefixes s) k n"
  have Qb: "Q v s'" if "fork_inv U C L s'" "same_fork s s'" "?lm = None"
    "Option.bind v sv_value = beyond_value L C s n k" for v s'
    using Q that by (simp add: layer_value_def)
  have Ql: "Q m s" if "?lm = Some m" for m
    using Q [OF inv] that by (simp add: layer_value_def)
  show ?thesis
    unfolding layer_get_def Let_def
  proof (rule wp_matchE, rule wp_get_local_modification [OF inv], intro wp_case_option wp_ret Ql wp_if wp_bindE)
    assume none: "?lm = None"
    { assume "n = current_block_number L"
      then have "beyond_value L C s n k = chain_value C (first_forked_block_hash L) k"
        by (simp add: beyond_value_def)
      then show "wp (parent (remote_get U (first_forked_block_hash L) k))
          (\<lambda>v. wp (ret (remote_value v)) Q E) E s"
        by (intro wp_parent_get [OF inv] wp_ret Qb none E) simp_all }
    assume n: "n \<noteq> current_block_number L"
    { assume mid: "first_forked_block_number L < n \<and> n < current_block_number L"
      show "wp (on_cache (get_local_value_at_block k n))
          (\<lambda>found. wp (case found of Some v \<Rightarrow> ret (Some (outside_value v))
             | None \<Rightarrow> bindE (parent (remote_get U (first_forked_block_hash L) k)) (\<lambda>v. ret (remote_value v))) Q E) E s"
      proof (intro wp_on_cache [OF inv, where P = "\<lambda>x. x = local_value_at k (uint n) (fdb s)"]
          wp_case_option wp_ret wp_bindE E)
        show "cache_db c' = cache_db c \<and> (\<forall>x. r = Inr x \<longrightarrow> x = local_value_at k (uint n) (fdb s))"
          if "get_local_value_at_block k n c = (r, c')" "cache_db c = fdb s" for c r c'
          using get_local_value_result [OF that(1)] that(2) by simp
        fix x s1 assume s1: "fork_inv U C L s1" "same_fork s s1"
          and x: "x = local_value_at k (uint n) (fdb s)"
        show "Q (Some (outside_value v)) s1" if "x = Some v" for v
        proof (rule Qb [OF s1 none])
          have "local_value_at k (uint n) (fdb s) = Some v" using x that by simp
          with mid show "Option.bind (Some (outside_value v)) sv_value = beyond_value L C s n k"
            by (auto simp: beyond_value_def outside_value_def)
        qed
        have "beyond_value L C s n k = chain_value C (first_forked_block_hash L) k" if "x = None"
          using x that mid by (simp add: beyond_value_def)
        then show "wp (parent (remote_get U (first_forked_block_hash L) k))
            (\<lambda>v. wp (ret (remote_value v)) Q E) E s1" if "x = None"
          by (intro wp_parent_get [OF s1(1)] wp_ret Qb none E)
            (use that same_fork_trans [OF s1(2)] in simp_all)
      qed }
    { assume out: "\<not> (first_forked_block_number L < n \<and> n < current_block_number L)"
      have val: "beyond_value L C s n k = block_value C n k" using out n by (auto simp: beyond_value_def)
      let ?r = "Option.bind (ch_hash C n) (\<lambda>h. map_option (row_of_block U h) (ch_block C h))"
      show "wp (layer_get_block U n) (\<lambda>block. wp (case block of
            Some block_row \<Rightarrow> (case h256_from_slice (br_hash block_row) of
                Some block_hash \<Rightarrow> bindE (parent (remote_get U block_hash k)) (\<lambda>v. ret (remote_value v))
              | None \<Rightarrow> fail LocalPanic)
          | None \<Rightarrow> ret None) Q E) E s"
      proof (intro wp_layer_get_block [OF inv] wp_case_option wp_ret wp_bindE wp_fail E)
        fix s1 assume s1: "fork_inv U C L s1" "same_fork s s1"
        note hash = block_row_hash [OF s1(1) refl, where n = n and k = k]
        show "Q None s1" if "?r = None"
          by (rule Qb [OF s1 none]) (use hash(1) that val in simp)
        fix row assume row: "?r = Some row"
        show "no_panic LocalPanic" if "h256_from_slice (br_hash row) = None"
          using hash(2) [OF row] that by simp
        show "wp (parent (remote_get U h k)) (\<lambda>v. wp (ret (remote_value v)) Q E) E s1"
          if "h256_from_slice (br_hash row) = Some h" for h
          by (intro wp_parent_get [OF s1(1)] wp_ret Qb none E)
            (use hash(2) [OF row] that val same_fork_trans [OF s1(2)] in simp_all)
      qed }
  qed (use E [OF inv] in simp_all)
qed

section \<open>Batch reads\<close>

text \<open>
  The batch agrees with the single read at the block being built; at a past block of the
  fork when no key asked for lies under a deleted prefix, and at or before the fork point
  when no local modification covers a key.
\<close>

definition batch_agrees :: "layer \<Rightarrow> ('n, 'm) fork \<Rightarrow> u32 \<Rightarrow> bytes \<Rightarrow> bool" where
  "batch_agrees L s n k \<longleftrightarrow>
     (let lm = local_modification L (modifications s) (deleted_prefixes s) k n
      in n = current_block_number L \<or>
         (if first_forked_block_number L < n \<and> n < current_block_number L then lm \<noteq> Some None
          else lm = None))"

lemma overwrite_missing:
  "overwrite_at (map (\<lambda>m. Option.bind m (\<lambda>v. v)) (map lm keys))
     (zip (missing_indices (map lm keys)) (map g (map (\<lambda>i. keys ! i) (missing_indices (map lm keys))))) =
   map (\<lambda>k. case lm k of Some v \<Rightarrow> v | None \<Rightarrow> g k) keys"
proof -
  let ?idx = "missing_indices (map lm keys)"
  have zip: "zip ?idx (map g (map (\<lambda>i. keys ! i) ?idx)) = map (\<lambda>i. (i, g (keys ! i))) ?idx"
    by (simp add: zip_map_self [symmetric] comp_def)
  show ?thesis
    unfolding overwrite_at_def zip
    by (rule nth_equalityI) (auto simp: foldl_list_update missing_indices_def split: option.splits)
qed

lemma none_missing:
  "map (\<lambda>i. keys ! i) (missing_indices (map lm keys)) = [] \<Longrightarrow>
     map (\<lambda>m. Option.bind m (\<lambda>v. v)) (map lm keys) = map (\<lambda>k. case lm k of Some v \<Rightarrow> v | None \<Rightarrow> g k) keys"
  using overwrite_missing [of lm keys g] by (simp add: overwrite_at_def)

lemma get_local_modifications:
  "fork_inv U C L s \<Longrightarrow> each (\<lambda>k. get_local_modification L k n) keys s =
     (Inr (map (\<lambda>k. local_modification L (modifications s) (deleted_prefixes s) k n) keys), s)"
  by (induction keys) (simp_all add: prog_simps get_local_modification_def lock_def fork_inv_def)

lemma wp_bindE_run: "m s = (Inr x, s') \<Longrightarrow> wp (f x) Q E s' \<Longrightarrow> wp (bindE m f) Q E s"
  by (simp add: wp_def prog_simps)

lemma wp_batch_from_remote:
  assumes inv: "fork_inv U C L s"
    and Q: "\<And>s'. fork_inv U C L s' \<Longrightarrow> same_fork s s' \<Longrightarrow>
      Q (map (\<lambda>k. case lm k of Some v \<Rightarrow> v | None \<Rightarrow> remote_value (chain_value C h k)) keys) s'"
    and E: "\<And>e s'. fork_inv U C L s' \<Longrightarrow> same_fork s s' \<Longrightarrow> no_panic e \<Longrightarrow> E e s'"
  shows "wp (batch_from_remote U h (map (\<lambda>m. Option.bind m (\<lambda>v. v)) (map lm keys))
     (missing_indices (map lm keys)) (map (\<lambda>i. keys ! i) (missing_indices (map lm keys)))) Q E s"
  unfolding batch_from_remote_def
proof (intro wp_if wp_ret wp_bindE wp_parent_get_batch [OF inv] E)
  let ?g = "\<lambda>k. remote_value (chain_value C h k)"
  show "Q (map (\<lambda>m. Option.bind m (\<lambda>v. v)) (map lm keys)) s"
    if "map (\<lambda>i. keys ! i) (missing_indices (map lm keys)) = []"
    unfolding none_missing [OF that, of ?g] by (rule Q [OF inv]) simp
  show "Q (overwrite_at (map (\<lambda>m. Option.bind m (\<lambda>v. v)) (map lm keys)) (zip (missing_indices (map lm keys))
      (map remote_value (map (chain_value C h) (map (\<lambda>i. keys ! i) (missing_indices (map lm keys))))))) s'"
    if "fork_inv U C L s'" "same_fork s s'" for s'
    using Q [OF that] overwrite_missing [of lm keys ?g] by (simp add: comp_def)
qed

lemma wp_batch_from_cache:
  assumes inv: "fork_inv U C L s" and local: "local_inv b (fdb s)"
    and Q: "\<And>s'. fork_inv U C L s' \<Longrightarrow> same_fork s s' \<Longrightarrow> Q (map (\<lambda>k. case lm k of Some v \<Rightarrow> v
      | None \<Rightarrow> map_option outside_value (local_value_at k (uint n) (fdb s))) keys) s'"
    and E: "\<And>e s'. fork_inv U C L s' \<Longrightarrow> same_fork s s' \<Longrightarrow> no_panic e \<Longrightarrow> E e s'"
  shows "wp (batch_from_cache n (map (\<lambda>m. Option.bind m (\<lambda>v. v)) (map lm keys))
     (missing_indices (map lm keys)) (map (\<lambda>i. keys ! i) (missing_indices (map lm keys)))) Q E s"
proof -
  let ?g = "\<lambda>k. map_option outside_value (local_value_at k (uint n) (fdb s))"
  let ?nl = "map (\<lambda>i. keys ! i) (missing_indices (map lm keys))"
  show ?thesis
    unfolding batch_from_cache_def
  proof (intro wp_if wp_ret wp_bindE E
      wp_on_cache [OF inv, where P = "\<lambda>xs. xs = map (\<lambda>k. local_value_at k (uint n) (fdb s)) ?nl"])
    show "Q (map (\<lambda>m. Option.bind m (\<lambda>v. v)) (map lm keys)) s" if "?nl = []"
      unfolding none_missing [OF that, of ?g] by (rule Q [OF inv]) simp
    show "cache_db c' = cache_db c \<and> (\<forall>x. r = Inr x \<longrightarrow> x = map (\<lambda>k. local_value_at k (uint n) (fdb s)) ?nl)"
      if "get_local_values_at_block_batch ?nl n c = (r, c')" "cache_db c = fdb s" for c r c'
      using get_local_values_batch_result [OF that(1)] that(2) local by metis
    show "Q (overwrite_at (map (\<lambda>m. Option.bind m (\<lambda>v. v)) (map lm keys))
        (zip (missing_indices (map lm keys)) (map (map_option outside_value) xs))) s'"
      if "fork_inv U C L s'" "same_fork s s'" "xs = map (\<lambda>k. local_value_at k (uint n) (fdb s)) ?nl" for xs s'
      using Q [OF that(1,2)] overwrite_missing [of lm keys ?g] that(3) by (simp add: comp_def)
  qed
qed

text \<open>The loop that asks the remote layer for what is still missing.\<close>

lemma wp_fill_from_remote:
  assumes "fork_inv U C L s" and "length results = length keys"
    and Q: "\<And>s'. fork_inv U C L s' \<Longrightarrow> same_fork s s' \<Longrightarrow>
      Q (map (\<lambda>(v, k). if v \<noteq> None then v else remote_value (chain_value C h k)) (zip results keys)) s'"
    and E: "\<And>e s'. fork_inv U C L s' \<Longrightarrow> same_fork s s' \<Longrightarrow> no_panic e \<Longrightarrow> E e s'"
  shows "wp (fill_from_remote U h results keys) Q E s"
  unfolding fill_from_remote_def
proof -
  let ?f = "\<lambda>(v, k). if v \<noteq> None then ret v else bindE (parent (remote_get U h k)) (\<lambda>v. ret (remote_value v))"
  let ?g = "\<lambda>(v, k). if v \<noteq> None then v else remote_value (chain_value C h k)"
  have "wp (each ?f vks) (\<lambda>ys s'. fork_inv U C L s' \<and> same_fork s s' \<and> ys = map ?g vks)
      (\<lambda>e s'. fork_inv U C L s' \<and> same_fork s s' \<and> no_panic e) s" for vks
    using assms(1)
  proof (induction vks arbitrary: s)
    case (Cons vk vks)
    obtain v k where vk: "vk = (v, k)" by (cases vk)
    show ?case
      unfolding vk each.simps prod.case
    proof (intro wp_bindE wp_if wp_ret wp_parent_get [OF Cons.prems])
      show "wp (each ?f vks) (\<lambda>ys. wp (ret (v # ys)) (\<lambda>ys s'. fork_inv U C L s' \<and> same_fork s s' \<and>
            ys = map ?g ((v, k) # vks)) (\<lambda>e s'. fork_inv U C L s' \<and> same_fork s s' \<and> no_panic e))
          (\<lambda>e s'. fork_inv U C L s' \<and> same_fork s s' \<and> no_panic e) s" if "v \<noteq> None"
        by (rule wp_mono [OF Cons.IH [OF Cons.prems]]) (use that in \<open>auto intro!: wp_ret\<close>)
      fix s1 assume s1: "fork_inv U C L s1" "same_fork s s1"
      show "wp (each ?f vks) (\<lambda>ys. wp (ret (remote_value (chain_value C h k) # ys)) (\<lambda>ys s'.
            fork_inv U C L s' \<and> same_fork s s' \<and> ys = map ?g ((v, k) # vks))
            (\<lambda>e s'. fork_inv U C L s' \<and> same_fork s s' \<and> no_panic e))
          (\<lambda>e s'. fork_inv U C L s' \<and> same_fork s s' \<and> no_panic e) s1" if "\<not> v \<noteq> None"
        by (rule wp_mono [OF Cons.IH [OF s1(1)]])
          (use that same_fork_trans [OF s1(2)] in \<open>auto intro!: wp_ret\<close>)
    qed auto
  qed (simp add: wp_def ret_def)
  then show "wp (each ?f (zip results keys)) Q E s"
    by (rule wp_mono) (elim conjE; hypsubst?; (rule Q | rule E); assumption)+
qed

lemma map_zip_map: "map g (zip (map f ks) ks) = map (\<lambda>k. g (f k, k)) ks"
  by (induction ks) auto

lemma wp_batch_at_block:
  assumes inv: "fork_inv U C L s"
    and Q: "\<And>vs s'. fork_inv U C L s' \<Longrightarrow> same_fork s s' \<Longrightarrow>
      map (\<lambda>v. Option.bind v sv_value) vs = map (block_value C n) keys \<Longrightarrow> Q vs s'"
    and E: "\<And>e s'. fork_inv U C L s' \<Longrightarrow> same_fork s s' \<Longrightarrow> no_panic e \<Longrightarrow> E e s'"
  shows "wp (batch_at_block U n keys) Q E s"
  unfolding batch_at_block_def
proof (intro wp_layer_get_block [OF inv] wp_case_option wp_ret wp_bindE wp_fail E)
  let ?r = "Option.bind (ch_hash C n) (\<lambda>h. map_option (row_of_block U h) (ch_block C h))"
  fix s1 assume s1: "fork_inv U C L s1" "same_fork s s1"
  note hash = block_row_hash [OF s1(1) refl, where n = n]
  show "Q (replicate (length keys) None) s1" if "?r = None"
    by (rule Q [OF s1]) (use hash(1) [OF that] in \<open>simp add: map_replicate_const [symmetric]\<close>)
  fix row assume row: "?r = Some row"
  show "no_panic LocalPanic" if "h256_from_slice (br_hash row) = None"
    using hash(2) [OF row] that by simp
  show "wp (parent (remote_get_batch U h keys)) (\<lambda>vs. wp (ret (map remote_value vs)) Q E) E s1"
    if "h256_from_slice (br_hash row) = Some h" for h
    by (intro wp_parent_get_batch [OF s1(1)] wp_ret Q E)
      (use hash(2) [OF row] that same_fork_trans [OF s1(2)] in simp_all)
qed

lemma wp_layer_get_batch:
  assumes inv: "fork_inv U C L s" and local: "local_inv b (fdb s)"
    and agrees: "\<And>k. k \<in> set keys \<Longrightarrow> batch_agrees L s n k"
    and Q: "\<And>vs s'. fork_inv U C L s' \<Longrightarrow> same_fork s s' \<Longrightarrow>
      map (\<lambda>v. Option.bind v sv_value) vs = map (layer_value L C s n) keys \<Longrightarrow> Q vs s'"
    and E: "\<And>e s'. fork_inv U C L s' \<Longrightarrow> same_fork s s' \<Longrightarrow> no_panic e \<Longrightarrow> E e s'"
  shows "wp (layer_get_batch U L n keys) Q E s"
proof -
  let ?lm = "\<lambda>k. local_modification L (modifications s) (deleted_prefixes s) k n"
  let ?fork = "first_forked_block_hash L"
  have ok: "Q (map (\<lambda>k. case ?lm k of Some v \<Rightarrow> v | None \<Rightarrow> g k) keys) s'"
    if "fork_inv U C L s'" "same_fork s s'"
      and "\<And>k. k \<in> set keys \<Longrightarrow> ?lm k = None \<Longrightarrow> Option.bind (g k) sv_value = beyond_value L C s n k" for s' g
    by (rule Q [OF that(1,2)]) (use that(3) in \<open>auto simp: layer_value_def split: option.splits\<close>)
  show ?thesis
    unfolding layer_get_batch_def Let_def
  proof (intro wp_if wp_ret 
      wp_bindE_run [where m = "each (\<lambda>key. get_local_modification L key n) keys",
        OF get_local_modifications [OF inv]])
    show "Q [] s" if "keys = []" using Q [OF inv] that by simp
    assume "keys \<noteq> []"
    { assume n: "n = current_block_number L"
      show "wp (batch_from_remote U ?fork (map (\<lambda>m. Option.bind m (\<lambda>v. v)) (map ?lm keys))
          (missing_indices (map ?lm keys)) (map (\<lambda>i. keys ! i) (missing_indices (map ?lm keys)))) Q E s"
        by (intro wp_batch_from_remote [OF inv] ok E) (simp_all add: beyond_value_def n) }
    assume n: "n \<noteq> current_block_number L"
    { assume mid: "first_forked_block_number L < n \<and> n < current_block_number L"
      show "wp (bindE (batch_from_cache n (map (\<lambda>m. Option.bind m (\<lambda>v. v)) (map ?lm keys))
          (missing_indices (map ?lm keys)) (map (\<lambda>i. keys ! i) (missing_indices (map ?lm keys))))
          (\<lambda>results. fill_from_remote U ?fork results keys)) Q E s"
      proof (intro wp_bindE wp_batch_from_cache [OF inv local] E wp_fill_from_remote)
        fix s1 s2 assume s1: "fork_inv U C L s1" "same_fork s s1" and s2: "fork_inv U C L s2" "same_fork s1 s2"
        show "Q (map (\<lambda>(v, k). if v \<noteq> None then v else remote_value (chain_value C ?fork k))
            (zip (map (\<lambda>k. case ?lm k of Some v \<Rightarrow> v
              | None \<Rightarrow> map_option outside_value (local_value_at k (uint n) (fdb s))) keys) keys)) s2"
        proof (rule Q [OF s2(1) same_fork_trans [OF s1(2) s2(2)]])
          show "map (\<lambda>v. Option.bind v sv_value) (map (\<lambda>(v, k). if v \<noteq> None then v else
              remote_value (chain_value C ?fork k)) (zip (map (\<lambda>k. case ?lm k of Some v \<Rightarrow> v
                | None \<Rightarrow> map_option outside_value (local_value_at k (uint n) (fdb s))) keys) keys)) =
              map (layer_value L C s n) keys"
            unfolding map_zip_map map_map comp_def
          proof (rule map_cong [OF refl])
            fix k assume "k \<in> set keys"
            with agrees mid n have "?lm k \<noteq> Some None" by (auto simp: batch_agrees_def Let_def)
            with mid show "Option.bind (case (case ?lm k of Some v \<Rightarrow> v
                | None \<Rightarrow> map_option outside_value (local_value_at k (uint n) (fdb s)), k) of
                (v, k) \<Rightarrow> if v \<noteq> None then v else remote_value (chain_value C ?fork k)) sv_value =
              layer_value L C s n k"
              by (auto simp: layer_value_def beyond_value_def outside_value_def split: option.splits)
          qed
        qed
      qed (use same_fork_trans in auto) }
    { assume out: "\<not> (first_forked_block_number L < n \<and> n < current_block_number L)"
      have "layer_value L C s n k = block_value C n k" if "k \<in> set keys" for k
        using agrees [OF that] out n by (auto simp: batch_agrees_def layer_value_def beyond_value_def Let_def)
      then show "wp (batch_at_block U n keys) Q E s"
        by (intro wp_batch_at_block [OF inv] Q E) auto }
  qed
qed

end
