(* ===== verification/Local_History.thy ===== *)
theory Local_History
  imports Local_Laws
begin

text \<open>
  The local layer as a versioned store: one map from keys to values per block, of which
  \<open>set\<close> changes the one of the block being built, \<open>commit\<close> adds one more, and reads see
  them all. Then the enumeration of keys.
\<close>

section \<open>The invariant of the modifications\<close>

definition initial_block :: "layer \<Rightarrow> u32" where
  "initial_block L = saturating_sub_u32 (first_forked_block_number L) ONE_BLOCK"

definition under_deleted :: "('n, 'm) fork \<Rightarrow> bytes \<Rightarrow> bool" where
  "under_deleted s k \<longleftrightarrow> list_ex (starts_with k) (deleted_prefixes s)"

text \<open>
  A modification is the one of the block being built; or one of an earlier block of the
  fork, and then the local tables have it from that block on; or one injected at the fork
  point, and then they have nothing for the key.
\<close>

definition recorded :: "layer \<Rightarrow> db \<Rightarrow> bytes \<Rightarrow> shared_value \<Rightarrow> bool" where
  "recorded L d k v \<longleftrightarrow>
     last_modification_block v = initial_block L \<and> (\<forall>n. local_value_at k n d = None) \<or>
     first_forked_block_number L < last_modification_block v \<and>
       (last_modification_block v = current_block_number L \<or>
        last_modification_block v < current_block_number L \<and>
          (\<forall>n \<ge> uint (last_modification_block v). local_value_at k n d = Some (sv_value v)))"

definition history_inv :: "layer \<Rightarrow> ('n, 'm) fork \<Rightarrow> bool" where
  "history_inv L s \<longleftrightarrow>
     distinct (map fst (modifications s)) \<and>
     local_inv (uint (current_block_number L) - 1) (fdb s) \<and>
     (\<forall>k m. map_of (modifications s) k = Some m \<longrightarrow> (\<exists>v. m = Some v \<and> recorded L (fdb s) k v)) \<and>
     (\<forall>k n. map_of (modifications s) k = None \<longrightarrow> \<not> under_deleted s k \<longrightarrow> local_value_at k n (fdb s) = None)"

definition injected :: "layer \<Rightarrow> ('n, 'm) fork \<Rightarrow> bytes \<Rightarrow> bool" where
  "injected L s k \<longleftrightarrow> (\<exists>v. map_of (modifications s) k = Some (Some v) \<and>
     last_modification_block v = initial_block L)"

lemma initial_le_first: "initial_block L \<le> first_forked_block_number L"
proof (cases "(1 :: u32) \<le> first_forked_block_number L")
  case True
  then have "first_forked_block_number L - 1 \<le> first_forked_block_number L"
    by (simp add: word_le_nat_alt unat_sub)
  with True show ?thesis by (simp add: initial_block_def saturating_sub_u32_def ONE_BLOCK_def)
qed (simp add: initial_block_def saturating_sub_u32_def ONE_BLOCK_def)

lemma history_inv_same: "same_fork s s' \<Longrightarrow> history_inv L s \<Longrightarrow> history_inv L s'"
proof -
  assume s: "same_fork s s'" and inv: "history_inv L s"
  then have "local_tables (fdb s') = local_tables (fdb s)" by (simp add: same_fork_def)
  note frames = local_tables_frame [OF this]
  show ?thesis
    using s inv unfolding history_inv_def recorded_def under_deleted_def frames by (simp add: same_fork_def)
qed

lemma new_layer_invs:
  assumes "new_layer r number hash m = (L, s)" and "number \<noteq> - 1"
    and "remote_inv U C ([], [], 0) r" and "canonical C" and "ch_hash C number = Some hash"
  shows "fork_inv U C L s" and "history_inv L s"
proof -
  have tabs: "local_tables (rdb r) = ([], [], 0)" using assms(3) by (simp add: remote_inv_def)
  have lt: "number < number + 1" using less_plus_one_u32 [OF assms(2), of number] by simp
  show "fork_inv U C L s"
    using assms tabs lt by (auto simp: new_layer_def fork_inv_def)
  have none: "local_value_at k n (rdb r) = None" for k n
    using tabs by (simp add: local_tables_def local_value_at_def local_key_id_def)
  have "local_inv b (rdb r)" for b
    using tabs by (simp add: local_tables_def local_inv_def)
  then show "history_inv L s"
    using assms(1) none by (auto simp: new_layer_def history_inv_def)
qed

section \<open>Writes\<close>

lemma modifications_put [simp]:
  "modifications (put_modification b k v s) =
     alist_insert k (Some \<lparr>last_modification_block = b, sv_value = v\<rparr>) (modifications s)"
  "f_remote (put_modification b k v s) = f_remote s"
  "deleted_prefixes (put_modification b k v s) = deleted_prefixes s"
  "metadata_versions (put_modification b k v s) = metadata_versions s"
  by (simp_all add: put_modification_def)

lemma fork_inv_put: "fork_inv U C L s \<Longrightarrow> fork_inv U C L (put_modification b k v s)"
  by (simp add: fork_inv_def put_modification_def)

lemma layer_set_run:
  "fork_inv U C L s \<Longrightarrow> layer_set L k v s = (Inr (), put_modification (current_block_number L) k v s)"
  by (simp add: layer_set_def lock_def prog_simps fork_inv_def)

lemma history_inv_put:
  assumes "history_inv L s" and "first_forked_block_number L < current_block_number L"
  shows "history_inv L (put_modification (current_block_number L) k v s)"
  using assms unfolding history_inv_def
  by (auto simp: distinct_alist_insert recorded_def under_deleted_def)

lemma beyond_value_put [simp]: "beyond_value L C (put_modification b k v s) = beyond_value L C s"
  by (intro ext) (simp add: beyond_value_def)

lemma layer_value_put:
  assumes inv: "history_inv L s" and "\<not> injected L s k"
    and fresh: "map_of (modifications s) k = None \<Longrightarrow> \<not> under_deleted s k"
    and n: "n \<le> current_block_number L"
  shows "layer_value L C (put_modification (current_block_number L) k v s) n k' =
     (if k' = k \<and> n = current_block_number L then v else layer_value L C s n k')"
proof (cases "k' = k \<and> n < current_block_number L")
  case False
  with n show ?thesis
    unfolding layer_value_def beyond_value_put by (auto simp: local_modification_def)
next
  case True
  have "beyond_value L C s n k = layer_value L C s n k"
  proof (cases "map_of (modifications s) k")
    case None
    then show ?thesis
      using fresh by (simp add: layer_value_def local_modification_def under_deleted_def)
  next
    case (Some m)
    then obtain sv where sv: "m = Some sv" "recorded L (fdb s) k sv"
      using inv unfolding history_inv_def by blast
    then have rec: "first_forked_block_number L < last_modification_block sv"
      "last_modification_block sv < current_block_number L \<Longrightarrow>
        \<forall>n \<ge> uint (last_modification_block sv). local_value_at k n (fdb s) = Some (sv_value sv)"
      using assms(2) Some unfolding injected_def recorded_def by auto
    show ?thesis
    proof (cases "last_modification_block sv < n")
      case True
      then have "local_value_at k (uint n) (fdb s) = Some (sv_value sv)"
        using rec(2) \<open>k' = k \<and> n < current_block_number L\<close> by (auto simp: word_less_def)
      with True rec(1) \<open>k' = k \<and> n < current_block_number L\<close> Some sv(1) show ?thesis
        by (auto simp: layer_value_def local_modification_def beyond_value_def)
    next
      case False
      with \<open>k' = k \<and> n < current_block_number L\<close> Some sv(1) show ?thesis
        by (auto simp: layer_value_def local_modification_def)
    qed
  qed
  moreover have "layer_value L C (put_modification (current_block_number L) k v s) n k =
      beyond_value L C s n k"
    using True by (auto simp: layer_value_def local_modification_def)
  ultimately show ?thesis using True by auto
qed

text \<open>Injecting a value at the fork point.\<close>

lemma layer_value_inject:
  assumes "fork_inv U C L s"
  shows "layer_value L C (put_modification (initial_block L) k v s) n k' =
     (if k' = k
      then (if n = current_block_number L \<or> initial_block L < n then v else beyond_value L C s n k)
      else layer_value L C s n k')"
  unfolding layer_value_def beyond_value_put by (auto simp: local_modification_def)

lemma history_inv_inject:
  assumes "history_inv L s" and "injected L s k \<or> map_of (modifications s) k = None \<and> \<not> under_deleted s k"
    and "first_forked_block_number L < current_block_number L"
  shows "history_inv L (put_modification (initial_block L) k v s)"
proof -
  have "local_value_at k n (fdb s) = None" for n
    using assms initial_le_first [of L]
    unfolding history_inv_def injected_def recorded_def by force
  then show ?thesis
    using assms(1) unfolding history_inv_def
    by (auto simp: distinct_alist_insert recorded_def under_deleted_def)
qed

text \<open>A deleted prefix: the keys under it read as absent at every block, past ones too.\<close>

definition drop_prefix :: "bytes \<Rightarrow> ('n, 'm) fork \<Rightarrow> ('n, 'm) fork" where
  "drop_prefix pre s = s\<lparr>modifications := filter (\<lambda>(key, _). \<not> starts_with key pre) (modifications s),
     deleted_prefixes := deleted_prefixes s @ [pre]\<rparr>"

lemma delete_prefix_run: "fork_inv U C L s \<Longrightarrow> delete_prefix pre s = (Inr (), drop_prefix pre s)"
  by (simp add: delete_prefix_def lock_def prog_simps fork_inv_def drop_prefix_def)

lemma fork_inv_drop: "fork_inv U C L s \<Longrightarrow> fork_inv U C L (drop_prefix pre s)"
  by (simp add: fork_inv_def drop_prefix_def)

lemma map_of_filter_fst: "map_of (filter (\<lambda>(k, _). P k) xs) k = (if P k then map_of xs k else None)"
  by (induction xs) auto

lemma layer_value_drop:
  "layer_value L C (drop_prefix pre s) n k = (if starts_with k pre then None else layer_value L C s n k)"
  by (auto simp: layer_value_def local_modification_def drop_prefix_def beyond_value_def
      map_of_filter_fst split: option.splits)

lemma history_inv_drop:
  assumes "history_inv L s"
  shows "history_inv L (drop_prefix pre s)"
proof -
  have "distinct (map fst (filter (\<lambda>(key, _). \<not> starts_with key pre) (modifications s)))"
    using assms unfolding history_inv_def by (intro distinct_map_filter) simp
  with assms show ?thesis
    unfolding history_inv_def drop_prefix_def
    by (auto simp: map_of_filter_fst under_deleted_def)
qed

section \<open>Commit\<close>

lemma map_of_entries:
  "distinct (map fst mods) \<Longrightarrow>
     map_of (entries_to_commit b mods) k =
     (case map_of mods k of
        Some (Some v) \<Rightarrow> if last_modification_block v = b then Some (sv_value v) else None
      | _ \<Rightarrow> None)"
proof (induction mods)
  case (Cons e mods)
  obtain k' v where e: "e = (k', v)" by (cases e)
  have "map_of mods k' = None" using Cons.prems e by (simp add: map_of_eq_None_iff)
  with Cons e show ?case
    by (cases v) (auto simp: entries_to_commit_def List.map_filter_simps split: option.splits)
qed (simp add: entries_to_commit_def List.map_filter_simps)

lemma distinct_entries:
  assumes "distinct (map fst mods)"
  shows "distinct (map fst (entries_to_commit b mods))"
proof -
  have "fst ` set (entries_to_commit b mods) \<subseteq> fst ` set mods" for mods
    by (induction mods) (auto simp: entries_to_commit_def List.map_filter_simps
        Option.bind_eq_Some_conv split: option.splits if_splits)
  then have sub: "k \<in> fst ` set (entries_to_commit b mods) \<Longrightarrow> k \<in> fst ` set mods" for k mods
    by blast
  show ?thesis
    using assms
  proof (induction mods)
    case (Cons e mods)
    obtain k v where e: "e = (k, v)" by (cases e)
    have tail: "entries_to_commit b ((k, v) # mods) = entries_to_commit b mods \<or>
        (\<exists>w. entries_to_commit b ((k, v) # mods) = (k, w) # entries_to_commit b mods)"
      by (cases v) (auto simp: entries_to_commit_def List.map_filter_simps)
    have "k \<notin> fst ` set (entries_to_commit b mods)" using Cons.prems e sub by auto
    with tail Cons e show ?case by auto
  qed (simp add: entries_to_commit_def List.map_filter_simps)
qed

lemma commit_changes_result:
  assumes "commit_local_changes es n c = (r, c')" and "distinct (map fst es)"
    and "local_inv b (cache_db c)" and "b \<le> uint n"
  shows "r = Inl e \<Longrightarrow> cache_db c' = cache_db c"
    and "r = Inr x \<Longrightarrow> local_inv (uint n) (cache_db c') \<and>
      (\<forall>k m. local_value_at k m (cache_db c') =
        (if uint n \<le> m then (case map_of es k of Some v \<Rightarrow> Some v | None \<Rightarrow> local_value_at k m (cache_db c))
         else local_value_at k m (cache_db c))) \<and>
      storage_rows (cache_db c') = storage_rows (cache_db c) \<and>
      block_rows (cache_db c') = block_rows (cache_db c) \<and>
      prefix_scan_rows (cache_db c') = prefix_scan_rows (cache_db c)"
proof -
  obtain d' where d': "commit_entries (uint n) es (cache_db c) = Inr d'" "local_inv (uint n) d'"
    "\<And>k m. local_value_at k m d' = (if uint n \<le> m
       then (case map_of (rev es) k of Some v \<Rightarrow> Some v | None \<Rightarrow> local_value_at k m (cache_db c))
       else local_value_at k m (cache_db c))"
    "storage_rows d' = storage_rows (cache_db c)" "block_rows d' = block_rows (cache_db c)"
    "prefix_scan_rows d' = prefix_scan_rows (cache_db c)"
    using commit_entries_ok [OF assms(3,4)] by metis
  have rev: "map_of (rev es) = map_of es" using map_of_rev_distinct [OF assms(2)] .
  have nil: "es = [] \<Longrightarrow> c' = c \<and> r = Inr ()"
    using assms(1) by (simp add: commit_local_changes_def ret_def)
  have go: "r = Inl e \<and> cache_db c' = cache_db c \<or> r = Inr () \<and> cache_db c' = d'"
    if "es \<noteq> []" "r = Inl e \<or> r = Inr ()" for e
    using retry_write_result [OF assms(1) [unfolded commit_local_changes_def, simplified that, simplified]]
      that(2) d'(1) by (auto split: sum.splits)
  show "r = Inl e \<Longrightarrow> cache_db c' = cache_db c"
    using nil go by (cases "es = []") auto
  assume r: "r = Inr x"
  show "local_inv (uint n) (cache_db c') \<and>
      (\<forall>k m. local_value_at k m (cache_db c') =
        (if uint n \<le> m then (case map_of es k of Some v \<Rightarrow> Some v | None \<Rightarrow> local_value_at k m (cache_db c))
         else local_value_at k m (cache_db c))) \<and>
      storage_rows (cache_db c') = storage_rows (cache_db c) \<and>
      block_rows (cache_db c') = block_rows (cache_db c) \<and>
      prefix_scan_rows (cache_db c') = prefix_scan_rows (cache_db c)"
  proof (cases "es = []")
    case True
    with nil local_inv_mono [OF assms(3,4)] show ?thesis by simp
  next
    case False
    with go r have "cache_db c' = d'" by auto
    with d' rev show ?thesis by simp
  qed
qed

text \<open>What the next layer reads, from the tables a commit leaves.\<close>

lemma commit_values:
  assumes hist: "history_inv L s" and ff: "first_forked_block_number L < current_block_number L"
    and cur: "current_block_number L \<noteq> - 1"
    and same: "modifications s' = modifications s" "deleted_prefixes s' = deleted_prefixes s"
    and tab: "\<And>k m. local_value_at k m (fdb s') =
      (if uint (current_block_number L) \<le> m
       then (case map_of (entries_to_commit (current_block_number L) (modifications s)) k of
               Some v \<Rightarrow> Some v | None \<Rightarrow> local_value_at k m (fdb s))
       else local_value_at k m (fdb s))"
    and L': "L' = L\<lparr>current_block_number := current_block_number L + 1\<rparr>"
  shows "n \<le> current_block_number L \<Longrightarrow> layer_value L' C s' n k = layer_value L C s n k"
    and "layer_value L' C s' (current_block_number L') k = layer_value L C s (current_block_number L) k"
    and "local_inv (uint (current_block_number L)) (fdb s') \<Longrightarrow> history_inv L' s'"
proof -
  let ?cur = "current_block_number L"
  have next_cur: "x < ?cur + 1 \<longleftrightarrow> x \<le> ?cur" for x using less_plus_one_u32 [OF cur] .
  have ucur: "uint (?cur + 1) = uint ?cur + 1"
    using arg_cong [OF unat_plus_one_u32 [OF cur], of int] by (simp only: uint_nat of_nat_add of_nat_1)
  have dist: "distinct (map fst (modifications s))" using hist by (simp add: history_inv_def)
  have entry: "map_of (entries_to_commit ?cur (modifications s)) k =
      (case map_of (modifications s) k of
         Some (Some v) \<Rightarrow> if last_modification_block v = ?cur then Some (sv_value v) else None
       | _ \<Rightarrow> None)" for k
    using map_of_entries [OF dist] .
  have init: "initial_block L' = initial_block L" by (simp add: L' initial_block_def)
  have Lf: "first_forked_block_hash L' = first_forked_block_hash L"
    "first_forked_block_number L' = first_forked_block_number L" "current_block_number L' = ?cur + 1"
    by (simp_all add: L')
  have init_cur: "initial_block L < ?cur" using initial_le_first [of L] ff by simp
  have some: "\<exists>v. m = Some v \<and> recorded L (fdb s) k v" if "map_of (modifications s) k = Some m" for k m
    using hist that unfolding history_inv_def by blast
  have none: "local_value_at k m (fdb s) = None"
    if "map_of (modifications s) k = None" "\<not> under_deleted s k" for k m
    using hist that unfolding history_inv_def by blast
  have below: "local_value_at k (uint n) (fdb s') = local_value_at k (uint n) (fdb s)" if "n < ?cur" for k n
    using that by (simp add: tab word_less_def)
  have rec': "recorded L' (fdb s') k v" if v: "map_of (modifications s) k = Some (Some v)" for k v
  proof -
    from some [OF v] have "recorded L (fdb s) k v" by simp
    then consider (initial) "last_modification_block v = initial_block L" "\<forall>n. local_value_at k n (fdb s) = None"
      | (now) "last_modification_block v = ?cur" "first_forked_block_number L < last_modification_block v"
      | (past) "last_modification_block v < ?cur" "first_forked_block_number L < last_modification_block v"
          "\<forall>n \<ge> uint (last_modification_block v). local_value_at k n (fdb s) = Some (sv_value v)"
      unfolding recorded_def by blast
    then show ?thesis
    proof cases
      case initial
      then have "local_value_at k n (fdb s') = None" for n
        using v init_cur by (auto simp: tab entry)
      with initial show ?thesis by (simp add: recorded_def init)
    next
      case now
      then show ?thesis using v next_cur by (simp add: recorded_def L' tab entry)
    next
      case past
      then have "local_value_at k n (fdb s') = Some (sv_value v)" if "uint (last_modification_block v) \<le> n" for n
        using v that by (simp add: tab entry)
      with past show ?thesis using next_cur by (simp add: recorded_def L' order_less_imp_le)
    qed
  qed
  show "history_inv L' s'" if "local_inv (uint ?cur) (fdb s')"
  proof -
    have "local_value_at k n (fdb s') = None"
      if "map_of (modifications s) k = None" "\<not> under_deleted s' k" for k n
      using that none [OF that(1)] by (simp add: tab entry under_deleted_def same)
    moreover have "\<exists>v. m = Some v \<and> recorded L' (fdb s') k v"
      if "map_of (modifications s) k = Some m" for k m
      using some [OF that] rec' that by blast
    moreover have "local_inv (uint (current_block_number L') - 1) (fdb s')"
      using that by (simp add: L' ucur)
    ultimately show ?thesis
      using dist unfolding history_inv_def same by blast
  qed
  show "layer_value L' C s' (current_block_number L') k = layer_value L C s ?cur k"
  proof (cases "map_of (modifications s) k")
    case None
    then show ?thesis
      by (simp add: layer_value_def local_modification_def same beyond_value_def L')
  next
    case (Some m)
    with some show ?thesis by (fastforce simp: layer_value_def local_modification_def same)
  qed
  show "layer_value L' C s' n k = layer_value L C s n k" if n: "n \<le> ?cur"
  proof -
    have ne: "n \<noteq> ?cur + 1" using n next_cur [of "?cur + 1"] by auto
    have bey: "beyond_value L' C s' n k = beyond_value L C s n k" if "n < ?cur"
      using that ne next_cur below [OF that] unfolding beyond_value_def Lf by auto
    have bey_cur: "beyond_value L' C s' ?cur k = (case local_value_at k (uint ?cur) (fdb s') of
        Some v \<Rightarrow> v | None \<Rightarrow> chain_value C (first_forked_block_hash L) k)"
      using ff next_cur cur unfolding beyond_value_def Lf by auto
    show ?thesis
    proof (cases "map_of (modifications s) k")
      case None
      then have "beyond_value L' C s' n k = beyond_value L C s n k" if "\<not> under_deleted s k"
        using bey bey_cur n none [OF None that] entry [of k] tab [of k "uint ?cur"]
        by (cases "n = ?cur") (auto simp: beyond_value_def)
      with None show ?thesis
        by (auto simp: layer_value_def local_modification_def same under_deleted_def)
    next
      case (Some m)
      then obtain v where v: "m = Some v" "recorded L (fdb s) k v" using some by blast
      have le: "last_modification_block v \<le> ?cur"
        using v(2) init_cur unfolding recorded_def by auto
      show ?thesis
      proof (cases "n = ?cur \<and> last_modification_block v = ?cur")
        case True
        then have "local_value_at k (uint ?cur) (fdb s') = Some (sv_value v)"
          using Some v(1) by (simp add: tab entry)
        with True Some v(1) bey_cur ne show ?thesis
          by (auto simp: layer_value_def local_modification_def same L')
      next
        case False
        with Some v(1) le bey ne n show ?thesis
          by (auto simp: layer_value_def local_modification_def same L')
      qed
    qed
  qed
qed

lemma wp_layer_commit:
  assumes inv: "fork_inv U C L s" and hist: "history_inv L s"
    and Q: "\<And>s' L'. L' = L\<lparr>current_block_number := current_block_number L + 1\<rparr> \<Longrightarrow>
      current_block_number L \<noteq> - 1 \<Longrightarrow> fork_inv U C L' s' \<Longrightarrow> history_inv L' s' \<Longrightarrow>
      modifications s' = modifications s \<Longrightarrow> deleted_prefixes s' = deleted_prefixes s \<Longrightarrow>
      metadata_versions s' = metadata_versions s \<Longrightarrow>
      (\<And>n k. n \<le> current_block_number L \<Longrightarrow> layer_value L' C s' n k = layer_value L C s n k) \<Longrightarrow>
      (\<And>k. layer_value L' C s' (current_block_number L') k = layer_value L C s (current_block_number L) k) \<Longrightarrow>
      Q L' s'"
    and E: "\<And>e s'. fork_inv U C L s' \<Longrightarrow> same_fork s s' \<Longrightarrow> E e s'"
  shows "wp (layer_commit L) Q E s"
proof (cases "current_block_number L = - 1")
  case True
  then show ?thesis
    using E [OF inv] by (simp add: layer_commit_def wp_def fail_def ONE_BLOCK_def checked_add_u32_def
        unsigned_minus_1_eq_mask mask_eq_exp_minus_1)
next
  case False
  let ?cur = "current_block_number L"
  let ?es = "entries_to_commit ?cur (modifications s)"
  have ff: "first_forked_block_number L < ?cur" using inv by (simp add: fork_inv_def)
  have run: "diff s = (Inr (modifications s), s)"
    using inv by (simp add: diff_def lock_def prog_simps fork_inv_def)
  have dist: "distinct (map fst ?es)"
    using hist by (intro distinct_entries) (simp add: history_inv_def)
  have loc: "local_inv (uint ?cur - 1) (cache_db (r_cache (f_remote s)))"
    using hist by (simp add: history_inv_def)
  obtain r c where r: "commit_local_changes ?es ?cur (r_cache (f_remote s)) = (r, c)" by fastforce
  let ?s' = "s\<lparr>f_remote := (f_remote s)\<lparr>r_cache := c\<rparr>\<rparr>"
  note res = commit_changes_result [OF r dist loc, simplified]
  have add: "checked_add_u32 ?cur ONE_BLOCK = Some (?cur + 1)"
    using False checked_add_u32_one_Some [of ?cur "?cur + 1"] by (simp add: ONE_BLOCK_def)
  show ?thesis
  proof (cases r)
    case (Inl e)
    then have "cache_db c = fdb s" using res(1) by simp
    then have "remote_inv U C (local_tables (fdb s)) ((f_remote s)\<lparr>r_cache := c\<rparr>)"
      using inv by (simp add: fork_inv_def remote_inv_def)
    from fork_inv_remote [OF inv this] E r Inl add run show ?thesis
      by (simp add: layer_commit_def wp_def prog_simps on_cache_def)
  next
    case (Inr x)
    then have "r = Inr ()" by simp
    note post = res(2) [OF this]
    let ?L' = "L\<lparr>current_block_number := ?cur + 1\<rparr>"
    have db: "fdb ?s' = cache_db c" by simp
    have rows: "storage_rows (cache_db c) = storage_rows (fdb s)" "block_rows (cache_db c) = block_rows (fdb s)"
      "prefix_scan_rows (cache_db c) = prefix_scan_rows (fdb s)"
      using post by blast+
    have old: "values_ok C (fdb s)" "scans_ok C (fdb s)" "blocks_ok U C (fdb s)" "honest U C"
      using inv by (simp_all add: fork_inv_def remote_inv_def)
    have "scans_ok C (cache_db c)"
      by (rule scans_ok_mono [OF old(2) rows(3)]) (simp add: cached_value_frame [OF rows(1)])
    then have "remote_inv U C (local_tables (cache_db c)) ((f_remote s)\<lparr>r_cache := c\<rparr>)"
      using old by (simp add: remote_inv_def values_ok_frame [OF rows(1)] blocks_ok_frame [OF rows(2)])
    then have inv': "fork_inv U C ?L' ?s'"
      using inv less_plus_one_u32 [OF False, of "first_forked_block_number L"] ff
      by (simp add: fork_inv_def order_less_imp_le)
    have tab: "local_value_at k m (fdb ?s') = (if uint ?cur \<le> m then (case map_of ?es k of
        Some v \<Rightarrow> Some v | None \<Rightarrow> local_value_at k m (fdb s)) else local_value_at k m (fdb s))" for k m
      using post by simp
    have vals: "history_inv ?L' ?s'"
      "\<And>n k. n \<le> ?cur \<Longrightarrow> layer_value ?L' C ?s' n k = layer_value L C s n k"
      "\<And>k. layer_value ?L' C ?s' (current_block_number ?L') k = layer_value L C s ?cur k"
      using commit_values [OF hist ff False _ _ tab refl] post by simp_all
    have "Q ?L' ?s'"
      by (rule Q [OF refl False inv' vals(1) _ _ _ vals(2,3)]) simp_all
    then show ?thesis
      using r Inr add run by (simp add: layer_commit_def wp_def prog_simps on_cache_def)
  qed
qed

section \<open>Enumerating keys\<close>

definition next_live_key :: "chain \<Rightarrow> h256 \<Rightarrow> bytes list \<Rightarrow> bytes \<Rightarrow> bytes \<Rightarrow> bytes option" where
  "next_live_key C h deleted pre key =
     (case filter (\<lambda>k. key < k \<and> \<not> list_ex (starts_with k) deleted) (chain_keys C h pre) of
        [] \<Rightarrow> None | k # _ \<Rightarrow> Some k)"

lemma next_chain_key_None:
  "next_chain_key C h p key = None \<Longrightarrow> filter (\<lambda>k. key < k) (chain_keys C h p) = []"
  by (auto simp: next_chain_key_def split: list.splits)

lemma next_chain_key_Some:
  assumes "wf_chain C" and "next_chain_key C h p key = Some x"
  shows "filter (\<lambda>k. key < k) (chain_keys C h p) = x # filter (\<lambda>k. x < k) (chain_keys C h p)"
    and "key < x"
proof -
  let ?ks = "chain_keys C h p"
  obtain ys where ys: "filter (\<lambda>k. key < k) ?ks = x # ys"
    using assms(2) by (auto simp: next_chain_key_def split: list.splits)
  have sorted: "sorted_wrt (<) (x # ys)"
    using sorted_wrt_filter [OF sorted_chain_keys [OF assms(1)], of "\<lambda>k. key < k" h p] ys by simp
  have "x \<in> set (filter (\<lambda>k. key < k) ?ks)" unfolding ys by simp
  then show "key < x" by simp
  then have "filter (\<lambda>k. x < k) ?ks = filter (\<lambda>k. x < k) (filter (\<lambda>k. key < k) ?ks)"
    by (auto intro!: filter_cong)
  also have "\<dots> = ys" unfolding ys using sorted by (auto simp: filter_id_conv)
  finally show "filter (\<lambda>k. key < k) ?ks = x # filter (\<lambda>k. x < k) ?ks" using ys by simp
qed

lemma filter_conj: "filter (\<lambda>k. P k \<and> R k) xs = filter R (filter P xs)"
  by (induction xs) auto

lemma wp_parent_next_key:
  assumes inv: "fork_inv U C L s"
    and Q: "\<And>s'. fork_inv U C L s' \<Longrightarrow> same_fork s s' \<Longrightarrow> Q (next_chain_key C h p k) s'"
    and E: "\<And>e s'. fork_inv U C L s' \<Longrightarrow> same_fork s s' \<Longrightarrow> no_panic e \<Longrightarrow> E e s'"
  shows "wp (parent (remote_next_key U h p k)) Q E s"
  by (rule wp_parent [OF inv, where P = "\<lambda>x. x = next_chain_key C h p k"])
    (auto intro!: wp_remote_next_key Q E)

lemma wpL_next_key_loop:
  assumes "fork_inv U C L s"
  shows "wpL (next_key_loop U L deleted p key)
     (\<lambda>r s'. fork_inv U C L s' \<and> same_fork s s' \<and>
        r = next_live_key C (first_forked_block_hash L) deleted p key)
     (\<lambda>e s'. fork_inv U C L s' \<and> same_fork s s' \<and> no_panic e) s"
  using assms
proof (induction "length (filter (\<lambda>k. key < k) (chain_keys C (first_forked_block_hash L) p))"
    arbitrary: key s rule: less_induct)
  case less
  let ?h = "first_forked_block_hash L"
  have wf: "wf_chain C" using less.prems unfolding fork_inv_def remote_inv_def by (blast dest: honestD)
  obtain r s1 where r: "parent (remote_next_key U ?h p key) s = (r, s1)" by fastforce
  have step: "wp (parent (remote_next_key U ?h p key))
      (\<lambda>x s'. fork_inv U C L s' \<and> same_fork s s' \<and> x = next_chain_key C ?h p key)
      (\<lambda>e s'. fork_inv U C L s' \<and> same_fork s s' \<and> no_panic e) s"
    by (rule wp_parent_next_key [OF less.prems]) auto
  show ?case
  proof (cases r)
    case (Inl e)
    with step r show ?thesis by (simp add: wpL_def wp_def next_key_loop.simps [of U L deleted p key s])
  next
    case (Inr x)
    then have post: "fork_inv U C L s1" "same_fork s s1" "x = next_chain_key C ?h p key"
      using wp_Inr [OF step] r by auto
    show ?thesis
    proof (cases x)
      case None
      then have "next_live_key C ?h deleted p key = None"
        using post(3) next_chain_key_None [of C ?h p key] by (simp add: next_live_key_def filter_conj)
      with None r Inr post show ?thesis
        by (simp add: wpL_def next_key_loop.simps [of U L deleted p key s])
    next
      case (Some y)
      note nxt = next_chain_key_Some [OF wf post(3) [symmetric, unfolded Some]]
      show ?thesis
      proof (cases "list_ex (starts_with y) deleted")
        case True
        then have eq: "next_live_key C ?h deleted p key = next_live_key C ?h deleted p y"
          by (simp add: next_live_key_def filter_conj nxt(1) del: filter_filter)
        have tail: "wpL (next_key_loop U L deleted p y)
            (\<lambda>r s'. fork_inv U C L s' \<and> same_fork s1 s' \<and> r = next_live_key C ?h deleted p y)
            (\<lambda>e s'. fork_inv U C L s' \<and> same_fork s1 s' \<and> no_panic e) s1"
          by (rule less.hyps) (use nxt(1) post in simp_all)
        have "wpL (next_key_loop U L deleted p y)
            (\<lambda>r s'. fork_inv U C L s' \<and> same_fork s s' \<and> r = next_live_key C ?h deleted p key)
            (\<lambda>e s'. fork_inv U C L s' \<and> same_fork s s' \<and> no_panic e) s1"
          by (rule wpL_mono [OF tail]) (use eq same_fork_trans [OF post(2)] in simp_all)
        with True Some r Inr show ?thesis
          by (simp add: wpL_def next_key_loop.simps [of U L deleted p key s])
      next
        case False
        then have "next_live_key C ?h deleted p key = Some y"
          by (simp add: next_live_key_def filter_conj nxt(1) del: filter_filter)
        with False Some r Inr post show ?thesis
          by (simp add: wpL_def next_key_loop.simps [of U L deleted p key s])
      qed
    qed
  qed
qed

lemma wpL_layer_next_key:
  assumes "fork_inv U C L s"
  shows "wpL (layer_next_key U L p key)
     (\<lambda>r s'. fork_inv U C L s' \<and> same_fork s s' \<and>
        r = next_live_key C (first_forked_block_hash L) (deleted_prefixes s) p key)
     (\<lambda>e s'. fork_inv U C L s' \<and> same_fork s s' \<and> no_panic e) s"
  unfolding layer_next_key_def
  by (intro wpL_bindL wpL_returns wp_lock wp_gets wpL_next_key_loop [OF assms])
    (use assms in \<open>simp add: fork_inv_def\<close>)

lemma set_btree_set [simp]: "set (btree_set ks) = set ks"
  by (simp add: btree_set_def)

lemma sorted_btree_set: "sorted_wrt (<) (btree_set ks)"
  by (simp add: btree_set_def strict_sorted_iff)

text \<open>
  A key of the fork point the cache lists though the chain has no value for it: it was read
  once and cached as absent.
\<close>

definition phantom :: "chain \<Rightarrow> h256 \<Rightarrow> db \<Rightarrow> bytes \<Rightarrow> bool" where
  "phantom C h d k \<longleftrightarrow> chain_value C h k = None \<and> cached_value d (h, k) \<noteq> None"

lemma wpL_parent_get_keys:
  assumes inv: "fork_inv U C L s"
    and Q: "\<And>ks s'. fork_inv U C L s' \<Longrightarrow> same_fork s s' \<Longrightarrow>
      (\<And>k. k \<in> set ks \<longleftrightarrow> starts_with k p \<and> (chain_value C h k \<noteq> None \<or> phantom C h (fdb s') k)) \<Longrightarrow> Q ks s'"
    and E: "\<And>e s'. fork_inv U C L s' \<Longrightarrow> same_fork s s' \<Longrightarrow> no_panic e \<Longrightarrow> E e s'"
  shows "wpL (map_errL LRemote (on_fieldL f_remote (\<lambda>r s. s\<lparr>f_remote := r\<rparr>) (get_keys U h p))) Q E s"
proof -
  have r: "remote_inv U C (local_tables (fdb s)) (f_remote s)" using inv by (simp add: fork_inv_def)
  show ?thesis
  proof (intro wpL_map_errL wpL_on_fieldL wpL_get_keys [OF r])
    fix ks r' assume r': "remote_inv U C (local_tables (fdb s)) r'" and all: "all_cached C h p (rdb r')"
      and ks: "\<And>k. k \<in> set ks \<longleftrightarrow> starts_with k p \<and> cached_value (rdb r') (h, k) \<noteq> None"
    have "k \<in> set ks \<longleftrightarrow> starts_with k p \<and> (chain_value C h k \<noteq> None \<or> phantom C h (rdb r') k)" for k
    proof -
      have "cached_value (rdb r') (h, k) \<noteq> None" if "starts_with k p" "chain_value C h k \<noteq> None"
        using all that by (simp add: all_cached_def in_chain_keys)
      then show ?thesis using ks [of k] by (auto simp: phantom_def)
    qed
    then show "Q ks (s\<lparr>f_remote := r'\<rparr>)"
      by (intro Q) (use fork_inv_remote [OF inv r'] in simp_all)
  next
    fix e r' assume "remote_inv U C (local_tables (fdb s)) r'" "e \<noteq> RemotePanic"
    then show "E (LRemote e) (s\<lparr>f_remote := r'\<rparr>)"
      by (intro E) (use fork_inv_remote [OF inv] in simp_all)
  qed
qed

lemma set_merge_in_memory:
  "k \<in> set (merge_in_memory mods prefixes rks p) \<longleftrightarrow>
     k \<in> set rks \<and> \<not> list_ex (starts_with k) prefixes \<and> \<not> is_locally_deleted mods k \<or>
     starts_with k p \<and> (\<exists>v. (k, v) \<in> set mods \<and> is_live v)"
  by (force simp: merge_in_memory_def)

text \<open>The keys of the block being built: the live ones, and phantoms no write has covered.\<close>

lemma wpL_keys_latest:
  assumes inv: "fork_inv U C L s" and hist: "history_inv L s" and n: "current_block_number L \<le> n"
    and Q: "\<And>ks s'. fork_inv U C L s' \<Longrightarrow> same_fork s s' \<Longrightarrow> sorted_wrt (<) ks \<Longrightarrow>
      (\<And>k. k \<in> set ks \<longleftrightarrow> starts_with k p \<and>
        (layer_value L C s (current_block_number L) k \<noteq> None \<or>
         map_of (modifications s) k = None \<and> \<not> under_deleted s k \<and>
           phantom C (first_forked_block_hash L) (fdb s') k)) \<Longrightarrow> Q ks s'"
    and E: "\<And>e s'. fork_inv U C L s' \<Longrightarrow> same_fork s s' \<Longrightarrow> no_panic e \<Longrightarrow> E e s'"
  shows "wpL (keys_by_prefix U L p n) Q E s"
  unfolding keys_by_prefix_def merge_keys_with_in_memory_def
proof (intro wpL_bindL wpL_parent_get_keys [OF inv] wpL_returns E)
  let ?h = "first_forked_block_hash L"
  fix rks s1 assume s1: "fork_inv U C L s1" "same_fork s s1"
    and rks: "\<And>k. k \<in> set rks \<longleftrightarrow> starts_with k p \<and> (chain_value C ?h k \<noteq> None \<or> phantom C ?h (fdb s1) k)"
  have dist: "distinct (map fst (modifications s))" using hist by (simp add: history_inv_def)
  have some: "\<exists>v. m = Some v" if "map_of (modifications s) k = Some m" for k m
    using hist that unfolding history_inv_def by blast
  let ?ks = "merge_in_memory (modifications s) (deleted_prefixes s) rks p"
  have "k \<in> set ?ks \<longleftrightarrow> starts_with k p \<and> (layer_value L C s (current_block_number L) k \<noteq> None \<or>
      map_of (modifications s) k = None \<and> \<not> under_deleted s k \<and> phantom C ?h (fdb s1) k)" for k
  proof (cases "map_of (modifications s) k")
    case None
    then have "\<not> (\<exists>v. (k, v) \<in> set (modifications s) \<and> is_live v)"
      by (auto simp: map_of_eq_None_iff image_iff)
    with None rks [of k] show ?thesis
      unfolding set_merge_in_memory
      by (auto simp: is_locally_deleted_def layer_value_def local_modification_def
          beyond_value_def under_deleted_def)
  next
    case (Some m)
    then obtain v where v: "m = Some v" using some by blast
    have mem: "(k, m') \<in> set (modifications s) \<longleftrightarrow> m' = m" for m'
      using Some dist by (metis map_of_SomeD map_of_eq_Some_iff option.inject)
    have "k \<in> set ?ks \<longleftrightarrow> (k \<in> set rks \<and> \<not> under_deleted s k \<and> sv_value v \<noteq> None) \<or>
        (starts_with k p \<and> sv_value v \<noteq> None)"
      unfolding set_merge_in_memory mem
      using Some v by (simp add: is_locally_deleted_def is_live_def under_deleted_def)
    moreover have "layer_value L C s (current_block_number L) k = sv_value v"
      using Some v by (simp add: layer_value_def local_modification_def)
    ultimately show ?thesis using Some rks by auto
  qed
  moreover have "sorted_wrt (<) ?ks" by (simp add: merge_in_memory_def sorted_btree_set)
  ultimately have "Q ?ks s1" by (intro Q s1)
  with s1 n show "wp (if current_block_number L \<le> n
      then bindE (lock modifications_poisoned) (\<lambda>_. bindE (lock prefixes_poisoned) (\<lambda>_.
        gets (\<lambda>s. merge_in_memory (modifications s) (deleted_prefixes s) rks p)))
      else merge_keys_with_cache rks p n) Q E s1"
    by (auto intro!: wp_bindE wp_lock wp_gets simp: fork_inv_def same_fork_def)
qed

end
