(* ===== verification/Availability.thy ===== *)
theory Availability
  imports Remote_Laws
begin

text \<open>
  When the remote layer does answer. The laws of \<^verbatim>\<open>Remote_Laws\<close> hold under any failures and so
  allow an error anywhere; here the cache works and the network may drop one connection, and
  every operation returns a value: this is what the reconnect after a failed request is for.
\<close>

section \<open>A network that may drop one connection\<close>

text \<open>
  \<open>ready\<close>: the next failure, if there is one, leaves the endpoint reachable; \<open>up\<close>: there is
  no further failure.
\<close>

definition tolerates :: "('n \<Rightarrow> bool) \<Rightarrow> ('n \<Rightarrow> bool) \<Rightarrow> ('n, 'e, 'a) prog \<Rightarrow> bool" where
  "tolerates ready up m \<longleftrightarrow>
     (\<forall>n. ready n \<longrightarrow> wp m (\<lambda>_. ready) (\<lambda>_. up) n) \<and>
     (\<forall>n. up n \<longrightarrow> wp m (\<lambda>_. up) (\<lambda>_ _. False) n)"

definition drops_once :: "('n, 'm) upstream \<Rightarrow> ('n \<Rightarrow> bool) \<Rightarrow> ('n \<Rightarrow> bool) \<Rightarrow> bool" where
  "drops_once U ready up \<longleftrightarrow>
     (\<forall>n. up n \<longrightarrow> ready n) \<and>
     tolerates ready up (u_system_chain U) \<and>
     (\<forall>k h. tolerates ready up (u_get_storage U k h)) \<and>
     (\<forall>ks h. tolerates ready up (u_query_storage_at U ks h)) \<and>
     (\<forall>p c k h. tolerates ready up (u_get_keys_paged U p c k h))"

definition healthy :: "('n \<Rightarrow> bool) \<Rightarrow> 'n remote \<Rightarrow> bool" where
  "healthy ready s \<longleftrightarrow> cache_script (r_cache s) = [] \<and> ready (r_net s)"

lemma tolerates_request: "tolerates ready up m \<Longrightarrow> tolerates ready up (request name m)"
  unfolding tolerates_def request_def by (auto intro!: wp_map_err)

lemma tolerates_storage: "drops_once U ready up \<Longrightarrow> tolerates ready up (rpc_storage U k h)"
  unfolding rpc_storage_def by (rule tolerates_request) (simp add: drops_once_def)

lemma tolerates_keys: "drops_once U ready up \<Longrightarrow> tolerates ready up (storage_keys_paged U p c k h)"
  unfolding storage_keys_paged_def by (rule tolerates_request) (simp add: drops_once_def)

lemma tolerates_batch:
  assumes "drops_once U ready up"
  shows "tolerates ready up (storage_batch U ks h)"
proof -
  have "tolerates ready up (request ''state_queryStorageAt'' (u_query_storage_at U ks h))"
    by (rule tolerates_request) (use assms in \<open>simp add: drops_once_def\<close>)
  then show ?thesis
    unfolding storage_batch_def Let_def tolerates_def by (auto intro!: wp_intros intro: wp_mono)
qed

lemma wp_rpc_state:
  "wp m (\<lambda>x n. Q x (s\<lparr>r_net := n\<rparr>)) (\<lambda>e n. E (RpcErr e) (s\<lparr>r_net := n\<rparr>)) (r_net s) \<Longrightarrow> wp (rpc m) Q E s"
  unfolding rpc_def by (intro wp_map_err wp_on_field)

text \<open>The retry after a reconnect hides the drop.\<close>

lemma wp_retry:
  assumes U: "drops_once U ready up" and m: "tolerates ready up m" and s: "healthy ready s"
    and Q: "\<And>x s'. healthy ready s' \<Longrightarrow> rdb s' = rdb s \<Longrightarrow> Q x s'"
  shows "wp (with_reconnect U m) Q (\<lambda>_ _. False) s"
proof -
  have net: "Q x (s\<lparr>r_net := n\<rparr>)" if "ready n" for x n
    by (rule Q) (use s that in \<open>simp_all add: healthy_def\<close>)
  have first: "wp m (\<lambda>_. ready) (\<lambda>_. up) (r_net s)"
    using m s by (simp add: tolerates_def healthy_def)
  have again: "wp m (\<lambda>_. up) (\<lambda>_ _. False) n" if "up n" for n
    using m that by (simp add: tolerates_def)
  have alive: "wp (reconnect U) (\<lambda>_. up) (\<lambda>_ _. False) n" if "up n" for n
  proof -
    have "wp (u_system_chain U) (\<lambda>_. up) (\<lambda>_ _. False) n"
      using U that by (simp add: drops_once_def tolerates_def)
    then show ?thesis unfolding reconnect_def by (auto intro!: wp_matchE wp_ret elim: wp_mono)
  qed
  have up: "ready n" if "up n" for n using U that by (simp add: drops_once_def)
  have "wp (rpc m) Q (\<lambda>_ _. False) (s\<lparr>r_net := n\<rparr>)" if "up n" for n
    by (rule wp_rpc_state, simp, rule wp_mono [OF again [OF that]]) (auto intro: net up)
  then have "wp (bindE (rpc (reconnect U)) (\<lambda>_. rpc m)) Q (\<lambda>_ _. False) (s\<lparr>r_net := n\<rparr>)" if "up n" for n
    using that by (intro wp_bindE wp_rpc_state) (auto intro: wp_mono [OF alive])
  then show ?thesis
    unfolding with_reconnect_def
    by (intro wp_matchE wp_rpc_state) (auto intro!: wp_mono [OF first] wp_ret net)
qed

section \<open>The cache\<close>

lemma wp_query_healthy:
  assumes "healthy ready s" and "\<And>s'. healthy ready s' \<Longrightarrow> rdb s' = rdb s \<Longrightarrow> Q (q (rdb s)) s'"
  shows "wp (cached (query q)) Q E s"
proof -
  have "cache_script (r_cache s) = []" using assms(1) by (simp add: healthy_def)
  from query_runs [OF this, of q] assms(2) [OF assms(1) refl] show ?thesis
    by (simp add: cached_def wp_def prog_simps)
qed

lemma wp_write_healthy:
  assumes "healthy ready s"
    and "\<And>s'. healthy ready s' \<Longrightarrow> rdb s' = f (rdb s) \<Longrightarrow> Q () s'"
  shows "wp (cached (write_stmt f)) Q E s"
proof -
  have c: "cache_script (r_cache s) = []" using assms(1) by (simp add: healthy_def)
  have "Q () (s\<lparr>r_cache := (r_cache s)\<lparr>cache_db := f (rdb s)\<rparr>\<rparr>)"
    by (rule assms(2)) (use assms(1) in \<open>simp_all add: healthy_def\<close>)
  with write_stmt_runs [OF c, of f] show ?thesis
    by (simp add: cached_def wp_def prog_simps)
qed

lemma wp_count_healthy:
  "healthy ready s \<Longrightarrow> (\<And>s'. healthy ready s' \<Longrightarrow> rdb s' = rdb s \<Longrightarrow> Q () s') \<Longrightarrow> wp (count_stat f) Q E s"
  unfolding count_stat_def by (intro wp_modify) (simp add: healthy_def)

lemma wp_set_batch_healthy:
  assumes "healthy ready s" and "\<And>s'. healthy ready s' \<Longrightarrow> Q () s'"
    and "\<And>s'. \<not> distinct (map fst es) \<Longrightarrow> healthy ready s' \<Longrightarrow> E (CacheErr DuplicatedKeys) s'"
  shows "wp (cached (set_storage_batch h es)) Q E s"
proof -
  have "wp (cached (ret ())) Q E s"
    using assms(2) [OF assms(1)] by (simp add: cached_def wp_def prog_simps)
  moreover have "wp (cached (fail DuplicatedKeys)) Q E s" if "\<not> distinct (map fst es)"
    using assms(3) [OF that assms(1)] by (simp add: cached_def wp_def prog_simps)
  moreover have "wp (cached (write_stmt f)) Q E s" for f
    by (rule wp_write_healthy [OF assms(1)]) (rule assms(2))
  ultimately show ?thesis by (auto simp: set_storage_batch_def)
qed

section \<open>The reads\<close>

lemma wp_cache_page_healthy:
  assumes "drops_once U ready up" and "healthy ready s" and "\<And>s'. healthy ready s' \<Longrightarrow> Q () s'"
    and "\<And>e s'. healthy ready s' \<Longrightarrow> E e s'"
  shows "wp (cache_page U h p keys c) Q E s"
  unfolding cache_page_def
proof (intro wp_bindE wp_mono [OF wp_retry [OF assms(1) tolerates_batch [OF assms(1)] assms(2)]])
  fix vs s1 assume s1: "healthy ready s1 \<and> rdb s1 = rdb s"
  show "wp (cached (set_storage_batch h (zip keys vs)))
      (\<lambda>_. wp (cached (update_prefix_scan h p (last keys) c)) Q E) E s1"
    unfolding update_prefix_scan_def
    by (intro wp_set_batch_healthy [of ready] wp_write_healthy [of ready] assms) (use s1 in auto)
qed (auto simp: assms)

lemma wp_speculate_healthy:
  assumes U: "drops_once U ready up" and s: "healthy ready s" and Q: "\<And>x s'. healthy ready s' \<Longrightarrow> Q x s'"
  shows "wp (speculate U h k) Q (\<lambda>_ _. False) s"
proof -
  have page: "wp (prefetch_prefix_single_page U h p c) (\<lambda>_. healthy ready) (\<lambda>_. healthy ready) s'"
    if s': "healthy ready s'" for p c s'
    unfolding prefetch_prefix_single_page_def get_prefix_scan_progress_def count_keys_by_prefix_def
      update_prefix_scan_def
  proof (intro wp_bindE wp_query_healthy [OF s'] wp_case_option wp_if wp_ret)
    fix s1 assume s1: "healthy ready s1"
    show "wp (with_reconnect U (storage_keys_paged U p c None h)) (\<lambda>keys. wp
        (if keys = [] then bindE (cached (write_stmt (upsert_scan h p p True))) (\<lambda>_. ret 0)
         else bindE (cache_page U h p keys (length keys < unat c)) (\<lambda>_. ret (length keys)))
        (\<lambda>_. healthy ready) (\<lambda>_. healthy ready)) (\<lambda>_. healthy ready) s1"
      by (rule wp_mono [OF wp_retry [OF U tolerates_keys [OF U] s1]])
        (auto intro!: wp_bindE wp_ret wp_write_healthy [of ready] wp_cache_page_healthy [OF U])
    show "wp (cached (query q)) (\<lambda>_. healthy ready) (\<lambda>_. healthy ready) s1" for q
      by (rule wp_query_healthy [OF s1])
  qed auto
  show ?thesis
    unfolding speculate_def Let_def get_prefix_scan_progress_def get_storage_def
    by (auto intro!: wp_intros wp_query_healthy [of ready] wp_mono [OF page] wp_count_healthy [of ready]
        Q s)
qed

lemma wp_remote_get_healthy:
  assumes U: "drops_once U ready up" and s: "healthy ready s"
  shows "wp (remote_get U h k) (\<lambda>_. healthy ready) (\<lambda>_ _. False) s"
  unfolding remote_get_def get_storage_def set_storage_def
  by (auto intro!: wp_intros wp_query_healthy [of ready] wp_speculate_healthy [OF U]
      wp_count_healthy [of ready] wp_retry [OF U tolerates_storage [OF U]]
      wp_write_healthy [of ready] s)

lemma wp_remote_next_key_healthy:
  assumes U: "drops_once U ready up" and s: "healthy ready s"
  shows "wp (remote_next_key U h p k) (\<lambda>_. healthy ready) (\<lambda>_ _. False) s"
proof -
  have scan: "wp (scan_covers h p ns) (\<lambda>_. healthy ready) (\<lambda>_ _. False) s" if "healthy ready s" for ns s
    using that
    by (induction ns arbitrary: s)
      (auto intro!: wp_intros wp_query_healthy [of ready] simp: get_prefix_scan_progress_def)
  show ?thesis
    unfolding remote_next_key_def next_key_from_cache_def
    by (auto intro!: wp_intros wp_mono [OF scan [OF s]] wp_query_healthy [of ready]
        wp_count_healthy [of ready] wp_retry [OF U tolerates_keys [OF U]] simp del: scan_covers.simps)
qed

end
