(* ===== verification/Sample_Node.thy ===== *)
theory Sample_Node
  imports Local_History Availability
begin

text \<open>
  A concrete chain of three blocks and a concrete node that serves it, losing the
  connection whenever its script says so. The theorems that speak about an honest node
  are applied here, so that none of them rests on assumptions no node meets.
\<close>

section \<open>A node that loses connections\<close>

text \<open>The network state is the script: a \<open>False\<close> is one request that gets no answer.\<close>

definition answer :: "'a \<Rightarrow> (bool list, string, 'a) prog" where
  "answer x n = (case n of [] \<Rightarrow> (Inr x, [])
     | b # bs \<Rightarrow> (if b then (Inr x, bs) else (Inl ''connection lost'', bs)))"

text \<open>
  The codecs of the sample node are the plainest ones that lose nothing: the hash of the
  parent for a header, one byte for the length of optional bytes, the bytes themselves for
  the metadata.
\<close>

definition serve :: "chain \<Rightarrow> (bool list, bytes) upstream" where
  "serve C =
     \<lparr>u_endpoint = ''ws://127.0.0.1:9944'',
      u_connect = (\<lambda>_. answer ()),
      u_system_chain = answer ''Sample'',
      u_finalized_head = answer (case ch_hash C 2 of Some h \<Rightarrow> h | None \<Rightarrow> h256_zero),
      u_get_header = (\<lambda>h. answer (map_option nb_header (ch_block C h))),
      u_get_block_hash = (\<lambda>m. answer (ch_hash C m)),
      u_get_block = (\<lambda>h. answer (ch_block C h)),
      u_get_storage = (\<lambda>k h. answer (chain_value C h k)),
      u_query_storage_at = (\<lambda>ks h. answer [map (\<lambda>k. (k, chain_value C h k)) ks]),
      u_get_keys_paged = (\<lambda>p c s h. answer (take (unat c) (keys_after s (chain_keys C h p)))),
      u_get_metadata = (\<lambda>h. answer []),
      u_state_call = (\<lambda>f a h. answer []),
      u_encode_header = (\<lambda>h. as_bytes (nh_parent_hash h)),
      u_encode_u32 = (\<lambda>n. [ucast n]),
      u_decode_opaque = (\<lambda>b. Inr (Some b)),
      u_decode_metadata = (\<lambda>b. Inr b)\<rparr>"

lemma answer_Inr: "answer x n = (Inr y, n') \<Longrightarrow> y = x"
  by (auto simp: answer_def split: list.splits if_splits)

lemma collect_map_keys: "k \<in> set ks \<Longrightarrow> collect_map (map (\<lambda>k. (k, f k)) ks) k = Some (f k)"
  unfolding collect_map_eq rev_map by (simp add: map_of_map_restrict restrict_map_def)

lemma serve_honest: "wf_chain C \<Longrightarrow> honest (serve C) C"
  unfolding honest_def by (auto simp: serve_def dest!: answer_Inr simp: collect_map_keys)

text \<open>A script with at most one \<open>False\<close> is a network that drops one connection.\<close>

definition calm :: "bool list \<Rightarrow> bool" where
  "calm n \<longleftrightarrow> False \<notin> set n"

definition one_drop :: "bool list \<Rightarrow> bool" where
  "one_drop n \<longleftrightarrow> count_list n False \<le> 1"

lemma tolerates_answer: "tolerates one_drop calm (answer x)"
  by (auto simp: tolerates_def wp_def answer_def one_drop_def calm_def count_list_0_iff split: list.splits)

lemma serve_drops_once: "drops_once (serve C) one_drop calm"
  by (simp add: drops_once_def serve_def tolerates_answer) (simp add: calm_def one_drop_def count_list_0_iff)

section \<open>A chain of three blocks\<close>

definition hash_of :: "u8 \<Rightarrow> h256" where
  "hash_of i = H256 (replicate 32 i)"

definition sample_block :: "u8 \<Rightarrow> node_block" where
  "sample_block i =
     \<lparr>nb_header = \<lparr>nh_parent_hash = hash_of (i - 1), nh_number = ucast i, nh_state_root = h256_zero,
        nh_extrinsics_root = h256_zero, nh_digest = []\<rparr>, nb_extrinsics = [[i]]\<rparr>"

text \<open>An item of storage (32 bytes of prefix) with two entries, and a short key.\<close>

definition item :: bytes where
  "item = replicate 32 5"

definition sample_state :: "h256 \<Rightarrow> (bytes \<times> bytes) list" where
  "sample_state h =
     (if h = hash_of 2 then [([1], [10]), (item @ [1], [11]), (item @ [2], [12])]
      else if h = hash_of 1 then [([1], [9])] else [])"

definition sample_chain :: chain where
  "sample_chain =
     \<lparr>ch_state = sample_state,
      ch_block = (\<lambda>h. if h = hash_of 0 then Some (sample_block 0)
        else if h = hash_of 1 then Some (sample_block 1)
        else if h = hash_of 2 then Some (sample_block 2) else None),
      ch_hash = (\<lambda>n. if n \<le> 2 then Some (hash_of (ucast n)) else None)\<rparr>"

lemma wf_hash_of [simp]: "wf_h256 (hash_of i)"
  by (simp add: wf_h256_def hash_of_def)

lemma hash_of_inject [simp]: "hash_of i = hash_of j \<longleftrightarrow> i = j"
  by (simp add: hash_of_def)

lemma upto_two: "(n :: u32) \<le> 2 \<Longrightarrow> n = 0 \<or> n = 1 \<or> n = 2"
  by unat_arith

lemma sorted_sample_keys: "sorted_wrt (<) [[1], item @ [1], item @ [2]]"
  by code_simp

lemma wf_sample: "wf_chain sample_chain"
proof -
  have "sorted_wrt (<) (map fst (ch_state sample_chain h))" for h
    using sorted_sample_keys by (simp add: sample_chain_def sample_state_def)
  moreover have "ch_block sample_chain h = Some b \<Longrightarrow> wf_h256 h \<and> wf_h256 (nh_parent_hash (nb_header b))" for h b
    by (auto simp: sample_chain_def sample_block_def split: if_splits)
  moreover have "ch_hash sample_chain m = Some h \<Longrightarrow> ch_block sample_chain h = Some b \<Longrightarrow>
      nh_number (nb_header b) = m" for m h b
    by (auto simp: sample_chain_def sample_block_def dest!: upto_two split: if_splits)
  ultimately show ?thesis by (auto simp: wf_chain_def)
qed

lemma canonical_sample: "canonical sample_chain"
  by (auto simp: canonical_def sample_chain_def sample_block_def dest!: upto_two split: if_splits)

abbreviation sample_node :: "(bool list, bytes) upstream" where
  "sample_node \<equiv> serve sample_chain"

lemma honest_sample: "honest sample_node sample_chain"
  by (rule serve_honest [OF wf_sample])

section \<open>A fresh fork of it\<close>

text \<open>The remote layer over an empty cache, and the local layer forked at block 2.\<close>

definition sample_remote :: "bool list \<Rightarrow> bool list remote" where
  "sample_remote script = new_remote script (in_memory [])"

definition sample_layer :: layer where
  "sample_layer = \<lparr>first_forked_block_hash = hash_of 2, first_forked_block_number = 2,
     current_block_number = 3\<rparr>"

definition sample_fork :: "bool list \<Rightarrow> (bool list, bytes) fork" where
  "sample_fork script = snd (new_layer (sample_remote script) 2 (hash_of 2) [])"

lemma sample_remote_inv: "remote_inv sample_node sample_chain ([], [], 0) (sample_remote script)"
  unfolding sample_remote_def by (rule remote_inv_empty [OF honest_sample]) (simp add: in_memory_def)

lemma sample_new_layer: "new_layer (sample_remote script) 2 (hash_of 2) [] = (sample_layer, sample_fork script)"
  by (simp add: new_layer_def sample_layer_def sample_fork_def)

lemma sample_invs:
  "fork_inv sample_node sample_chain sample_layer (sample_fork script)"
  "history_inv sample_layer (sample_fork script)"
  by (rule new_layer_invs [OF sample_new_layer _ sample_remote_inv canonical_sample];
      simp add: sample_chain_def)+

end
