(* ===== verification/Storage_Properties.thy ===== *)
theory Storage_Properties
  imports Sample_Node
begin

text \<open>
  The properties of the cache (\<^verbatim>\<open>cache.rs\<close>) and of the remote layer
  (\<^verbatim>\<open>remote.rs\<close>), each with the concrete run it is applied to.
\<close>

section \<open>The cache\<close>

text \<open>
  the range \<open>[prefix, increment(prefix))\<close> that every prefix query of the cache uses
  contains exactly the keys that start with the prefix: the free function
  \<open>increment_prefix\<close>, walking the bytes by index, and the method \<open>prefix_upper_bound\<close>, popping
  trailing \<open>0xFF\<close> bytes, give the same bound, and for a prefix of \<open>0xFF\<close> bytes only, where
  neither gives a bound, the open range still selects only its extensions.
\<close>

theorem prefix_range_exact:
  "increment_prefix pre = prefix_upper_bound pre \<and>
   (in_range pre (increment_prefix pre) key \<longleftrightarrow> starts_with key pre)"
  by (simp add: increment_prefix_eq in_range_prefix)

text \<open>
  C6: the retry loop around every write of the cache is atomic and bounded under any
  sequence of locks, refusals and lost connections: a success is exactly one run of the
  statement on the database as it was, a failure leaves the database as it was, at most 31
  attempts are made and at most 4650 ms are slept.
\<close>

theorem retry_atomic_and_bounded:
  "case retry_write 0 body c of (r, c') \<Rightarrow>
     (case r of Inr x \<Rightarrow> body (cache_db c) = Inr (x, cache_db c')
      | Inl e \<Rightarrow> cache_db c' = cache_db c) \<and>
     length (cache_script c) \<le> length (cache_script c') + 31 \<and>
     cache_slept_ms c' \<le> cache_slept_ms c + 4650"
proof -
  obtain r c' where run: "retry_write 0 body c = (r, c')" by force
  have "(\<Sum>i \<in> {0<..30 :: nat}. 10 * i) = 4650"
    by code_simp
  with retry_write_bounds [OF run] retry_write_result [OF run] run
  show ?thesis by (auto simp: MAX_LOCK_RETRIES_def)
qed

text \<open>
  A write that meets a locked database goes through once the lock is gone, if it is gone
  within the first 30 attempts; the 31st locked attempt is reported as the database error,
  with nothing written.
\<close>

theorem locked_database_ridden_out:
  assumes "is_locked_error (DatabaseError m)" and "cache_script c = replicate k (Refused m)"
  shows "fst (set_storage h key value c) =
     (if k \<le> 30 then Inr () else Inl (Database (DatabaseError m)))"
proof -
  have "fst (retry_write 0 (\<lambda>d. Inr ((), upsert_storage h key value d)) c) =
      (if 0 + k \<le> MAX_LOCK_RETRIES then Inr () else Inl (Database (DatabaseError m)))"
    by (rule retry_write_locked [OF assms(1) _ assms(2)]) simp_all
  then show ?thesis by (simp add: set_storage_def write_stmt_def MAX_LOCK_RETRIES_def)
qed

theorem locked_database_witness:
  "fst (set_storage (hash_of 1) [1] None (in_memory (replicate 30 (Refused ''database is locked'')))) = Inr () \<and>
   fst (set_storage (hash_of 1) [1] None (in_memory (replicate 31 (Refused ''database is locked'')))) =
     Inl (Database (DatabaseError ''database is locked''))"
proof -
  have "is_locked_error (DatabaseError ''database is locked'')" by code_simp
  note * = locked_database_ridden_out [OF this]
  show ?thesis
    using * [of "in_memory (replicate 30 (Refused ''database is locked''))" 30]
      * [of "in_memory (replicate 31 (Refused ''database is locked''))" 31]
    by (simp add: in_memory_def)
qed

text \<open>
  What a batch write stores is what reads return, for the cached state of the chain: after
  a batch that succeeded, every key of the batch reads as the value written (an absent
  value as known to be absent, not as unknown), every other key and every other block as
  before, whether read one by one or in a batch.
\<close>

theorem batch_write_read:
  assumes "storage_pk (cache_db c)"
    and "set_storage_batch h entries c = (Inr (), c1)"
    and "get_storage_batch h' keys c1 = (Inr vs, c2)"
    and "get_storage h' key c2 = (Inr v, c3)"
  shows "let expected = (\<lambda>k. if h' = h \<and> k \<in> fst ` set entries then map_of entries k
                             else cached_value (cache_db c) (h', k))
         in vs = map expected keys \<and> v = expected key"
proof -
  have d: "cache_db c1 = foldl (\<lambda>d (k, v). upsert_storage h k v d) (cache_db c) entries"
    and dist: "distinct (map fst entries)"
    using assms(2) write_stmt_result(1) [of _ c "Inr ()" c1 "()"]
    by (auto simp: set_storage_batch_def ret_def fail_def split: if_splits)
  have "storage_pk (cache_db c1)" using assms(1) by (simp add: d storage_pk_upserts)
  from get_storage_batch_result(2) [OF assms(3) this refl]
  have vs: "vs = map (\<lambda>k. cached_value (cache_db c1) (h', k)) keys" by simp
  have v: "v = cached_value (cache_db c1) (h', key)"
    using get_storage_result(2) [OF assms(4) refl] get_storage_batch_result(1) [OF assms(3)] by simp
  have "cached_value (cache_db c1) (h', k) = (if h' = h \<and> k \<in> fst ` set entries
      then map_of entries k else cached_value (cache_db c) (h', k))" for k
    unfolding d cached_value_upserts [OF dist]
    by (auto split: option.splits simp: map_of_eq_None_iff weak_map_of_SomeI dest: map_of_SomeD
        intro: rev_image_eqI)
  then show ?thesis by (simp add: vs v Let_def)
qed

theorem batch_write_read_witness:
  "\<exists>c1 c2 c3. set_storage_batch (hash_of 1) [([1], Some [7]), ([2], None)] (in_memory []) = (Inr (), c1) \<and>
     get_storage_batch (hash_of 1) [[3], [2], [1]] c1 = (Inr [None, Some None, Some (Some [7])], c2) \<and>
     get_storage (hash_of 1) [1] c2 = (Inr (Some (Some [7])), c3)"
proof -
  let ?c = "in_memory []"
  let ?es = "[([1], Some [7]), ([2], None)] :: (bytes \<times> bytes option) list"
  let ?w = "set_storage_batch (hash_of 1) ?es ?c"
  let ?r = "get_storage_batch (hash_of 1) [[3], [2], [1]] (snd ?w)"
  let ?g = "get_storage (hash_of 1) [1] (snd ?r)"
  have "fst ?w = Inr ()" by code_simp
  note w = run_of_fst [OF this]
  have "\<not> isl (fst ?r)" by code_simp
  note r = run_ok [OF this]
  have "\<not> isl (fst ?g)" by code_simp
  note g = run_ok [OF this]
  have "storage_pk (cache_db ?c)" by (simp add: in_memory_def empty_db_def storage_pk_def)
  note vs = batch_write_read [OF this w r g, unfolded Let_def]
  let ?x = "\<lambda>k. if hash_of 1 = hash_of 1 \<and> k \<in> fst ` set ?es then map_of ?es k
      else cached_value (cache_db ?c) (hash_of 1, k)"
  have "map ?x [[3], [2], [1]] = [None, Some None, Some (Some [7])]" "?x [1] = Some (Some [7])"
    by code_simp+
  then have r': "?r = (Inr [None, Some None, Some (Some [7])], snd ?r)"
    and g': "?g = (Inr (Some (Some [7])), snd ?g)"
    using vs r g by (simp_all only:)
  show ?thesis
    by (rule exI [of _ "snd ?w"], rule exI [of _ "snd ?r"], rule exI [of _ "snd ?g"])
      (intro conjI w r' g')
qed

text \<open>
  C7: committing a block is a new version of the keys it changes: from that block on they read
  as the value committed (deletions included), at every earlier block, and for every other
  key, as before; the validity intervals of a key stay disjoint.
\<close>

theorem commit_is_a_new_version:
  assumes "local_inv b (cache_db c)" and "b \<le> uint n" and "distinct (map fst entries)"
    and "commit_local_changes entries n c = (Inr (), c1)"
    and "get_local_value_at_block key m c1 = (Inr v, c2)"
  shows "local_inv (uint n) (cache_db c2) \<and>
     v = (if n \<le> m \<and> key \<in> fst ` set entries then map_of entries key
          else local_value_at key (uint m) (cache_db c))"
proof -
  note commit = commit_changes_result(2) [OF assms(4,3,1,2) refl]
  note read = get_local_value_result [OF assms(5)]
  have "uint n \<le> uint m \<longleftrightarrow> n \<le> m" by (simp add: word_le_def)
  moreover have "map_of entries key = None \<longleftrightarrow> key \<notin> fst ` set entries"
    by (simp add: map_of_eq_None_iff)
  ultimately show ?thesis
    using commit read by (auto split: option.splits)
qed

theorem commit_is_a_new_version_witness:
  "\<exists>c1 c2. commit_local_changes [([1], Some [7]), ([2], None)] 5 (in_memory []) = (Inr (), c1) \<and>
     get_local_value_at_block [2] 6 c1 = (Inr (Some None), c2) \<and> local_inv 5 (cache_db c2)"
proof -
  let ?w = "commit_local_changes [([1], Some [7]), ([2], None)] 5 (in_memory [])"
  let ?r = "get_local_value_at_block [2] 6 (snd ?w)"
  have "fst ?w = Inr ()" by code_simp
  note w = run_of_fst [OF this]
  have "\<not> isl (fst ?r)" by code_simp
  note r = run_ok [OF this]
  have "local_inv 5 (cache_db (in_memory []))" by (simp add: in_memory_def local_inv_empty)
  from commit_is_a_new_version [OF this _ _ w r]
  have "local_inv 5 (cache_db (snd ?r))" "projr (fst ?r) = Some None" by simp_all
  with w r show ?thesis by metis
qed

section \<open>The remote layer\<close>

text \<open>
  clearing a block forgets everything cached about it and keeps the cache coherent with
  the chain: values, block rows and prefix scans that remain still say what the chain says.
\<close>

theorem clear_block_keeps_coherence:
  assumes "remote_inv U C T s"
  shows "case cached (clear_block h) s of
     (Inr _, s') \<Rightarrow> remote_inv U C T s' \<and> cached_block (rdb s') h = None \<and>
        (\<forall>k. cached_value (rdb s') (h, k) = None) \<and> (\<forall>p. scan_progress h p (rdb s') = None) \<and>
        (\<forall>h' k. h' \<noteq> h \<longrightarrow> cached_value (rdb s') (h', k) = cached_value (rdb s) (h', k))
   | (Inl _, s') \<Rightarrow> remote_inv U C T s' \<and> rdb s' = rdb s"
proof -
  have coherent: "remote_inv U C T (s\<lparr>r_cache := (r_cache s)\<lparr>cache_db := delete_block h (rdb s)\<rparr>\<rparr>)"
  proof -
    have "local_tables (delete_block h (rdb s)) = local_tables (rdb s)"
      by (simp add: local_tables_def delete_block_def)
    with assms delete_block_coherent [of C "rdb s" U h] show ?thesis by (simp add: remote_inv_def)
  qed
  have "wp (cached (clear_block h))
     (\<lambda>_ s'. remote_inv U C T s' \<and> cached_block (rdb s') h = None \<and>
        (\<forall>k. cached_value (rdb s') (h, k) = None) \<and> (\<forall>p. scan_progress h p (rdb s') = None) \<and>
        (\<forall>h' k. h' \<noteq> h \<longrightarrow> cached_value (rdb s') (h', k) = cached_value (rdb s) (h', k)))
     (\<lambda>_ s'. remote_inv U C T s' \<and> rdb s' = rdb s) s"
    unfolding clear_block_def
    by (rule wp_cached_write [where f = "delete_block h", OF assms coherent])
      (simp_all add: cached_value_delete scan_progress_delete cached_block_delete)
  then show ?thesis unfolding wp_def by (auto split: prod.splits sum.splits)
qed

theorem clear_block_witness:
  "\<exists>s'. remote_get sample_node (hash_of 2) [1] (sample_remote []) = (Inr (Some [10]), s') \<and>
     fst (cached (clear_block (hash_of 2)) s') = Inr () \<and>
     cached_value (rdb (snd (cached (clear_block (hash_of 2)) s'))) (hash_of 2, [1]) = None"
proof -
  let ?g = "remote_get sample_node (hash_of 2) [1] (sample_remote [])"
  have "fst ?g = Inr (Some [10])" by code_simp
  note g = run_of_fst [OF this]
  have inv: "remote_inv sample_node sample_chain ([], [], 0) (snd ?g)"
    using wp_Inr [OF wp_remote_get [OF sample_remote_inv, where Q = "\<lambda>_. remote_inv sample_node sample_chain ([], [], 0)"
        and E = "\<lambda>_ _. True"] g] by simp
  have c: "fst (cached (clear_block (hash_of 2)) (snd ?g)) = Inr ()" by code_simp
  obtain s'' where s'': "cached (clear_block (hash_of 2)) (snd ?g) = (Inr (), s'')"
    using run_of_fst [OF c] by blast
  from clear_block_keeps_coherence [OF inv, of "hash_of 2"]
  have "cached_value (rdb s'') (hash_of 2, [1]) = None" unfolding s'' by simp
  then have "cached_value (rdb (snd (cached (clear_block (hash_of 2)) (snd ?g)))) (hash_of 2, [1]) = None"
    unfolding s'' by simp
  with g c show ?thesis by blast
qed

text \<open>
  C1: a read through the caches, the speculative prefetch and the network returns the value of
  the chain at that block or an error, under any failures of either; it keeps the cache
  coherent, and a value it returned is in the cache.
\<close>

theorem remote_get_sound:
  assumes "remote_inv U C T s"
  shows "case remote_get U h k s of
     (Inr v, s') \<Rightarrow> remote_inv U C T s' \<and> v = chain_value C h k \<and> cached_value (rdb s') (h, k) = Some v
   | (Inl e, s') \<Rightarrow> remote_inv U C T s' \<and> e \<noteq> RemotePanic"
proof -
  have "wp (remote_get U h k)
      (\<lambda>v s'. remote_inv U C T s' \<and> v = chain_value C h k \<and> cached_value (rdb s') (h, k) = Some v)
      (\<lambda>e s'. remote_inv U C T s' \<and> e \<noteq> RemotePanic) s"
    by (rule wp_remote_get [OF assms]) simp_all
  then show ?thesis by (simp add: wp_cases)
qed

theorem remote_get_sound_witness:
  "\<exists>s'. remote_get sample_node (hash_of 2) (item @ [1]) (sample_remote [True, False]) = (Inr (Some [11]), s') \<and>
     cached_value (rdb s') (hash_of 2, item @ [1]) = Some (Some [11])"
proof -
  let ?g = "remote_get sample_node (hash_of 2) (item @ [1]) (sample_remote [True, False])"
  have "fst ?g = Inr (Some [11])" by code_simp
  note g = run_of_fst [OF this]
  from remote_get_sound [OF sample_remote_inv, of "hash_of 2" "item @ [1]" "[True, False]"]
  have "cached_value (rdb (snd ?g)) (hash_of 2, item @ [1]) = Some (Some [11])"
    by (subst (asm) g) simp
  with g show ?thesis by blast
qed



text \<open>
  A batch read returns, in the order of the keys, what the single reads return: the values
  of the chain, whichever of them were cached, or an error.
\<close>

theorem remote_batch_sound:
  assumes "remote_inv U C T s"
  shows "case remote_get_batch U h keys s of
     (Inr vs, s') \<Rightarrow> remote_inv U C T s' \<and> vs = map (chain_value C h) keys
   | (Inl e, s') \<Rightarrow> remote_inv U C T s' \<and> e \<noteq> RemotePanic"
proof -
  have "wp (remote_get_batch U h keys) (\<lambda>vs s'. remote_inv U C T s' \<and> vs = map (chain_value C h) keys)
      (\<lambda>e s'. remote_inv U C T s' \<and> e \<noteq> RemotePanic) s"
    by (rule wp_remote_get_batch [OF assms]) simp_all
  then show ?thesis by (simp add: wp_cases)
qed

theorem remote_batch_sound_witness:
  "\<exists>s' s''. remote_get sample_node (hash_of 2) [1] (sample_remote []) = (Inr (Some [10]), s') \<and>
     remote_get_batch sample_node (hash_of 2) [[9], [1], item @ [2]] s' =
       (Inr [None, Some [10], Some [12]], s'')"
proof -
  let ?g = "remote_get sample_node (hash_of 2) [1] (sample_remote [])"
  let ?b = "remote_get_batch sample_node (hash_of 2) [[9], [1], item @ [2]] (snd ?g)"
  have "fst ?g = Inr (Some [10])" by code_simp
  note g = run_of_fst [OF this]
  have "remote_inv sample_node sample_chain ([], [], 0) (snd ?g)"
    by (rule remote_source.read_keeps [OF sample_remote_inv, of "(hash_of 2, [1])", unfolded split_conv, OF g])
  note sound = remote_batch_sound [OF this, of "hash_of 2" "[[9], [1], item @ [2]]"]
  have "\<not> isl (fst ?b)" by code_simp
  note b = run_ok [OF this]
  have "map (chain_value sample_chain (hash_of 2)) [[9], [1], item @ [2]] = [None, Some [10], Some [12]]"
    by code_simp
  with sound have "?b = (Inr [None, Some [10], Some [12]], snd ?b)"
    by (subst (asm) b, subst b) simp
  with g show ?thesis by blast
qed

text \<open>
  C4: the prefix scan ends, whatever pages a honest node answers with and wherever an earlier
  scan stopped, and a scan that succeeds has cached every key of the prefix: its answer is
  the number of cached rows under the prefix, at least the number of keys of the chain.
\<close>

theorem prefetch_ends_complete:
  assumes "remote_inv U C T s" and "0 < page_size"
  shows "\<exists>r s'. prefetch_prefix U h pre page_size s = Some (r, s') \<and> remote_inv U C T s' \<and>
     (case r of
        Inr n \<Rightarrow> n = length (rows_in_prefix h pre (rdb s')) \<and> length (chain_keys C h pre) \<le> n \<and>
          list_all (\<lambda>k. cached_value (rdb s') (h, k) = Some (chain_value C h k)) (chain_keys C h pre)
      | Inl e \<Rightarrow> e \<noteq> RemotePanic)"
proof -
  have "length (chain_keys C h pre) \<le> length (rows_in_prefix h pre (rdb s')) \<and>
      list_all (\<lambda>k. cached_value (rdb s') (h, k) = Some (chain_value C h k)) (chain_keys C h pre)"
    if inv: "remote_inv U C T s'" and all: "all_cached C h pre (rdb s')" for s'
  proof
    have "wf_chain C" using inv by (simp add: remote_inv_def honest_def)
    then have "length (chain_keys C h pre) = card (set (chain_keys C h pre))"
      using distinct_page [of C "length (chain_keys C h pre)" None h pre]
      by (simp add: keys_after_def distinct_card)
    also have "\<dots> \<le> card (sr_key ` set (rows_in_prefix h pre (rdb s')))"
      by (rule card_mono) (use all in \<open>auto simp: set_rows_in_prefix all_cached_def in_chain_keys\<close>)
    also have "\<dots> \<le> length (rows_in_prefix h pre (rdb s'))"
      by (metis card_length length_map list.set_map)
    finally show "length (chain_keys C h pre) \<le> length (rows_in_prefix h pre (rdb s'))" .
    show "list_all (\<lambda>k. cached_value (rdb s') (h, k) = Some (chain_value C h k)) (chain_keys C h pre)"
      using inv all by (fastforce simp: list_all_iff all_cached_def remote_inv_def values_ok_def)
  qed
  then have "wpL (prefetch_prefix U h pre page_size)
     (\<lambda>n s'. remote_inv U C T s' \<and> n = length (rows_in_prefix h pre (rdb s')) \<and>
        length (chain_keys C h pre) \<le> n \<and>
        list_all (\<lambda>k. cached_value (rdb s') (h, k) = Some (chain_value C h k)) (chain_keys C h pre))
     (\<lambda>e s'. remote_inv U C T s' \<and> e \<noteq> RemotePanic) s"
    by (intro wpL_prefetch_prefix [OF assms]) simp_all
  then show ?thesis by (auto simp: wpL_def split: option.splits prod.splits sum.splits)
qed

theorem prefetch_ends_complete_witness:
  "\<exists>r s'. prefetch_prefix sample_node (hash_of 2) item 1 (sample_remote [True, True, False]) = Some (r, s') \<and>
     remote_inv sample_node sample_chain ([], [], 0) s'"
proof -
  have "(0 :: u32) < 1" by simp
  from prefetch_ends_complete [OF sample_remote_inv this] show ?thesis by blast
qed

text \<open>
  the next key is the first key of the chain after the given one under the prefix, whether
  it is answered from a completed scan of the prefix (or of a shorter one that covers it) or
  by the node: known-empty rows of the cache are never returned, nothing is skipped.
\<close>

theorem remote_next_key_exact:
  assumes "remote_inv U C T s"
  shows "case remote_next_key U h pre key s of
     (Inr v, s') \<Rightarrow> remote_inv U C T s' \<and> v = List.find (\<lambda>k. key < k) (chain_keys C h pre)
   | (Inl e, s') \<Rightarrow> remote_inv U C T s' \<and> e \<noteq> RemotePanic"
proof -
  have "next_chain_key C h pre key = List.find (\<lambda>k. key < k) (chain_keys C h pre)"
    unfolding next_chain_key_def by (rule head_filter_find)
  then have "wp (remote_next_key U h pre key)
      (\<lambda>v s'. remote_inv U C T s' \<and> v = List.find (\<lambda>k. key < k) (chain_keys C h pre))
      (\<lambda>e s'. remote_inv U C T s' \<and> e \<noteq> RemotePanic) s"
    by (intro wp_remote_next_key [OF assms]) simp_all
  then show ?thesis by (simp add: wp_cases)
qed

theorem remote_next_key_exact_witness:
  "\<exists>s' s''. remote_get sample_node (hash_of 2) (item @ [3]) (sample_remote []) = (Inr None, s') \<and>
     remote_next_key sample_node (hash_of 2) item (item @ [2]) s' = (Inr None, s'') \<and>
     next_key_cache (r_stats s'') = 1"
proof -
  let ?g = "remote_get sample_node (hash_of 2) (item @ [3]) (sample_remote [])"
  let ?n = "remote_next_key sample_node (hash_of 2) item (item @ [2]) (snd ?g)"
  have "fst ?g = Inr None" by code_simp
  note g = run_of_fst [OF this]
  have "remote_inv sample_node sample_chain ([], [], 0) (snd ?g)"
    by (rule remote_source.read_keeps [OF sample_remote_inv, of "(hash_of 2, item @ [3])", unfolded split_conv, OF g])
  note exact = remote_next_key_exact [OF this, where h = "hash_of 2" and pre = item and key = "item @ [2]"]
  have "let r = ?n in \<not> isl (fst r) \<and> next_key_cache (r_stats (snd r)) = 1" by code_simp
  then have n: "?n = (Inr (projr (fst ?n)), snd ?n)" and hit: "next_key_cache (r_stats (snd ?n)) = 1"
    unfolding Let_def using run_ok by blast+
  have "List.find (\<lambda>k. item @ [2] < k) (chain_keys sample_chain (hash_of 2) item) = None"
    by code_simp
  with exact have "?n = (Inr None, snd ?n)"
    by (subst (asm) n, subst n) simp
  with g hit show ?thesis by blast
qed

text \<open>
  The header queries answer from the cached block row or from the node alike: the parent
  hash and the number of a block are those of its header, an unknown hash has neither, and
  no stored row makes the conversion of the hash panic.
\<close>

theorem remote_header_queries:
  assumes "remote_inv U C T s"
  shows "(case remote_parent_hash U h s of
      (Inr p, s') \<Rightarrow> remote_inv U C T s' \<and> p = map_option (\<lambda>b. nh_parent_hash (nb_header b)) (ch_block C h)
    | (Inl e, s') \<Rightarrow> remote_inv U C T s' \<and> e \<noteq> RemotePanic) \<and>
   (case block_number_by_hash U h s of
      (Inr m, s') \<Rightarrow> remote_inv U C T s' \<and> m = map_option (\<lambda>b. nh_number (nb_header b)) (ch_block C h)
    | (Inl e, s') \<Rightarrow> remote_inv U C T s' \<and> e \<noteq> RemotePanic)"
proof
  have "wp (remote_parent_hash U h)
     (\<lambda>p s'. remote_inv U C T s' \<and> p = map_option (\<lambda>b. nh_parent_hash (nb_header b)) (ch_block C h))
     (\<lambda>e s'. remote_inv U C T s' \<and> e \<noteq> RemotePanic) s"
    by (rule wp_remote_parent_hash [OF assms]) simp_all
  then show "case remote_parent_hash U h s of
      (Inr p, s') \<Rightarrow> remote_inv U C T s' \<and> p = map_option (\<lambda>b. nh_parent_hash (nb_header b)) (ch_block C h)
    | (Inl e, s') \<Rightarrow> remote_inv U C T s' \<and> e \<noteq> RemotePanic"
    by (simp add: wp_cases)
  have "wp (block_number_by_hash U h)
     (\<lambda>m s'. remote_inv U C T s' \<and> m = map_option (\<lambda>b. nh_number (nb_header b)) (ch_block C h))
     (\<lambda>e s'. remote_inv U C T s' \<and> e \<noteq> RemotePanic) s"
    by (rule wp_block_number_by_hash [OF assms]) simp_all
  then show "case block_number_by_hash U h s of
      (Inr m, s') \<Rightarrow> remote_inv U C T s' \<and> m = map_option (\<lambda>b. nh_number (nb_header b)) (ch_block C h)
    | (Inl e, s') \<Rightarrow> remote_inv U C T s' \<and> e \<noteq> RemotePanic"
    by (simp add: wp_cases)
qed

theorem remote_header_queries_witness:
  "\<exists>s'. remote_parent_hash sample_node (hash_of 2) (sample_remote []) = (Inr (Some (hash_of 1)), s')"
proof -
  let ?p = "remote_parent_hash sample_node (hash_of 2) (sample_remote [])"
  have "\<not> isl (fst ?p)" by code_simp
  note p = run_ok [OF this]
  have "map_option (\<lambda>b. nh_parent_hash (nb_header b)) (ch_block sample_chain (hash_of 2)) = Some (hash_of 1)"
    by code_simp
  with conjunct1 [OF remote_header_queries [OF sample_remote_inv, of "hash_of 2" "[]"]]
  have "?p = (Inr (Some (hash_of 1)), snd ?p)"
    by (subst (asm) p, subst p) simp
  then show ?thesis by blast
qed

end
