(* ===== verification/Runtime_Executor.thy ===== *)
theory Runtime_Executor
  imports Local_History
begin

text \<open>
  The runtime executor, \<^verbatim>\<open>crates/pop-fork/src/executor.rs\<close>: the loop that drives the
  WebAssembly machine of smoldot and answers its requests from the local storage layer. The
  machine is not code of the repository; it is a state \<open>'v\<close> that shows one request at a
  time (\<open>vm_event\<close>) and the functions that resume it, and a prototype \<open>'p\<close>.
\<close>

section \<open>The machine\<close>

datatype log_info =
    LogNum u64
  | LogUtf8 string
  | LogHex string
  | LogFull u32 string string

datatype 'p vm_event =
    FinishedOk bytes "(bytes option \<times> bytes \<times> bytes option) list" 'p
  | FinishedErr string 'p
  | StorageGet "bytes option" bytes
  | ClosestDescendantMerkleValue
  | NextKey bool "bytes option" bytes bytes
  | SignatureVerification bytes
  | OffchainStorageSet bytes "bytes option"
  | OffchainGet bytes
  | OffchainSet bytes "bytes option" "bytes option"
  | OffchainTimestamp
  | OffchainRandomSeed
  | OffchainSubmitTransaction
  | LogEmit log_info

record ('v, 'p) vm_host =
  vh_prototype :: "bytes \<Rightarrow> u32 option \<Rightarrow> bool \<Rightarrow> string + 'p"
  vh_run :: "'p \<Rightarrow> string \<Rightarrow> bytes \<Rightarrow> u32 \<Rightarrow> u64 \<Rightarrow> (string \<times> 'p) + 'v"
  vh_event :: "'v \<Rightarrow> 'p vm_event"
  vh_inject_value :: "bytes option \<Rightarrow> 'v \<Rightarrow> 'v"
  vh_inject_merkle :: "bytes option \<Rightarrow> 'v \<Rightarrow> 'v"
  vh_inject_key :: "bytes option \<Rightarrow> 'v \<Rightarrow> 'v"
  vh_resume_success :: "'v \<Rightarrow> 'v"
  vh_verify_and_resume :: "'v \<Rightarrow> 'v"
  vh_resume :: "'v \<Rightarrow> 'v"
  vh_resume_set :: "bool \<Rightarrow> 'v \<Rightarrow> 'v"
  vh_inject_timestamp :: "u64 \<Rightarrow> 'v \<Rightarrow> 'v"
  vh_inject_seed :: "bytes \<Rightarrow> 'v \<Rightarrow> 'v"
  vh_bytes_of_nibbles :: "bytes \<Rightarrow> bytes"
  vh_nibbles_of_bytes :: "bytes \<Rightarrow> bytes"
  vh_now_ms :: "'v \<Rightarrow> u64"
  vh_random :: "'v \<Rightarrow> bytes"
  vh_version :: "'p \<Rightarrow> string"

datatype signature_mock_mode = NoMock | MagicSignature | AlwaysValid

record executor_config =
  signature_mock :: signature_mock_mode
  allow_unresolved_imports :: bool
  max_log_level :: u32
  storage_proof_size :: u64

definition default_config :: executor_config where
  "default_config = \<lparr>signature_mock = MagicSignature, allow_unresolved_imports = False,
     max_log_level = 3, storage_proof_size = 0\<rparr>"

record executor =
  ex_runtime_code :: bytes
  ex_heap_pages :: "u32 option"
  ex_config :: executor_config

record runtime_log =
  log_message :: log_info
  log_level :: "u32 option"
  log_target :: "string option"

record call_result =
  cr_output :: bytes
  cr_storage_diff :: "(bytes \<times> bytes option) list"
  cr_offchain_diff :: "(bytes \<times> bytes option) list"
  cr_logs :: "runtime_log list"

datatype exec_error =
    PrototypeCreation string
  | StartError string string
  | RuntimeError string
  | StorageFailure bytes local_error

section \<open>Creating an executor\<close>

definition new_executor ::
  "('v, 'p) vm_host \<Rightarrow> bytes \<Rightarrow> u32 option \<Rightarrow> exec_error + executor" where
  "new_executor H code heap_pages =
     (case vh_prototype H code heap_pages False of
        Inl m \<Rightarrow> Inl (PrototypeCreation m)
      | Inr _ \<Rightarrow> Inr \<lparr>ex_runtime_code = code, ex_heap_pages = heap_pages, ex_config = default_config\<rparr>)"

definition executor_with_config ::
  "('v, 'p) vm_host \<Rightarrow> bytes \<Rightarrow> u32 option \<Rightarrow> executor_config \<Rightarrow> exec_error + executor" where
  "executor_with_config H code heap_pages config =
     (case new_executor H code heap_pages of
        Inl e \<Rightarrow> Inl e | Inr x \<Rightarrow> Inr (x\<lparr>ex_config := config\<rparr>))"

definition create_prototype :: "('v, 'p) vm_host \<Rightarrow> executor \<Rightarrow> exec_error + 'p" where
  "create_prototype H X =
     (case vh_prototype H (ex_runtime_code X) (ex_heap_pages X) (allow_unresolved_imports (ex_config X)) of
        Inl m \<Rightarrow> Inl (PrototypeCreation m) | Inr p \<Rightarrow> Inr p)"

definition runtime_version :: "('v, 'p) vm_host \<Rightarrow> executor \<Rightarrow> exec_error + string" where
  "runtime_version H X =
     (case vh_prototype H (ex_runtime_code X) (ex_heap_pages X) True of
        Inl m \<Rightarrow> Inl (PrototypeCreation m) | Inr p \<Rightarrow> Inr (vh_version H p))"

section \<open>Keys and signatures\<close>

definition DEFAULT_CHILD_STORAGE :: bytes where
  "DEFAULT_CHILD_STORAGE = map (\<lambda>c. of_nat (of_char c)) '':child_storage:default:''"

definition prefixed_child_key :: "bytes \<Rightarrow> bytes \<Rightarrow> bytes" where
  "prefixed_child_key child key = DEFAULT_CHILD_STORAGE @ child @ key"

definition storage_key_of :: "bytes option \<Rightarrow> bytes \<Rightarrow> bytes" where
  "storage_key_of child key =
     (case child of Some c \<Rightarrow> prefixed_child_key c key | None \<Rightarrow> key)"

definition MAGIC_PREFIX :: bytes where
  "MAGIC_PREFIX = [0xde, 0xad, 0xbe, 0xef]"

definition MAGIC_PADDING :: u8 where
  "MAGIC_PADDING = 0xcd"

definition is_magic_signature :: "bytes \<Rightarrow> bool" where
  "is_magic_signature signature \<longleftrightarrow> starts_with signature MAGIC_PREFIX \<and>
     list_all (\<lambda>b. b = MAGIC_PADDING) (drop (length MAGIC_PREFIX) signature)"

section \<open>The call\<close>

record 'v exec_state =
  es_vm :: 'v
  es_storage_changes :: "(bytes \<times> bytes option) list"
  es_offchain_changes :: "(bytes \<times> bytes option) list"
  es_logs :: "runtime_log list"

definition log_of :: "log_info \<Rightarrow> runtime_log" where
  "log_of info = (case info of
     LogFull lvl tgt msg \<Rightarrow>
       \<lparr>log_message = LogUtf8 msg, log_level = Some lvl, log_target = Some tgt\<rparr>
   | _ \<Rightarrow> \<lparr>log_message = info, log_level = None, log_target = None\<rparr>)"

definition collect_changes ::
  "(bytes option \<times> bytes \<times> bytes option) list \<Rightarrow> (bytes \<times> bytes option) list \<Rightarrow>
     (bytes \<times> bytes option) list" where
  "collect_changes changes m =
     foldl (\<lambda>m (child, key, value). btree_insert (storage_key_of child key) value m) m changes"

text \<open>
  \<open>OffchainContext::StorageSet\<close>: the new value replaces the old unless both a current and an
  expected value exist and differ.
\<close>

definition offchain_replaces :: "bytes option option \<Rightarrow> bytes option \<Rightarrow> bool" where
  "offchain_replaces current old =
     (case (current, old) of (Some (Some c), Some e) \<Rightarrow> e = c | _ \<Rightarrow> True)"

text \<open>
  One turn of the loop: \<open>Inl\<close> is the result the call returns with, and the prototype given
  back, \<open>Inr\<close> the machine for the next turn. The errors of the layer end the call and lose the
  machine.
\<close>

type_synonym 'p call_outcome = "(exec_error + call_result) \<times> 'p option"

definition exec_step ::
  "('v, 'p) vm_host \<Rightarrow> ('n, 'm) upstream \<Rightarrow> executor \<Rightarrow> layer \<Rightarrow> 'v exec_state \<Rightarrow>
     (('n, 'm) fork, 'p call_outcome, 'v exec_state) loop_prog" where
  "exec_step H U X L e =
     (let vm = es_vm e;
          continue = (\<lambda>vm. returns (ret (e\<lparr>es_vm := vm\<rparr>)));
          stop = (\<lambda>r. returns (fail r))
      in case vh_event H vm of
        FinishedOk output changes proto \<Rightarrow>
          stop (Inr \<lparr>cr_output = output,
                     cr_storage_diff = collect_changes changes (es_storage_changes e),
                     cr_offchain_diff = es_offchain_changes e, cr_logs = es_logs e\<rparr>, Some proto)
      | FinishedErr detail proto \<Rightarrow> stop (Inl (RuntimeError detail), Some proto)
      | StorageGet child k \<Rightarrow>
          let key = storage_key_of child k in
          (case map_of (es_storage_changes e) key of
             Some value \<Rightarrow> continue (vh_inject_value H value vm)
           | None \<Rightarrow>
               returns (matchE (layer_get U L (current_block_number L) key)
                 (\<lambda>err. fail (Inl (StorageFailure key err), None))
                 (\<lambda>value. ret (e\<lparr>es_vm := vh_inject_value H (Option.bind value sv_value) vm\<rparr>))))
      | ClosestDescendantMerkleValue \<Rightarrow> continue (vh_inject_merkle H (Some (replicate 32 0)) vm)
      | NextKey branch_nodes child pre k \<Rightarrow>
          if branch_nodes then continue (vh_inject_key H None vm)
          else
            let prefix_bytes = storage_key_of child (vh_bytes_of_nibbles H pre);
                key = storage_key_of child (vh_bytes_of_nibbles H k)
            in bindL (map_errL (\<lambda>err. (Inl (StorageFailure key err), None))
                        (layer_next_key U L prefix_bytes key)) (\<lambda>next.
               continue (vh_inject_key H (map_option (vh_nibbles_of_bytes H) next) vm))
      | SignatureVerification signature \<Rightarrow>
          (case signature_mock (ex_config X) of
             MagicSignature \<Rightarrow>
               if is_magic_signature signature then continue (vh_resume_success H vm)
               else continue (vh_verify_and_resume H vm)
           | AlwaysValid \<Rightarrow> continue (vh_resume_success H vm)
           | NoMock \<Rightarrow> continue (vh_verify_and_resume H vm))
      | OffchainStorageSet key value \<Rightarrow>
          returns (ret (e\<lparr>es_offchain_changes := btree_insert key value (es_offchain_changes e),
                         es_vm := vh_resume H vm\<rparr>))
      | OffchainGet key \<Rightarrow>
          continue (vh_inject_value H
            (Option.bind (map_of (es_offchain_changes e) key) (\<lambda>v. v)) vm)
      | OffchainSet key value old \<Rightarrow>
          let replace = offchain_replaces (map_of (es_offchain_changes e) key) old in
          returns (ret (e\<lparr>es_offchain_changes :=
              (if replace then btree_insert key value (es_offchain_changes e) else es_offchain_changes e),
            es_vm := vh_resume_set H replace vm\<rparr>))
      | OffchainTimestamp \<Rightarrow> continue (vh_inject_timestamp H (vh_now_ms H vm) vm)
      | OffchainRandomSeed \<Rightarrow> continue (vh_inject_seed H (vh_random H vm) vm)
      | OffchainSubmitTransaction \<Rightarrow> continue (vh_resume_set H False vm)
      | LogEmit info \<Rightarrow>
          returns (ret (e\<lparr>es_logs := es_logs e @ [log_of info], es_vm := vh_resume H vm\<rparr>)))"

partial_function (option) exec_loop ::
  "('v, 'p) vm_host \<Rightarrow> ('n, 'm) upstream \<Rightarrow> executor \<Rightarrow> layer \<Rightarrow> 'v exec_state \<Rightarrow>
     ('n, 'm) fork \<Rightarrow> ('p call_outcome \<times> ('n, 'm) fork) option" where
  "exec_loop H U X L e s =
     (case exec_step H U X L e s of
        None \<Rightarrow> None
      | Some (Inl r, s') \<Rightarrow> Some (r, s')
      | Some (Inr e', s') \<Rightarrow> exec_loop H U X L e' s')"

declare exec_loop.simps [code]

definition call_with_prototype ::
  "('v, 'p) vm_host \<Rightarrow> ('n, 'm) upstream \<Rightarrow> executor \<Rightarrow> 'p option \<Rightarrow> string \<Rightarrow> bytes \<Rightarrow> layer \<Rightarrow>
     ('n, 'm) fork \<Rightarrow> ('p call_outcome \<times> ('n, 'm) fork) option" where
  "call_with_prototype H U X prototype fn args L s =
     (case (case prototype of Some p \<Rightarrow> Inr p | None \<Rightarrow> create_prototype H X) of
        Inl e \<Rightarrow> Some ((Inl e, None), s)
      | Inr vm_proto \<Rightarrow>
          (case vh_run H vm_proto fn args (max_log_level (ex_config X)) (storage_proof_size (ex_config X)) of
             Inl (err, proto) \<Rightarrow> Some ((Inl (StartError fn err), Some proto), s)
           | Inr vm \<Rightarrow>
               exec_loop H U X L
                 \<lparr>es_vm = vm, es_storage_changes = [], es_offchain_changes = [], es_logs = []\<rparr> s))"

definition executor_call ::
  "('v, 'p) vm_host \<Rightarrow> ('n, 'm) upstream \<Rightarrow> executor \<Rightarrow> string \<Rightarrow> bytes \<Rightarrow> layer \<Rightarrow>
     (('n, 'm) fork, exec_error, call_result) loop_prog" where
  "executor_call H U X fn args L s =
     map_option (\<lambda>((r, _), s'). (r, s')) (call_with_prototype H U X None fn args L s)"

section \<open>What a call changes\<close>

text \<open>A turn leaves everything a read can see as it was, and ends: only the machine may run on.\<close>

lemma wpL_exec_step:
  assumes inv: "fork_inv U C L s"
  shows "wpL (exec_step H U X L e) (\<lambda>e' s'. fork_inv U C L s' \<and> same_fork s s')
     (\<lambda>r s'. fork_inv U C L s' \<and> same_fork s s') s"
  unfolding exec_step_def Let_def
  by (auto simp: inv split: vm_event.split option.split signature_mock_mode.split
      intro!: wpL_returns wp_ret wp_fail wp_matchE wp_layer_get [OF inv] wpL_bindL wpL_map_errL
        wpL_mono [OF wpL_layer_next_key [OF inv]])

lemma exec_loop_keeps_raw:
  assumes "exec_loop H U X L e s = Some y"
  shows "fork_inv U C L s \<longrightarrow> fork_inv U C L (snd y) \<and> same_fork s (snd y)"
proof (rule exec_loop.raw_induct [where
    P = "\<lambda>H U X L e s y. fork_inv U C L s \<longrightarrow> fork_inv U C L (snd y) \<and> same_fork s (snd y)", OF _ assms])
  fix loop H U X L e s y
  assume IH: "\<And>H U X L e s y. loop H U X L e s = Some y \<Longrightarrow>
      fork_inv U C L s \<longrightarrow> fork_inv U C L (snd y) \<and> same_fork s (snd y)"
    and body: "(case exec_step H U X L e s of None \<Rightarrow> None | Some (Inl r, s') \<Rightarrow> Some (r, s')
      | Some (Inr e', s') \<Rightarrow> loop H U X L e' s') = Some y"
  show "fork_inv U C L s \<longrightarrow> fork_inv U C L (snd y) \<and> same_fork s (snd y)"
  proof
    assume inv: "fork_inv U C L s"
    note step = wpL_exec_step [OF inv, of H X e]
    show "fork_inv U C L (snd y) \<and> same_fork s (snd y)"
    proof (cases "exec_step H U X L e s" rule: loop_cases)
      case 1
      with step show ?thesis by (simp add: wpL_def)
    next
      case (2 r s')
      with step body show ?thesis by (auto simp: wpL_def)
    next
      case (3 e' s')
      with step have s': "fork_inv U C L s'" "same_fork s s'" by (simp_all add: wpL_def)
      from 3 body have "loop H U X L e' s' = Some y" by simp
      from IH [OF this] s' same_fork_trans [OF s'(2)] show ?thesis by blast
    qed
  qed
qed

lemma exec_loop_keeps:
  assumes "exec_loop H U X L e s = Some (r, s')" and "fork_inv U C L s"
  shows "fork_inv U C L s' \<and> same_fork s s'"
  using exec_loop_keeps_raw [OF assms(1), of C] assms(2) by simp

lemma call_keeps:
  assumes "call_with_prototype H U X proto fn args L s = Some (r, s')" and "fork_inv U C L s"
  shows "fork_inv U C L s' \<and> same_fork s s'"
  using assms unfolding call_with_prototype_def
  by (auto split: option.splits sum.splits dest!: exec_loop_keeps)

section \<open>What a call depends on\<close>

text \<open>
  The answers a machine gets from the layer are those of its head: the value of the head and
  the key order of the fork point. So two states that agree on these give every turn the
  same outcome, unless a storage error ends one of the two calls.
\<close>

definition same_head :: "layer \<Rightarrow> chain \<Rightarrow> ('n, 'm) fork \<Rightarrow> ('n, 'm) fork \<Rightarrow> bool" where
  "same_head L C s t \<longleftrightarrow>
     layer_value L C s (current_block_number L) = layer_value L C t (current_block_number L) \<and>
     deleted_prefixes s = deleted_prefixes t"

definition storage_failure :: "'p call_outcome \<Rightarrow> bool" where
  "storage_failure r \<longleftrightarrow> (\<exists>k err. r = (Inl (StorageFailure k err), None))"

lemma exec_step_head:
  obtains out where
    "\<And>(U :: ('n, 'm) upstream) s. fork_inv U C L s \<Longrightarrow>
       layer_value L C s (current_block_number L) = val \<Longrightarrow> deleted_prefixes s = del \<Longrightarrow>
       wpL (exec_step H U X L e) (\<lambda>e' s'. out = Inr e' \<and> fork_inv U C L s' \<and> same_fork s s')
         (\<lambda>r s'. (out = Inl r \<or> storage_failure r) \<and> fork_inv U C L s' \<and> same_fork s s') s"
proof -
  let ?ok = "\<lambda>out (U :: ('n, 'm) upstream) s.
    wpL (exec_step H U X L e) (\<lambda>e' s'. out = Inr e' \<and> fork_inv U C L s' \<and> same_fork s s')
      (\<lambda>r s'. (out = Inl r \<or> storage_failure r) \<and> fork_inv U C L s' \<and> same_fork s s') s"
  let ?pre = "\<lambda>(U :: ('n, 'm) upstream) s. fork_inv U C L s \<and>
    layer_value L C s (current_block_number L) = val \<and> deleted_prefixes s = del"
  have fail: "storage_failure (Inl (StorageFailure k err), None)" for k err
    by (simp add: storage_failure_def)
  have continue: "\<exists>out. \<forall>U s. ?pre U s \<longrightarrow> wpL (returns (ret e'))
      (\<lambda>e' s'. out = Inr e' \<and> fork_inv U C L s' \<and> same_fork s s')
      (\<lambda>r s'. (out = Inl r \<or> storage_failure r) \<and> fork_inv U C L s' \<and> same_fork s s') s" for e'
    by (rule exI [of _ "Inr e'"]) (auto intro!: wpL_returns wp_ret)
  have stop: "\<exists>out. \<forall>U s. ?pre U s \<longrightarrow> wpL (returns (fail r))
      (\<lambda>e' s'. out = Inr e' \<and> fork_inv U C L s' \<and> same_fork s s')
      (\<lambda>r s'. (out = Inl r \<or> storage_failure r) \<and> fork_inv U C L s' \<and> same_fork s s') s" for r
    by (rule exI [of _ "Inl r"]) (auto intro!: wpL_returns wp_fail)
  have "\<exists>out. \<forall>U s. ?pre U s \<longrightarrow> ?ok out U s"
  proof (cases "vh_event H (es_vm e)")
    case (StorageGet child k)
    let ?key = "storage_key_of child k"
    show ?thesis
    proof (cases "map_of (es_storage_changes e) ?key")
      case None
      have "?ok (Inr (e\<lparr>es_vm := vh_inject_value H (val ?key) (es_vm e)\<rparr>)) U s" if "?pre U s" for U s
        unfolding exec_step_def Let_def StorageGet vm_event.case None option.case
        by (intro wpL_returns wp_matchE wp_layer_get) (use that in \<open>auto intro!: wp_ret wp_fail simp: fail\<close>)
      then show ?thesis by blast
    next
      case (Some v)
      have "?ok (Inr (e\<lparr>es_vm := vh_inject_value H v (es_vm e)\<rparr>)) U s" if "?pre U s" for U s
        unfolding exec_step_def Let_def StorageGet vm_event.case Some option.case
        by (intro wpL_returns wp_ret) (use that in simp)
      then show ?thesis by blast
    qed
  next
    case (NextKey b child p k)
    show ?thesis
    proof (cases b)
      case True
      have "?ok (Inr (e\<lparr>es_vm := vh_inject_key H None (es_vm e)\<rparr>)) U s" if "?pre U s" for U s
        unfolding exec_step_def Let_def NextKey vm_event.case
        by (simp add: True) (intro wpL_returns wp_ret, use that in simp)
      then show ?thesis by blast
    next
      case False
      let ?next = "next_live_key C (first_forked_block_hash L) del
        (storage_key_of child (vh_bytes_of_nibbles H p)) (storage_key_of child (vh_bytes_of_nibbles H k))"
      have "?ok (Inr (e\<lparr>es_vm := vh_inject_key H (map_option (vh_nibbles_of_bytes H) ?next) (es_vm e)\<rparr>)) U s"
        if "?pre U s" for U s
        unfolding exec_step_def Let_def NextKey vm_event.case if_not_P [OF False]
        by (intro wpL_bindL wpL_map_errL wpL_mono [OF wpL_layer_next_key])
          (use that in \<open>auto intro!: wpL_returns wp_ret simp: fail\<close>)
      then show ?thesis by blast
    qed
  next
    case (SignatureVerification sig)
    let ?vm = "if signature_mock (ex_config X) = AlwaysValid \<or>
        signature_mock (ex_config X) = MagicSignature \<and> is_magic_signature sig
      then vh_resume_success H (es_vm e) else vh_verify_and_resume H (es_vm e)"
    have "?ok (Inr (e\<lparr>es_vm := ?vm\<rparr>)) U s" if "?pre U s" for U s
      unfolding exec_step_def Let_def SignatureVerification vm_event.case
      by (cases "signature_mock (ex_config X)") (use that in \<open>auto intro!: wpL_returns wp_ret\<close>)
    then show ?thesis by blast
  qed (simp_all only: exec_step_def Let_def vm_event.case,
      (rule continue stop)+)
  with that show thesis by blast
qed

lemma same_head_step:
  assumes "same_head L C s t" and "same_fork s s'" and "same_fork t t'"
  shows "same_head L C s' t'"
  using assms layer_value_same [OF assms(2)] layer_value_same [OF assms(3)]
  by (simp add: same_head_def same_fork_def)

lemma exec_loop_head_raw:
  fixes U :: "('n, 'm) upstream"
  assumes "exec_loop H U X L e s = Some y"
  shows "\<forall>t z. fork_inv U C L s \<and> fork_inv U C L t \<and> same_head L C s t \<and> exec_loop H U X L e t = Some z \<longrightarrow>
     fst z = fst y \<or> storage_failure (fst y) \<or> storage_failure (fst z)"
proof (rule exec_loop.raw_induct [where
    P = "\<lambda>H U X L e s y. \<forall>t z. fork_inv U C L s \<and> fork_inv U C L t \<and> same_head L C s t \<and>
      exec_loop H U X L e t = Some z \<longrightarrow>
      fst z = fst y \<or> storage_failure (fst y) \<or> storage_failure (fst z)", OF _ assms])
  fix loop H X L e s y and U :: "('n, 'm) upstream"
  assume IH: "\<And>H U X L e s y. loop H U X L e s = Some y \<Longrightarrow>
      \<forall>t z. fork_inv U C L s \<and> fork_inv U C L t \<and> same_head L C s t \<and> exec_loop H U X L e t = Some z \<longrightarrow>
      fst z = fst y \<or> storage_failure (fst y) \<or> storage_failure (fst z)"
    and body: "(case exec_step H U X L e s of None \<Rightarrow> None | Some (Inl r, s') \<Rightarrow> Some (r, s')
      | Some (Inr e', s') \<Rightarrow> loop H U X L e' s') = Some y"
  show "\<forall>t z. fork_inv U C L s \<and> fork_inv U C L t \<and> same_head L C s t \<and> exec_loop H U X L e t = Some z \<longrightarrow>
      fst z = fst y \<or> storage_failure (fst y) \<or> storage_failure (fst z)"
  proof (intro allI impI, elim conjE)
    fix t z
    assume inv: "fork_inv U C L s" "fork_inv U C L t" and same: "same_head L C s t"
      and z: "exec_loop H U X L e t = Some z"
    obtain out where out: "\<And>(U :: ('n, 'm) upstream) u. fork_inv U C L u \<Longrightarrow>
        layer_value L C u (current_block_number L) = layer_value L C s (current_block_number L) \<Longrightarrow>
        deleted_prefixes u = deleted_prefixes s \<Longrightarrow>
        wpL (exec_step H U X L e) (\<lambda>e' u'. out = Inr e' \<and> fork_inv U C L u' \<and> same_fork u u')
          (\<lambda>r u'. (out = Inl r \<or> storage_failure r) \<and> fork_inv U C L u' \<and> same_fork u u') u"
      by (rule exec_step_head [where L = L and C = C and H = H and X = X and e = e and
            val = "layer_value L C s (current_block_number L)" and del = "deleted_prefixes s"]) blast
    have out_s: "wpL (exec_step H U X L e) (\<lambda>e' u'. out = Inr e' \<and> fork_inv U C L u' \<and> same_fork s u')
          (\<lambda>r u'. (out = Inl r \<or> storage_failure r) \<and> fork_inv U C L u' \<and> same_fork s u') s"
      by (rule out [OF inv(1)]) simp_all
    have out_t: "wpL (exec_step H U X L e) (\<lambda>e' u'. out = Inr e' \<and> fork_inv U C L u' \<and> same_fork t u')
          (\<lambda>r u'. (out = Inl r \<or> storage_failure r) \<and> fork_inv U C L u' \<and> same_fork t u') t"
      by (rule out [OF inv(2)]) (use same in \<open>simp_all add: same_head_def\<close>)
    show "fst z = fst y \<or> storage_failure (fst y) \<or> storage_failure (fst z)"
    proof (cases "exec_step H U X L e s" rule: loop_cases)
      case 1
      with out_s show ?thesis by (simp add: wpL_def)
    next
      case (2 r s')
      with body out_s have y: "fst y = r" "out = Inl r \<or> storage_failure r" by (auto simp: wpL_def)
      show ?thesis
        using out_t z y
        by (cases "exec_step H U X L e t" rule: loop_cases)
          (auto simp: wpL_def exec_loop.simps [of H U X L e t])
    next
      case (3 e' s')
      with out_s have s': "out = Inr e'" "fork_inv U C L s'" "same_fork s s'" by (simp_all add: wpL_def)
      show ?thesis
      proof (cases "exec_step H U X L e t" rule: loop_cases)
        case 1
        with out_t show ?thesis by (simp add: wpL_def)
      next
        case (2 r t')
        with out_t z s'(1) show ?thesis by (auto simp: wpL_def exec_loop.simps [of H U X L e t])
      next
        case t: (3 e'' t')
        with out_t s'(1) have t': "e'' = e'" "fork_inv U C L t'" "same_fork t t'" by (simp_all add: wpL_def)
        from 3 body have "loop H U X L e' s' = Some y" by simp
        moreover from t z t'(1) have "exec_loop H U X L e' t' = Some z"
          by (simp add: exec_loop.simps [of H U X L e t])
        ultimately show ?thesis
          using IH s'(2) t'(2) same_head_step [OF same s'(3) t'(3)] by blast
      qed
    qed
  qed
qed

lemma call_head:
  assumes "call_with_prototype H U X proto fn args L s = Some (r, s')"
    and "call_with_prototype H U X proto fn args L t = Some (r', t')"
    and "fork_inv U C L s" and "fork_inv U C L t" and "same_head L C s t"
  shows "r' = r \<or> storage_failure r \<or> storage_failure r'"
proof (cases "case proto of Some p \<Rightarrow> Inr p | None \<Rightarrow> create_prototype H X")
  case (Inl e)
  with assms(1,2) show ?thesis by (simp add: call_with_prototype_def)
next
  case (Inr p)
  show ?thesis
  proof (cases "vh_run H p fn args (max_log_level (ex_config X)) (storage_proof_size (ex_config X))")
    case (Inl e)
    with assms(1,2) Inr show ?thesis by (cases e) (simp add: call_with_prototype_def)
  next
    case run: (Inr vm)
    let ?e = "\<lparr>es_vm = vm, es_storage_changes = [], es_offchain_changes = [], es_logs = []\<rparr>"
    have "exec_loop H U X L ?e s = Some (r, s')" "exec_loop H U X L ?e t = Some (r', t')"
      using assms(1,2) Inr run by (simp_all add: call_with_prototype_def)
    with exec_loop_head_raw [OF this(1), of C] assms(3-5) show ?thesis by fastforce
  qed
qed

end
