(* ===== verification/Layer_Properties.thy ===== *)
theory Layer_Properties
  imports Sample_Node Runtime_Executor
begin

text \<open>
  The properties of the local layer (\<^verbatim>\<open>local.rs\<close>) and of the executor that reads through
  it (\<^verbatim>\<open>executor.rs\<close>), each with the concrete run it is applied to.
\<close>

lemma version_at_Cons:
  "version_at n ((c, x) # us) =
     (if c \<le> n then (case version_at n us of None \<Rightarrow> Some x | Some y \<Rightarrow> Some y) else version_at n us)"
  by (auto simp: version_at_def split: list.splits)

lemma version_at_None: "version_at n us = None \<longleftrightarrow> (\<forall>c \<in> fst ` set us. n < c)"
  by (auto simp: version_at_def filter_empty_conv not_le split: list.splits dest!: filter_eq_ConsD)

text \<open>A version registered at \<open>b\<close> is superseded at \<open>n\<close> by one registered later, up to \<open>n\<close>.\<close>

definition superseded :: "u32 \<Rightarrow> u32 \<Rightarrow> (u32 \<times> 'm) list \<Rightarrow> bool" where
  "superseded b n vs \<longleftrightarrow> (\<exists>c \<in> fst ` set vs. b < c \<and> c \<le> n)"

lemma version_at_insert:
  assumes "sorted_wrt (<) (map fst vs)"
  shows "version_at n (btree_insert b m vs) =
    (if b \<le> n \<and> \<not> superseded b n vs then Some m else version_at n vs)"
  using assms
proof (induction vs)
  case Nil
  then show ?case by (simp add: version_at_def superseded_def)
next
  case (Cons v vs)
  obtain c x where v: "v = (c, x)" by (cases v)
  have above: "\<forall>c' \<in> fst ` set vs. c < c'" using Cons.prems v by auto
  have IH: "version_at n (btree_insert b m vs) =
      (if b \<le> n \<and> \<not> superseded b n vs then Some m else version_at n vs)"
    by (rule Cons.IH) (use Cons.prems in simp)
  consider "b < c" | "b = c" | "c < b" by fastforce
  then show ?case
  proof cases
    case 1
    with above have "superseded b n (v # vs) \<longleftrightarrow> version_at n (v # vs) \<noteq> None"
      unfolding version_at_None superseded_def v by (fastforce simp: not_less)
    then show ?thesis
      using 1 by (auto simp: v version_at_Cons [of n b] split: option.splits)
  next
    case 2
    with above have "superseded b n (v # vs) \<longleftrightarrow> version_at n vs \<noteq> None"
      unfolding version_at_None superseded_def v by (fastforce simp: not_less)
    then show ?thesis using 2 by (auto simp: v version_at_Cons split: option.splits)
  next
    case 3
    then have "superseded b n (v # vs) = superseded b n vs" "\<not> b < c" "b \<noteq> c" "b \<le> n \<Longrightarrow> c \<le> n"
      by (auto simp: v superseded_def)
    then show ?thesis by (simp add: v version_at_Cons IH split: option.split)
  qed
qed

section \<open>Reads\<close>

text \<open>
  C3: a read of the local layer at any block, under any failures, is an error that is not a
  panic or the value the layer stands for: the modification if the local maps have one for
  that block, nothing under a deleted prefix, else the committed value of a past block of the
  fork, the fork point's for the head, and the chain's own for any other block. A read changes
  nothing that a later read can see.
\<close>

theorem layer_get_value:
  assumes "fork_inv U C L s"
  shows "case layer_get U L n k s of
     (Inr v, s') \<Rightarrow> Option.bind v sv_value = layer_value L C s n k \<and>
        fork_inv U C L s' \<and> layer_value L C s' = layer_value L C s
   | (Inl e, s') \<Rightarrow> no_panic e \<and> fork_inv U C L s' \<and> layer_value L C s' = layer_value L C s"
proof -
  have "wp (layer_get U L n k)
     (\<lambda>v s'. Option.bind v sv_value = layer_value L C s n k \<and>
        fork_inv U C L s' \<and> layer_value L C s' = layer_value L C s)
     (\<lambda>e s'. no_panic e \<and> fork_inv U C L s' \<and> layer_value L C s' = layer_value L C s) s"
    by (rule wp_layer_get [OF assms]) (simp_all add: layer_value_same)
  then show ?thesis by (simp add: wp_cases)
qed

theorem layer_get_value_witness:
  "\<exists>v s'. layer_get sample_node sample_layer 1 [1] (sample_fork []) = (Inr v, s') \<and>
     Option.bind v sv_value = Some [9]"
proof -
  let ?g = "layer_get sample_node sample_layer 1 [1] (sample_fork [])"
  have "\<not> isl (fst ?g)" by code_simp
  note g = run_ok [OF this]
  have "layer_value sample_layer sample_chain (sample_fork []) 1 [1] = Some [9]" by code_simp
  with layer_get_value [OF sample_invs(1) [of "[]"], where n = 1 and k = "[1]"]
  have "Option.bind (projr (fst ?g)) sv_value = Some [9]" by (subst (asm) g) simp
  with g show ?thesis by blast
qed

section \<open>Writes\<close>

text \<open>
  \<open>set\<close> is an update of the head: it succeeds, the key reads as the value written at the
  block being built, and every key at every earlier block, and every other key, read as
  before. (The key is not one injected into the fork point, and not one that only a deleted
  prefix hides.)
\<close>

theorem set_updates_the_head:
  assumes "fork_inv U C L s" and "history_inv L s" and "\<not> injected L s k"
    and "map_of (modifications s) k = None \<Longrightarrow> \<not> under_deleted s k"
  shows "\<exists>s'. layer_set L k v s = (Inr (), s') \<and> fork_inv U C L s' \<and> history_inv L s' \<and>
     (\<forall>n \<le> current_block_number L. \<forall>k'. layer_value L C s' n k' =
        (if k' = k \<and> n = current_block_number L then v else layer_value L C s n k'))"
proof -
  have ff: "first_forked_block_number L < current_block_number L" using assms(1) by (simp add: fork_inv_def)
  show ?thesis
    using layer_set_run [OF assms(1)] fork_inv_put [OF assms(1)] history_inv_put [OF assms(2) ff]
      layer_value_put [OF assms(2-4)] by auto
qed

theorem set_updates_the_head_witness:
  "\<exists>s'. layer_set sample_layer [1] (Some [77]) (sample_fork []) = (Inr (), s') \<and>
     layer_value sample_layer sample_chain s' 3 [1] = Some [77] \<and>
     layer_value sample_layer sample_chain s' 2 [1] = Some [10]"
proof -
  have "\<not> injected sample_layer (sample_fork []) [1]" "\<not> under_deleted (sample_fork []) [1]"
    by (simp_all add: injected_def under_deleted_def sample_fork_def new_layer_def)
  from set_updates_the_head [OF sample_invs this(1), of "Some [77]"] this(2)
  obtain s' where set: "layer_set sample_layer [1] (Some [77]) (sample_fork []) = (Inr (), s')"
    and val: "\<And>n. n \<le> current_block_number sample_layer \<Longrightarrow> layer_value sample_layer sample_chain s' n [1] =
      (if n = current_block_number sample_layer then Some [77]
       else layer_value sample_layer sample_chain (sample_fork []) n [1])"
    by auto
  have "layer_value sample_layer sample_chain (sample_fork []) 2 [1] = Some [10]" by code_simp
  then have "layer_value sample_layer sample_chain s' 3 [1] = Some [77]"
    "layer_value sample_layer sample_chain s' 2 [1] = Some [10]"
    using val [of 3] val [of 2] by (simp_all add: sample_layer_def)
  with set show ?thesis by blast
qed

text \<open>
  C2: committing a block freezes it: the head moves to the next number and reads as the block
  just built, and every block up to that one reads as before the commit. A commit that fails,
  at the last block number or in the database, changes nothing a read can see.
\<close>

theorem commit_freezes_the_head:
  assumes "fork_inv U C L s" and "history_inv L s"
  shows "case layer_commit L s of
     (Inr L', s') \<Rightarrow> L' = L\<lparr>current_block_number := current_block_number L + 1\<rparr> \<and>
        fork_inv U C L' s' \<and> history_inv L' s' \<and>
        (\<forall>k. layer_value L' C s' (current_block_number L') k = layer_value L C s (current_block_number L) k) \<and>
        (\<forall>n \<le> current_block_number L. \<forall>k. layer_value L' C s' n k = layer_value L C s n k)
   | (Inl e, s') \<Rightarrow> fork_inv U C L s' \<and> layer_value L C s' = layer_value L C s"
proof -
  have "wp (layer_commit L)
     (\<lambda>L' s'. L' = L\<lparr>current_block_number := current_block_number L + 1\<rparr> \<and>
        fork_inv U C L' s' \<and> history_inv L' s' \<and>
        (\<forall>k. layer_value L' C s' (current_block_number L') k = layer_value L C s (current_block_number L) k) \<and>
        (\<forall>n \<le> current_block_number L. \<forall>k. layer_value L' C s' n k = layer_value L C s n k))
     (\<lambda>e s'. fork_inv U C L s' \<and> layer_value L C s' = layer_value L C s) s"
    by (rule wp_layer_commit [OF assms]) (simp_all add: layer_value_same)
  then show ?thesis by (simp add: wp_cases)
qed

theorem commit_freezes_the_head_witness:
  "\<exists>s1 L' s2. layer_set sample_layer [1] None (sample_fork []) = (Inr (), s1) \<and>
     layer_commit sample_layer s1 = (Inr L', s2) \<and> current_block_number L' = 4 \<and>
     layer_value L' sample_chain s2 3 [1] = None \<and> layer_value L' sample_chain s2 2 [1] = Some [10]"
proof -
  let ?s = "put_modification (current_block_number sample_layer) [1] None (sample_fork [])"
  let ?c = "layer_commit sample_layer ?s"
  have "first_forked_block_number sample_layer < current_block_number sample_layer"
    by (simp add: sample_layer_def)
  note commit = commit_freezes_the_head [OF fork_inv_put [OF sample_invs(1)]
      history_inv_put [OF sample_invs(2) this], of "[1]" None "[]"]
  have "\<not> isl (fst ?c)" by code_simp
  then obtain L' s2 where c: "?c = (Inr L', s2)" using run_ok by blast
  from commit have L': "L' = sample_layer\<lparr>current_block_number := current_block_number sample_layer + 1\<rparr>"
    and frozen: "\<And>n k. n \<le> current_block_number sample_layer \<Longrightarrow>
      layer_value L' sample_chain s2 n k = layer_value sample_layer sample_chain ?s n k"
    unfolding c prod.case sum.case by blast+
  have "layer_value sample_layer sample_chain ?s 3 [1] = None"
    "layer_value sample_layer sample_chain ?s 2 [1] = Some [10]" by code_simp+
  moreover have "current_block_number sample_layer = 3" by (simp add: sample_layer_def)
  ultimately have "current_block_number L' = 4" "layer_value L' sample_chain s2 3 [1] = None"
    "layer_value L' sample_chain s2 2 [1] = Some [10]"
    using frozen [of 3] frozen [of 2] by (simp_all add: L')
  with c layer_set_run [OF sample_invs(1), of "[1]" None "[]"] show ?thesis by blast
qed

text \<open>
  deleting a prefix hides every key under it, at every block of the fork and of the chain
  alike, whoever wrote it, and touches no other key.
\<close>

theorem delete_prefix_hides:
  assumes "fork_inv U C L s" and "history_inv L s"
  shows "\<exists>s'. delete_prefix pre s = (Inr (), s') \<and> fork_inv U C L s' \<and> history_inv L s' \<and>
     (\<forall>n k. layer_value L C s' n k = (if starts_with k pre then None else layer_value L C s n k))"
  using delete_prefix_run [OF assms(1)] fork_inv_drop [OF assms(1)] history_inv_drop [OF assms(2)]
    layer_value_drop by blast

theorem delete_prefix_hides_witness:
  "\<exists>s'. delete_prefix item (sample_fork []) = (Inr (), s') \<and>
     layer_value sample_layer sample_chain s' 2 (item @ [1]) = None \<and>
     layer_value sample_layer sample_chain s' 2 [1] = Some [10]"
proof -
  have "layer_value sample_layer sample_chain (sample_fork []) 2 [1] = Some [10]"
    "starts_with (item @ [1]) item" "\<not> starts_with [1] item" by code_simp+
  with delete_prefix_hides [OF sample_invs, of item "[]"] show ?thesis by auto
qed

text \<open>
  A value injected with \<open>set_initial\<close> is visible from the fork point on and at the head,
  unless the fork point is block 0; no other key changes.
\<close>

theorem set_initial_visible:
  assumes "fork_inv U C L s" and "first_forked_block_number L \<noteq> 0"
  shows "\<exists>s'. set_initial L k v s = (Inr (), s') \<and> fork_inv U C L s' \<and>
     (\<forall>n \<ge> first_forked_block_number L. layer_value L C s' n k = v) \<and>
     (\<forall>n k'. k' \<noteq> k \<longrightarrow> layer_value L C s' n k' = layer_value L C s n k')"
proof -
  have run: "set_initial L k v s = (Inr (), put_modification (initial_block L) k v s)"
    using assms(1)
    by (simp add: set_initial_def lock_def prog_simps fork_inv_def initial_block_def)
  have "initial_block L < n" if "first_forked_block_number L \<le> n" for n
  proof -
    have "initial_block L < first_forked_block_number L"
      using assms(2) unfolding initial_block_def saturating_sub_u32_def ONE_BLOCK_def
      by (auto simp: word_less_nat_alt word_le_nat_alt unat_sub_if' unat_gt_0 split: if_splits)
    with that show ?thesis by simp
  qed
  then show ?thesis
    using run fork_inv_put [OF assms(1)] layer_value_inject [OF assms(1)] by auto
qed

theorem set_initial_visible_witness:
  "\<exists>s'. set_initial sample_layer [1] (Some [5]) (sample_fork []) = (Inr (), s') \<and>
     layer_value sample_layer sample_chain s' 2 [1] = Some [5]"
proof -
  have "first_forked_block_number sample_layer \<noteq> 0" by (simp add: sample_layer_def)
  from set_initial_visible [OF sample_invs(1) this, of "[1]" "Some [5]" "[]"]
  show ?thesis by (auto simp: sample_layer_def)
qed

section \<open>Batches, enumeration, metadata\<close>

text \<open>
  A batch read of the local layer gives for every key what the single reads give, at the
  head without conditions; at a past block of the fork for keys not under a deleted prefix;
  at other blocks for keys the local maps say nothing about (\<open>batch_agrees\<close>).
\<close>

theorem layer_batch_agrees:
  assumes "fork_inv U C L s" and "local_inv b (fdb s)" and "list_all (batch_agrees L s n) keys"
  shows "case layer_get_batch U L n keys s of
     (Inr vs, s') \<Rightarrow> map (\<lambda>v. Option.bind v sv_value) vs = map (layer_value L C s n) keys \<and>
        fork_inv U C L s' \<and> layer_value L C s' = layer_value L C s
   | (Inl e, s') \<Rightarrow> no_panic e \<and> fork_inv U C L s' \<and> layer_value L C s' = layer_value L C s"
proof -
  have "wp (layer_get_batch U L n keys)
     (\<lambda>vs s'. map (\<lambda>v. Option.bind v sv_value) vs = map (layer_value L C s n) keys \<and>
        fork_inv U C L s' \<and> layer_value L C s' = layer_value L C s)
     (\<lambda>e s'. no_panic e \<and> fork_inv U C L s' \<and> layer_value L C s' = layer_value L C s) s"
    by (rule wp_layer_get_batch [OF assms(1,2)])
      (use assms(3) in \<open>simp_all add: layer_value_same list_all_iff\<close>)
  then show ?thesis by (simp add: wp_cases)
qed

theorem layer_batch_agrees_witness:
  "\<exists>vs s'. layer_get_batch sample_node sample_layer 3 [[1], [2]] (sample_fork []) = (Inr vs, s') \<and>
     map (\<lambda>v. Option.bind v sv_value) vs = [Some [10], None]"
proof -
  let ?b = "layer_get_batch sample_node sample_layer 3 [[1], [2]] (sample_fork [])"
  have "local_inv (uint (current_block_number sample_layer) - 1) (fdb (sample_fork []))"
    using sample_invs(2) [of "[]"] by (simp add: history_inv_def)
  moreover have "list_all (batch_agrees sample_layer (sample_fork []) 3) [[1], [2]]"
    by (simp add: batch_agrees_def sample_layer_def)
  ultimately have agrees: "case ?b of
     (Inr vs, s') \<Rightarrow> map (\<lambda>v. Option.bind v sv_value) vs =
        map (layer_value sample_layer sample_chain (sample_fork []) 3) [[1], [2]] \<and>
        fork_inv sample_node sample_chain sample_layer s' \<and>
        layer_value sample_layer sample_chain s' = layer_value sample_layer sample_chain (sample_fork [])
   | (Inl e, s') \<Rightarrow> no_panic e \<and> fork_inv sample_node sample_chain sample_layer s' \<and>
        layer_value sample_layer sample_chain s' = layer_value sample_layer sample_chain (sample_fork [])"
    by (rule layer_batch_agrees [OF sample_invs(1)])
  have "\<not> isl (fst ?b)" by code_simp
  then obtain vs s' where b: "?b = (Inr vs, s')" using run_ok by blast
  have "map (layer_value sample_layer sample_chain (sample_fork []) 3) [[1], [2]] = [Some [10], None]"
    by code_simp
  with agrees b show ?thesis by fastforce
qed


text \<open>
  the next key of the layer is found, after any number of deleted keys: the search ends
  and returns the first key of the fork point after the given one that is under the prefix
  and under no deleted prefix.
\<close>

theorem layer_next_key_skips_deleted:
  assumes "fork_inv U C L s"
  shows "\<exists>r s'. layer_next_key U L pre key s = Some (r, s') \<and> fork_inv U C L s' \<and>
     layer_value L C s' = layer_value L C s \<and>
     (case r of
        Inr v \<Rightarrow> v = List.find (\<lambda>k. key < k \<and> \<not> list_ex (starts_with k) (deleted_prefixes s))
                  (chain_keys C (first_forked_block_hash L) pre)
      | Inl e \<Rightarrow> no_panic e)"
proof -
  have "wpL (layer_next_key U L pre key)
     (\<lambda>v s'. fork_inv U C L s' \<and> layer_value L C s' = layer_value L C s \<and>
        v = List.find (\<lambda>k. key < k \<and> \<not> list_ex (starts_with k) (deleted_prefixes s))
              (chain_keys C (first_forked_block_hash L) pre))
     (\<lambda>e s'. fork_inv U C L s' \<and> layer_value L C s' = layer_value L C s \<and> no_panic e) s"
    by (rule wpL_mono [OF wpL_layer_next_key [OF assms]])
      (simp_all add: layer_value_same next_live_key_def head_filter_find)
  then show ?thesis by (auto simp: wpL_def split: option.splits prod.splits sum.splits)
qed

theorem layer_next_key_witness:
  "\<exists>r s'. layer_next_key sample_node sample_layer item item (drop_prefix (item @ [1]) (sample_fork [])) = Some (r, s') \<and>
     (case r of Inr v \<Rightarrow> v = Some (item @ [2]) | Inl e \<Rightarrow> no_panic e)"
proof -
  let ?s = "drop_prefix (item @ [1]) (sample_fork [])"
  have "List.find (\<lambda>k. item < k \<and> \<not> list_ex (starts_with k) (deleted_prefixes ?s))
      (chain_keys sample_chain (first_forked_block_hash sample_layer) item) = Some (item @ [2])"
    by code_simp
  note found = this
  from layer_next_key_skips_deleted [OF fork_inv_drop [OF sample_invs(1)],
      where pre1 = "item @ [1]" and pre = item and key = item and script2 = "[]", unfolded found]
  show ?thesis by blast
qed

text \<open>
  enumerating the head returns, in order and once each, the keys under the prefix that
  read as a value at the head; besides them only keys the cache knows as empty at the fork
  point (\<open>phantom\<close>), which a read of the key has left there.
\<close>

theorem keys_of_the_head:
  assumes "fork_inv U C L s" and "history_inv L s"
  shows "\<exists>r s'. keys_by_prefix U L pre (current_block_number L) s = Some (r, s') \<and> fork_inv U C L s' \<and>
     (case r of
        Inr ks \<Rightarrow> sorted_wrt (<) ks \<and>
          (\<forall>k. k \<in> set ks \<longleftrightarrow> starts_with k pre \<and>
             (layer_value L C s (current_block_number L) k \<noteq> None \<or>
              map_of (modifications s) k = None \<and> \<not> under_deleted s k \<and>
                phantom C (first_forked_block_hash L) (fdb s') k))
      | Inl e \<Rightarrow> no_panic e)"
proof -
  have "wpL (keys_by_prefix U L pre (current_block_number L))
     (\<lambda>ks s'. fork_inv U C L s' \<and> sorted_wrt (<) ks \<and>
        (\<forall>k. k \<in> set ks \<longleftrightarrow> starts_with k pre \<and>
           (layer_value L C s (current_block_number L) k \<noteq> None \<or>
            map_of (modifications s) k = None \<and> \<not> under_deleted s k \<and>
              phantom C (first_forked_block_hash L) (fdb s') k)))
     (\<lambda>e s'. fork_inv U C L s' \<and> no_panic e) s"
    by (rule wpL_keys_latest [OF assms order_refl]) simp_all
  then show ?thesis by (auto simp: wpL_def split: option.splits prod.splits sum.splits)
qed

theorem keys_of_the_head_witness:
  "\<exists>r s'. keys_by_prefix sample_node sample_layer item 3 (sample_fork [False]) = Some (r, s') \<and>
     fork_inv sample_node sample_chain sample_layer s'"
  using keys_of_the_head [OF sample_invs, of item "[False]"] by (auto simp: sample_layer_def)

text \<open>
  A registered metadata version is in force from its block until the next registered one,
  and the versions of all other blocks of the fork stay as they were.
\<close>

theorem metadata_version_in_force:
  assumes "sorted_wrt (<) (map fst (metadata_versions s))" and "\<not> versions_poisoned s"
    and "first_forked_block_number L \<le> n"
  shows "\<exists>s'. register_metadata_version b m s = (Inr (), s') \<and>
     sorted_wrt (<) (map fst (metadata_versions s')) \<and>
     fst (metadata_at U L n s') =
       (if b \<le> n \<and> \<not> superseded b n (metadata_versions s) then Inr m
        else fst (metadata_at U L n s))"
proof -
  let ?s' = "s\<lparr>metadata_versions := btree_insert b m (metadata_versions s)\<rparr>"
  have run: "register_metadata_version b m s = (Inr (), ?s')"
    using assms(2) by (simp add: register_metadata_version_def lock_def prog_simps)
  have at: "fst (metadata_at U L n t) = (case version_at n (metadata_versions t) of
      Some m \<Rightarrow> Inr m | None \<Rightarrow> Inl (MetadataNotFound ''no metadata found for block''))"
    if "\<not> versions_poisoned t" for t
    using leD [OF assms(3)] that by (simp add: metadata_at_def lock_def prog_simps split: option.splits)
  show ?thesis
    using run at [of s] at [of ?s'] assms(1,2) sorted_btree_insert [OF assms(1)]
      version_at_insert [OF assms(1), of n b m] by simp
qed

theorem metadata_version_in_force_witness:
  "\<exists>s'. register_metadata_version 4 [14] (sample_fork []) = (Inr (), s') \<and>
     fst (metadata_at sample_node sample_layer 5 s') = Inr [14] \<and>
     fst (metadata_at sample_node sample_layer 3 s') = Inr []"
proof -
  have s: "sorted_wrt (<) (map fst (metadata_versions (sample_fork [])))"
    "\<not> versions_poisoned (sample_fork [])"
    by (simp_all add: sample_fork_def new_layer_def)
  have L: "first_forked_block_number sample_layer \<le> 5" "first_forked_block_number sample_layer \<le> 3"
    by (simp_all add: sample_layer_def)
  have "fst (metadata_at sample_node sample_layer 3 (sample_fork [])) = Inr []"
    "fst ` set (metadata_versions (sample_fork [])) = {2}" by code_simp+
  then have "fst (metadata_at sample_node sample_layer 3 (sample_fork [])) = Inr []"
    "\<not> superseded 4 5 (metadata_versions (sample_fork []))" by (simp_all add: superseded_def)
  with metadata_version_in_force [OF s L(1), of 4 "[14]" sample_node]
    metadata_version_in_force [OF s L(2), of 4 "[14]" sample_node]
  show ?thesis by auto
qed

section \<open>The executor\<close>

text \<open>
  a runtime call changes nothing that a read of the fork can see, however it ends: the
  writes of the machine are in the result, not in the layer.
\<close>

theorem call_changes_nothing:
  assumes "fork_inv U C L s" and "executor_call H U X fn args L s = Some (r, s')"
  shows "fork_inv U C L s' \<and> modifications s' = modifications s \<and>
     deleted_prefixes s' = deleted_prefixes s \<and> layer_value L C s' = layer_value L C s"
proof -
  obtain p where "call_with_prototype H U X None fn args L s = Some ((r, p), s')"
    using assms(2) by (auto simp: executor_call_def)
  from call_keeps [OF this assms(1)] show ?thesis
    by (simp add: layer_value_same) (simp add: same_fork_def)
qed


text \<open>
  A machine that asks for the value of key \<open>[1]\<close> and returns it, for the two theorems above.
\<close>

definition echo_host :: "(bytes option option, unit) vm_host" where
  "echo_host =
     \<lparr>vh_prototype = (\<lambda>_ _ _. Inr ()), vh_run = (\<lambda>_ _ _ _ _. Inr None),
      vh_event = (\<lambda>v. case v of None \<Rightarrow> StorageGet None [1]
         | Some w \<Rightarrow> FinishedOk (case w of Some b \<Rightarrow> b | None \<Rightarrow> []) [(None, [1], None)] ()),
      vh_inject_value = (\<lambda>w _. Some w), vh_inject_merkle = (\<lambda>_ v. v), vh_inject_key = (\<lambda>_ v. v),
      vh_resume_success = (\<lambda>v. v), vh_verify_and_resume = (\<lambda>v. v), vh_resume = (\<lambda>v. v),
      vh_resume_set = (\<lambda>_ v. v), vh_inject_timestamp = (\<lambda>_ v. v), vh_inject_seed = (\<lambda>_ v. v),
      vh_bytes_of_nibbles = (\<lambda>b. b), vh_nibbles_of_bytes = (\<lambda>b. b), vh_now_ms = (\<lambda>_. 0),
      vh_random = (\<lambda>_. []), vh_version = (\<lambda>_. ''echo'')\<rparr>"

definition echo_executor :: executor where
  "echo_executor = \<lparr>ex_runtime_code = [], ex_heap_pages = None, ex_config = default_config\<rparr>"

definition echo_result :: "bytes \<Rightarrow> call_result" where
  "echo_result b = \<lparr>cr_output = b, cr_storage_diff = [([1], None)], cr_offchain_diff = [], cr_logs = []\<rparr>"

lemma echo_runs:
  assumes "layer_get sample_node L (current_block_number L) [1] s = (Inr v, s')"
  shows "executor_call echo_host sample_node echo_executor f a L s =
    Some (Inr (echo_result (case Option.bind v sv_value of Some b \<Rightarrow> b | None \<Rightarrow> [])), s')"
proof -
  have 1: "exec_step echo_host sample_node echo_executor L
      \<lparr>es_vm = None, es_storage_changes = [], es_offchain_changes = [], es_logs = []\<rparr> s =
    Some (Inr \<lparr>es_vm = Some (Option.bind v sv_value), es_storage_changes = [], es_offchain_changes = [],
      es_logs = []\<rparr>, s')"
    by (simp add: exec_step_def echo_host_def storage_key_of_def prog_simps assms)
  have 2: "exec_step echo_host sample_node echo_executor L
      \<lparr>es_vm = Some w, es_storage_changes = [], es_offchain_changes = [], es_logs = []\<rparr> s' =
    Some (Inl (Inr (echo_result (case w of Some b \<Rightarrow> b | None \<Rightarrow> [])), Some ()), s')" for w
    by (simp add: exec_step_def echo_host_def storage_key_of_def prog_simps echo_result_def
        collect_changes_def)
  show ?thesis
    unfolding executor_call_def call_with_prototype_def create_prototype_def
    by (simp add: echo_host_def [symmetric])
      (simp add: echo_host_def exec_loop.simps 1 [unfolded echo_host_def] 2 [unfolded echo_host_def])
qed

theorem call_changes_nothing_witness:
  "\<exists>s'. executor_call echo_host sample_node echo_executor ''Core_version'' [] sample_layer (sample_fork []) =
       Some (Inr (echo_result [10]), s') \<and>
     layer_value sample_layer sample_chain s' = layer_value sample_layer sample_chain (sample_fork [])"
proof -
  let ?g = "layer_get sample_node sample_layer (current_block_number sample_layer) [1] (sample_fork [])"
  have "fst ?g = Inr (Some (outside_value (Some [10])))" by code_simp
  note run = echo_runs [OF run_of_fst [OF this], of "''Core_version''" "[]"]
  then have "executor_call echo_host sample_node echo_executor ''Core_version'' [] sample_layer (sample_fork []) =
      Some (Inr (echo_result [10]), snd ?g)"
    by (simp add: outside_value_def)
  with call_changes_nothing [OF sample_invs(1) this] show ?thesis by blast
qed


end
