(* ===== verification/Substrate.thy ===== *)
theory Substrate
  imports Runtime_Executor
begin

text \<open>
  What the fork takes from the Substrate crates and from the operating system: hashes, the
  SCALE codec, the decoded metadata and the clock. None of it is code of the repository; it is
  the record \<open>substrate\<close>, an argument of every definition that uses it.
\<close>

section \<open>Metadata\<close>

text \<open>
  The parts of a pallet the fork asks for: its name and index, the names of its storage
  entries (and whether the entry is a plain value), its call variants with their fields, its
  constants.
\<close>

record call_variant =
  cv_name :: string
  cv_index :: u8
  cv_fields :: "(string option \<times> u32) list"

record storage_entry =
  en_name :: string
  en_plain :: bool
  en_value_ty :: u32

record pallet =
  pl_name :: string
  pl_index :: u8
  pl_storage :: "storage_entry list option"
  pl_calls :: "call_variant list option"
  pl_constants :: "(string \<times> bytes) list"

text \<open>
  The type registry: the path of a type and the shapes that are told apart. A composite type and a
  variant are the identifiers of the types of their fields.
\<close>

datatype type_def = TArray u32 u32 | TPrimitiveU8 | TComposite "u32 list" | TVariant "u32 list list" | TOtherDef

record type_info =
  ti_path :: "string list"
  ti_def :: type_def

section \<open>Headers\<close>

type_synonym engine_id = bytes

datatype digest_item =
    PreRuntime engine_id bytes
  | Consensus engine_id bytes
  | Seal engine_id bytes
  | OtherDigest bytes

definition ENGINE_AURA :: engine_id where
  "ENGINE_AURA = [0x61, 0x75, 0x72, 0x61]"

definition ENGINE_BABE :: engine_id where
  "ENGINE_BABE = [0x42, 0x41, 0x42, 0x45]"

record block_header =
  bh_parent_hash :: h256
  bh_number :: u32
  bh_state_root :: h256
  bh_extrinsics_root :: h256
  bh_digest :: "digest_item list"

section \<open>The environment\<close>

text \<open>
  \<open>sb_compact_u32\<close> and \<open>sb_compact_u64\<close> are \<open>Compact(x).encode()\<close>. Reading the clock may
  change the state of the environment. \<open>sb_show_arg\<close> decodes one call argument of a type and
  formats it, giving back the bytes after it.
\<close>

record ('n, 'm) substrate =
  sb_twox_128 :: "bytes \<Rightarrow> bytes"
  sb_twox_64 :: "bytes \<Rightarrow> bytes"
  sb_blake2_128 :: "bytes \<Rightarrow> bytes"
  sb_blake2_256 :: "bytes \<Rightarrow> bytes"
  sb_enc_u32 :: "u32 \<Rightarrow> bytes"
  sb_enc_u64 :: "u64 \<Rightarrow> bytes"
  sb_dec_u32 :: "bytes \<Rightarrow> u32 option"
  sb_dec_u64 :: "bytes \<Rightarrow> u64 option"
  sb_compact_u32 :: "u32 \<Rightarrow> bytes"
  sb_compact_u64 :: "u64 \<Rightarrow> bytes"
  sb_enc_header :: "block_header \<Rightarrow> bytes"
  sb_dec_opaque :: "bytes \<Rightarrow> string + bytes"
  sb_dec_metadata :: "bytes \<Rightarrow> string + 'm"
  sb_pallets :: "'m \<Rightarrow> pallet list"
  sb_types :: "'m \<Rightarrow> u32 \<Rightarrow> type_info option"
  sb_show_arg :: "'m \<Rightarrow> u32 \<Rightarrow> bytes \<Rightarrow> (string \<times> bytes) option"
  sb_clock_ms :: "'n \<Rightarrow> u64 \<times> 'n"
  sb_hex :: "bytes \<Rightarrow> string"

definition pallet_by_name :: "('n, 'm) substrate \<Rightarrow> 'm \<Rightarrow> string \<Rightarrow> pallet option" where
  "pallet_by_name B md name = List.find (\<lambda>p. pl_name p = name) (sb_pallets B md)"

definition call_by_name :: "pallet \<Rightarrow> string \<Rightarrow> call_variant option" where
  "call_by_name p name = Option.bind (pl_calls p) (List.find (\<lambda>v. cv_name v = name))"

text \<open>A storage key from the names of a pallet and of an entry.\<close>

definition storage_key :: "('n, 'm) substrate \<Rightarrow> string \<Rightarrow> string \<Rightarrow> bytes" where
  "storage_key B pallet_name entry =
     sb_twox_128 B (bytes_of_string pallet_name) @ sb_twox_128 B (bytes_of_string entry)"

section \<open>Running parts of the fork\<close>

text \<open>A program of the fork with no counterpart for its error, and the clock as one.\<close>

definition ignore_errors :: "('s, 'e, 'a) prog \<Rightarrow> ('s, 'f, 'a option) prog" where
  "ignore_errors m = matchE m (\<lambda>_. ret None) (\<lambda>x. ret (Some x))"

definition read_clock :: "('n, 'm) substrate \<Rightarrow> (('n, 'm) fork, 'e, u64) prog" where
  "read_clock B = (\<lambda>s. case sb_clock_ms B (r_net (f_remote s)) of
     (t, n) \<Rightarrow> (Inr t, s\<lparr>f_remote := (f_remote s)\<lparr>r_net := n\<rparr>\<rparr>))"

text \<open>A loop on the second part of a state.\<close>

definition on_snd :: "('s, 'e, 'a) loop_prog \<Rightarrow> ('t \<times> 's, 'e, 'a) loop_prog" where
  "on_snd m = on_fieldL snd (\<lambda>s p. (fst p, s)) m"

lemma wp_ignore_errors [wp_intros]:
  "wp m (\<lambda>x. Q (Some x)) (\<lambda>_. Q None) s \<Longrightarrow> wp (ignore_errors m) Q E s"
  unfolding ignore_errors_def by (intro wp_matchE) (auto intro: wp_ret wp_mono)

lemma wp_read_clock:
  assumes "fork_inv U C L s"
    and "\<And>t s'. fork_inv U C L s' \<Longrightarrow> same_fork s s' \<Longrightarrow> fdb s' = fdb s \<Longrightarrow> Q t s'"
  shows "wp (read_clock B) Q E s"
proof -
  obtain t n where t: "sb_clock_ms B (r_net (f_remote s)) = (t, n)" by (cases "sb_clock_ms B (r_net (f_remote s))")
  have "Q t (s\<lparr>f_remote := (f_remote s)\<lparr>r_net := n\<rparr>\<rparr>)"
    by (rule assms(2)) (use assms(1) in \<open>simp_all add: fork_inv_def remote_inv_def same_fork_def\<close>)
  then show ?thesis by (simp add: wp_def read_clock_def t)
qed

end
