(* ===== verification/Tx_Pool.thy ===== *)
theory Tx_Pool
  imports Substrate
begin

text \<open>
  The transaction pool, \<^verbatim>\<open>crates/pop-fork/src/txpool.rs\<close>: a list of encoded extrinsics behind
  one lock, taken whole by the block builder.
\<close>

section \<open>The pool\<close>

record tx_pool =
  pool_pending :: "bytes list"
  pool_poisoned :: bool

datatype pool_error = PoolLock string

definition new_pool :: tx_pool where
  "new_pool = \<lparr>pool_pending = [], pool_poisoned = False\<rparr>"

definition pool_lock :: "(tx_pool, pool_error, unit) prog" where
  "pool_lock = bindE (gets pool_poisoned) (\<lambda>p. if p then fail (PoolLock ''poisoned lock'') else ret ())"

definition submit :: "('n, 'm) substrate \<Rightarrow> bytes \<Rightarrow> (tx_pool, pool_error, h256) prog" where
  "submit B extrinsic =
     (let hash = H256 (sb_blake2_256 B extrinsic) in
      bindE pool_lock (\<lambda>_.
      bindE (modify (\<lambda>p. p\<lparr>pool_pending := pool_pending p @ [extrinsic]\<rparr>)) (\<lambda>_. ret hash)))"

definition drain :: "(tx_pool, pool_error, bytes list) prog" where
  "drain =
     bindE pool_lock (\<lambda>_.
     bindE (gets pool_pending) (\<lambda>all.
     bindE (modify (\<lambda>p. p\<lparr>pool_pending := []\<rparr>)) (\<lambda>_. ret all)))"

definition submit_and_drain ::
  "('n, 'm) substrate \<Rightarrow> bytes \<Rightarrow> (tx_pool, pool_error, h256 \<times> bytes list) prog" where
  "submit_and_drain B extrinsic =
     (let hash = H256 (sb_blake2_256 B extrinsic) in
      bindE pool_lock (\<lambda>_.
      bindE (modify (\<lambda>p. p\<lparr>pool_pending := pool_pending p @ [extrinsic]\<rparr>)) (\<lambda>_.
      bindE (gets pool_pending) (\<lambda>all.
      bindE (modify (\<lambda>p. p\<lparr>pool_pending := []\<rparr>)) (\<lambda>_. ret (hash, all))))))"

definition pending :: "(tx_pool, pool_error, bytes list) prog" where
  "pending = bindE pool_lock (\<lambda>_. gets pool_pending)"

definition pool_len :: "(tx_pool, pool_error, nat) prog" where
  "pool_len = bindE pool_lock (\<lambda>_. gets (\<lambda>p. length (pool_pending p)))"

definition pool_is_empty :: "(tx_pool, pool_error, bool) prog" where
  "pool_is_empty = bindE pool_len (\<lambda>n. ret (n = 0))"

lemmas pool_defs = submit_def drain_def submit_and_drain_def pending_def pool_len_def pool_is_empty_def
  pool_lock_def Let_def

section \<open>Sequences of operations\<close>

text \<open>The operations of the pool as a script, and the extrinsics a run of it handed out.\<close>

datatype pool_op = Submit bytes | Drain | SubmitAndDrain bytes | Look

fun run_op :: "('n, 'm) substrate \<Rightarrow> pool_op \<Rightarrow> (tx_pool, pool_error, bytes list) prog" where
  "run_op B (Submit x) = bindE (submit B x) (\<lambda>_. ret [])"
| "run_op B Drain = drain"
| "run_op B (SubmitAndDrain x) = bindE (submit_and_drain B x) (\<lambda>(_, all). ret all)"
| "run_op B Look = bindE pending (\<lambda>_. bindE pool_is_empty (\<lambda>_. ret []))"

fun submitted_by :: "pool_op \<Rightarrow> bytes list" where
  "submitted_by (Submit x) = [x]"
| "submitted_by (SubmitAndDrain x) = [x]"
| "submitted_by _ = []"

lemma run_op_result:
  assumes "\<not> pool_poisoned p"
  shows "\<exists>out p'. run_op B op p = (Inr out, p') \<and> \<not> pool_poisoned p' \<and>
     out @ pool_pending p' = pool_pending p @ submitted_by op"
  using assms by (cases op) (simp_all add: pool_defs prog_simps)

lemma run_ops_result:
  assumes "\<not> pool_poisoned p"
  shows "\<exists>outs p'. each (run_op B) ops p = (Inr outs, p') \<and> \<not> pool_poisoned p' \<and>
     concat outs @ pool_pending p' = pool_pending p @ concat (map submitted_by ops)"
  using assms
proof (induction ops arbitrary: p)
  case Nil
  then show ?case by (simp add: prog_simps)
next
  case (Cons op ops)
  obtain out p1 where 1: "run_op B op p = (Inr out, p1)" "\<not> pool_poisoned p1"
    "out @ pool_pending p1 = pool_pending p @ submitted_by op"
    using run_op_result [OF Cons.prems] by blast
  obtain outs p2 where 2: "each (run_op B) ops p1 = (Inr outs, p2)" "\<not> pool_poisoned p2"
    "concat outs @ pool_pending p2 = pool_pending p1 @ concat (map submitted_by ops)"
    using Cons.IH [OF 1(2)] by blast
  have "each (run_op B) (op # ops) p = (Inr (out # outs), p2)"
    using 1(1) 2(1) by (simp add: prog_simps)
  moreover have "concat (out # outs) @ pool_pending p2 = pool_pending p @ concat (map submitted_by (op # ops))"
    using 1(3) 2(3) by simp
  ultimately show ?case using 2(2) by blast
qed

end
