(* ===== verification/Fork_Block.thy ===== *)
theory Fork_Block
  imports Substrate
begin

text \<open>
  The blocks of a fork, \<^verbatim>\<open>crates/pop-fork/src/block.rs\<close>: the block at the fork point, taken
  from the node, and the blocks built on it. All of them share the maps of one fork (the state
  \<open>fork\<close>); each holds its own handle (\<open>layer\<close>) and its parent.
\<close>

section \<open>Blocks\<close>

datatype block =
  Block (blk_number: u32) (blk_hash: h256) (blk_parent_hash: h256) (blk_header: bytes)
    (blk_extrinsics: "bytes list") (blk_storage: layer) (blk_parent: "block option")

datatype block_fork_point = ForkNumber u32 | ForkHash h256

datatype block_error =
    BRpc rpc_error
  | BStorage local_error
  | BRemote remote_error
  | BlockHashNotFound h256
  | BlockNumberNotFound u32
  | RuntimeCodeNotFound
  | ConcurrentBlockBuild

text \<open>
  The hash and header of the fork point. By hash, every failing request is reported as an
  unknown hash.
\<close>

definition locate_fork_point ::
  "('n, 'm) upstream \<Rightarrow> block_fork_point \<Rightarrow> ('n, block_error, h256 \<times> node_header) prog" where
  "locate_fork_point U point = (case point of
     ForkNumber block_number \<Rightarrow>
       bindE (map_err BRpc (block_by_number U block_number)) (\<lambda>found.
       case found of
         Some (block_hash, b) \<Rightarrow> ret (block_hash, nb_header b)
       | None \<Rightarrow> fail (BlockNumberNotFound block_number))
   | ForkHash block_hash \<Rightarrow>
       bindE (map_err (\<lambda>_. BlockHashNotFound block_hash) (rpc_header U block_hash)) (\<lambda>hdr.
       ret (block_hash, hdr)))"

text \<open>
  The fork starts with the network as the last request left it, the given cache and no
  modification.
\<close>

definition fork_point ::
  "('n, 'm) upstream \<Rightarrow> cache \<Rightarrow> block_fork_point \<Rightarrow>
     ('n, block_error, block \<times> ('n, 'm) fork) prog" where
  "fork_point U c point =
     bindE (map_err BRpc (create_connection U (u_endpoint U))) (\<lambda>_.
     bindE (locate_fork_point U point) (\<lambda>(block_hash, hdr).
     bindE (map_err BRpc (block_by_hash U block_hash)) (\<lambda>found.
     bindE (map_err BRpc (rpc_metadata U block_hash)) (\<lambda>md.
     bindE (gets (\<lambda>n. n)) (\<lambda>n.
     let extrinsics = (case found of Some b \<Rightarrow> nb_extrinsics b | None \<Rightarrow> []);
         (storage, s) = new_layer (new_remote n c) (nh_number hdr) block_hash md
     in ret (Block (nh_number hdr) block_hash (nh_parent_hash hdr) (u_encode_header U hdr)
               extrinsics storage None, s))))))"

text \<open>
  \<open>child\<close> commits through the handle of the block itself, which is therefore given back with
  the child: the clone kept as its parent is made after the commit.
\<close>

definition with_storage :: "layer \<Rightarrow> block \<Rightarrow> block" where
  "with_storage L b = Block (blk_number b) (blk_hash b) (blk_parent_hash b) (blk_header b)
     (blk_extrinsics b) L (blk_parent b)"

definition child ::
  "block \<Rightarrow> h256 \<Rightarrow> bytes \<Rightarrow> bytes list \<Rightarrow> (('n, 'm) fork, block_error, block \<times> block) prog" where
  "child b hash header extrinsics =
     bindE (map_err BStorage (layer_commit (blk_storage b))) (\<lambda>L.
     let b' = with_storage L b
     in ret (Block (blk_number b + 1) hash (blk_hash b) header extrinsics L (Some b'), b'))"

definition mocked_for_call :: "h256 \<Rightarrow> u32 \<Rightarrow> layer \<Rightarrow> block" where
  "mocked_for_call hash number storage = Block number hash h256_zero [] [] storage None"

definition block_metadata :: "('n, 'm) upstream \<Rightarrow> block \<Rightarrow> (('n, 'm) fork, block_error, 'm) prog" where
  "block_metadata U b = map_err BStorage (metadata_at U (blk_storage b) (blk_number b))"

definition block_runtime_code :: "('n, 'm) upstream \<Rightarrow> block \<Rightarrow> (('n, 'm) fork, block_error, bytes) prog" where
  "block_runtime_code U b =
     bindE (map_err BStorage (layer_get U (blk_storage b) (blk_number b) CODE)) (\<lambda>v.
     case Option.bind v sv_value of
       Some code \<Rightarrow> ret code
     | None \<Rightarrow> fail RuntimeCodeNotFound)"

section \<open>The line of a block\<close>

text \<open>A block and its ancestors in the fork, from the youngest to the fork point.\<close>

fun lineage :: "block \<Rightarrow> block list" where
  "lineage (Block n h ph hdr exts L None) = [Block n h ph hdr exts L None]"
| "lineage (Block n h ph hdr exts L (Some p)) = Block n h ph hdr exts L (Some p) # lineage p"

text \<open>
  What holds along a line: a child has the number after its parent's and the parent's hash,
  the handles know the same fork point, and the block they build comes after it.
\<close>

fun linked :: "block \<Rightarrow> bool" where
  "linked (Block n h ph hdr exts L None) \<longleftrightarrow> n = first_forked_block_number L \<and> h = first_forked_block_hash L \<and>
     first_forked_block_number L < current_block_number L"
| "linked (Block n h ph hdr exts L (Some p)) \<longleftrightarrow> linked p \<and> n = blk_number p + 1 \<and> ph = blk_hash p \<and>
     first_forked_block_number L = first_forked_block_number (blk_storage p) \<and>
     first_forked_block_hash L = first_forked_block_hash (blk_storage p) \<and>
     first_forked_block_number L < current_block_number L"

text \<open>The youngest block: its handle builds the block after it.\<close>

definition fork_head :: "('n, 'm) upstream \<Rightarrow> chain \<Rightarrow> block \<Rightarrow> ('n, 'm) fork \<Rightarrow> bool" where
  "fork_head U C b s \<longleftrightarrow> linked b \<and> current_block_number (blk_storage b) = blk_number b + 1 \<and>
     blk_number b \<noteq> - 1 \<and> fork_inv U C (blk_storage b) s \<and> history_inv (blk_storage b) s"

lemma lineage_self: "b \<in> set (lineage b)"
  by (cases b rule: lineage.cases) simp_all

lemma with_storage_simps [simp]:
  "blk_number (with_storage L b) = blk_number b" "blk_hash (with_storage L b) = blk_hash b"
  "blk_parent_hash (with_storage L b) = blk_parent_hash b"
  "blk_extrinsics (with_storage L b) = blk_extrinsics b" "blk_header (with_storage L b) = blk_header b"
  "blk_storage (with_storage L b) = L" "blk_parent (with_storage L b) = blk_parent b"
  by (simp_all add: with_storage_def)

lemma linked_with_storage:
  "linked b \<Longrightarrow> first_forked_block_number L = first_forked_block_number (blk_storage b) \<Longrightarrow>
     first_forked_block_hash L = first_forked_block_hash (blk_storage b) \<Longrightarrow>
     first_forked_block_number L < current_block_number L \<Longrightarrow> linked (with_storage L b)"
  by (cases b rule: lineage.cases) (simp_all add: with_storage_def)

text \<open>Every number from the fork point to the head occurs once in the line of a block.\<close>

lemma lineage_numbers:
  assumes "linked b"
  shows "map blk_number (lineage b) =
     map (\<lambda>i. blk_number b - of_nat i) [0..<length (lineage b)]"
  using assms
proof (induction b rule: lineage.induct)
  case (2 n h ph hdr exts L p)
  then have IH: "map blk_number (lineage p) = map (\<lambda>i. blk_number p - of_nat i) [0..<length (lineage p)]"
    and n: "n = blk_number p + 1" by simp_all
  have "map (\<lambda>i. n - of_nat i) [0..<Suc (length (lineage p))] =
      n # map (\<lambda>i. n - of_nat (Suc i)) [0..<length (lineage p)]"
    by (simp only: upt_conv_Cons zero_less_Suc map_Suc_upt [symmetric] list.map map_map comp_def) simp
  with IH n show ?case by simp
qed simp

section \<open>The fork point and the child of a block\<close>

lemma wp_locate:
  assumes "honest U C" and "canonical C"
    and Q: "\<And>h b n. ch_block C h = Some b \<Longrightarrow> ch_hash C (nh_number (nb_header b)) = Some h \<Longrightarrow>
      Q (h, nb_header b) n"
    and E: "\<And>e n. E e n"
  shows "wp (locate_fork_point U point) Q E n"
proof (cases point)
  case (ForkNumber m)
  have "Q (h, nb_header b) n'" if r: "block_by_number U m n = (Inr (Some (h, b)), n')" for h b n'
  proof (rule Q)
    show b: "ch_block C h = Some b"
      using block_by_number_honest [OF assms(1) r] by (auto simp: bind_eq_Some_conv dest!: sym [of "Some _"])
    with assms(2) show "ch_hash C (nh_number (nb_header b)) = Some h" by (simp add: canonical_def)
  qed
  then show ?thesis
    unfolding locate_fork_point_def ForkNumber block_fork_point.case
    by - (rule wp_bindE, rule wp_map_err, rule wpI, auto simp: E intro!: wp_ret wp_fail split: option.splits)
next
  case (ForkHash h)
  have "Q (h, hdr) n'" if r: "rpc_header U h n = (Inr hdr, n')" for hdr n'
    using header_honest [OF assms(1) r] assms(2) by (auto intro!: Q simp: canonical_def)
  then show ?thesis
    unfolding locate_fork_point_def ForkHash block_fork_point.case
    by - (rule wp_bindE, rule wp_map_err, rule wpI, auto simp: E intro!: wp_ret)
qed

text \<open>The fork point as the chain has it; the last block number cannot be built upon.\<close>

lemma wp_fork_point:
  assumes hon: "honest U C" and can: "canonical C" and c: "cache_db c = empty_db"
  shows "wp (fork_point U c point)
    (\<lambda>(b, s) n. ch_hash C (blk_number b) = Some (blk_hash b) \<and>
       (\<exists>nb. ch_block C (blk_hash b) = Some nb \<and> blk_parent_hash b = nh_parent_hash (nb_header nb) \<and>
         blk_extrinsics b = nb_extrinsics nb) \<and> blk_parent b = None \<and>
       (blk_number b \<noteq> - 1 \<longrightarrow>
         fork_head U C b s \<and> modifications s = [] \<and> deleted_prefixes s = []))
    (\<lambda>_ _. True) n"
proof -
  let ?Q = "\<lambda>(b, s) n. ch_hash C (blk_number b) = Some (blk_hash b) \<and>
     (\<exists>nb. ch_block C (blk_hash b) = Some nb \<and> blk_parent_hash b = nh_parent_hash (nb_header nb) \<and>
       blk_extrinsics b = nb_extrinsics nb) \<and> blk_parent b = None \<and>
     (blk_number b \<noteq> - 1 \<longrightarrow> fork_head U C b s \<and> modifications s = [] \<and> deleted_prefixes s = [])"
  let ?rest = "\<lambda>(block_hash, hdr).
     bindE (map_err BRpc (block_by_hash U block_hash)) (\<lambda>found.
     bindE (map_err BRpc (rpc_metadata U block_hash)) (\<lambda>md.
     bindE (gets (\<lambda>n. n)) (\<lambda>n.
     let extrinsics = (case found of Some b \<Rightarrow> nb_extrinsics b | None \<Rightarrow> []);
         (storage, s) = new_layer (new_remote n c) (nh_number hdr) block_hash md
     in ret (Block (nh_number hdr) block_hash (nh_parent_hash hdr) (u_encode_header U hdr)
               extrinsics storage None, s))))"
  have rest: "wp (?rest (h, nb_header b)) ?Q (\<lambda>_ _. True) n"
    if b: "ch_block C h = Some b" "ch_hash C (nh_number (nb_header b)) = Some h" for h b n
  proof -
    have head: "fork_head U C (Block (nh_number (nb_header b)) h (nh_parent_hash (nb_header b))
        (u_encode_header U (nb_header b)) (nb_extrinsics b) L None) s \<and>
        modifications s = [] \<and> deleted_prefixes s = []"
      if L: "new_layer (new_remote n' c) (nh_number (nb_header b)) h md = (L, s)"
        and "nh_number (nb_header b) \<noteq> - 1" for L s n' md
      using new_layer_invs [OF L that(2) remote_inv_empty [OF hon c] can b(2)] that
      by (auto simp: fork_head_def new_layer_def less_plus_one_u32)
    have found: "found = Some b" if "block_by_hash U h n = (Inr found, n')" for found n n'
      using block_by_hash_honest [OF hon that] b(1) by simp
    show ?thesis
      unfolding split_conv
      by (rule wp_bindE, rule wp_map_err, rule wpI, rule wp_bindE, rule wp_map_err, rule wpI,
          rule wp_bindE, rule wp_gets)
        (auto dest!: found dest: head split: prod.split intro!: wp_ret simp: b)
  qed
  show ?thesis
    unfolding fork_point_def
    by (rule wp_bindE, rule wp_map_err, rule wpI, rule wp_bindE, rule wp_locate [OF hon can], rule rest)
      simp_all
qed

lemma wp_child:
  assumes "fork_head U C b s"
    and Q: "\<And>b' p s'. fork_head U C b' s' \<Longrightarrow> linked b' \<Longrightarrow>
      blk_number b' = blk_number b + 1 \<Longrightarrow>
      blk_hash b' = hash \<Longrightarrow> blk_parent_hash b' = blk_hash b \<Longrightarrow> blk_header b' = header \<Longrightarrow>
      blk_extrinsics b' = extrinsics \<Longrightarrow>
      (\<And>n k. n \<le> blk_number b + 1 \<Longrightarrow>
        layer_value (blk_storage b') C s' n k = layer_value (blk_storage b) C s n k) \<Longrightarrow>
      modifications s' = modifications s \<Longrightarrow>
      first_forked_block_number (blk_storage b') = first_forked_block_number (blk_storage b) \<Longrightarrow>
      first_forked_block_hash (blk_storage b') = first_forked_block_hash (blk_storage b) \<Longrightarrow> Q (b', p) s'"
    and E: "\<And>e s'. fork_inv U C (blk_storage b) s' \<Longrightarrow> same_fork s s' \<Longrightarrow> E e s'"
  shows "wp (child b hash header extrinsics) Q E s"
proof -
  have inv: "fork_inv U C (blk_storage b) s" "history_inv (blk_storage b) s" "linked b"
    and cur: "current_block_number (blk_storage b) = blk_number b + 1"
    using assms(1) by (simp_all add: fork_head_def)
  show ?thesis
    unfolding child_def
  proof (intro wp_bindE wp_map_err wp_layer_commit [OF inv(1,2)])
    fix s' L
    assume L: "L = blk_storage b\<lparr>current_block_number := current_block_number (blk_storage b) + 1\<rparr>"
      and max: "current_block_number (blk_storage b) \<noteq> - 1"
      and inv': "fork_inv U C L s'" "history_inv L s'" and mods: "modifications s' = modifications s"
      and val: "\<And>n k. n \<le> current_block_number (blk_storage b) \<Longrightarrow>
        layer_value L C s' n k = layer_value (blk_storage b) C s n k"
    let ?b' = "Block (blk_number b + 1) hash (blk_hash b) header extrinsics L (Some (with_storage L b))"
    have "first_forked_block_number L < current_block_number L" using inv' by (simp add: fork_inv_def)
    with linked_with_storage [OF inv(3), of L] have "linked ?b'" by (simp add: L)
    moreover have "fork_head U C ?b' s'"
      using inv' max calculation by (simp add: fork_head_def L cur)
    ultimately show "wp (let b' = with_storage L b
        in ret (Block (blk_number b + 1) hash (blk_hash b) header extrinsics L (Some b'), b')) Q E s'"
      using val mods unfolding Let_def by (intro wp_ret Q) (simp_all add: cur L)
  qed (rule E)
qed

end
