(* ===== verification/Slot_Inherent.thy ===== *)
theory Slot_Inherent
  imports Fork_Block
begin

text \<open>
  Slots and timestamps: \<^verbatim>\<open>inherent/slot.rs\<close>, \<^verbatim>\<open>inherent/timestamp.rs\<close>,
  \<^verbatim>\<open>inherent/relay.rs\<close> under \<^verbatim>\<open>crates/pop-fork/src\<close>, and the header of the next
  block with its slot (\<^verbatim>\<open>builder.rs\<close>). Texts that library errors add to a message are left
  out of it.
\<close>

section \<open>Errors of the block builder\<close>

datatype builder_error =
    BExecutor exec_error
  | BBStorage local_error
  | BBBlock block_error
  | BCodec string
  | NotInitialized
  | AlreadyInitialized
  | InherentsNotApplied
  | InherentsAlreadyApplied
  | AlreadyFinalized
  | InherentProviderFailed string string
  | BuilderPanic string

section \<open>Slots\<close>

datatype consensus_type = Aura | Babe | UnknownConsensus

definition aura_current_slot_key :: "('n, 'm) substrate \<Rightarrow> bytes" where
  "aura_current_slot_key B = storage_key B ''Aura'' ''CurrentSlot''"

definition babe_current_slot_key :: "('n, 'm) substrate \<Rightarrow> bytes" where
  "babe_current_slot_key B = storage_key B ''Babe'' ''CurrentSlot''"

definition detect_consensus_type :: "('n, 'm) substrate \<Rightarrow> 'm \<Rightarrow> consensus_type" where
  "detect_consensus_type B md =
     (if pallet_by_name B md ''Aura'' \<noteq> None then Aura
      else if pallet_by_name B md ''Babe'' \<noteq> None then Babe
      else UnknownConsensus)"

definition saturating_add_u64 :: "u64 \<Rightarrow> u64 \<Rightarrow> u64" where
  "saturating_add_u64 a b = (if a \<le> - 1 - b then a + b else - 1)"

text \<open>The assertion that the duration is positive is the \<open>None\<close> of this function.\<close>

definition calculate_next_slot :: "u64 \<Rightarrow> u64 \<Rightarrow> u64 option" where
  "calculate_next_slot current_timestamp_ms slot_duration_ms =
     (if slot_duration_ms > 0
      then Some (saturating_add_u64 current_timestamp_ms slot_duration_ms div slot_duration_ms)
      else None)"

definition encode_aura_slot :: "('n, 'm) substrate \<Rightarrow> u64 \<Rightarrow> bytes" where
  "encode_aura_slot B slot = sb_enc_u64 B slot"

definition encode_babe_predigest :: "('n, 'm) substrate \<Rightarrow> u64 \<Rightarrow> u32 \<Rightarrow> bytes" where
  "encode_babe_predigest B slot authority_index =
     [2] @ sb_enc_u32 B authority_index @ sb_enc_u64 B slot"

section \<open>The slot duration\<close>

definition RELAY_CHAIN_FALLBACK_MS :: u64 where
  "RELAY_CHAIN_FALLBACK_MS = 6000"

definition PARACHAIN_FALLBACK_MS :: u64 where
  "PARACHAIN_FALLBACK_MS = 12000"

definition timestamp_now_key :: "('n, 'm) substrate \<Rightarrow> bytes" where
  "timestamp_now_key B = storage_key B ''Timestamp'' ''Now''"

definition constant_from_metadata :: "('n, 'm) substrate \<Rightarrow> 'm \<Rightarrow> string \<Rightarrow> string \<Rightarrow> u64 option" where
  "constant_from_metadata B md pallet_name constant_name =
     Option.bind (pallet_by_name B md pallet_name) (\<lambda>p.
     Option.bind (map_of (pl_constants p) constant_name) (sb_dec_u64 B))"

text \<open>A failed call is no answer; its error is dropped.\<close>

definition slot_duration_from_runtime ::
  "('v, 'p) vm_host \<Rightarrow> ('n, 'm) upstream \<Rightarrow> ('n, 'm) substrate \<Rightarrow> executor \<Rightarrow> layer \<Rightarrow> 'm \<Rightarrow> u64 \<Rightarrow>
     (('n, 'm) fork, builder_error, u64) loop_prog" where
  "slot_duration_from_runtime H U B X L md fallback s =
     (case executor_call H U X ''AuraApi_slot_duration'' [] L s of
        None \<Rightarrow> None
      | Some (r, s') \<Rightarrow>
          Some (Inr (case (case r of Inr c \<Rightarrow> sb_dec_u64 B (cr_output c) | Inl _ \<Rightarrow> None) of
                       Some duration \<Rightarrow> duration
                     | None \<Rightarrow> (case constant_from_metadata B md ''Babe'' ''ExpectedBlockTime'' of
                                 Some duration \<Rightarrow> duration | None \<Rightarrow> fallback)), s'))"

section \<open>The timestamp inherent\<close>

text \<open>The provider, with the duration it has cached (0 for none).\<close>

record timestamp_inherent =
  ti_slot_duration_ms :: u64
  ti_cached_slot_duration :: u64

definition default_relay :: timestamp_inherent where
  "default_relay = \<lparr>ti_slot_duration_ms = RELAY_CHAIN_FALLBACK_MS, ti_cached_slot_duration = 0\<rparr>"

definition default_para :: timestamp_inherent where
  "default_para = \<lparr>ti_slot_duration_ms = PARACHAIN_FALLBACK_MS, ti_cached_slot_duration = 0\<rparr>"

definition EXTRINSIC_FORMAT_VERSION :: u8 where
  "EXTRINSIC_FORMAT_VERSION = 5"

definition encode_timestamp_set_call :: "('n, 'm) substrate \<Rightarrow> u8 \<Rightarrow> u8 \<Rightarrow> u64 \<Rightarrow> bytes" where
  "encode_timestamp_set_call B pallet_index call_index timestamp =
     [pallet_index, call_index] @ sb_compact_u64 B timestamp"

definition encode_inherent_extrinsic :: "('n, 'm) substrate \<Rightarrow> bytes \<Rightarrow> bytes" where
  "encode_inherent_extrinsic B call =
     (let extrinsic = EXTRINSIC_FORMAT_VERSION # call
      in sb_compact_u32 B (of_nat (length extrinsic)) @ extrinsic)"

definition timestamp_failed :: "string \<Rightarrow> builder_error" where
  "timestamp_failed message = InherentProviderFailed ''Timestamp'' message"

text \<open>The pallet and call indices from the metadata.\<close>

definition timestamp_indices :: "('n, 'm) substrate \<Rightarrow> 'm \<Rightarrow> builder_error + (u8 \<times> u8)" where
  "timestamp_indices B md =
     (case pallet_by_name B md ''Timestamp'' of
        None \<Rightarrow> Inl (timestamp_failed ''Pallet not found in metadata: Timestamp'')
      | Some p \<Rightarrow>
          (case call_by_name p ''set'' of
             None \<Rightarrow> Inl (timestamp_failed ''Call not found in pallet metadata: set'')
           | Some v \<Rightarrow> Inr (pl_index p, cv_index v)))"

text \<open>
  A provider is shared by the builds of a chain: its cached value stays when a build fails. So
  it is part of the state of its operations, beside the fork.
\<close>

definition cache_duration ::
  "(('n, 'm) fork, 'e, u64) loop_prog \<Rightarrow> (timestamp_inherent \<times> ('n, 'm) fork, 'e, u64) loop_prog" where
  "cache_duration detected =
     bindL (on_snd detected) (\<lambda>duration.
     bindL (returns (modify (\<lambda>(ti, s). (ti\<lparr>ti_cached_slot_duration := duration\<rparr>, s)))) (\<lambda>_.
     returns (ret duration)))"

text \<open>The duration in use: the cached one, or the one detected now, which is then cached.\<close>

definition slot_duration_in_use ::
  "('v, 'p) vm_host \<Rightarrow> ('n, 'm) upstream \<Rightarrow> ('n, 'm) substrate \<Rightarrow> executor \<Rightarrow> layer \<Rightarrow> 'm \<Rightarrow>
     (timestamp_inherent \<times> ('n, 'm) fork, builder_error, u64) loop_prog" where
  "slot_duration_in_use H U B X L md =
     bindL (returns (gets fst)) (\<lambda>ti.
     if ti_cached_slot_duration ti = 0
     then cache_duration (slot_duration_from_runtime H U B X L md (ti_slot_duration_ms ti))
     else returns (ret (ti_cached_slot_duration ti)))"

text \<open>The timestamp of the parent, or the clock when it has none.\<close>

definition parent_timestamp ::
  "('n, 'm) upstream \<Rightarrow> ('n, 'm) substrate \<Rightarrow> block \<Rightarrow> (('n, 'm) fork, builder_error, u64) prog" where
  "parent_timestamp U B b =
     bindE (map_err BBStorage (layer_get U (blk_storage b) (blk_number b) (timestamp_now_key B))) (\<lambda>v.
     case Option.bind v sv_value of
       Some bs \<Rightarrow> (case sb_dec_u64 B bs of
                     Some t \<Rightarrow> ret t
                   | None \<Rightarrow> fail (timestamp_failed ''Failed to decode timestamp''))
     | None \<Rightarrow> read_clock B)"

definition timestamp_provide ::
  "('v, 'p) vm_host \<Rightarrow> ('n, 'm) upstream \<Rightarrow> ('n, 'm) substrate \<Rightarrow> block \<Rightarrow> executor \<Rightarrow>
     (timestamp_inherent \<times> ('n, 'm) fork, builder_error, bytes list) loop_prog" where
  "timestamp_provide H U B b X =
     bindL (on_snd (returns (map_err BBBlock (block_metadata U b)))) (\<lambda>md.
     bindL (returns (lift_sum (timestamp_indices B md))) (\<lambda>(pallet_index, call_index).
     bindL (slot_duration_in_use H U B X (blk_storage b) md) (\<lambda>slot_duration.
     bindL (on_snd (returns (parent_timestamp U B b))) (\<lambda>current_timestamp.
     let new_timestamp = saturating_add_u64 current_timestamp slot_duration;
         call = encode_timestamp_set_call B pallet_index call_index new_timestamp
     in returns (ret [encode_inherent_extrinsic B call])))))"

definition timestamp_warmup ::
  "('v, 'p) vm_host \<Rightarrow> ('n, 'm) upstream \<Rightarrow> ('n, 'm) substrate \<Rightarrow> block \<Rightarrow> executor \<Rightarrow>
     (timestamp_inherent \<times> ('n, 'm) fork, builder_error, unit) loop_prog" where
  "timestamp_warmup H U B b X =
     bindL (on_snd (returns (ignore_errors (block_metadata U b)))) (\<lambda>found.
     case found of
       None \<Rightarrow> returns (ret ())
     | Some md \<Rightarrow>
         bindL (returns (gets fst)) (\<lambda>ti.
         bindL (cache_duration (slot_duration_from_runtime H U B X (blk_storage b) md
                  (ti_slot_duration_ms ti))) (\<lambda>_.
         returns (ret ()))))"

definition timestamp_invalidate :: "timestamp_inherent \<Rightarrow> timestamp_inherent" where
  "timestamp_invalidate ti = ti\<lparr>ti_cached_slot_duration := 0\<rparr>"

section \<open>The relay chain key\<close>

definition PARA_INHERENT_PALLET :: string where
  "PARA_INHERENT_PALLET = ''ParaInherent''"

definition para_inherent_included_key :: "('n, 'm) substrate \<Rightarrow> bytes" where
  "para_inherent_included_key B = storage_key B ''ParaInherent'' ''Included''"

section \<open>The header of the next block\<close>

definition create_next_header :: "('n, 'm) substrate \<Rightarrow> block \<Rightarrow> digest_item list \<Rightarrow> bytes" where
  "create_next_header B b digest_items =
     sb_enc_header B \<lparr>bh_parent_hash = blk_hash b, bh_number = blk_number b + 1,
       bh_state_root = h256_zero, bh_extrinsics_root = h256_zero, bh_digest = digest_items\<rparr>"

definition is_preruntime_of :: "consensus_type \<Rightarrow> digest_item \<Rightarrow> bool" where
  "is_preruntime_of c item = (case item of
     PreRuntime engine _ \<Rightarrow> c = Aura \<and> engine = ENGINE_AURA \<or> c = Babe \<and> engine = ENGINE_BABE
   | _ \<Rightarrow> False)"

text \<open>Unlike the inherent, the header takes an undecodable timestamp for 0.\<close>

definition header_timestamp ::
  "('n, 'm) upstream \<Rightarrow> ('n, 'm) substrate \<Rightarrow> block \<Rightarrow> (('n, 'm) fork, builder_error, u64) prog" where
  "header_timestamp U B b =
     bindE (map_err BBStorage (layer_get U (blk_storage b) (blk_number b) (timestamp_now_key B))) (\<lambda>v.
     case Option.bind v sv_value of
       Some bs \<Rightarrow> ret (case sb_dec_u64 B bs of Some t \<Rightarrow> t | None \<Rightarrow> 0)
     | None \<Rightarrow> read_clock B)"

text \<open>The digest of a slot: the engine's identifier and its encoding of the slot.\<close>

definition slot_digest :: "('n, 'm) substrate \<Rightarrow> consensus_type \<Rightarrow> u64 \<Rightarrow> digest_item list" where
  "slot_digest B c slot = (case c of
     Aura \<Rightarrow> [PreRuntime ENGINE_AURA (encode_aura_slot B slot)]
   | Babe \<Rightarrow> [PreRuntime ENGINE_BABE (encode_babe_predigest B slot 0)]
   | UnknownConsensus \<Rightarrow> [])"

definition create_next_header_with_slot ::
  "('v, 'p) vm_host \<Rightarrow> ('n, 'm) upstream \<Rightarrow> ('n, 'm) substrate \<Rightarrow> block \<Rightarrow> executor \<Rightarrow> digest_item list \<Rightarrow>
     u64 option \<Rightarrow> (('n, 'm) fork, builder_error, bytes) loop_prog" where
  "create_next_header_with_slot H U B b X additional cached_slot_duration =
     bindL (returns (map_err BBBlock (block_metadata U b))) (\<lambda>md.
     let c = detect_consensus_type B md;
         has_preruntime = list_ex (is_preruntime_of c) additional
     in if \<not> has_preruntime \<and> c \<noteq> UnknownConsensus
        then
          bindL (case cached_slot_duration of
                   Some d \<Rightarrow> returns (ret d)
                 | None \<Rightarrow> slot_duration_from_runtime H U B X (blk_storage b) md
                     (if c = Aura then PARACHAIN_FALLBACK_MS else RELAY_CHAIN_FALLBACK_MS)) (\<lambda>slot_duration.
          bindL (returns (header_timestamp U B b)) (\<lambda>current_timestamp.
          case calculate_next_slot current_timestamp slot_duration of
            None \<Rightarrow> returns (fail (BuilderPanic ''Slot duration cannot be zero''))
          | Some next_slot \<Rightarrow>
              returns (ret (create_next_header B b (slot_digest B c next_slot @ additional)))))
        else returns (ret (create_next_header B b additional)))"

section \<open>What the functions mean\<close>

lemma saturating_add_u64_value:
  "unat (saturating_add_u64 a b) = min (unat a + unat b) (2 ^ 64 - 1)"
proof -
  have b: "unat b < 2 ^ 64" using unsigned_less [of b] by simp
  have m: "unat (- 1 :: u64) = 2 ^ 64 - 1" by (simp add: unsigned_minus_1_eq_mask mask_eq_exp_minus_1)
  have "b \<le> - 1" by simp
  then have d: "unat (- 1 - b) = 2 ^ 64 - 1 - unat b" by (simp only: unat_sub m)
  show ?thesis
  proof (cases "a \<le> - 1 - b")
    case True
    then have "unat a + unat b < 2 ^ 64" using d b unfolding word_le_nat_alt by linarith
    moreover then have "unat (a + b) = unat a + unat b" by (intro unat_add_lem [THEN iffD1]) simp
    ultimately show ?thesis using True by (simp add: saturating_add_u64_def)
  next
    case False
    then have "2 ^ 64 - 1 \<le> unat a + unat b" using d b unfolding word_le_nat_alt by linarith
    with False m show ?thesis by (simp add: saturating_add_u64_def)
  qed
qed

text \<open>The next slot is the slot of the current time plus one, short of the end of time.\<close>

lemma next_slot_value:
  assumes "0 < d" and "unat t + unat d < 2 ^ 64"
  shows "\<exists>slot. calculate_next_slot t d = Some slot \<and> unat slot = unat t div unat d + 1"
proof -
  have d: "0 < unat d" using assms(1) by (simp add: word_greater_zero_iff unat_gt_0)
  have "unat (saturating_add_u64 t d div d) = (unat t + unat d) div unat d"
    using assms(2) by (simp add: unat_div saturating_add_u64_value)
  also have "\<dots> = unat t div unat d + 1" using d by (intro div_add_self2) simp
  finally show ?thesis using assms(1) by (simp add: calculate_next_slot_def)
qed

end
