(* ===== verification/Parachain_Inherent.thy ===== *)
theory Parachain_Inherent
  imports Slot_Inherent
begin

text \<open>
  The parachain inherent, \<^verbatim>\<open>crates/pop-fork/src/inherent/parachain.rs\<close> and
  \<^verbatim>\<open>relay_proof.rs\<close>: the validation data of the parent block is decoded, its relay chain
  proof is updated with the new head and slot, the relay headers are chained again with magic
  seals, and the whole is encoded for the block being built. The SCALE decoders and the trie
  of the Substrate crates are the fields of \<open>relay_codec\<close>.
\<close>

section \<open>Inherent data\<close>

record validation_data =
  vd_parent_head :: bytes
  vd_relay_parent_number :: u32
  vd_storage_root :: bytes
  vd_max_pov_size :: u32

record relay_header =
  rh_parent_hash :: bytes
  rh_number :: u32
  rh_state_root :: bytes
  rh_extrinsics_root :: bytes
  rh_logs :: "digest_item list"

record parsed_inherent =
  pi_validation_data :: validation_data
  pi_relay_chain_state :: "bytes list"
  pi_descendants :: "relay_header list"
  pi_collator_peer_id :: "bytes option"
  pi_remaining :: bytes

text \<open>
  A decoder gives back the bytes it left over. A proof is the list of its nodes in order. The
  trie is opened over the nodes of a proof, takes insertions, and is committed to a root and
  the entries of its database, each with its reference count.
\<close>

record 't relay_codec =
  rc_dec_validation :: "bytes \<Rightarrow> string + validation_data \<times> bytes"
  rc_dec_nodes :: "bytes \<Rightarrow> string + bytes list \<times> bytes"
  rc_dec_descendants :: "bytes \<Rightarrow> string + relay_header list \<times> bytes"
  rc_dec_peer :: "bytes \<Rightarrow> string + bytes option \<times> bytes"
  rc_enc_validation :: "validation_data \<Rightarrow> bytes"
  rc_enc_nodes :: "bytes list \<Rightarrow> bytes"
  rc_enc_relay_header :: "relay_header \<Rightarrow> bytes"
  rc_enc_descendants :: "relay_header list \<Rightarrow> bytes"
  rc_enc_peer :: "bytes option \<Rightarrow> bytes"
  rc_enc_bytes :: "bytes \<Rightarrow> bytes"
  rc_trie_get :: "bytes list \<Rightarrow> bytes \<Rightarrow> bytes \<Rightarrow> string + bytes option"
  rc_trie_open :: "bytes list \<Rightarrow> bytes \<Rightarrow> 't"
  rc_trie_insert :: "bytes \<Rightarrow> bytes \<Rightarrow> 't \<Rightarrow> string + 't"
  rc_trie_commit :: "'t \<Rightarrow> bytes \<times> (bytes \<times> bytes \<times> int) list"
  rc_db_get :: "(bytes \<times> bytes \<times> int) list \<Rightarrow> bytes \<Rightarrow> bytes option"

definition para_failed :: "string \<Rightarrow> builder_error" where
  "para_failed message = InherentProviderFailed ''ParachainSystem'' message"

section \<open>The relay chain proof\<close>

datatype proof_error =
    ProofDecodeError string
  | ProofTrieError string
  | RootNotFound
  | KeyNotFound string

definition PARAS_HEADS_PREFIX :: bytes where
  "PARAS_HEADS_PREFIX =
     [0xcd, 0x71, 0x0b, 0x30, 0xbd, 0x2e, 0xab, 0x03, 0x52, 0xdd, 0xcc, 0x26, 0x41, 0x7a, 0xa1, 0x94,
      0x1b, 0x3c, 0x25, 0x2f, 0xcb, 0x29, 0xd8, 0x8e, 0xff, 0x4f, 0x3d, 0xe5, 0xde, 0x44, 0x76, 0xc3]"

definition CURRENT_SLOT_KEY :: bytes where
  "CURRENT_SLOT_KEY =
     [0x1c, 0xb6, 0xf3, 0x6e, 0x02, 0x7a, 0xbb, 0x20, 0x91, 0xcf, 0xb5, 0x11, 0x0a, 0xb5, 0x08, 0x7f,
      0x06, 0x15, 0x5b, 0x3c, 0xd9, 0xa8, 0xc9, 0xe5, 0xe9, 0xa2, 0x3f, 0xd5, 0xdc, 0x13, 0xa5, 0xed]"

definition paras_heads_key :: "('n, 'm) substrate \<Rightarrow> u32 \<Rightarrow> bytes" where
  "paras_heads_key B para_id =
     PARAS_HEADS_PREFIX @ sb_twox_64 B (sb_enc_u32 B para_id) @ sb_enc_u32 B para_id"

definition read_raw_from_proof ::
  "'t relay_codec \<Rightarrow> bytes list \<Rightarrow> bytes \<Rightarrow> bytes \<Rightarrow> proof_error + bytes option" where
  "read_raw_from_proof R proof root key =
     (case rc_trie_get R proof root key of Inl e \<Rightarrow> Inl (ProofTrieError e) | Inr v \<Rightarrow> Inr v)"

definition read_u64_from_proof ::
  "('n, 'm) substrate \<Rightarrow> 't relay_codec \<Rightarrow> bytes list \<Rightarrow> bytes \<Rightarrow> bytes \<Rightarrow> proof_error + u64 option" where
  "read_u64_from_proof B R proof root key =
     (case rc_trie_get R proof root key of
        Inl e \<Rightarrow> Inl (ProofTrieError e)
      | Inr None \<Rightarrow> Inr None
      | Inr (Some d) \<Rightarrow> (case sb_dec_u64 B d of
          Some v \<Rightarrow> Inr (Some v) | None \<Rightarrow> Inl (ProofDecodeError ''not a u64'')))"

text \<open>A \<open>BTreeSet\<close> of the values still referenced and of those the database still finds.\<close>

definition extract_proof_from_db :: "'t relay_codec \<Rightarrow> (bytes \<times> bytes \<times> int) list \<Rightarrow> bytes list" where
  "extract_proof_from_db R d =
     btree_set (concat (map (\<lambda>(key, v, rc).
       (if rc > 0 then [v] else []) @ (case rc_db_get R d key of Some w \<Rightarrow> [w] | None \<Rightarrow> [])) d))"

fun insert_all :: "'t relay_codec \<Rightarrow> (bytes \<times> bytes) list \<Rightarrow> 't \<Rightarrow> string + 't" where
  "insert_all R [] t = Inr t"
| "insert_all R ((key, v) # kvs) t =
     (case rc_trie_insert R key v t of Inl e \<Rightarrow> Inl e | Inr t' \<Rightarrow> insert_all R kvs t')"

definition modify_proof ::
  "'t relay_codec \<Rightarrow> bytes list \<Rightarrow> bytes \<Rightarrow> (bytes \<times> bytes) list \<Rightarrow> proof_error + bytes \<times> bytes list" where
  "modify_proof R proof root updates =
     (case insert_all R updates (rc_trie_open R proof root) of
        Inl e \<Rightarrow> Inl (ProofTrieError e)
      | Inr t \<Rightarrow> (let (new_root, d) = rc_trie_commit R t in Inr (new_root, extract_proof_from_db R d)))"

section \<open>The extrinsic of the parent block\<close>

definition EXTRINSIC_FORMAT_VERSION_V4 :: u8 where
  "EXTRINSIC_FORMAT_VERSION_V4 = 4"

definition EXTRINSIC_FORMAT_VERSION_V5 :: u8 where
  "EXTRINSIC_FORMAT_VERSION_V5 = 5"

definition MIN_EXTRINSIC_BODY_SIZE :: nat where
  "MIN_EXTRINSIC_BODY_SIZE = 3"

definition from_le_bytes :: "bytes \<Rightarrow> nat" where
  "from_le_bytes bs = foldr (\<lambda>b n. unat b + 256 * n) bs 0"

text \<open>\<open>from_le_bytes(..) >> 2\<close> is the value divided by 4.\<close>

definition decode_compact_len :: "bytes \<Rightarrow> (u32 \<times> bytes) option" where
  "decode_compact_len data = (case data of
     [] \<Rightarrow> None
   | first_byte # rest \<Rightarrow>
       let mode = unat first_byte mod 4 in
       if mode = 0 then Some (of_nat (unat first_byte div 4), rest)
       else if mode = 1 then
         (if length data < 2 then None
          else Some (of_nat (from_le_bytes (take 2 data) div 4), drop 2 data))
       else if mode = 2 then
         (if length data < 4 then None
          else Some (of_nat (from_le_bytes (take 4 data) div 4), drop 4 data))
       else None)"

definition is_validation_data :: "u8 \<Rightarrow> u8 \<Rightarrow> bytes \<Rightarrow> bool" where
  "is_validation_data pallet_index call_index ext = (case decode_compact_len ext of
     None \<Rightarrow> False
   | Some (_, remainder) \<Rightarrow>
       (case remainder of
          [] \<Rightarrow> False
        | version # _ \<Rightarrow>
            (version = EXTRINSIC_FORMAT_VERSION_V4 \<or> version = EXTRINSIC_FORMAT_VERSION_V5) \<and>
            MIN_EXTRINSIC_BODY_SIZE \<le> length remainder \<and>
            remainder ! 1 = pallet_index \<and> remainder ! 2 = call_index))"

definition find_validation_data_extrinsic :: "bytes list \<Rightarrow> u8 \<Rightarrow> u8 \<Rightarrow> bytes option" where
  "find_validation_data_extrinsic extrinsics pallet_index call_index =
     List.find (is_validation_data pallet_index call_index) extrinsics"

definition decode_step :: "string \<Rightarrow> string + 'a \<Rightarrow> ('a \<Rightarrow> builder_error + 'b) \<Rightarrow> builder_error + 'b" where
  "decode_step what r k = (case r of
     Inl e \<Rightarrow> Inl (para_failed (''Failed to decode '' @ what)) | Inr x \<Rightarrow> k x)"

definition parse_inherent_data :: "'t relay_codec \<Rightarrow> bytes \<Rightarrow> builder_error + parsed_inherent" where
  "parse_inherent_data R call_data =
     decode_step ''PersistedValidationData'' (rc_dec_validation R call_data) (\<lambda>(vd, c1).
     decode_step ''relay_chain_state'' (rc_dec_nodes R c1) (\<lambda>(nodes, c2).
     decode_step ''relay_parent_descendants'' (rc_dec_descendants R c2) (\<lambda>(descendants, c3).
     decode_step ''collator_peer_id'' (rc_dec_peer R c3) (\<lambda>(peer, remaining).
     Inr \<lparr>pi_validation_data = vd, pi_relay_chain_state = btree_set nodes,
       pi_descendants = descendants, pi_collator_peer_id = peer, pi_remaining = remaining\<rparr>))))"

section \<open>The relay headers\<close>

definition SR25519_SIZE :: nat where
  "SR25519_SIZE = 64"

definition magic_seal :: bytes where
  "magic_seal = MAGIC_PREFIX @ replicate (SR25519_SIZE - length MAGIC_PREFIX) MAGIC_PADDING"

definition replace_seal_with_magic :: "relay_header \<Rightarrow> relay_header" where
  "replace_seal_with_magic h = h\<lparr>rh_logs := map (\<lambda>item. case item of
     Seal engine sig \<Rightarrow> (if engine = ENGINE_BABE then Seal engine magic_seal else item)
   | _ \<Rightarrow> item) (rh_logs h)\<rparr>"

definition relay_hash :: "('n, 'm) substrate \<Rightarrow> 't relay_codec \<Rightarrow> relay_header \<Rightarrow> bytes" where
  "relay_hash B R h = sb_blake2_256 B (rc_enc_relay_header R h)"

fun rechain :: "('n, 'm) substrate \<Rightarrow> 't relay_codec \<Rightarrow> bytes \<Rightarrow> relay_header list \<Rightarrow> relay_header list" where
  "rechain B R prev_hash [] = []"
| "rechain B R prev_hash (h # hs) =
     (let h' = replace_seal_with_magic (h\<lparr>rh_parent_hash := prev_hash\<rparr>)
      in h' # rechain B R (relay_hash B R h') hs)"

definition process_relay_parent_descendants ::
  "('n, 'm) substrate \<Rightarrow> 't relay_codec \<Rightarrow> relay_header list \<Rightarrow> bytes \<Rightarrow> relay_header list" where
  "process_relay_parent_descendants B R descendants new_storage_root = (case descendants of
     [] \<Rightarrow> []
   | h # hs \<Rightarrow>
       let h' = replace_seal_with_magic (h\<lparr>rh_state_root := new_storage_root\<rparr>)
       in h' # rechain B R (relay_hash B R h') hs)"

section \<open>The inherent of the next block\<close>

definition RELAY_SLOTS_PER_PARA_BLOCK :: u64 where
  "RELAY_SLOTS_PER_PARA_BLOCK = 2"

text \<open>The slices \<open>body[0..3]\<close> panic on a body that is too short.\<close>

definition process_inherent ::
  "('n, 'm) substrate \<Rightarrow> 't relay_codec \<Rightarrow> bytes \<Rightarrow> u32 \<Rightarrow> bytes \<Rightarrow> builder_error + bytes" where
  "process_inherent B R ext para_id para_head = (case decode_compact_len ext of
     None \<Rightarrow> Inl (para_failed ''Failed to decode extrinsic length prefix'')
   | Some (_, body) \<Rightarrow>
     (if length body < 3 then Inl (BuilderPanic ''index out of bounds'')
      else case parse_inherent_data R (drop 3 body) of
        Inl e \<Rightarrow> Inl e
      | Inr parsed \<Rightarrow>
        let vd = pi_validation_data parsed;
            proof = pi_relay_chain_state parsed
        in case read_u64_from_proof B R proof (vd_storage_root vd) CURRENT_SLOT_KEY of
             Inl e \<Rightarrow> Inl (para_failed ''Failed to read current slot from proof'')
           | Inr None \<Rightarrow> Inl (para_failed ''CURRENT_SLOT not found in relay chain proof'')
           | Inr (Some current_relay_slot) \<Rightarrow>
             let new_relay_slot = saturating_add_u64 current_relay_slot RELAY_SLOTS_PER_PARA_BLOCK;
                 updates = [(paras_heads_key B para_id, rc_enc_bytes R para_head),
                            (CURRENT_SLOT_KEY, sb_enc_u64 B new_relay_slot)]
             in case modify_proof R proof (vd_storage_root vd) updates of
                  Inl e \<Rightarrow> Inl (para_failed ''Failed to modify relay proof'')
                | Inr (new_root, new_proof) \<Rightarrow>
                  let new_body = take 3 body @
                        rc_enc_validation R (vd\<lparr>vd_storage_root := new_root\<rparr>) @
                        rc_enc_nodes R new_proof @
                        rc_enc_descendants R
                          (process_relay_parent_descendants B R (pi_descendants parsed) new_root) @
                        rc_enc_peer R (pi_collator_peer_id parsed) @
                        pi_remaining parsed
                  in Inr (sb_compact_u32 B (of_nat (length new_body)) @ new_body)))"

definition parachain_id_key :: "('n, 'm) substrate \<Rightarrow> bytes" where
  "parachain_id_key B = storage_key B ''ParachainInfo'' ''ParachainId''"

definition read_parachain_id ::
  "('n, 'm) upstream \<Rightarrow> ('n, 'm) substrate \<Rightarrow> block \<Rightarrow> (('n, 'm) fork, 'e, u32 option) prog" where
  "read_parachain_id U B b =
     bindE (ignore_errors (layer_get U (blk_storage b) (blk_number b) (parachain_id_key B))) (\<lambda>found.
     ret (Option.bind (Option.bind (Option.bind found (\<lambda>v. v)) sv_value) (sb_dec_u32 B)))"

definition parachain_provide ::
  "('n, 'm) upstream \<Rightarrow> ('n, 'm) substrate \<Rightarrow> 't relay_codec \<Rightarrow> block \<Rightarrow>
     (('n, 'm) fork, builder_error, bytes list) prog" where
  "parachain_provide U B R b =
     bindE (map_err BBBlock (block_metadata U b)) (\<lambda>md.
     case pallet_by_name B md ''ParachainSystem'' of
       None \<Rightarrow> ret []
     | Some p \<Rightarrow>
         (case call_by_name p ''set_validation_data'' of
            None \<Rightarrow> fail (para_failed ''Call set_validation_data not found in pallet ParachainSystem'')
          | Some v \<Rightarrow>
              bindE (read_parachain_id U B b) (\<lambda>found.
              case found of
                None \<Rightarrow> fail (para_failed ''Failed to read ParachainId from storage'')
              | Some para_id \<Rightarrow>
                  (case find_validation_data_extrinsic (blk_extrinsics b) (pl_index p) (cv_index v) of
                     None \<Rightarrow> ret []
                   | Some ext \<Rightarrow>
                       bindE (lift_sum (process_inherent B R ext para_id (blk_header b))) (\<lambda>processed.
                       ret [processed])))))"

end
