(* ===== verification/Block_Builder.thy ===== *)
theory Block_Builder
  imports Parachain_Inherent
begin

text \<open>
  The block builder, \<^verbatim>\<open>crates/pop-fork/src/builder.rs\<close>, and the inherent providers it
  runs (\<^verbatim>\<open>inherent/mod.rs\<close>). A builder works on the state \<open>build\<close>: its own fields and
  the fork under them. A runtime call may run for ever, and so may an operation that makes
  one: its value is then \<open>None\<close>.
\<close>

section \<open>The inherent providers\<close>

text \<open>The implementations of the trait \<open>InherentProvider\<close>.\<close>

datatype inherent_provider = TimestampProvider timestamp_inherent | ParachainProvider

definition default_providers :: "bool \<Rightarrow> inherent_provider list" where
  "default_providers is_parachain =
     (let timestamp = (if is_parachain then default_para else default_relay)
      in if is_parachain then [ParachainProvider, TimestampProvider timestamp]
         else [TimestampProvider timestamp])"

definition provider_identifier :: "inherent_provider \<Rightarrow> string" where
  "provider_identifier p = (case p of
     TimestampProvider _ \<Rightarrow> ''Timestamp'' | ParachainProvider \<Rightarrow> ''ParachainSystem'')"

text \<open>A method of the trait gives back the provider, whose cache it may have changed.\<close>

definition on_timestamp ::
  "(timestamp_inherent \<times> 's, 'e, 'a) loop_prog \<Rightarrow> timestamp_inherent \<Rightarrow>
     's \<Rightarrow> (('e + 'a) \<times> inherent_provider \<times> 's) option" where
  "on_timestamp m ti s = map_option (\<lambda>(r, ti', s'). (r, TimestampProvider ti', s')) (m (ti, s))"

definition provide ::
  "('v, 'p) vm_host \<Rightarrow> ('n, 'm) upstream \<Rightarrow> ('n, 'm) substrate \<Rightarrow> 't relay_codec \<Rightarrow> block \<Rightarrow> executor \<Rightarrow>
     inherent_provider \<Rightarrow> ('n, 'm) fork \<Rightarrow>
     ((builder_error + bytes list) \<times> inherent_provider \<times> ('n, 'm) fork) option" where
  "provide H U B R b X p s = (case p of
     TimestampProvider ti \<Rightarrow> on_timestamp (timestamp_provide H U B b X) ti s
   | ParachainProvider \<Rightarrow> (case parachain_provide U B R b s of (r, s') \<Rightarrow> Some (r, p, s')))"

definition warmup_provider ::
  "('v, 'p) vm_host \<Rightarrow> ('n, 'm) upstream \<Rightarrow> ('n, 'm) substrate \<Rightarrow> block \<Rightarrow> executor \<Rightarrow>
     inherent_provider \<Rightarrow> ('n, 'm) fork \<Rightarrow>
     ((builder_error + unit) \<times> inherent_provider \<times> ('n, 'm) fork) option" where
  "warmup_provider H U B b X p s = (case p of
     TimestampProvider ti \<Rightarrow> on_timestamp (timestamp_warmup H U B b X) ti s
   | ParachainProvider \<Rightarrow> Some (Inr (), p, s))"

definition invalidate_cache :: "inherent_provider \<Rightarrow> inherent_provider" where
  "invalidate_cache p = (case p of
     TimestampProvider ti \<Rightarrow> TimestampProvider (timestamp_invalidate ti)
   | ParachainProvider \<Rightarrow> ParachainProvider)"

section \<open>The builder\<close>

datatype builder_phase = Created | Initialized | InherentsApplied

datatype apply_result = Success nat | DispatchFailed string

record 'p builder =
  bu_parent :: block
  bu_executor :: executor
  bu_providers :: "inherent_provider list"
  bu_extrinsics :: "bytes list"
  bu_header :: bytes
  bu_phase :: builder_phase
  bu_prototype :: "'p option"
  bu_skip_prefetch :: bool

type_synonym ('p, 'n, 'm) build = "'p builder \<times> ('n, 'm) fork"

definition new_builder ::
  "block \<Rightarrow> executor \<Rightarrow> bytes \<Rightarrow> inherent_provider list \<Rightarrow> 'p option \<Rightarrow> bool \<Rightarrow> 'p builder" where
  "new_builder b executor header providers prototype skip_prefetch =
     \<lparr>bu_parent = b, bu_executor = executor, bu_providers = providers, bu_extrinsics = [],
      bu_header = header, bu_phase = Created, bu_prototype = prototype,
      bu_skip_prefetch = skip_prefetch\<rparr>"

definition builder_storage :: "'p builder \<Rightarrow> layer" where
  "builder_storage bu = blk_storage (bu_parent bu)"

text \<open>A program on the layer of the builder, and one on the builder's own fields.\<close>

definition on_layer ::
  "(layer \<Rightarrow> (('n, 'm) fork, builder_error, 'a) prog) \<Rightarrow> (('p, 'n, 'm) build, builder_error, 'a) loop_prog" where
  "on_layer m = bindL (returns (gets (\<lambda>(bu, _). builder_storage bu))) (\<lambda>L. on_snd (returns (m L)))"

definition on_parent ::
  "(block \<Rightarrow> (('n, 'm) fork, builder_error, 'a) prog) \<Rightarrow> (('p, 'n, 'm) build, builder_error, 'a) loop_prog" where
  "on_parent m = bindL (returns (gets (\<lambda>(bu, _). bu_parent bu))) (\<lambda>b. on_snd (returns (m b)))"

definition builder_gets :: "('p builder \<Rightarrow> 'a) \<Rightarrow> (('p, 'n, 'm) build, builder_error, 'a) loop_prog" where
  "builder_gets f = returns (gets (\<lambda>(bu, _). f bu))"

definition builder_modify ::
  "('p builder \<Rightarrow> 'p builder) \<Rightarrow> (('p, 'n, 'm) build, builder_error, unit) loop_prog" where
  "builder_modify f = returns (modify (\<lambda>(bu, s). (f bu, s)))"

definition reset_storage_stats :: "(('p, 'n, 'm) build, builder_error, unit) loop_prog" where
  "reset_storage_stats = on_layer (\<lambda>_. map_err BBStorage (parent reset_stats))"

text \<open>A runtime call takes the prototype of the builder and leaves it the one it gave back.\<close>

definition builder_call ::
  "('v, 'p) vm_host \<Rightarrow> ('n, 'm) upstream \<Rightarrow> string \<Rightarrow> bytes \<Rightarrow>
     (('p, 'n, 'm) build, builder_error, call_result) loop_prog" where
  "builder_call H U fn args = (\<lambda>(bu, s).
     map_option (\<lambda>((r, proto), s'). (map_sum BExecutor (\<lambda>c. c) r, (bu\<lparr>bu_prototype := proto\<rparr>, s')))
       (call_with_prototype H U (bu_executor bu) (bu_prototype bu) fn args (builder_storage bu) s))"

definition apply_storage_diff ::
  "(bytes \<times> bytes option) list \<Rightarrow> (('p, 'n, 'm) build, builder_error, unit) loop_prog" where
  "apply_storage_diff d =
     (if d = [] then returns (ret ()) else on_layer (\<lambda>L. map_err BBStorage (set_batch L d)))"

section \<open>Prefetch\<close>

definition PREFETCH_PAGE_SIZE :: u32 where
  "PREFETCH_PAGE_SIZE = 200"

text \<open>The keys of the plain values of every pallet, and the prefix of every pallet with storage.\<close>

definition prefetch_targets :: "('n, 'm) substrate \<Rightarrow> 'm \<Rightarrow> bytes list \<times> bytes list" where
  "prefetch_targets B md =
     (concat (map (\<lambda>p. case pl_storage p of
         None \<Rightarrow> []
       | Some entries \<Rightarrow> map (\<lambda>e. storage_key B (pl_name p) (en_name e)) (filter en_plain entries))
         (sb_pallets B md)),
      List.map_filter (\<lambda>p. map_option (\<lambda>_. sb_twox_128 B (bytes_of_string (pl_name p))) (pl_storage p))
         (sb_pallets B md))"

text \<open>Every failure but that of the metadata is dropped. The scans run in the order of the pallets.\<close>

definition prefetch_block_building_storage ::
  "('n, 'm) upstream \<Rightarrow> ('n, 'm) substrate \<Rightarrow> block \<Rightarrow> (('n, 'm) fork, builder_error, unit) prog" where
  "prefetch_block_building_storage U B b =
     (let block_hash = first_forked_block_hash (blk_storage b) in
      bindE (map_err BBBlock (block_metadata U b)) (\<lambda>md.
      let (value_keys, pallet_prefixes) = prefetch_targets B md in
      bindE (ignore_errors (parent (remote_get_batch U block_hash value_keys))) (\<lambda>_.
      bindE (each (\<lambda>pre. ignore_errors
               (parent (prefetch_prefix_single_page U block_hash pre PREFETCH_PAGE_SIZE)))
               pallet_prefixes) (\<lambda>_.
      ret ()))))"

section \<open>Initialisation\<close>

definition initialize ::
  "('v, 'p) vm_host \<Rightarrow> ('n, 'm) upstream \<Rightarrow> ('n, 'm) substrate \<Rightarrow>
     (('p, 'n, 'm) build, builder_error, call_result) loop_prog" where
  "initialize H U B =
     bindL (builder_gets (\<lambda>bu. bu)) (\<lambda>bu.
     if bu_phase bu \<noteq> Created then returns (fail AlreadyInitialized)
     else
       bindL (if bu_skip_prefetch bu then returns (ret ())
              else on_parent (prefetch_block_building_storage U B)) (\<lambda>_.
       bindL reset_storage_stats (\<lambda>_.
       bindL (builder_call H U ''Core_initialize_block'' (bu_header bu)) (\<lambda>result.
       bindL (apply_storage_diff (cr_storage_diff result)) (\<lambda>_.
       bindL (builder_modify (\<lambda>bu. bu\<lparr>bu_phase := Initialized\<rparr>)) (\<lambda>_.
       returns (ret result)))))))"

section \<open>Inherents\<close>

text \<open>
  The message of an error, without what the errors of other components add to it. A panic of a
  provider is not caught.
\<close>

definition describe :: "builder_error \<Rightarrow> string" where
  "describe e = (case e of
     BExecutor _ \<Rightarrow> ''Executor error: ''
   | BBStorage _ \<Rightarrow> ''Storage error: ''
   | BBBlock _ \<Rightarrow> ''Block error: ''
   | BCodec m \<Rightarrow> ''Codec error: '' @ m
   | NotInitialized \<Rightarrow> ''Block not initialized - call initialize() first''
   | AlreadyInitialized \<Rightarrow> ''Block already initialized - initialize() can only be called once''
   | InherentsNotApplied \<Rightarrow> ''Inherents not applied - call apply_inherents() before apply_extrinsic()''
   | InherentsAlreadyApplied \<Rightarrow> ''Inherents already applied - apply_inherents() can only be called once''
   | AlreadyFinalized \<Rightarrow> ''Block already finalized''
   | InherentProviderFailed p m \<Rightarrow> ''Inherent provider `'' @ p @ ''` failed: '' @ m
   | BuilderPanic m \<Rightarrow> m)"

definition provider_failure :: "string \<Rightarrow> builder_error \<Rightarrow> builder_error" where
  "provider_failure provider_id e = (case e of
     BuilderPanic m \<Rightarrow> BuilderPanic m
   | _ \<Rightarrow> InherentProviderFailed provider_id (describe e))"

text \<open>All providers are asked, in their order, before any inherent is applied.\<close>

fun provide_all ::
  "('v, 'p) vm_host \<Rightarrow> ('n, 'm) upstream \<Rightarrow> ('n, 'm) substrate \<Rightarrow> 't relay_codec \<Rightarrow> block \<Rightarrow> executor \<Rightarrow>
     inherent_provider list \<Rightarrow> ('n, 'm) fork \<Rightarrow>
     ((builder_error + (string \<times> bytes list) list) \<times> inherent_provider list \<times> ('n, 'm) fork) option" where
  "provide_all H U B R b X [] s = Some (Inr [], [], s)"
| "provide_all H U B R b X (p # ps) s = (case provide H U B R b X p s of
     None \<Rightarrow> None
   | Some (Inl e, p', s1) \<Rightarrow> Some (Inl (provider_failure (provider_identifier p) e), p' # ps, s1)
   | Some (Inr xs, p', s1) \<Rightarrow> (case provide_all H U B R b X ps s1 of
       None \<Rightarrow> None
     | Some (Inl e, ps', s2) \<Rightarrow> Some (Inl e, p' # ps', s2)
     | Some (Inr rest, ps', s2) \<Rightarrow> Some (Inr ((provider_identifier p, xs) # rest), p' # ps', s2)))"

definition collect_inherents ::
  "('v, 'p) vm_host \<Rightarrow> ('n, 'm) upstream \<Rightarrow> ('n, 'm) substrate \<Rightarrow> 't relay_codec \<Rightarrow>
     (('p, 'n, 'm) build, builder_error, (string \<times> bytes list) list) loop_prog" where
  "collect_inherents H U B R = (\<lambda>(bu, s).
     map_option (\<lambda>(r, ps, s'). (r, (bu\<lparr>bu_providers := ps\<rparr>, s')))
       (provide_all H U B R (bu_parent bu) (bu_executor bu) (bu_providers bu) s))"

definition call_apply_extrinsic ::
  "('v, 'p) vm_host \<Rightarrow> ('n, 'm) upstream \<Rightarrow> bytes \<Rightarrow>
     (('p, 'n, 'm) build, builder_error, call_result) loop_prog" where
  "call_apply_extrinsic H U extrinsic = builder_call H U ''BlockBuilder_apply_extrinsic'' extrinsic"

text \<open>The output of an inherent must begin with two zero bytes.\<close>

definition dispatch_ok :: "bytes \<Rightarrow> bool" where
  "dispatch_ok output = (case output of b0 # b1 # _ \<Rightarrow> b0 = 0 \<and> b1 = 0 | _ \<Rightarrow> False)"

definition apply_inherent ::
  "('v, 'p) vm_host \<Rightarrow> ('n, 'm) upstream \<Rightarrow> ('n, 'm) substrate \<Rightarrow> string \<Rightarrow> bytes \<Rightarrow>
     (('p, 'n, 'm) build, builder_error, call_result) loop_prog" where
  "apply_inherent H U B provider_id inherent =
     bindL (call_apply_extrinsic H U inherent) (\<lambda>result.
     if \<not> dispatch_ok (cr_output result)
     then returns (fail (InherentProviderFailed provider_id
            (''Inherent dispatch failed: '' @ sb_hex B (cr_output result))))
     else
       bindL (apply_storage_diff (cr_storage_diff result)) (\<lambda>_.
       bindL (builder_modify (\<lambda>bu. bu\<lparr>bu_extrinsics := bu_extrinsics bu @ [inherent]\<rparr>)) (\<lambda>_.
       returns (ret result))))"

fun eachL :: "('a \<Rightarrow> ('s, 'e, 'b) loop_prog) \<Rightarrow> 'a list \<Rightarrow> ('s, 'e, 'b list) loop_prog" where
  "eachL f [] = returns (ret [])"
| "eachL f (x # xs) = bindL (f x) (\<lambda>y. bindL (eachL f xs) (\<lambda>ys. returns (ret (y # ys))))"

definition mock_relay_chain_inherent ::
  "('n, 'm) upstream \<Rightarrow> ('n, 'm) substrate \<Rightarrow> block \<Rightarrow> (('n, 'm) fork, builder_error, unit) prog" where
  "mock_relay_chain_inherent U B b =
     bindE (map_err BBBlock (block_metadata U b)) (\<lambda>md.
     if pallet_by_name B md PARA_INHERENT_PALLET = None then ret ()
     else map_err BBStorage (layer_set (blk_storage b) (para_inherent_included_key B) (Some [])))"

definition apply_inherents ::
  "('v, 'p) vm_host \<Rightarrow> ('n, 'm) upstream \<Rightarrow> ('n, 'm) substrate \<Rightarrow> 't relay_codec \<Rightarrow>
     (('p, 'n, 'm) build, builder_error, call_result list) loop_prog" where
  "apply_inherents H U B R =
     bindL (builder_gets bu_phase) (\<lambda>phase. case phase of
       Created \<Rightarrow> returns (fail NotInitialized)
     | InherentsApplied \<Rightarrow> returns (fail InherentsAlreadyApplied)
     | Initialized \<Rightarrow>
         bindL reset_storage_stats (\<lambda>_.
         bindL (collect_inherents H U B R) (\<lambda>all_inherents.
         bindL (eachL (\<lambda>(provider_id, inherent). apply_inherent H U B provider_id inherent)
                  (concat (map (\<lambda>(i, xs). map (Pair i) xs) all_inherents))) (\<lambda>results.
         bindL (on_parent (mock_relay_chain_inherent U B)) (\<lambda>_.
         bindL (builder_modify (\<lambda>bu. bu\<lparr>bu_phase := InherentsApplied\<rparr>)) (\<lambda>_.
         returns (ret results)))))))"

section \<open>Extrinsics\<close>

text \<open>
  What an extrinsic calls, for the log. The decoding reads the metadata of the parent, and its
  failure is dropped.
\<close>

record decoded_call =
  dc_pallet :: string
  dc_call :: string
  dc_args :: "(string \<times> string) list"

definition strip_compact_prefix :: "bytes \<Rightarrow> bytes option" where
  "strip_compact_prefix bs = (case bs of
     [] \<Rightarrow> None
   | b # _ \<Rightarrow>
       (let mode = unat b mod 4;
            n = (if mode = 0 then Some 1 else if mode = 1 then Some 2
                 else if mode = 2 then Some 4 else None)
        in case n of None \<Rightarrow> None
         | Some n \<Rightarrow> if n \<le> length bs then Some (drop n bs) else None))"

fun decode_args ::
  "(u32 \<Rightarrow> bytes \<Rightarrow> (string \<times> bytes) option) \<Rightarrow> (string option \<times> u32) list \<Rightarrow> bytes \<Rightarrow>
     ((string \<times> string) list \<times> bytes) option" where
  "decode_args show_arg [] cursor = Some ([], cursor)"
| "decode_args show_arg ((name, ty) # fs) cursor = (case show_arg ty cursor of
     None \<Rightarrow> None
   | Some (formatted, rest) \<Rightarrow> (case decode_args show_arg fs rest of
       None \<Rightarrow> None
     | Some (args, left) \<Rightarrow>
         Some (((case name of Some n \<Rightarrow> n | None \<Rightarrow> ''?''), formatted) # args, left)))"

definition try_decode_call ::
  "('n, 'm) substrate \<Rightarrow> 'm \<Rightarrow> u8 \<Rightarrow> u8 \<Rightarrow> bytes \<Rightarrow> decoded_call option" where
  "try_decode_call B md pallet_index call_index args_bytes =
     Option.bind (List.find (\<lambda>p. pl_index p = pallet_index) (sb_pallets B md)) (\<lambda>p.
     Option.bind (pl_calls p) (\<lambda>calls.
     Option.bind (List.find (\<lambda>v. cv_index v = call_index) calls) (\<lambda>v.
     Option.bind (decode_args (sb_show_arg B md) (cv_fields v) args_bytes) (\<lambda>(args, left).
     if left \<noteq> [] then None
     else Some \<lparr>dc_pallet = pl_name p, dc_call = cv_name v, dc_args = args\<rparr>))))"

definition MAX_EXT_SCAN :: nat where
  "MAX_EXT_SCAN = 30"

text \<open>The outcome of one offset: the scan ends with a call, goes on, or gives up on a short input.\<close>

definition call_at_offset ::
  "('n, 'm) substrate \<Rightarrow> 'm \<Rightarrow> bytes \<Rightarrow> nat \<Rightarrow> decoded_call option option" where
  "call_at_offset B md remaining offset =
     (if offset + 2 \<le> length remaining
      then Some (try_decode_call B md (remaining ! offset) (remaining ! (offset + 1))
                   (drop (offset + 2) remaining))
      else None)"

fun scan_offsets ::
  "(nat \<Rightarrow> decoded_call option option) \<Rightarrow> nat list \<Rightarrow> decoded_call option" where
  "scan_offsets look [] = None"
| "scan_offsets look (i # is) = (case look i of
     None \<Rightarrow> None
   | Some (Some c) \<Rightarrow> Some c
   | Some None \<Rightarrow> scan_offsets look is)"

definition signature_ends :: "bytes \<Rightarrow> nat \<Rightarrow> nat list" where
  "signature_ends remaining after_addr =
     (if after_addr < length remaining
      then (let v = remaining ! after_addr
            in if v = 0 \<or> v = 1 then [after_addr + 65] else if v = 2 then [after_addr + 66] else [])
      else []) @ [after_addr + 64]"

definition find_signed_call :: "('n, 'm) substrate \<Rightarrow> 'm \<Rightarrow> bytes \<Rightarrow> decoded_call option" where
  "find_signed_call B md remaining =
     (if length remaining \<le> 1 then None
      else
        let addr_variant = remaining ! 1;
            addr_data_len = (if addr_variant = 0 \<or> addr_variant = 3 then Some 32
              else if addr_variant = 4 then Some 20 else None)
        in case addr_data_len of
             None \<Rightarrow> None
           | Some n \<Rightarrow>
               scan_offsets (call_at_offset B md remaining)
                 (concat (map (\<lambda>ext_start.
                    [ext_start..<Suc (min (ext_start + MAX_EXT_SCAN) (length remaining - 2))])
                    (signature_ends remaining (1 + 1 + n)))))"

definition decode_extrinsic_call ::
  "('n, 'm) upstream \<Rightarrow> ('n, 'm) substrate \<Rightarrow> bytes \<Rightarrow> block \<Rightarrow>
     (('n, 'm) fork, builder_error, decoded_call option) prog" where
  "decode_extrinsic_call U B extrinsic b =
     bindE (ignore_errors (block_metadata U b)) (\<lambda>found.
     ret (Option.bind found (\<lambda>md.
     Option.bind (strip_compact_prefix extrinsic) (\<lambda>remaining. case remaining of
       [] \<Rightarrow> None
     | version_byte # rest \<Rightarrow>
         if unat version_byte div 128 = 0
         then (case rest of pi # ci # args \<Rightarrow> try_decode_call B md pi ci args | _ \<Rightarrow> None)
         else find_signed_call B md remaining))))"

definition apply_extrinsic ::
  "('v, 'p) vm_host \<Rightarrow> ('n, 'm) upstream \<Rightarrow> ('n, 'm) substrate \<Rightarrow> bytes \<Rightarrow>
     (('p, 'n, 'm) build, builder_error, apply_result) loop_prog" where
  "apply_extrinsic H U B extrinsic =
     bindL (builder_gets bu_phase) (\<lambda>phase. case phase of
       Created \<Rightarrow> returns (fail NotInitialized)
     | Initialized \<Rightarrow> returns (fail InherentsNotApplied)
     | InherentsApplied \<Rightarrow>
         bindL reset_storage_stats (\<lambda>_.
         bindL (call_apply_extrinsic H U extrinsic) (\<lambda>result.
         if (case cr_output result of b # _ \<Rightarrow> b = 0 | [] \<Rightarrow> False)
         then
           bindL (apply_storage_diff (cr_storage_diff result)) (\<lambda>_.
           bindL (on_parent (decode_extrinsic_call U B extrinsic)) (\<lambda>_.
           bindL (builder_modify (\<lambda>bu. bu\<lparr>bu_extrinsics := bu_extrinsics bu @ [extrinsic]\<rparr>)) (\<lambda>_.
           returns (ret (Success (length (cr_storage_diff result)))))))
         else returns (ret (DispatchFailed (''Dispatch failed: '' @ sb_hex B (cr_output result)))))))"

section \<open>The new block\<close>

definition register_new_metadata ::
  "('v, 'p) vm_host \<Rightarrow> ('n, 'm) upstream \<Rightarrow> ('n, 'm) substrate \<Rightarrow>
     (('p, 'n, 'm) build, builder_error, unit) loop_prog" where
  "register_new_metadata H U B =
     bindL (builder_gets (\<lambda>bu. current_block_number (builder_storage bu))) (\<lambda>n.
     bindL (builder_call H U ''Metadata_metadata'' []) (\<lambda>result.
     case sb_dec_opaque B (cr_output result) of
       Inl m \<Rightarrow> returns (fail (BCodec (''Failed to decode metadata wrapper: '' @ m)))
     | Inr metadata_bytes \<Rightarrow>
         (case sb_dec_metadata B metadata_bytes of
            Inl m \<Rightarrow> returns (fail (BCodec (''Failed to decode metadata: '' @ m)))
          | Inr new_metadata \<Rightarrow>
              on_layer (\<lambda>_. map_err BBStorage (register_metadata_version n new_metadata)))))"

text \<open>
  The block is given back with its parent as the commit left it (see \<open>child\<close>) and with the
  prototype.
\<close>

definition finalize ::
  "('v, 'p) vm_host \<Rightarrow> ('n, 'm) upstream \<Rightarrow> ('n, 'm) substrate \<Rightarrow>
     (('p, 'n, 'm) build, builder_error, block \<times> 'p option) loop_prog" where
  "finalize H U B =
     bindL (builder_gets bu_phase) (\<lambda>phase. case phase of
       Created \<Rightarrow> returns (fail NotInitialized)
     | Initialized \<Rightarrow> returns (fail InherentsNotApplied)
     | InherentsApplied \<Rightarrow>
         bindL reset_storage_stats (\<lambda>_.
         bindL (builder_call H U ''BlockBuilder_finalize_block'' []) (\<lambda>result.
         bindL (apply_storage_diff (cr_storage_diff result)) (\<lambda>_.
         bindL (on_parent (\<lambda>b. map_err BBStorage
                  (has_code_changed_at (blk_number b)))) (\<lambda>changed.
         bindL (if changed then register_new_metadata H U B else returns (ret ())) (\<lambda>_.
         let final_header = cr_output result;
             block_hash = H256 (sb_blake2_256 B final_header) in
         bindL (builder_gets bu_extrinsics) (\<lambda>extrinsics.
         bindL (on_parent (\<lambda>b. map_err BBBlock (child b block_hash final_header extrinsics))) (\<lambda>(new_block, b').
         bindL (builder_modify (\<lambda>bu. bu\<lparr>bu_parent := b'\<rparr>)) (\<lambda>_.
         bindL (builder_gets bu_prototype) (\<lambda>prototype.
         returns (ret (new_block, prototype))))))))))))"

definition runtime_upgraded :: "('p, 'n, 'm) build \<Rightarrow> bool" where
  "runtime_upgraded = (\<lambda>(bu, s).
     case has_code_changed_at (current_block_number (builder_storage bu)) s of
       (Inr changed, _) \<Rightarrow> changed | (Inl (_ :: local_error), _) \<Rightarrow> False)"

end
