(* ===== verification/Keeps.thy ===== *)
theory Keeps
  imports Prelude
begin

text \<open>
  What a program leaves alone. \<open>keeps R m\<close>: every run of \<open>m\<close> that returns relates its first and
  its last state by \<open>R\<close>. For a preorder \<open>R\<close> the programs that keep it are closed under the
  constructors of programs, which the locale \<open>frame\<close> states once.
\<close>

section \<open>Programs that keep a relation\<close>

definition keeps :: "('s \<Rightarrow> 's \<Rightarrow> bool) \<Rightarrow> ('s, 'e, 'a) loop_prog \<Rightarrow> bool" where
  "keeps R m \<longleftrightarrow> (\<forall>s r s'. m s = Some (r, s') \<longrightarrow> R s s')"

named_theorems frame_intros \<open>programs that keep a relation\<close>

lemma keepsI: "(\<And>s r s'. m s = Some (r, s') \<Longrightarrow> R s s') \<Longrightarrow> keeps R m"
  unfolding keeps_def by blast

lemma keepsD: "keeps R m \<Longrightarrow> m s = Some (r, s') \<Longrightarrow> R s s'"
  unfolding keeps_def by blast

lemma keeps_returnsD: "keeps R (returns m) \<Longrightarrow> m s = (r, s') \<Longrightarrow> R s s'"
  by (simp add: keeps_def returns_def)

lemma keeps_returns: "(\<And>s. R s (snd (m s))) \<Longrightarrow> keeps R (returns m)"
  by (auto simp: keeps_def returns_def) (metis snd_conv)

lemma keeps_if [frame_intros]:
  "(b \<Longrightarrow> keeps R m) \<Longrightarrow> (\<not> b \<Longrightarrow> keeps R m') \<Longrightarrow> keeps R (if b then m else m')"
  by simp

lemma keeps_if_returns [frame_intros]:
  "(b \<Longrightarrow> keeps R (returns m)) \<Longrightarrow> (\<not> b \<Longrightarrow> keeps R (returns m')) \<Longrightarrow>
     keeps R (returns (if b then m else m'))"
  by simp

lemma keeps_case [frame_intros]:
  "(x = None \<Longrightarrow> keeps R m) \<Longrightarrow> (\<And>y. x = Some y \<Longrightarrow> keeps R (f y)) \<Longrightarrow>
     keeps R (case x of None \<Rightarrow> m | Some y \<Rightarrow> f y)"
  "(\<And>a b. p = (a, b) \<Longrightarrow> keeps R (g a b)) \<Longrightarrow> keeps R (case p of (a, b) \<Rightarrow> g a b)"
  "(\<And>a. z = Inl a \<Longrightarrow> keeps R (k a)) \<Longrightarrow> (\<And>b. z = Inr b \<Longrightarrow> keeps R (l b)) \<Longrightarrow>
     keeps R (case z of Inl a \<Rightarrow> k a | Inr b \<Rightarrow> l b)"
  by (auto split: option.split prod.split sum.split)

lemma keeps_case_returns [frame_intros]:
  "(x = None \<Longrightarrow> keeps R (returns m)) \<Longrightarrow> (\<And>y. x = Some y \<Longrightarrow> keeps R (returns (f y))) \<Longrightarrow>
     keeps R (returns (case x of None \<Rightarrow> m | Some y \<Rightarrow> f y))"
  "(\<And>a b. p = (a, b) \<Longrightarrow> keeps R (returns (g a b))) \<Longrightarrow>
     keeps R (returns (case p of (a, b) \<Rightarrow> g a b))"
  "(\<And>a. z = Inl a \<Longrightarrow> keeps R (returns (k a))) \<Longrightarrow> (\<And>b. z = Inr b \<Longrightarrow> keeps R (returns (l b))) \<Longrightarrow>
     keeps R (returns (case z of Inl a \<Rightarrow> k a | Inr b \<Rightarrow> l b))"
  by (auto split: option.split prod.split sum.split)

locale frame =
  fixes R :: "'s \<Rightarrow> 's \<Rightarrow> bool"
  assumes refl: "R s s"
    and trans: "R s t \<Longrightarrow> R t u \<Longrightarrow> R s u"
begin

lemma pure [frame_intros]:
  "keeps R (returns (ret x))" "keeps R (returns (fail e))" "keeps R (returns (gets f))"
  "keeps R (returns (lift_sum r))"
  by (simp_all add: keeps_def prog_simps refl)

lemma bindL [frame_intros]: "keeps R m \<Longrightarrow> (\<And>x. keeps R (f x)) \<Longrightarrow> keeps R (bindL m f)"
  unfolding keeps_def by (fastforce simp: prog_simps dest: trans split: option.splits prod.splits sum.splits)

lemma map_errL [frame_intros]: "keeps R m \<Longrightarrow> keeps R (map_errL g m)"
  unfolding keeps_def by (auto simp: prog_simps split: option.splits prod.splits sum.splits)

lemma bindE [frame_intros]:
  "keeps R (returns m) \<Longrightarrow> (\<And>x. keeps R (returns (f x))) \<Longrightarrow> keeps R (returns (bindE m f))"
  unfolding keeps_def by (fastforce simp: prog_simps dest: trans split: prod.splits sum.splits)

lemma matchE:
  "keeps R (returns m) \<Longrightarrow> (\<And>e. keeps R (returns (h e))) \<Longrightarrow> (\<And>x. keeps R (returns (f x))) \<Longrightarrow>
     keeps R (returns (matchE m h f))"
  unfolding keeps_def by (fastforce simp: prog_simps dest: trans split: prod.splits sum.splits)

lemma map_err [frame_intros]: "keeps R (returns m) \<Longrightarrow> keeps R (returns (map_err g m))"
  unfolding keeps_def by (auto simp: prog_simps split: prod.splits sum.splits)

lemma each [frame_intros]:
  "(\<And>x. keeps R (returns (f x))) \<Longrightarrow> keeps R (returns (each f xs))"
  by (induction xs) (simp_all add: pure bindE)

end

end
