(* ===== verification/Frames.thy ===== *)
theory Frames
  imports Substrate Keeps
begin

text \<open>
  The frames of the fork: interpretations of the locale \<open>frame\<close> on what a fork, a provider with its
  fork and a builder with its fork are left with, and runs that may not return.
\<close>

context frame begin

lemma ignore_errors [frame_intros]: "keeps R (returns m) \<Longrightarrow> keeps R (returns (ignore_errors m))"
  unfolding ignore_errors_def by (rule matchE) (simp_all add: pure)

end

section \<open>Runs that return\<close>

text \<open>
  \<open>wlp m Q E s\<close>: if \<open>m\<close> returns from \<open>s\<close>, it is with a value in \<open>Q\<close> or an error in \<open>E\<close>. It is
  what can be said of programs that call the runtime, which may not return.
\<close>

definition wlp ::
  "('s, 'e, 'a) loop_prog \<Rightarrow> ('a \<Rightarrow> 's \<Rightarrow> bool) \<Rightarrow> ('e \<Rightarrow> 's \<Rightarrow> bool) \<Rightarrow> 's \<Rightarrow> bool" where
  "wlp l Q E s \<longleftrightarrow>
     (case l s of None \<Rightarrow> True | Some (Inr x, s') \<Rightarrow> Q x s' | Some (Inl e, s') \<Rightarrow> E e s')"

lemma wlpI:
  "(\<And>x s'. l s = Some (Inr x, s') \<Longrightarrow> Q x s') \<Longrightarrow> (\<And>e s'. l s = Some (Inl e, s') \<Longrightarrow> E e s') \<Longrightarrow>
     wlp l Q E s"
  by (auto simp: wlp_def split: option.splits prod.splits sum.splits)

lemma wlp_Inr: "wlp l Q E s \<Longrightarrow> l s = Some (Inr x, s') \<Longrightarrow> Q x s'"
  by (simp add: wlp_def)

lemma wlp_Inl: "wlp l Q E s \<Longrightarrow> l s = Some (Inl e, s') \<Longrightarrow> E e s'"
  by (simp add: wlp_def)

lemma wlp_mono:
  "wlp l Q E s \<Longrightarrow> (\<And>x s'. Q x s' \<Longrightarrow> Q' x s') \<Longrightarrow> (\<And>e s'. E e s' \<Longrightarrow> E' e s') \<Longrightarrow> wlp l Q' E' s"
  by (auto simp: wlp_def split: option.splits prod.splits sum.splits)

lemma wlp_returns: "wp m Q E s \<Longrightarrow> wlp (returns m) Q E s"
  by (auto simp: wlp_def wp_def returns_def split: prod.splits sum.splits)

lemma wlp_pure:
  "Q x s \<Longrightarrow> wlp (returns (ret x)) Q E s" "E e s \<Longrightarrow> wlp (returns (fail e)) Q E s"
  "Q (f s) s \<Longrightarrow> wlp (returns (gets f)) Q E s"
  by (simp_all add: wlp_def prog_simps)

lemma wlp_bindL: "wlp l (\<lambda>x. wlp (f x) Q E) E s \<Longrightarrow> wlp (bindL l f) Q E s"
  by (auto simp: wlp_def bindL_def split: option.splits prod.splits sum.splits)

lemma wlp_keeps:
  "keeps R l \<Longrightarrow> (\<And>x s'. R s s' \<Longrightarrow> Q x s') \<Longrightarrow> (\<And>e s'. R s s' \<Longrightarrow> E e s') \<Longrightarrow> wlp l Q E s"
  by (rule wlpI) (auto dest: keepsD)

lemma wlp_if:
  "(b \<Longrightarrow> wlp m Q E s) \<Longrightarrow> (\<not> b \<Longrightarrow> wlp m' Q E s) \<Longrightarrow> wlp (if b then m else m') Q E s"
  by simp

section \<open>The frame of a fork\<close>

text \<open>A quiet program keeps the invariant of the fork and everything that a read can see.\<close>

definition quiet :: "('n, 'm) upstream \<Rightarrow> chain \<Rightarrow> layer \<Rightarrow> ('n, 'm) fork \<Rightarrow> ('n, 'm) fork \<Rightarrow> bool" where
  "quiet U C L s s' \<longleftrightarrow> (fork_inv U C L s \<longrightarrow> fork_inv U C L s' \<and> same_fork s s')"

interpretation quiet: frame "quiet U C L" for U C L
  by unfold_locales (auto simp: quiet_def intro: same_fork_trans)

lemma quietI:
  assumes "\<And>s. fork_inv U C L s \<Longrightarrow>
    wp m (\<lambda>_ s'. fork_inv U C L s' \<and> same_fork s s') (\<lambda>_ s'. fork_inv U C L s' \<and> same_fork s s') s"
  shows "keeps (quiet U C L) (returns m)"
proof (rule keeps_returns)
  show "quiet U C L s (snd (m s))" for s
    using assms [of s] by (cases "m s"; cases "fst (m s)") (simp_all add: quiet_def wp_def)
qed

lemma quiet_layer_get [frame_intros]: "keeps (quiet U C L) (returns (layer_get U L n k))"
  by (rule quietI, rule wp_layer_get) simp_all

lemma quiet_on_rpc [frame_intros]: "keeps (quiet U C L) (returns (on_rpc m))"
proof (rule quietI)
  fix s
  assume inv: "fork_inv U C L s"
  have "fork_inv U C L (s\<lparr>f_remote := (f_remote s)\<lparr>r_net := n\<rparr>\<rparr>) \<and>
      same_fork s (s\<lparr>f_remote := (f_remote s)\<lparr>r_net := n\<rparr>\<rparr>)" for n
    by (rule fork_inv_remote [OF inv]) (use inv in \<open>simp add: fork_inv_def remote_inv_def\<close>)
  then show "wp (on_rpc m) (\<lambda>_ s'. fork_inv U C L s' \<and> same_fork s s')
      (\<lambda>_ s'. fork_inv U C L s' \<and> same_fork s s') s"
    by (simp add: on_rpc_def wp_def prog_simps split: prod.splits sum.splits)
qed

lemma quiet_lock [frame_intros]: "keeps (quiet U C L) (returns (lock p))"
  unfolding lock_def by (intro frame_intros quiet.bindE quiet.pure)

lemma quiet_metadata_at [frame_intros]: "keeps (quiet U C L) (returns (metadata_at U M n))"
  unfolding metadata_at_def fetch_remote_metadata_def
  by (intro frame_intros quiet.bindE quiet.pure)

lemma quiet_clock [frame_intros]: "keeps (quiet U C L) (returns (read_clock B))"
  by (rule quietI, rule wp_read_clock) simp_all

lemma quiet_call:
  "call_with_prototype H U X proto fn args L s = Some (r, s') \<Longrightarrow> quiet U C L s s'"
  by (cases r) (auto simp: quiet_def dest: call_keeps)

lemma quiet_executor_call [frame_intros]: "keeps (quiet U C L) (executor_call H U X fn args L)"
  by (rule keepsI) (auto simp: executor_call_def intro: quiet_call)

text \<open>The frame of a pair whose second part is a fork.\<close>

definition quiet_snd :: "('n, 'm) upstream \<Rightarrow> chain \<Rightarrow> layer \<Rightarrow> 't \<times> ('n, 'm) fork \<Rightarrow> 't \<times> ('n, 'm) fork \<Rightarrow> bool" where
  "quiet_snd U C L p p' \<longleftrightarrow> quiet U C L (snd p) (snd p')"

interpretation quiet_snd: frame "quiet_snd U C L" for U C L
  by unfold_locales (auto simp: quiet_snd_def quiet.refl intro: quiet.trans)

lemma quiet_on_snd [frame_intros]: "keeps (quiet U C L) m \<Longrightarrow> keeps (quiet_snd U C L) (on_snd m)"
  by (auto simp: keeps_def on_snd_def quiet_snd_def on_fieldL_apply split: option.splits)

end
