(* ===== verification/Builder_Laws.thy ===== *)
theory Builder_Laws
  imports Block_Builder Frames
begin

text \<open>
  What the operations of the block builder do to the fork: a call changes nothing, a storage
  diff overrides the head, and everything else is a read.
\<close>

section \<open>Quiet operations\<close>

lemma quiet_block_metadata [frame_intros]: "keeps (quiet U C L) (returns (block_metadata U b))"
  unfolding block_metadata_def by (intro frame_intros quiet.map_err)

lemma quiet_parent_timestamp [frame_intros]:
  "blk_storage b = L \<Longrightarrow> keeps (quiet U C L) (returns (parent_timestamp U B b))"
  unfolding parent_timestamp_def by (auto intro!: frame_intros quiet.bindE quiet.map_err quiet.pure)

lemma quiet_slot_duration [frame_intros]:
  "keeps (quiet U C L) (slot_duration_from_runtime H U B X L md fallback)"
proof (rule keepsI)
  fix s r s'
  assume "slot_duration_from_runtime H U B X L md fallback s = Some (r, s')"
  then obtain r' where "executor_call H U X ''AuraApi_slot_duration'' [] L s = Some (r', s')"
    by (auto simp: slot_duration_from_runtime_def split: option.splits)
  then show "quiet U C L s s'" using keepsD [OF quiet_executor_call] by blast
qed

lemma quiet_cache_duration [frame_intros]:
  "keeps (quiet U C L) m \<Longrightarrow> keeps (quiet_snd U C L) (cache_duration m)"
  unfolding cache_duration_def
  by (intro quiet_snd.bindL quiet_on_snd quiet_snd.pure)
    (auto simp: keeps_def prog_simps quiet_snd_def quiet.refl split: prod.splits)

lemma quiet_slot_in_use [frame_intros]:
  "keeps (quiet_snd U C L) (slot_duration_in_use H U B X L md)"
  unfolding slot_duration_in_use_def
  by (intro frame_intros quiet_snd.bindL quiet_snd.pure)

lemma quiet_timestamp_provide [frame_intros]:
  "blk_storage b = L \<Longrightarrow> keeps (quiet_snd U C L) (timestamp_provide H U B b X)"
  unfolding timestamp_provide_def Let_def
  by (auto intro!: frame_intros quiet_snd.bindL quiet_snd.pure quiet.map_err)

lemma quiet_timestamp_warmup [frame_intros]:
  "blk_storage b = L \<Longrightarrow> keeps (quiet_snd U C L) (timestamp_warmup H U B b X)"
  unfolding timestamp_warmup_def
  by (auto intro!: frame_intros quiet_snd.bindL quiet_snd.pure quiet.ignore_errors)

lemma quiet_parachain_provide [frame_intros]:
  "blk_storage b = L \<Longrightarrow> keeps (quiet U C L) (returns (parachain_provide U B R b))"
  unfolding parachain_provide_def read_parachain_id_def
  by (auto intro!: frame_intros quiet.bindE quiet.pure quiet.map_err quiet.ignore_errors)

lemma quiet_on_timestamp:
  assumes "keeps (quiet_snd U C L) m" and "on_timestamp m ti s = Some (r, p, s')"
  shows "quiet U C L s s'"
  using assms(2) keepsD [OF assms(1), of "(ti, s)"] by (auto simp: on_timestamp_def quiet_snd_def)

lemma quiet_provide:
  assumes "provide H U B R b X p s = Some (r, p', s')"
  shows "quiet U C (blk_storage b) s s'"
proof (cases p)
  case (TimestampProvider ti)
  with assms show ?thesis
    by (simp add: provide_def quiet_on_timestamp [OF quiet_timestamp_provide])
next
  case ParachainProvider
  with assms have "returns (parachain_provide U B R b) s = Some (r, s')"
    by (simp add: provide_def prog_simps split: prod.splits)
  then show ?thesis using keepsD [OF quiet_parachain_provide] by blast
qed

lemma quiet_warmup:
  assumes "warmup_provider H U B b X p s = Some (r, p', s')"
  shows "quiet U C (blk_storage b) s s'"
  using assms
  by (cases p) (auto simp: warmup_provider_def quiet.refl intro: quiet_on_timestamp [OF quiet_timestamp_warmup])

lemma quiet_provide_all:
  assumes "provide_all H U B R b X ps s = Some (r, ps', s')"
  shows "quiet U C (blk_storage b) s s' \<and> map provider_identifier ps' = map provider_identifier ps"
proof -
  have same: "provider_identifier p' = provider_identifier p"
    if "provide H U B R b X p s = Some (r, p', s')" for p p' r s s'
    using that by (cases p) (auto simp: provide_def provider_identifier_def on_timestamp_def split: prod.splits)
  show ?thesis
    using assms
    by (induction ps arbitrary: s r ps' s')
      (auto simp: same quiet.refl split: option.splits prod.splits sum.splits
        dest!: quiet_provide intro: quiet.trans)
qed

lemma quiet_prefetch [frame_intros]:
  "keeps (quiet U C L) (returns (prefetch_block_building_storage U B b))"
proof -
  have batch: "keeps (quiet U C L) (returns (parent (remote_get_batch U h ks)))" for h ks
    by (rule quietI, rule wp_parent_get_batch) simp_all
  have page: "keeps (quiet U C L) (returns (parent (prefetch_prefix_single_page U h pre PREFETCH_PAGE_SIZE)))"
    for h pre
    by (rule quietI, rule wp_parent [where P = "\<lambda>_. True"])
      (auto intro!: wp_single_page simp: PREFETCH_PAGE_SIZE_def)
  show ?thesis
    unfolding prefetch_block_building_storage_def Let_def
    by (intro frame_intros quiet.bindE quiet.pure quiet.map_err quiet.ignore_errors quiet.each batch page)
qed

lemma quiet_reset_stats [frame_intros]: "keeps (quiet U C L) (returns (parent reset_stats))"
  by (rule quietI, rule wp_parent [where P = "\<lambda>_. True"])
    (auto simp: reset_stats_def remote_inv_def wp_def prog_simps)

lemma quiet_decode [frame_intros]: "keeps (quiet U C L) (returns (decode_extrinsic_call U B x b))"
  unfolding decode_extrinsic_call_def by (intro frame_intros quiet.bindE quiet.pure quiet.ignore_errors)

section \<open>Storage diffs\<close>

lemma put_all_simps [simp]:
  "put_all n [] s = s" "put_all n ((k, v) # kvs) s = put_all n kvs (put_modification n k v s)"
  by (simp_all add: put_all_def)

lemma set_batch_run:
  "fork_inv U C L s \<Longrightarrow> set_batch L kvs s = (Inr (), put_all (current_block_number L) kvs s)"
  by (simp add: set_batch_def lock_def prog_simps fork_inv_def put_all_def)

lemma put_all_fork_inv: "fork_inv U C L s \<Longrightarrow> fork_inv U C L (put_all n kvs s)"
  by (induction kvs arbitrary: s) (auto simp: fork_inv_put)

lemma put_all_history_inv:
  "history_inv L s \<Longrightarrow> first_forked_block_number L < current_block_number L \<Longrightarrow>
     history_inv L (put_all (current_block_number L) kvs s)"
  by (induction kvs arbitrary: s) (auto simp: history_inv_put)

lemma put_all_frame [simp]:
  "f_remote (put_all n kvs s) = f_remote s" "deleted_prefixes (put_all n kvs s) = deleted_prefixes s"
  "metadata_versions (put_all n kvs s) = metadata_versions s"
  by (induction kvs arbitrary: s) auto

text \<open>The later entry of a key wins.\<close>

lemma put_all_head:
  "layer_value L C (put_all (current_block_number L) kvs s) (current_block_number L) k =
     (case map_of (rev kvs) k of Some v \<Rightarrow> v | None \<Rightarrow> layer_value L C s (current_block_number L) k)"
proof (induction kvs arbitrary: s)
  case (Cons kv kvs)
  obtain k' v where kv: "kv = (k', v)" by fastforce
  have "layer_value L C (put_modification (current_block_number L) k' v s) (current_block_number L) k =
      (if k = k' then v else layer_value L C s (current_block_number L) k)"
    unfolding layer_value_def beyond_value_put by (simp add: local_modification_def)
  with Cons [of "put_modification (current_block_number L) k' v s"] show ?case
    by (auto simp: kv map_add_def split: option.splits)
qed simp

section \<open>Writes of the head\<close>

text \<open>
  \<open>clean\<close>: nothing was injected at the fork point and no prefix deleted. Only then do writes of
  the head leave the blocks before it as they were.
\<close>

definition clean :: "layer \<Rightarrow> ('n, 'm) fork \<Rightarrow> bool" where
  "clean L s \<longleftrightarrow> deleted_prefixes s = [] \<and> (\<forall>k. \<not> injected L s k)"

definition overridden :: "(bytes \<times> bytes option) list \<Rightarrow> (bytes \<Rightarrow> bytes option) \<Rightarrow> bytes \<Rightarrow> bytes option" where
  "overridden d f k = (case map_of (rev d) k of Some v \<Rightarrow> v | None \<Rightarrow> f k)"

lemma overridden_simps [simp]:
  "overridden [] f = f" "overridden (d @ d') f = overridden d' (overridden d f)"
  by (auto simp: overridden_def fun_eq_iff map_add_def split: option.splits)

text \<open>
  \<open>writes U C L d s s'\<close>: between the two states the fork was read, and the changes \<open>d\<close> were
  written to its head in their order.
\<close>

definition writes ::
  "('n, 'm) upstream \<Rightarrow> chain \<Rightarrow> layer \<Rightarrow> (bytes \<times> bytes option) list \<Rightarrow> ('n, 'm) fork \<Rightarrow> ('n, 'm) fork \<Rightarrow> bool" where
  "writes U C L d s s' \<longleftrightarrow> (fork_inv U C L s \<longrightarrow>
     fork_inv U C L s' \<and> (history_inv L s \<longrightarrow> history_inv L s') \<and>
     layer_value L C s' (current_block_number L) = overridden d (layer_value L C s (current_block_number L)) \<and>
     (history_inv L s \<and> clean L s \<longrightarrow> clean L s' \<and>
       (\<forall>n < current_block_number L. layer_value L C s' n = layer_value L C s n)))"

lemma writes_quiet: "quiet U C L s s' \<Longrightarrow> writes U C L [] s s'"
  by (auto simp: writes_def quiet_def layer_value_same history_inv_same)
    (auto simp: clean_def same_fork_def injected_def)

lemma writes_trans: "writes U C L d s t \<Longrightarrow> writes U C L d' t u \<Longrightarrow> writes U C L (d @ d') s u"
  by (auto simp: writes_def)

lemma writes_put: "writes U C L [(k, v)] s (put_modification (current_block_number L) k v s)"
proof -
  have head: "layer_value L C (put_all (current_block_number L) [(k, v)] s) (current_block_number L) =
      overridden [(k, v)] (layer_value L C s (current_block_number L))"
    by (intro ext) (simp only: put_all_head overridden_def)
  have past: "layer_value L C (put_modification (current_block_number L) k v s) n = layer_value L C s n"
    if "history_inv L s" "clean L s" "n < current_block_number L" for n
    by (intro ext, subst layer_value_put [OF that(1)])
      (use that in \<open>auto simp: clean_def under_deleted_def\<close>)
  have "clean L (put_modification (current_block_number L) k v s)"
    if "clean L s" "fork_inv U C L s"
    using that initial_le_first [of L] by (auto simp: clean_def injected_def fork_inv_def)
  with head past show ?thesis
    by (auto simp: writes_def fork_inv_put intro: history_inv_put) (simp add: fork_inv_def history_inv_put)
qed

lemma writes_put_all: "writes U C L d s (put_all (current_block_number L) d s)"
proof (induction d arbitrary: s)
  case Nil
  then show ?case by (simp add: writes_quiet quiet.refl)
next
  case (Cons kv d)
  obtain k v where "kv = (k, v)" by fastforce
  with writes_trans [OF writes_put Cons] show ?case by simp
qed

section \<open>The frame of a builder\<close>

definition same_builder :: "'p builder \<Rightarrow> 'p builder \<Rightarrow> bool" where
  "same_builder bu bu' \<longleftrightarrow> bu_parent bu' = bu_parent bu \<and> bu_executor bu' = bu_executor bu \<and>
     bu_header bu' = bu_header bu \<and> bu_phase bu' = bu_phase bu \<and> bu_extrinsics bu' = bu_extrinsics bu \<and>
     bu_skip_prefetch bu' = bu_skip_prefetch bu"

lemma same_builder_refl [simp]: "same_builder bu bu"
  by (simp add: same_builder_def)

fun quiet_build :: "('n, 'm) upstream \<Rightarrow> chain \<Rightarrow> ('p, 'n, 'm) build \<Rightarrow> ('p, 'n, 'm) build \<Rightarrow> bool" where
  "quiet_build U C (bu, s) (bu', s') \<longleftrightarrow> same_builder bu bu' \<and> quiet U C (builder_storage bu) s s'"

interpretation quiet_build: frame "quiet_build U C" for U C
proof
  show "quiet_build U C s s" for s :: "('p, 'a, 'b) build"
    by (cases s) (simp add: quiet.refl)
  show "quiet_build U C s t \<Longrightarrow> quiet_build U C t u \<Longrightarrow> quiet_build U C s u" for s t u :: "('p, 'a, 'b) build"
    by (cases s; cases t; cases u) (auto simp: same_builder_def builder_storage_def intro: quiet.trans)
qed

lemma quiet_builder_call [frame_intros]: "keeps (quiet_build U C) (builder_call H U fn args)"
  by (rule keepsI) (auto simp: builder_call_def same_builder_def dest: quiet_call)

lemma quiet_builder_gets [frame_intros]: "keeps (quiet_build U C) (builder_gets f)"
  unfolding builder_gets_def by (rule quiet_build.pure)

lemma quiet_on_parent [frame_intros]:
  assumes "\<And>b L. blk_storage b = L \<Longrightarrow> keeps (quiet U C L) (returns (m b))"
  shows "keeps (quiet_build U C) (on_parent m)"
  by (rule keepsI)
    (auto simp: on_parent_def on_snd_def prog_simps builder_storage_def split: prod.splits
      dest: keeps_returnsD [OF assms [OF refl]])

lemma quiet_on_layer [frame_intros]:
  assumes "\<And>L. keeps (quiet U C L) (returns (m L))"
  shows "keeps (quiet_build U C) (on_layer m)"
  by (rule keepsI)
    (auto simp: on_layer_def on_snd_def prog_simps split: prod.splits dest: keeps_returnsD [OF assms])

lemma quiet_reset_storage_stats [frame_intros]: "keeps (quiet_build U C) reset_storage_stats"
  unfolding reset_storage_stats_def by (intro frame_intros quiet.map_err)

lemma quiet_collect [frame_intros]: "keeps (quiet_build U C) (collect_inherents H U B R)"
  by (rule keepsI) (auto simp: collect_inherents_def same_builder_def builder_storage_def dest!: quiet_provide_all)

lemma quiet_build_writes:
  "quiet_build U C (bu, s) (bu', s') \<Longrightarrow> same_builder bu bu' \<and> writes U C (builder_storage bu) [] s s'"
  by (simp add: writes_quiet)

lemma apply_diff_run:
  "fork_inv U C (builder_storage bu) s \<Longrightarrow> apply_storage_diff d (bu, s) =
     Some (Inr (), (bu, put_all (current_block_number (builder_storage bu)) d s))"
  by (simp add: apply_storage_diff_def on_layer_def on_snd_def prog_simps set_batch_run)

lemma bindL_Some:
  "bindL m f s = Some (r, s'') \<longleftrightarrow>
     (\<exists>e. m s = Some (Inl e, s'') \<and> r = Inl e) \<or> (\<exists>x s'. m s = Some (Inr x, s') \<and> f x s' = Some (r, s''))"
  by (auto simp: bindL_def split: option.splits prod.splits sum.splits)

lemma returns_Some: "returns m s = Some (r, s') \<longleftrightarrow> m s = (r, s')"
  by (simp add: returns_def)

section \<open>The operations\<close>

text \<open>
  The rules of the operations relate a state \<open>(bu, s)\<close> of the builder to the one after. \<open>built\<close>:
  the changes \<open>d\<close> were written, and of the builder only the phase, the extrinsics, the providers
  and the prototype may have changed.
\<close>

definition built ::
  "('n, 'm) upstream \<Rightarrow> chain \<Rightarrow> (bytes \<times> bytes option) list \<Rightarrow> 'p builder \<Rightarrow> ('n, 'm) fork \<Rightarrow>
     'p builder \<Rightarrow> ('n, 'm) fork \<Rightarrow> bool" where
  "built U C d bu s bu' s' \<longleftrightarrow> bu_parent bu' = bu_parent bu \<and> writes U C (builder_storage bu) d s s'"

lemma built_quiet: "quiet_build U C (bu, s) (bu', s') \<Longrightarrow> built U C [] bu s bu' s'"
  by (auto simp: built_def same_builder_def writes_quiet)

lemma quiet_buildD:
  "quiet_build U C (bu, s) (bu', s') \<Longrightarrow> bu_phase bu' = bu_phase bu \<and> bu_parent bu' = bu_parent bu \<and>
     bu_extrinsics bu' = bu_extrinsics bu \<and> built U C [] bu s bu' s'"
  by (auto simp: built_def same_builder_def writes_quiet)

lemma built_trans:
  "built U C d bu s bu' s' \<Longrightarrow> built U C d' bu' s' bu'' s'' \<Longrightarrow> built U C (d @ d') bu s bu'' s''"
  by (auto simp: built_def builder_storage_def intro: writes_trans)

lemma built_inv:
  "built U C d bu s bu' s' \<Longrightarrow> fork_inv U C (builder_storage bu) s \<Longrightarrow> fork_inv U C (builder_storage bu') s'"
  by (simp add: built_def builder_storage_def writes_def)

lemma built_put:
  "built U C d bu s (bu\<lparr>bu_phase := ph, bu_extrinsics := xs\<rparr>) (put_all (current_block_number (builder_storage bu)) d s)"
  by (simp add: built_def writes_put_all)

lemma wlp_quiet:
  assumes "keeps (quiet_build U C) l" and "quiet_build U C p (bu, s)"
    and "\<And>x bu' s'. quiet_build U C p (bu', s') \<Longrightarrow> Q x (bu', s')"
    and "\<And>e bu' s'. quiet_build U C p (bu', s') \<Longrightarrow> E e (bu', s')"
  shows "wlp l Q E (bu, s)"
  by (rule wlp_keeps [OF assms(1)]) (use assms(3,4) quiet_build.trans [OF assms(2)] in force)+

text \<open>
  The runtime answered \<open>c\<close> to a call, asked over a state that reads as \<open>s\<close>.
\<close>

definition answered ::
  "('v, 'p) vm_host \<Rightarrow> ('n, 'm) upstream \<Rightarrow> chain \<Rightarrow> 'p builder \<Rightarrow> ('n, 'm) fork \<Rightarrow> string \<Rightarrow> bytes \<Rightarrow>
     call_result \<Rightarrow> bool" where
  "answered H U C bu s fn args c \<longleftrightarrow> (\<exists>proto r t t'. quiet U C (builder_storage bu) s t \<and>
     call_with_prototype H U (bu_executor bu) proto fn args (builder_storage bu) t = Some ((Inr c, r), t'))"

lemma map_sum_cases:
  "map_sum f g r = Inl e \<longleftrightarrow> (\<exists>x. r = Inl x \<and> e = f x)" "map_sum f g r = Inr y \<longleftrightarrow> (\<exists>x. r = Inr x \<and> y = g x)"
  by (cases r; auto)+

lemma wlp_call:
  assumes start: "quiet_build U C (bu, s) (bu1, s1)"
    and "\<And>c bu' s'. quiet_build U C (bu, s) (bu', s') \<Longrightarrow> answered H U C bu s fn args c \<Longrightarrow> Q c (bu', s')"
    and "\<And>x bu' s'. quiet_build U C (bu, s) (bu', s') \<Longrightarrow> E (BExecutor x) (bu', s')"
  shows "wlp (builder_call H U fn args) Q E (bu1, s1)"
proof (rule wlpI)
  have next_state: "\<exists>bu' s'. q = (bu', s') \<and> quiet_build U C (bu, s) (bu', s')"
    if "builder_call H U fn args (bu1, s1) = Some (r, q)" for r q
    using quiet_build.trans [OF start keepsD [OF quiet_builder_call that]] by (cases q) simp
  show "Q c q" if run: "builder_call H U fn args (bu1, s1) = Some (Inr c, q)" for c q
  proof -
    have "bu_executor bu1 = bu_executor bu" "builder_storage bu1 = builder_storage bu"
      "quiet U C (builder_storage bu) s s1"
      using start by (simp_all add: same_builder_def builder_storage_def)
    then have "answered H U C bu s fn args c"
      using run by (auto simp: answered_def builder_call_def map_sum_cases)
    with next_state [OF run] assms(2) show ?thesis by blast
  qed
  show "E e q" if run: "builder_call H U fn args (bu1, s1) = Some (Inl e, q)" for e q
  proof -
    obtain x where "e = BExecutor x"
      using run by (auto simp: builder_call_def map_sum_cases)
    with next_state [OF run] assms(3) show ?thesis by blast
  qed
qed

lemma wlp_diff:
  assumes "fork_inv U C (builder_storage bu) s"
    and "Q () (bu, put_all (current_block_number (builder_storage bu)) d s)"
  shows "wlp (apply_storage_diff d) Q E (bu, s)"
  using assms by (simp add: wlp_def apply_diff_run)

lemma wlp_builder_modify: "Q () (f bu, s) \<Longrightarrow> wlp (builder_modify f) Q E (bu, s)"
  by (simp add: wlp_def builder_modify_def prog_simps)

lemma wlp_builder_gets: "Q (f bu) (bu, s) \<Longrightarrow> wlp (builder_gets f) Q E (bu, s)"
  by (simp add: wlp_def builder_gets_def prog_simps)

lemma quiet_build_trans:
  "quiet_build U C (bu, s) (bu', s') \<Longrightarrow> quiet_build U C (bu', s') (bu'', s'') \<Longrightarrow> quiet_build U C (bu, s) (bu'', s'')"
  by (rule quiet_build.trans)

lemma quiet_build_inv:
  "quiet_build U C (bu, s) (bu', s') \<Longrightarrow> fork_inv U C (builder_storage bu) s \<Longrightarrow>
     fork_inv U C (builder_storage bu') s'"
  by (auto simp: quiet_def same_builder_def builder_storage_def)

text \<open>Writing the diff of a call made before.\<close>

lemma wlp_diff_built:
  assumes "quiet_build U C (bu, s) (bu1, s1)" and "fork_inv U C (builder_storage bu) s"
    and "\<And>s'. built U C d bu s bu1 s' \<Longrightarrow> Q () (bu1, s')"
  shows "wlp (apply_storage_diff d) Q E (bu1, s1)"
  by (rule wlp_diff [OF quiet_build_inv [OF assms(1,2)]], rule assms(3))
    (use built_trans [OF built_quiet [OF assms(1)] built_put] in \<open>simp add: built_def\<close>)

lemma wlp_initialize:
  assumes inv: "fork_inv U C (builder_storage bu) s"
  shows "wlp (initialize H U B)
     (\<lambda>result (bu', s'). bu_phase bu = Created \<and> bu_phase bu' = Initialized \<and>
        bu_extrinsics bu' = bu_extrinsics bu \<and> built U C (cr_storage_diff result) bu s bu' s' \<and>
        answered H U C bu s ''Core_initialize_block'' (bu_header bu) result)
     (\<lambda>_ (bu', s'). quiet_build U C (bu, s) (bu', s')) (bu, s)"
proof (cases "bu_phase bu = Created")
  case False
  then show ?thesis
    by (simp add: initialize_def wlp_def builder_gets_def prog_simps quiet.refl)
next
  case True
  have prefetch: "keeps (quiet_build U C) (if bu_skip_prefetch bu then returns (ret ())
      else on_parent (prefetch_block_building_storage U B))"
    by (intro frame_intros quiet_build.pure)
  show ?thesis
    unfolding initialize_def
    by (rule wlp_bindL, rule wlp_builder_gets, simp only: True simp_thms if_False,
        rule wlp_bindL, rule wlp_quiet [OF prefetch quiet_build.refl],
        rule wlp_bindL, rule wlp_quiet [OF quiet_reset_storage_stats], assumption,
        rule wlp_bindL, rule wlp_call, assumption,
        rule wlp_bindL, rule wlp_diff_built [OF _ inv], assumption)
      (auto intro!: wlp_bindL wlp_builder_modify wlp_pure simp: same_builder_def built_def)
qed

text \<open>An extrinsic, from the first byte of what the runtime answers.\<close>

definition succeeded :: "call_result \<Rightarrow> bool" where
  "succeeded c \<longleftrightarrow> (case cr_output c of b # _ \<Rightarrow> b = 0 | [] \<Rightarrow> False)"

definition applied ::
  "('v, 'p) vm_host \<Rightarrow> ('n, 'm) upstream \<Rightarrow> chain \<Rightarrow> ('n, 'm) substrate \<Rightarrow> bytes \<Rightarrow> 'p builder \<Rightarrow>
     ('n, 'm) fork \<Rightarrow> apply_result \<Rightarrow> 'p builder \<Rightarrow> ('n, 'm) fork \<Rightarrow> bool" where
  "applied H U C B x bu s outcome bu' s' \<longleftrightarrow> bu_phase bu = InherentsApplied \<and> bu_phase bu' = InherentsApplied \<and>
     (\<exists>c. answered H U C bu s ''BlockBuilder_apply_extrinsic'' x c \<and>
       (if succeeded c
        then outcome = Success (length (cr_storage_diff c)) \<and>
          bu_extrinsics bu' = bu_extrinsics bu @ [x] \<and> built U C (cr_storage_diff c) bu s bu' s'
        else outcome = DispatchFailed (''Dispatch failed: '' @ sb_hex B (cr_output c)) \<and>
          quiet_build U C (bu, s) (bu', s')))"

lemma wlp_apply_extrinsic:
  assumes inv: "fork_inv U C (builder_storage bu) s"
  shows "wlp (apply_extrinsic H U B x) (\<lambda>outcome (bu', s'). applied H U C B x bu s outcome bu' s')
     (\<lambda>_ (bu', s'). quiet_build U C (bu, s) (bu', s')) (bu, s)"
proof (cases "bu_phase bu = InherentsApplied")
  case False
  then show ?thesis
    by (cases "bu_phase bu")
      (simp_all add: apply_extrinsic_def wlp_def builder_gets_def prog_simps quiet.refl)
next
  case True
  have decode: "keeps (quiet_build U C) (on_parent (decode_extrinsic_call U B x))"
    by (intro frame_intros)
  have log: "on_parent (decode_extrinsic_call U B x) p = Some (r, p') \<Longrightarrow> \<exists>y. r = Inr y" for p r p'
    by (auto simp: on_parent_def on_snd_def decode_extrinsic_call_def ignore_errors_def prog_simps
        split: prod.splits sum.splits)
  have rest: "wlp (bindL (on_parent (decode_extrinsic_call U B x)) (\<lambda>_.
        bindL (builder_modify (\<lambda>bu. bu\<lparr>bu_extrinsics := bu_extrinsics bu @ [x]\<rparr>)) (\<lambda>_. returns (ret y))))
      (\<lambda>z (bu', s'). z = y \<and> bu_phase bu' = bu_phase bu2 \<and> bu_extrinsics bu' = bu_extrinsics bu2 @ [x] \<and>
        built U C [] bu2 s2 bu' s') E (bu2, s2)" for bu2 s2 E and y :: apply_result
  proof (rule wlp_bindL, rule wlpI)
    fix u p assume run: "on_parent (decode_extrinsic_call U B x) (bu2, s2) = Some (Inr u, p)"
    obtain bu3 s3 where p: "p = (bu3, s3)" by fastforce
    have "quiet_build U C (bu2, s2) (bu3, s3)" using keepsD [OF decode run] p by simp
    then show "wlp (bindL (builder_modify (\<lambda>bu. bu\<lparr>bu_extrinsics := bu_extrinsics bu @ [x]\<rparr>)) (\<lambda>_. returns (ret y)))
        (\<lambda>z (bu', s'). z = y \<and> bu_phase bu' = bu_phase bu2 \<and> bu_extrinsics bu' = bu_extrinsics bu2 @ [x] \<and>
          built U C [] bu2 s2 bu' s') E p"
      unfolding p
      by (auto intro!: wlp_bindL wlp_builder_modify wlp_pure simp: same_builder_def built_def writes_quiet)
  qed (use log in blast)
  have success: "applied H U C B x bu s (Success (length (cr_storage_diff c))) bu3 s3"
    if "answered H U C bu s ''BlockBuilder_apply_extrinsic'' x c" "succeeded c"
      "built U C (cr_storage_diff c) bu s bu2 s2" "built U C [] bu2 s2 bu3 s3"
      "quiet_build U C (bu, s) (bu2, t)" "bu_phase bu3 = bu_phase bu2"
      "bu_extrinsics bu3 = bu_extrinsics bu2 @ [x]" for c bu2 s2 bu3 s3 t
    using that True built_trans [OF that(3,4)] by (auto simp: applied_def same_builder_def)
  have failure: "applied H U C B x bu s (DispatchFailed (''Dispatch failed: '' @ sb_hex B (cr_output c))) bu2 s2"
    if "answered H U C bu s ''BlockBuilder_apply_extrinsic'' x c" "\<not> succeeded c"
      "quiet_build U C (bu, s) (bu2, s2)" for c bu2 s2
    using that True unfolding applied_def by (auto simp: same_builder_def)
  show ?thesis
    unfolding apply_extrinsic_def succeeded_def [symmetric]
    by (rule wlp_bindL, rule wlp_builder_gets, simp only: True builder_phase.case,
        rule wlp_bindL, rule wlp_quiet [OF quiet_reset_storage_stats quiet_build.refl],
        rule wlp_bindL, simp only: call_apply_extrinsic_def, rule wlp_call, assumption,
        rule wlp_if, rule wlp_bindL, rule wlp_diff_built [OF _ inv], assumption,
        rule wlp_mono [OF rest])
      (auto intro!: wlp_pure intro: failure [unfolded append_Cons append_Nil] success simp del: quiet_build.simps)
qed

section \<open>Inherents\<close>

lemma wlp_apply_inherent:
  assumes inv: "fork_inv U C (builder_storage bu) s"
  shows "wlp (apply_inherent H U B i x)
     (\<lambda>c (bu', s'). answered H U C bu s ''BlockBuilder_apply_extrinsic'' x c \<and> dispatch_ok (cr_output c) \<and>
        bu_phase bu' = bu_phase bu \<and> bu_extrinsics bu' = bu_extrinsics bu @ [x] \<and>
        built U C (cr_storage_diff c) bu s bu' s')
     (\<lambda>_ (bu', s'). quiet_build U C (bu, s) (bu', s')) (bu, s)"
  unfolding apply_inherent_def call_apply_extrinsic_def
  by (rule wlp_bindL, rule wlp_call, rule quiet_build.refl, rule wlp_if, rule wlp_pure, simp,
      rule wlp_bindL, rule wlp_diff_built [OF _ inv], assumption)
    (auto intro!: wlp_bindL wlp_builder_modify wlp_pure simp: same_builder_def built_def)

text \<open>A list of inherents, up to the first that is refused.\<close>

lemma wlp_apply_list:
  assumes "fork_inv U C (builder_storage bu) s"
  shows "wlp (eachL (\<lambda>(i, x). apply_inherent H U B i x) xs)
     (\<lambda>cs (bu', s'). length cs = length xs \<and> list_all (\<lambda>c. dispatch_ok (cr_output c)) cs \<and>
        bu_phase bu' = bu_phase bu \<and> bu_extrinsics bu' = bu_extrinsics bu @ map snd xs \<and>
        built U C (concat (map cr_storage_diff cs)) bu s bu' s')
     (\<lambda>_ (bu', s'). bu_phase bu' = bu_phase bu \<and> (\<exists>d. built U C d bu s bu' s')) (bu, s)"
  using assms
proof (induction xs arbitrary: bu s)
  case Nil
  then show ?case by (auto intro!: wlp_pure simp: built_quiet quiet.refl)
next
  case (Cons ix xs)
  obtain i x where ix: "ix = (i, x)" by fastforce
  show ?case
    unfolding eachL.simps ix split_conv
  proof (rule wlp_bindL, rule wlp_mono [OF wlp_apply_inherent [OF Cons.prems]], clarify)
    fix c bu1 s1
    assume 1: "answered H U C bu s ''BlockBuilder_apply_extrinsic'' x c" "dispatch_ok (cr_output c)"
      "bu_phase bu1 = bu_phase bu" "bu_extrinsics bu1 = bu_extrinsics bu @ [x]"
      "built U C (cr_storage_diff c) bu s bu1 s1"
    note trans = built_trans [OF 1(5)]
    show "wlp (bindL (eachL (\<lambda>(i, x). apply_inherent H U B i x) xs) (\<lambda>ys. returns (ret (c # ys))))
       (\<lambda>cs (bu', s'). length cs = length ((i, x) # xs) \<and> list_all (\<lambda>c. dispatch_ok (cr_output c)) cs \<and>
          bu_phase bu' = bu_phase bu \<and> bu_extrinsics bu' = bu_extrinsics bu @ map snd ((i, x) # xs) \<and>
          built U C (concat (map cr_storage_diff cs)) bu s bu' s')
       (\<lambda>_ (bu', s'). bu_phase bu' = bu_phase bu \<and> (\<exists>d. built U C d bu s bu' s')) (bu1, s1)"
      by (rule wlp_bindL, rule wlp_mono [OF Cons.IH [OF built_inv [OF 1(5) Cons.prems]]])
        (auto intro!: wlp_pure simp: 1 dest: trans)
  qed (auto simp del: quiet_build.simps dest!: quiet_buildD)
qed

definition mocked_changes :: "('n, 'm) substrate \<Rightarrow> (bytes \<times> bytes option) list \<Rightarrow> bool" where
  "mocked_changes B d \<longleftrightarrow> d = [] \<or> d = [(para_inherent_included_key B, Some [])]"

lemma wlp_mock:
  assumes inv: "fork_inv U C (builder_storage bu) s"
  shows "wlp (on_parent (mock_relay_chain_inherent U B))
     (\<lambda>_ (bu', s'). bu' = bu \<and> (\<exists>d. mocked_changes B d \<and> built U C d bu s bu s'))
     (\<lambda>_ (bu', s'). quiet_build U C (bu, s) (bu', s')) (bu, s)"
proof -
  let ?k = "para_inherent_included_key B"
  obtain r s1 where md: "block_metadata U (bu_parent bu) s = (r, s1)" by fastforce
  have q: "quiet U C (builder_storage bu) s s1"
    by (rule keeps_returnsD [OF quiet_block_metadata md])
  with inv have inv1: "fork_inv U C (builder_storage bu) s1" by (simp add: quiet_def)
  have "built U C [(?k, Some [])] bu s bu (put_modification (current_block_number (builder_storage bu)) ?k (Some []) s1)"
    using writes_trans [OF writes_quiet [OF q] writes_put] by (simp add: built_def)
  then show ?thesis
    using q layer_set_run [OF inv1, of ?k "Some []"] writes_quiet [OF q]
    by (cases r)
      (auto simp: wlp_def on_parent_def on_snd_def mock_relay_chain_inherent_def prog_simps md
        builder_storage_def [symmetric] mocked_changes_def built_def)
qed

lemma wlp_apply_inherents:
  assumes inv: "fork_inv U C (builder_storage bu) s"
  shows "wlp (apply_inherents H U B R)
     (\<lambda>cs (bu', s'). bu_phase bu = Initialized \<and> bu_phase bu' = InherentsApplied \<and>
        list_all (\<lambda>c. dispatch_ok (cr_output c)) cs \<and>
        (\<exists>xs. length xs = length cs \<and> bu_extrinsics bu' = bu_extrinsics bu @ xs) \<and>
        (\<exists>m. mocked_changes B m \<and> built U C (concat (map cr_storage_diff cs) @ m) bu s bu' s'))
     (\<lambda>_ (bu', s'). bu_phase bu' = bu_phase bu \<and> (\<exists>d. built U C d bu s bu' s')) (bu, s)"
proof (cases "bu_phase bu = Initialized")
  case False
  then show ?thesis
    by (cases "bu_phase bu")
      (auto simp: apply_inherents_def wlp_def builder_gets_def prog_simps built_def intro: writes_quiet quiet.refl)
next
  case True
  let ?E = "\<lambda>_ (bu', s'). bu_phase bu' = bu_phase bu \<and> (\<exists>d. built U C d bu s bu' s')"
  have after: "wlp (bindL (eachL (\<lambda>(i, x). apply_inherent H U B i x) xs) (\<lambda>cs.
      bindL (on_parent (mock_relay_chain_inherent U B)) (\<lambda>_.
      bindL (builder_modify (\<lambda>bu. bu\<lparr>bu_phase := InherentsApplied\<rparr>)) (\<lambda>_. returns (ret cs)))))
     (\<lambda>cs (bu', s'). bu_phase bu = Initialized \<and> bu_phase bu' = InherentsApplied \<and>
        list_all (\<lambda>c. dispatch_ok (cr_output c)) cs \<and>
        (\<exists>xs. length xs = length cs \<and> bu_extrinsics bu' = bu_extrinsics bu @ xs) \<and>
        (\<exists>m. mocked_changes B m \<and> built U C (concat (map cr_storage_diff cs) @ m) bu s bu' s'))
     ?E (bu1, s1)" if q: "quiet_build U C (bu, s) (bu1, s1)" for xs bu1 s1
  proof (rule wlp_bindL, rule wlp_mono [OF wlp_apply_list [OF quiet_build_inv [OF q inv]]], clarify)
    fix cs bu2 s2
    assume 2: "length cs = length xs" "list_all (\<lambda>c. dispatch_ok (cr_output c)) cs"
      "bu_phase bu2 = bu_phase bu1" "bu_extrinsics bu2 = bu_extrinsics bu1 @ map snd xs"
      "built U C (concat (map cr_storage_diff cs)) bu1 s1 bu2 s2"
    have b: "built U C (concat (map cr_storage_diff cs)) bu s bu2 s2"
      using built_trans [OF built_quiet [OF q] 2(5)] by simp
    have "length (map snd xs) = length cs \<and> bu_extrinsics bu2 = bu_extrinsics bu @ map snd xs"
      using q 2 by (simp add: same_builder_def)
    then have xs: "\<exists>xs. length xs = length cs \<and> bu_extrinsics bu2 = bu_extrinsics bu @ xs" by blast
    have ph: "bu_phase bu2 = Initialized" using q 2(3) True by (simp add: same_builder_def)
    show "wlp (bindL (on_parent (mock_relay_chain_inherent U B)) (\<lambda>_.
        bindL (builder_modify (\<lambda>bu. bu\<lparr>bu_phase := InherentsApplied\<rparr>)) (\<lambda>_. returns (ret cs))))
     (\<lambda>cs (bu', s'). bu_phase bu = Initialized \<and> bu_phase bu' = InherentsApplied \<and>
        list_all (\<lambda>c. dispatch_ok (cr_output c)) cs \<and>
        (\<exists>xs. length xs = length cs \<and> bu_extrinsics bu' = bu_extrinsics bu @ xs) \<and>
        (\<exists>m. mocked_changes B m \<and> built U C (concat (map cr_storage_diff cs) @ m) bu s bu' s'))
     ?E (bu2, s2)"
    proof (rule wlp_bindL, rule wlp_mono [OF wlp_mock [OF built_inv [OF b inv]]], clarify)
      fix s3 m assume m: "mocked_changes B m" "built U C m bu2 s2 bu2 s3"
      have "built U C (concat (map cr_storage_diff cs) @ m) bu s (bu2\<lparr>bu_phase := InherentsApplied\<rparr>) s3"
        using built_trans [OF b m(2)] by (simp add: built_def)
      with m(1) xs 2(2) True show "wlp (bindL (builder_modify (\<lambda>bu. bu\<lparr>bu_phase := InherentsApplied\<rparr>))
          (\<lambda>_. returns (ret cs)))
        (\<lambda>cs (bu', s'). bu_phase bu = Initialized \<and> bu_phase bu' = InherentsApplied \<and>
          list_all (\<lambda>c. dispatch_ok (cr_output c)) cs \<and>
          (\<exists>xs. length xs = length cs \<and> bu_extrinsics bu' = bu_extrinsics bu @ xs) \<and>
          (\<exists>m. mocked_changes B m \<and> built U C (concat (map cr_storage_diff cs) @ m) bu s bu' s'))
        ?E (bu2, s3)"
        by (auto intro!: wlp_bindL wlp_builder_modify wlp_pure)
    qed (use ph True b in \<open>auto simp del: quiet_build.simps dest!: quiet_buildD dest: built_trans [OF b]\<close>)
  next
    fix e p assume "case p of (bu', s') \<Rightarrow> bu_phase bu' = bu_phase bu1 \<and> (\<exists>d. built U C d bu1 s1 bu' s')"
    then show "?E e p"
      using q by (auto simp: same_builder_def dest: built_trans [OF built_quiet [OF q]])
  qed
  show ?thesis
    unfolding apply_inherents_def
    by (rule wlp_bindL, rule wlp_builder_gets, simp only: True builder_phase.case,
        rule wlp_bindL, rule wlp_quiet [OF quiet_reset_storage_stats quiet_build.refl],
        rule wlp_bindL, rule wlp_quiet [OF quiet_collect], assumption, rule after [simplified True], assumption)
      (auto simp: True simp del: quiet_build.simps dest!: quiet_buildD)
qed

section \<open>The new block\<close>

lemma quiet_code_changed [frame_intros]: "keeps (quiet U C L) (returns (has_code_changed_at n))"
  unfolding has_code_changed_at_def by (intro frame_intros quiet.bindE quiet.pure)

lemma writes_versions: "writes U C L [] s (s\<lparr>metadata_versions := vs\<rparr>)"
proof -
  have "beyond_value L C (s\<lparr>metadata_versions := vs\<rparr>) = beyond_value L C s"
    by (intro ext) (simp add: beyond_value_def)
  then have "layer_value L C (s\<lparr>metadata_versions := vs\<rparr>) n k = layer_value L C s n k" for n k
    by (simp add: layer_value_def split: option.split)
  then have "layer_value L C (s\<lparr>metadata_versions := vs\<rparr>) = layer_value L C s" by blast
  then show ?thesis
    by (auto simp: writes_def fork_inv_def history_inv_def under_deleted_def clean_def injected_def)
qed

definition still_built ::
  "('n, 'm) upstream \<Rightarrow> chain \<Rightarrow> 'p builder \<Rightarrow> ('n, 'm) fork \<Rightarrow> 'p builder \<Rightarrow> ('n, 'm) fork \<Rightarrow> bool" where
  "still_built U C bu s bu' s' \<longleftrightarrow> bu_phase bu' = bu_phase bu \<and> bu_extrinsics bu' = bu_extrinsics bu \<and>
     built U C [] bu s bu' s'"

lemma still_built_trans:
  "still_built U C bu s bu1 s1 \<Longrightarrow> still_built U C bu1 s1 bu2 s2 \<Longrightarrow> still_built U C bu s bu2 s2"
  by (auto simp: still_built_def dest: built_trans)

lemma still_built_quiet: "quiet_build U C (bu, s) (bu', s') \<Longrightarrow> still_built U C bu s bu' s'"
  by (auto simp: still_built_def simp del: quiet_build.simps dest!: quiet_buildD)

lemma wlp_register_metadata:
  assumes inv: "fork_inv U C (builder_storage bu) s"
  shows "wlp (register_new_metadata H U B) (\<lambda>_ (bu', s'). still_built U C bu s bu' s')
     (\<lambda>_ (bu', s'). still_built U C bu s bu' s') (bu, s)"
proof -
  have reg: "wlp (on_layer (\<lambda>_. map_err BBStorage (register_metadata_version n m)))
      (\<lambda>_ (bu', s'). still_built U C bu s bu' s') E (bu1, s1)"
    if q: "quiet_build U C (bu, s) (bu1, s1)" for n m bu1 s1 E
  proof -
    have "fork_inv U C (builder_storage bu1) s1" by (rule quiet_build_inv [OF q inv])
    then have p: "\<not> versions_poisoned s1" by (simp add: fork_inv_def)
    have "still_built U C bu1 s1 bu1 (s1\<lparr>metadata_versions := vs\<rparr>)" for vs
      using writes_versions by (simp add: still_built_def built_def)
    note still_built_trans [OF still_built_quiet [OF q] this]
    with p show ?thesis
      by (simp add: wlp_def on_layer_def on_snd_def prog_simps register_metadata_version_def lock_def)
  qed
  show ?thesis
    unfolding register_new_metadata_def
    by (rule wlp_bindL, rule wlp_builder_gets, rule wlp_bindL, rule wlp_call, rule quiet_build.refl)
      (auto split: sum.split simp del: quiet_build.simps intro!: wlp_pure reg intro: still_built_quiet)
qed

text \<open>
  The block that ends a build on \<open>bu_parent bu\<close>: a child with what the runtime answered, whose
  state is that of the builder with the last changes.
\<close>

definition finished ::
  "('v, 'p) vm_host \<Rightarrow> ('n, 'm) upstream \<Rightarrow> chain \<Rightarrow> ('n, 'm) substrate \<Rightarrow> 'p builder \<Rightarrow> ('n, 'm) fork \<Rightarrow>
     block \<Rightarrow> ('n, 'm) fork \<Rightarrow> bool" where
  "finished H U C B bu s b s' \<longleftrightarrow> bu_phase bu = InherentsApplied \<and>
     (\<exists>c. answered H U C bu s ''BlockBuilder_finalize_block'' [] c \<and>
       blk_header b = cr_output c \<and> blk_hash b = H256 (sb_blake2_256 B (cr_output c)) \<and>
       layer_value (blk_storage b) C s' (blk_number b) =
         overridden (cr_storage_diff c) (layer_value (builder_storage bu) C s (blk_number b))) \<and>
     blk_number b = blk_number (bu_parent bu) + 1 \<and> blk_parent_hash b = blk_hash (bu_parent bu) \<and>
     blk_extrinsics b = bu_extrinsics bu \<and> linked b \<and>
     first_forked_block_number (blk_storage b) = first_forked_block_number (builder_storage bu) \<and>
     first_forked_block_hash (blk_storage b) = first_forked_block_hash (builder_storage bu) \<and>
     fork_head U C b s' \<and>
     (clean (builder_storage bu) s \<longrightarrow>
       (\<forall>n < blk_number b. layer_value (blk_storage b) C s' n = layer_value (builder_storage bu) C s n))"

lemma wlp_finalize_child:
  assumes c: "answered H U C bu s ''BlockBuilder_finalize_block'' [] c" and ph: "bu_phase bu = InherentsApplied"
    and head: "fork_head U C (bu_parent bu) s" and b: "built U C (cr_storage_diff c) bu s bu2 s2"
    and xs: "bu_extrinsics bu2 = bu_extrinsics bu"
  shows "wlp (on_parent (\<lambda>b. map_err BBBlock (child b (H256 (sb_blake2_256 B (cr_output c))) (cr_output c)
       (bu_extrinsics bu2))))
     (\<lambda>(b', _) (bu', s'). bu' = bu2 \<and> finished H U C B bu s b' s')
     (\<lambda>_ (bu', s'). bu' = bu2 \<and> built U C (cr_storage_diff c) bu s bu2 s') (bu2, s2)"
proof -
  let ?p = "bu_parent bu"
  let ?L = "blk_storage ?p"
  let ?child = "child ?p (H256 (sb_blake2_256 B (cr_output c))) (cr_output c) (bu_extrinsics bu2)"
  have p: "bu_parent bu2 = ?p" "builder_storage bu = ?L" using b by (simp_all add: built_def builder_storage_def)
  have w: "writes U C ?L (cr_storage_diff c) s s2" using b p by (simp add: built_def)
  have inv: "fork_inv U C ?L s" "history_inv ?L s" "current_block_number ?L = blk_number ?p + 1"
    using head by (simp_all add: fork_head_def)
  have head2: "fork_head U C ?p s2" using head w inv by (simp add: fork_head_def writes_def)
  have "wp ?child (\<lambda>(b', _) s'. finished H U C B bu s b' s')
      (\<lambda>_ s'. writes U C ?L (cr_storage_diff c) s s') s2"
  proof (rule wp_child [OF head2], unfold split_conv)
    fix b' q s'
    assume *: "fork_head U C b' s'" "linked b'" "blk_number b' = blk_number ?p + 1"
      "blk_hash b' = H256 (sb_blake2_256 B (cr_output c))" "blk_parent_hash b' = blk_hash ?p"
      "blk_header b' = cr_output c" "blk_extrinsics b' = bu_extrinsics bu2"
    assume first: "first_forked_block_number (blk_storage b') = first_forked_block_number ?L"
      "first_forked_block_hash (blk_storage b') = first_forked_block_hash ?L"
    assume val: "\<And>n k. n \<le> blk_number ?p + 1 \<Longrightarrow>
        layer_value (blk_storage b') C s' n k = layer_value ?L C s2 n k"
    have "layer_value (blk_storage b') C s' n = layer_value ?L C s2 n" if "n \<le> blk_number b'" for n
      using that val *(3) by (intro ext) simp
    with * first w inv c ph xs show "finished H U C B bu s b' s'"
      unfolding finished_def p(2) by (auto simp: writes_def intro: less_imp_le)
  next
    fix e s'
    assume "fork_inv U C ?L s'" "same_fork s2 s'"
    then have "writes U C ?L [] s2 s'" by (intro writes_quiet) (simp add: quiet_def)
    with writes_trans [OF w this] show "writes U C ?L (cr_storage_diff c) s s'" by simp
  qed
  then show ?thesis
    using b p by (auto simp: wlp_def wp_def on_parent_def on_snd_def prog_simps built_def
        split: prod.splits sum.splits)
qed

lemma wlp_finalize:
  assumes head: "fork_head U C (bu_parent bu) s"
  shows "wlp (finalize H U B) (\<lambda>(b, _) (_, s'). finished H U C B bu s b s')
     (\<lambda>_ (bu', s'). bu_phase bu' = bu_phase bu \<and> (\<exists>d. built U C d bu s bu' s')) (bu, s)"
proof (cases "bu_phase bu = InherentsApplied")
  case False
  then show ?thesis
    by (cases "bu_phase bu")
      (auto simp: finalize_def wlp_def builder_gets_def prog_simps built_def intro: writes_quiet quiet.refl)
next
  case True
  have inv: "fork_inv U C (builder_storage bu) s"
    using head by (simp add: fork_head_def builder_storage_def)
  have changed: "keeps (quiet_build U C) (on_parent (\<lambda>b. map_err BBStorage (has_code_changed_at (blk_number b))))"
    by (intro frame_intros quiet.map_err)
  have register: "wlp (if changed then register_new_metadata H U B else returns (ret ()))
      (\<lambda>_ (bu', s'). still_built U C bu1 s1 bu' s') (\<lambda>_ (bu', s'). still_built U C bu1 s1 bu' s') (bu1, s1)"
    if "fork_inv U C (builder_storage bu1) s1" for changed bu1 s1
    by (rule wlp_if, rule wlp_register_metadata [OF that], rule wlp_pure)
      (simp add: still_built_def built_quiet quiet.refl)
  have rest: "wlp (bindL (on_parent (\<lambda>b. map_err BBStorage (has_code_changed_at (blk_number b)))) (\<lambda>changed.
         bindL (if changed then register_new_metadata H U B else returns (ret ())) (\<lambda>_.
         let final_header = cr_output c;
             block_hash = H256 (sb_blake2_256 B final_header) in
         bindL (builder_gets bu_extrinsics) (\<lambda>extrinsics.
         bindL (on_parent (\<lambda>b. map_err BBBlock (child b block_hash final_header extrinsics))) (\<lambda>(new_block, b').
         bindL (builder_modify (\<lambda>bu. bu\<lparr>bu_parent := b'\<rparr>)) (\<lambda>_.
         bindL (builder_gets bu_prototype) (\<lambda>prototype.
         returns (ret (new_block, prototype)))))))))
      (\<lambda>(b, _) (_, s'). finished H U C B bu s b s')
      (\<lambda>_ (bu', s'). bu_phase bu' = bu_phase bu \<and> (\<exists>d. built U C d bu s bu' s')) (bu1, s1)"
    if c: "answered H U C bu s ''BlockBuilder_finalize_block'' [] c"
      and 1: "quiet_build U C (bu, s) (bu1, t)" "built U C (cr_storage_diff c) bu s bu1 s1" for c bu1 t s1
  proof -
    have same: "bu_phase bu1 = bu_phase bu" "bu_extrinsics bu1 = bu_extrinsics bu"
      using quiet_buildD [OF 1(1)] by simp_all
    have still: "bu_phase bu2 = bu_phase bu \<and> bu_extrinsics bu2 = bu_extrinsics bu \<and>
        built U C (cr_storage_diff c) bu s bu2 s2" if "still_built U C bu1 s1 bu2 s2" for bu2 s2
      using that same built_trans [OF 1(2), of "[]" bu2 s2] by (auto simp: still_built_def)
    have last: "wlp (let final_header = cr_output c; block_hash = H256 (sb_blake2_256 B final_header) in
         bindL (builder_gets bu_extrinsics) (\<lambda>extrinsics.
         bindL (on_parent (\<lambda>b. map_err BBBlock (child b block_hash final_header extrinsics))) (\<lambda>(new_block, b').
         bindL (builder_modify (\<lambda>bu. bu\<lparr>bu_parent := b'\<rparr>)) (\<lambda>_.
         bindL (builder_gets bu_prototype) (\<lambda>prototype.
         returns (ret (new_block, prototype)))))))
      (\<lambda>(b, _) (_, s'). finished H U C B bu s b s')
      (\<lambda>_ (bu', s'). bu_phase bu' = bu_phase bu \<and> (\<exists>d. built U C d bu s bu' s')) (bu2, s2)"
      if "still_built U C bu1 s1 bu2 s2" for bu2 s2
      unfolding Let_def
      by (rule wlp_bindL, rule wlp_builder_gets, rule wlp_bindL,
          rule wlp_mono [OF wlp_finalize_child [OF c True head]])
        (use still [OF that] in \<open>auto intro!: wlp_bindL wlp_builder_modify wlp_builder_gets wlp_pure\<close>)
    have inv1: "fork_inv U C (builder_storage bu1) s1" by (rule built_inv [OF 1(2) inv])
    have err: "bu_phase bu2 = bu_phase bu \<and> (\<exists>d. built U C d bu s bu2 s2)"
      if "still_built U C bu1 s1 bu2 s2" for bu2 s2
      using still [OF that] by blast
    show ?thesis
    proof (rule wlp_bindL, rule wlp_quiet [OF changed quiet_build.refl])
      fix changed bu2 s2
      assume q: "quiet_build U C (bu1, s1) (bu2, s2)"
      note s2 = still_built_trans [OF still_built_quiet [OF q]]
      show "wlp (bindL (if changed then register_new_metadata H U B else returns (ret ())) (\<lambda>_.
         let final_header = cr_output c;
             block_hash = H256 (sb_blake2_256 B final_header) in
         bindL (builder_gets bu_extrinsics) (\<lambda>extrinsics.
         bindL (on_parent (\<lambda>b. map_err BBBlock (child b block_hash final_header extrinsics))) (\<lambda>(new_block, b').
         bindL (builder_modify (\<lambda>bu. bu\<lparr>bu_parent := b'\<rparr>)) (\<lambda>_.
         bindL (builder_gets bu_prototype) (\<lambda>prototype.
         returns (ret (new_block, prototype))))))))
        (\<lambda>(b, _) (_, s'). finished H U C B bu s b s')
        (\<lambda>_ (bu', s'). bu_phase bu' = bu_phase bu \<and> (\<exists>d. built U C d bu s bu' s')) (bu2, s2)"
        by (rule wlp_bindL, rule wlp_mono [OF register [OF quiet_build_inv [OF q inv1]]], clarify,
            rule last [OF s2], assumption, clarify, rule err [OF s2], assumption)
    qed (use err [OF still_built_quiet] in blast)
  qed
  show ?thesis
    unfolding finalize_def
    by (rule wlp_bindL, rule wlp_builder_gets, simp only: True builder_phase.case,
        rule wlp_bindL, rule wlp_quiet [OF quiet_reset_storage_stats quiet_build.refl],
        rule wlp_bindL, rule wlp_call, assumption,
        rule wlp_bindL, rule wlp_diff_built [OF _ inv], assumption, rule rest [simplified True], assumption+)
      (auto simp: True simp del: quiet_build.simps dest!: quiet_buildD)
qed

end
