(* ===== verification/Sample_Runtime.thy ===== *)
theory Sample_Runtime
  imports Builder_Laws Sample_Node
begin

text \<open>
  A runtime and an environment to run the block builder on: the machine answers a call from
  its name and arguments alone, without a request. An extrinsic is answered by its first two
  bytes and writes itself to the key \<open>[1]\<close>.
\<close>

definition sample_host :: "(string \<times> bytes, unit) vm_host" where
  "sample_host =
     \<lparr>vh_prototype = (\<lambda>_ _ _. Inr ()), vh_run = (\<lambda>_ fn args _ _. Inr (fn, args)),
      vh_event = (\<lambda>(fn, args).
         if fn = ''BlockBuilder_apply_extrinsic'' then FinishedOk (take 2 args) [(None, [1], Some args)] ()
         else if fn = ''Core_initialize_block'' then FinishedOk [] [(None, [9], Some [1])] ()
         else if fn = ''BlockBuilder_finalize_block'' then FinishedOk [4, 2] [(None, [9], None)] ()
         else FinishedErr ''unknown function'' ()),
      vh_inject_value = (\<lambda>_ v. v), vh_inject_merkle = (\<lambda>_ v. v), vh_inject_key = (\<lambda>_ v. v),
      vh_resume_success = (\<lambda>v. v), vh_verify_and_resume = (\<lambda>v. v), vh_resume = (\<lambda>v. v),
      vh_resume_set = (\<lambda>_ v. v), vh_inject_timestamp = (\<lambda>_ v. v), vh_inject_seed = (\<lambda>_ v. v),
      vh_bytes_of_nibbles = (\<lambda>b. b), vh_nibbles_of_bytes = (\<lambda>b. b), vh_now_ms = (\<lambda>_. 0),
      vh_random = (\<lambda>_. []), vh_version = (\<lambda>_. ''sample'')\<rparr>"

definition sample_executor :: executor where
  "sample_executor = \<lparr>ex_runtime_code = [], ex_heap_pages = None, ex_config = default_config\<rparr>"

definition sample_substrate :: "(bool list, bytes) substrate" where
  "sample_substrate =
     \<lparr>sb_twox_128 = take 16, sb_twox_64 = take 8, sb_blake2_128 = take 16, sb_blake2_256 = (\<lambda>b. b),
      sb_enc_u32 = (\<lambda>n. [ucast n]), sb_enc_u64 = (\<lambda>n. [ucast n]), sb_dec_u32 = (\<lambda>_. None), sb_dec_u64 = (\<lambda>_. None),
      sb_compact_u32 = (\<lambda>n. [4 * ucast n]), sb_compact_u64 = (\<lambda>n. [4 * ucast n]),
      sb_enc_header = (\<lambda>_. []), sb_dec_opaque = (\<lambda>b. Inr b), sb_dec_metadata = (\<lambda>b. Inr b),
      sb_pallets = (\<lambda>_. []), sb_types = (\<lambda>_ _. None), sb_show_arg = (\<lambda>_ _ _. None), sb_clock_ms = (\<lambda>n. (0, n)), sb_hex = (\<lambda>_. ''00'')\<rparr>"

definition sample_codec :: "unit relay_codec" where
  "sample_codec =
     \<lparr>rc_dec_validation = (\<lambda>_. Inl ''''), rc_dec_nodes = (\<lambda>_. Inl ''''), rc_dec_descendants = (\<lambda>_. Inl ''''),
      rc_dec_peer = (\<lambda>_. Inl ''''), rc_enc_validation = (\<lambda>_. []), rc_enc_nodes = (\<lambda>_. []),
      rc_enc_relay_header = (\<lambda>_. []), rc_enc_descendants = (\<lambda>_. []), rc_enc_peer = (\<lambda>_. []),
      rc_enc_bytes = (\<lambda>b. b), rc_trie_get = (\<lambda>_ _ _. Inr None), rc_trie_open = (\<lambda>_ _. ()),
      rc_trie_insert = (\<lambda>_ _ t. Inr t), rc_trie_commit = (\<lambda>_. ([], [])), rc_db_get = (\<lambda>_ _. None)\<rparr>"

text \<open>The fork point, and builders on it.\<close>

definition sample_head :: block where
  "sample_head = Block 2 (hash_of 2) (hash_of 1) [] [] sample_layer None"

definition sample_builder :: "builder_phase \<Rightarrow> unit builder" where
  "sample_builder ph = (new_builder sample_head sample_executor [] [] None True)\<lparr>bu_phase := ph\<rparr>"

lemma sample_fork_head: "fork_head sample_node sample_chain sample_head (sample_fork script)"
  by (simp add: fork_head_def sample_head_def sample_invs) (simp add: sample_layer_def)

lemma sample_builder_storage [simp]: "builder_storage (sample_builder ph) = sample_layer"
  by (simp add: builder_storage_def sample_builder_def new_builder_def sample_head_def)

lemma sample_clean: "clean sample_layer (sample_fork script)"
  by (simp add: clean_def injected_def sample_fork_def new_layer_def)

text \<open>The sample machine answers at once.\<close>

lemma sample_call:
  "call_with_prototype sample_host U sample_executor proto fn args L s =
    (if fn = ''BlockBuilder_apply_extrinsic''
     then Some ((Inr \<lparr>cr_output = take 2 args, cr_storage_diff = [([1], Some args)], cr_offchain_diff = [],
       cr_logs = []\<rparr>, Some ()), s)
     else if fn = ''Core_initialize_block''
     then Some ((Inr \<lparr>cr_output = [], cr_storage_diff = [([9], Some [1])], cr_offchain_diff = [],
       cr_logs = []\<rparr>, Some ()), s)
     else if fn = ''BlockBuilder_finalize_block''
     then Some ((Inr \<lparr>cr_output = [4, 2], cr_storage_diff = [([9], None)], cr_offchain_diff = [],
       cr_logs = []\<rparr>, Some ()), s)
     else Some ((Inl (RuntimeError ''unknown function''), Some ()), s))"
  by (cases proto)
    (simp_all add: call_with_prototype_def create_prototype_def sample_host_def exec_loop.simps exec_step_def
      prog_simps collect_changes_def storage_key_of_def)

end
