(* ===== verification/Builder_Properties.thy ===== *)
theory Builder_Properties
  imports Sample_Runtime
begin

text \<open>
  Properties of the block builder: what a failed and what an applied extrinsic do to the
  fork, the order of the phases, the finished block. The sample runtime at the end answers a
  call from its arguments alone.
\<close>

section \<open>Scripts of operations\<close>

text \<open>What a caller can do with a builder before it finalizes the block, in any order.\<close>

datatype builder_op = OpInitialize | OpInherents | OpExtrinsic bytes

definition run_builder_op ::
  "('v, 'p) vm_host \<Rightarrow> ('n, 'm) upstream \<Rightarrow> ('n, 'm) substrate \<Rightarrow> 't relay_codec \<Rightarrow> builder_op \<Rightarrow>
     (('p, 'n, 'm) build, builder_error, unit) loop_prog" where
  "run_builder_op H U B R op = (case op of
     OpInitialize \<Rightarrow> bindL (initialize H U B) (\<lambda>_. returns (ret ()))
   | OpInherents \<Rightarrow> bindL (apply_inherents H U B R) (\<lambda>_. returns (ret ()))
   | OpExtrinsic x \<Rightarrow> bindL (apply_extrinsic H U B x) (\<lambda>_. returns (ret ())))"

text \<open>A script goes on after an error. It is logged which operations returned a value.\<close>

fun run_builder ::
  "('v, 'p) vm_host \<Rightarrow> ('n, 'm) upstream \<Rightarrow> ('n, 'm) substrate \<Rightarrow> 't relay_codec \<Rightarrow> builder_op list \<Rightarrow>
     ('p, 'n, 'm) build \<Rightarrow> (builder_op list \<times> ('p, 'n, 'm) build) option" where
  "run_builder H U B R [] p = Some ([], p)"
| "run_builder H U B R (op # ops) p = (case run_builder_op H U B R op p of
     None \<Rightarrow> None
   | Some (r, p') \<Rightarrow> map_option (\<lambda>(ok, q). (if isl r then ok else op # ok, q))
       (run_builder H U B R ops p'))"

text \<open>The phases and the operations between them.\<close>

inductive phase_step :: "builder_op \<Rightarrow> builder_phase \<Rightarrow> builder_phase \<Rightarrow> bool" where
  "phase_step OpInitialize Created Initialized"
| "phase_step OpInherents Initialized InherentsApplied"
| "phase_step (OpExtrinsic x) InherentsApplied InherentsApplied"

inductive phase_run :: "builder_op list \<Rightarrow> builder_phase \<Rightarrow> builder_phase \<Rightarrow> bool" where
  stop: "phase_run [] ph ph"
| step: "phase_step op ph ph' \<Longrightarrow> phase_run ops ph' ph'' \<Longrightarrow> phase_run (op # ops) ph ph''"

inductive_cases phase_step_cases: "phase_step op ph ph'"
inductive_simps phase_step_simps:
  "phase_step op Created ph" "phase_step op Initialized ph" "phase_step op InherentsApplied ph"

lemma extrinsics_only:
  "phase_run ops ph ph' \<Longrightarrow> ph = InherentsApplied \<Longrightarrow> \<exists>xs. ops = map OpExtrinsic xs"
proof (induction rule: phase_run.induct)
  case (step op ph ph' ops ph'')
  then obtain x where "op = OpExtrinsic x" "ph' = InherentsApplied" by (auto simp: phase_step_simps)
  with step.IH obtain xs where "op # ops = map OpExtrinsic (x # xs)" by auto
  then show ?case by (rule exI)
qed simp

text \<open>Extrinsics come after the inherents, and these after the initialisation, which occur once.\<close>

lemma phase_run_order:
  assumes "phase_run ops Created InherentsApplied"
  shows "\<exists>xs. ops = OpInitialize # OpInherents # map OpExtrinsic xs"
  using assms extrinsics_only
  by (auto elim!: phase_run.cases [of _ Created] phase_run.cases [of _ Initialized] simp: phase_step_simps)

lemma wlp_run_op:
  assumes inv: "fork_inv U C (builder_storage bu) s"
  shows "wlp (run_builder_op H U B R op)
     (\<lambda>_ (bu', s'). phase_step op (bu_phase bu) (bu_phase bu') \<and> (\<exists>d. built U C d bu s bu' s'))
     (\<lambda>_ (bu', s'). bu_phase bu' = bu_phase bu \<and> (\<exists>d. built U C d bu s bu' s')) (bu, s)"
proof (cases op)
  case OpInitialize
  show ?thesis
    unfolding run_builder_op_def OpInitialize builder_op.case
    by (rule wlp_bindL, rule wlp_mono [OF wlp_initialize [OF inv]])
      (auto intro!: wlp_pure simp: phase_step_simps simp del: quiet_build.simps dest!: quiet_buildD)
next
  case OpInherents
  show ?thesis
    unfolding run_builder_op_def OpInherents builder_op.case
    by (rule wlp_bindL, rule wlp_mono [OF wlp_apply_inherents [OF inv]])
      (auto intro!: wlp_pure simp: phase_step_simps)
next
  case (OpExtrinsic x)
  have step: "phase_step (OpExtrinsic x) (bu_phase bu) (bu_phase bu') \<and> (\<exists>d. built U C d bu s bu' s')"
    if "applied H U C B x bu s outcome bu' s'" for outcome bu' s'
    using that unfolding applied_def
    by (auto split: if_splits simp: phase_step_simps simp del: quiet_build.simps dest!: quiet_buildD)
  show ?thesis
    unfolding run_builder_op_def OpExtrinsic builder_op.case
    by (rule wlp_bindL, rule wlp_mono [OF wlp_apply_extrinsic [OF inv]])
      (auto intro!: wlp_pure simp del: quiet_build.simps dest: step dest!: quiet_buildD)
qed

lemma run_builder_result:
  assumes "run_builder H U B R ops (bu, s) = Some (ok, (bu', s'))" and "fork_inv U C (builder_storage bu) s"
  shows "phase_run ok (bu_phase bu) (bu_phase bu') \<and> (\<exists>d. built U C d bu s bu' s')"
  using assms
proof (induction ops arbitrary: bu s ok)
  case Nil
  then show ?case by (auto simp: phase_run.stop built_def intro: writes_quiet quiet.refl)
next
  case (Cons op ops)
  obtain r bu1 s1 rest where
    1: "run_builder_op H U B R op (bu, s) = Some (r, (bu1, s1))" and
    2: "run_builder H U B R ops (bu1, s1) = Some (rest, (bu', s'))" and
    3: "ok = (if isl r then rest else op # rest)"
    using Cons.prems(1) by (auto split: option.splits)
  have op: "(if isl r then bu_phase bu1 = bu_phase bu else phase_step op (bu_phase bu) (bu_phase bu1)) \<and>
      (\<exists>d. built U C d bu s bu1 s1)"
    using wlp_run_op [OF Cons.prems(2), of H B R op] 1 by (cases r) (simp_all add: wlp_def)
  then obtain d where d: "built U C d bu s bu1 s1" by blast
  from Cons.IH [OF 2 built_inv [OF d Cons.prems(2)]] op 3 show ?case
    by (auto intro: phase_run.step dest: built_trans [OF d])
qed

section \<open>Extrinsics\<close>

text \<open>
  C12: an extrinsic that is not reported as applied (the runtime answers with a transaction
  error, or the call fails, or the phase is wrong) changes nothing a read can see at any block,
  and the block under construction does not get it.
\<close>

theorem failed_extrinsic_changes_nothing:
  assumes "fork_inv U C (builder_storage bu) s"
    and "apply_extrinsic H U B x (bu, s) = Some (r, (bu', s'))" and "\<nexists>n. r = Inr (Success n)"
  shows "layer_value (builder_storage bu) C s' = layer_value (builder_storage bu) C s \<and>
     modifications s' = modifications s \<and> bu_extrinsics bu' = bu_extrinsics bu \<and> bu_phase bu' = bu_phase bu"
proof -
  have "quiet_build U C (bu, s) (bu', s')"
    using wlp_apply_extrinsic [OF assms(1), of H B x] assms(2,3)
    by (cases r) (auto simp: wlp_def applied_def split: if_splits)
  then have "same_builder bu bu'" "same_fork s s'" using assms(1) by (simp_all add: quiet_def)
  then show ?thesis
    using layer_value_same [OF \<open>same_fork s s'\<close>] by (simp add: same_builder_def) (simp add: same_fork_def)
qed

theorem failed_extrinsic_witness:
  "\<exists>bu' s'. apply_extrinsic sample_host sample_node sample_substrate [1, 0]
       (sample_builder InherentsApplied, sample_fork []) =
       Some (Inr (DispatchFailed ''Dispatch failed: 00''), (bu', s')) \<and>
     layer_value sample_layer sample_chain s' = layer_value sample_layer sample_chain (sample_fork [])"
proof -
  let ?r = "apply_extrinsic sample_host sample_node sample_substrate [1, 0]
    (sample_builder InherentsApplied, sample_fork [])"
  have "map_option fst ?r = Some (Inr (DispatchFailed ''Dispatch failed: 00''))" by code_simp
  then obtain bu' s' where r: "?r = Some (Inr (DispatchFailed ''Dispatch failed: 00''), (bu', s'))" by auto
  have "fork_inv sample_node sample_chain (builder_storage (sample_builder InherentsApplied)) (sample_fork [])"
    by (simp add: sample_invs)
  from failed_extrinsic_changes_nothing [OF this r] r show ?thesis by auto
qed

text \<open>
  an extrinsic that is reported as applied is in the block, and the head then reads as
  before with the storage changes of the runtime on top; their number is the one reported.
\<close>

theorem applied_extrinsic_takes_effect:
  assumes "fork_inv U C (builder_storage bu) s"
    and "apply_extrinsic H U B x (bu, s) = Some (Inr (Success n), (bu', s'))"
  shows "\<exists>c. answered H U C bu s ''BlockBuilder_apply_extrinsic'' x c \<and> n = length (cr_storage_diff c) \<and>
     bu_extrinsics bu' = bu_extrinsics bu @ [x] \<and>
     (\<forall>k. layer_value (builder_storage bu) C s' (current_block_number (builder_storage bu)) k =
       (case map_of (rev (cr_storage_diff c)) k of Some v \<Rightarrow> v
        | None \<Rightarrow> layer_value (builder_storage bu) C s (current_block_number (builder_storage bu)) k))"
proof -
  have "applied H U C B x bu s (Success n) bu' s'"
    using wlp_apply_extrinsic [OF assms(1), of H B x] assms(2) by (simp add: wlp_def)
  then obtain c where c: "answered H U C bu s ''BlockBuilder_apply_extrinsic'' x c"
    "n = length (cr_storage_diff c)" "bu_extrinsics bu' = bu_extrinsics bu @ [x]"
    "built U C (cr_storage_diff c) bu s bu' s'"
    by (auto simp: applied_def split: if_splits)
  then show ?thesis
    using assms(1) by (intro exI [of _ c]) (auto simp: built_def writes_def overridden_def)
qed

theorem applied_extrinsic_witness:
  "\<exists>bu' s'. apply_extrinsic sample_host sample_node sample_substrate [0, 0]
       (sample_builder InherentsApplied, sample_fork []) = Some (Inr (Success 1), (bu', s')) \<and>
     bu_extrinsics bu' = [[0, 0]]"
proof -
  let ?r = "apply_extrinsic sample_host sample_node sample_substrate [0, 0]
    (sample_builder InherentsApplied, sample_fork [])"
  have "map_option fst ?r = Some (Inr (Success 1))" by code_simp
  then obtain bu' s' where r: "?r = Some (Inr (Success 1), (bu', s'))" by auto
  have "fork_inv sample_node sample_chain (builder_storage (sample_builder InherentsApplied)) (sample_fork [])"
    by (simp add: sample_invs)
  from applied_extrinsic_takes_effect [OF this r] r show ?thesis
    by (auto simp: sample_builder_def new_builder_def)
qed

text \<open>
  A dispatch error, which the runtime answers with the bytes 0 and 1, counts as a success
  for an extrinsic: it is put in the block. The same answer for an inherent is an error.
\<close>

definition forget_stats :: "('n, 'm) fork \<Rightarrow> ('n, 'm) fork" where
  "forget_stats s = s\<lparr>f_remote := (f_remote s)\<lparr>r_stats := zero_stats\<rparr>\<rparr>"

lemma reset_run: "reset_storage_stats (bu, s) = Some (Inr (), (bu, forget_stats s))"
  by (simp add: reset_storage_stats_def on_layer_def on_snd_def prog_simps parent_def reset_stats_def
      forget_stats_def)

theorem dispatch_error_counts_as_success:
  assumes "fork_inv U C (builder_storage bu) s" and "bu_phase bu = InherentsApplied"
    and call: "call_with_prototype H U (bu_executor bu) (bu_prototype bu) ''BlockBuilder_apply_extrinsic'' x
      (builder_storage bu) (forget_stats s) = Some ((Inr c, proto), t)"
    and out: "take 2 (cr_output c) = [0, 1]"
  shows "\<exists>bu' s' q. apply_extrinsic H U B x (bu, s) =
       Some (Inr (Success (length (cr_storage_diff c))), (bu', s')) \<and>
     bu_extrinsics bu' = bu_extrinsics bu @ [x] \<and>
     layer_value (builder_storage bu) C s' (current_block_number (builder_storage bu)) =
       overridden (cr_storage_diff c)
         (layer_value (builder_storage bu) C s (current_block_number (builder_storage bu))) \<and>
     apply_inherent H U B i x (bu, forget_stats s) =
       Some (Inl (InherentProviderFailed i (''Inherent dispatch failed: '' @ sb_hex B (cr_output c))), q)"
proof -
  let ?L = "builder_storage bu"
  let ?bu1 = "bu\<lparr>bu_prototype := proto\<rparr>"
  have L: "builder_storage ?bu1 = ?L" by (simp add: builder_storage_def)
  have "quiet U C ?L s (forget_stats s)"
    using keepsD [OF quiet_reset_storage_stats reset_run, of U C bu s] by simp
  then have w1: "quiet U C ?L s t" by (rule quiet.trans) (rule quiet_call [OF call])
  then have inv: "fork_inv U C ?L t" using assms(1) by (simp add: quiet_def)
  let ?s2 = "put_all (current_block_number ?L) (cr_storage_diff c) t"
  obtain u s3 where d: "decode_extrinsic_call U B x (bu_parent bu) ?s2 = (u, s3)" by fastforce
  moreover from d obtain y where "u = Inr y"
    by (auto simp: decode_extrinsic_call_def ignore_errors_def prog_simps split: prod.splits sum.splits)
  ultimately have run: "apply_extrinsic H U B x (bu, s) = Some (Inr (Success (length (cr_storage_diff c))),
      (?bu1\<lparr>bu_extrinsics := bu_extrinsics bu @ [x]\<rparr>, s3))"
    using assms(2) call out apply_diff_run [of U C ?bu1 t "cr_storage_diff c"] inv
    by (cases "cr_output c")
      (simp_all add: apply_extrinsic_def builder_gets_def builder_modify_def bindL_def reset_run
        call_apply_extrinsic_def builder_call_def L on_parent_def on_snd_def prog_simps)
  have inherent: "apply_inherent H U B i x (bu, forget_stats s) =
      Some (Inl (InherentProviderFailed i (''Inherent dispatch failed: '' @ sb_hex B (cr_output c))), (?bu1, t))"
    using call out
    by (cases "cr_output c"; cases "tl (cr_output c)")
      (simp_all add: apply_inherent_def call_apply_extrinsic_def builder_call_def bindL_def dispatch_ok_def prog_simps)
  have "quiet U C ?L ?s2 s3" by (rule keeps_returnsD [OF quiet_decode d])
  from writes_trans [OF writes_trans [OF writes_quiet [OF w1] writes_put_all] writes_quiet [OF this]]
  have "writes U C ?L (cr_storage_diff c) s s3" by simp
  then have "layer_value ?L C s3 (current_block_number ?L) =
      overridden (cr_storage_diff c) (layer_value ?L C s (current_block_number ?L))"
    using assms(1) by (simp add: writes_def)
  with run inherent show ?thesis by auto
qed

theorem dispatch_error_witness:
  "\<exists>bu' s' q. apply_extrinsic sample_host sample_node sample_substrate [0, 1]
       (sample_builder InherentsApplied, sample_fork []) = Some (Inr (Success 1), (bu', s')) \<and>
     apply_inherent sample_host sample_node sample_substrate ''Timestamp'' [0, 1]
       (sample_builder InherentsApplied, forget_stats (sample_fork [])) =
       Some (Inl (InherentProviderFailed ''Timestamp'' ''Inherent dispatch failed: 00''), q)"
proof -
  let ?bu = "sample_builder InherentsApplied"
  have inv: "fork_inv sample_node sample_chain (builder_storage ?bu) (sample_fork [])"
    by (simp add: sample_invs)
  have ph: "bu_phase ?bu = InherentsApplied" "bu_executor ?bu = sample_executor"
    by (simp_all add: sample_builder_def new_builder_def)
  have "call_with_prototype sample_host sample_node (bu_executor ?bu) (bu_prototype ?bu)
      ''BlockBuilder_apply_extrinsic'' [0, 1] (builder_storage ?bu) (forget_stats (sample_fork [])) =
    Some ((Inr \<lparr>cr_output = [0, 1], cr_storage_diff = [([1], Some [0, 1])], cr_offchain_diff = [],
      cr_logs = []\<rparr>, Some ()), forget_stats (sample_fork []))"
    by (simp add: ph sample_call)
  from dispatch_error_counts_as_success [OF inv ph(1) this, of sample_substrate "''Timestamp''"]
  show ?thesis by (auto simp: sample_substrate_def)
qed

section \<open>The phases\<close>

text \<open>
  C11: whatever a caller does with a builder, and whatever fails, a block is only finished when
  exactly one initialisation, then exactly one round of inherents, then any number of
  extrinsics have returned a value, in this order.
\<close>

theorem finished_builds_are_ordered:
  assumes "fork_head U C b s"
    and "run_builder H U B R ops (new_builder b X header providers proto skip, s) = Some (ok, (bu, t))"
    and "finalize H U B (bu, t) = Some (Inr r, q)"
  shows "\<exists>xs. ok = OpInitialize # OpInherents # map OpExtrinsic xs"
proof -
  let ?bu = "new_builder b X header providers proto skip"
  have b: "builder_storage ?bu = blk_storage b" "bu_phase ?bu = Created" "bu_parent ?bu = b"
    by (simp_all add: builder_storage_def new_builder_def)
  have "fork_inv U C (builder_storage ?bu) s" using assms(1) by (simp add: b fork_head_def)
  from run_builder_result [OF assms(2) this] have "phase_run ok Created (bu_phase bu)"
    by (simp add: b)
  moreover have "bu_phase bu = InherentsApplied"
    using assms(3) by (cases "bu_phase bu") (simp_all add: finalize_def builder_gets_def prog_simps)
  ultimately show ?thesis by (simp add: phase_run_order)
qed

text \<open>
  The sample script: an extrinsic too early, the phases, an applied and a failed extrinsic, a
  second initialisation.
\<close>

definition sample_ops :: "builder_op list" where
  "sample_ops = [OpExtrinsic [0], OpInitialize, OpInherents, OpExtrinsic [0, 0], OpInitialize]"

definition sample_created :: "unit builder" where
  "sample_created = new_builder sample_head sample_executor [] [] None True"

lemma sample_script:
  obtains bu t r q where "run_builder sample_host sample_node sample_substrate sample_codec sample_ops
      (sample_created, sample_fork []) =
    Some ([OpInitialize, OpInherents, OpExtrinsic [0, 0]], (bu, t))"
    "finalize sample_host sample_node sample_substrate (bu, t) = Some (Inr r, q)"
    "blk_header (fst r) = [4, 2]"
proof -
  let ?run = "run_builder sample_host sample_node sample_substrate sample_codec sample_ops
      (sample_created, sample_fork [])"
  have "map_option (\<lambda>(ok, p). (ok, map_option (\<lambda>(r, _). map_sum (\<lambda>_. ()) (\<lambda>r. blk_header (fst r)) r)
      (finalize sample_host sample_node sample_substrate p))) ?run =
    Some ([OpInitialize, OpInherents, OpExtrinsic [0, 0]], Some (Inr [4, 2]))" by code_simp
  then obtain bu t r q where "?run = Some ([OpInitialize, OpInherents, OpExtrinsic [0, 0]], (bu, t))"
    "finalize sample_host sample_node sample_substrate (bu, t) = Some (r, q)"
    "map_sum (\<lambda>_. ()) (\<lambda>r. blk_header (fst r)) r = Inr [4, 2]"
    by auto
  moreover from this(3) obtain y where "r = Inr y" "blk_header (fst y) = [4, 2]"
    by (auto simp: map_sum_cases)
  ultimately show ?thesis using that by blast
qed

theorem finished_builds_witness:
  "\<exists>ok p. run_builder sample_host sample_node sample_substrate sample_codec sample_ops
       (sample_created, sample_fork []) = Some (ok, p) \<and>
     (\<exists>xs. ok = OpInitialize # OpInherents # map OpExtrinsic xs)"
proof -
  obtain bu t r q where r: "run_builder sample_host sample_node sample_substrate sample_codec sample_ops
      (sample_created, sample_fork []) = Some ([OpInitialize, OpInherents, OpExtrinsic [0, 0]], (bu, t))"
    and f: "finalize sample_host sample_node sample_substrate (bu, t) = Some (Inr r, q)"
    by (rule sample_script)
  have "\<exists>xs. [OpInitialize, OpInherents, OpExtrinsic [0, 0]] = OpInitialize # OpInherents # map OpExtrinsic xs"
    by (rule finished_builds_are_ordered [OF sample_fork_head r [unfolded sample_created_def] f])
  with r show ?thesis
    by - (rule exI, rule exI, rule conjI, assumption)
qed



end
