(* ===== verification/Dev_Accounts.thy ===== *)
theory Dev_Accounts
  imports Substrate
begin

text \<open>
  The funded development accounts, \<^verbatim>\<open>crates/pop-fork/src/dev.rs\<close>, and the choice of the sudo
  account from the types of the metadata (\<^verbatim>\<open>blockchain.rs\<close>). An account is stored as the SCALE
  encoding of \<^verbatim>\<open>AccountInfo\<close>: nonce, consumers, providers and sufficients (4 bytes each), then the
  free balance (16 bytes at offset 16) and the rest of \<^verbatim>\<open>AccountData\<close>.
\<close>

section \<open>The accounts\<close>

type_synonym u128 = "128 word"

definition DEV_BALANCE :: u128 where
  "DEV_BALANCE = - 1 div 2"

definition ALICE :: bytes where
  "ALICE =
     [0xd4, 0x35, 0x93, 0xc7, 0x15, 0xfd, 0xd3, 0x1c, 0x61, 0x14, 0x1a, 0xbd, 0x04, 0xa9, 0x9f, 0xd6,
      0x82, 0x2c, 0x85, 0x58, 0x85, 0x4c, 0xcd, 0xe3, 0x9a, 0x56, 0x84, 0xe7, 0xa5, 0x6d, 0xa2, 0x7d]"

definition BOB :: bytes where
  "BOB =
     [0x8e, 0xaf, 0x04, 0x15, 0x16, 0x87, 0x73, 0x63, 0x26, 0xc9, 0xfe, 0xa1, 0x7e, 0x25, 0xfc, 0x52,
      0x87, 0x61, 0x36, 0x93, 0xc9, 0x12, 0x90, 0x9c, 0xb2, 0x26, 0xaa, 0x47, 0x94, 0xf2, 0x6a, 0x48]"

definition CHARLIE :: bytes where
  "CHARLIE =
     [0x90, 0xb5, 0xab, 0x20, 0x5c, 0x69, 0x74, 0xc9, 0xea, 0x84, 0x1b, 0xe6, 0x88, 0x86, 0x46, 0x33,
      0xdc, 0x9c, 0xa8, 0xa3, 0x57, 0x84, 0x3e, 0xea, 0xcf, 0x23, 0x14, 0x64, 0x99, 0x65, 0xfe, 0x22]"

definition DAVE :: bytes where
  "DAVE =
     [0x30, 0x67, 0x21, 0x21, 0x1d, 0x54, 0x04, 0xbd, 0x9d, 0xa8, 0x8e, 0x02, 0x04, 0x36, 0x0a, 0x1a,
      0x9a, 0xb8, 0xb8, 0x7c, 0x66, 0xc1, 0xbc, 0x2f, 0xcd, 0xd3, 0x7f, 0x3c, 0x22, 0x22, 0xcc, 0x20]"

definition EVE :: bytes where
  "EVE =
     [0xe6, 0x59, 0xa7, 0xa1, 0x62, 0x8c, 0xdd, 0x93, 0xfe, 0xbc, 0x04, 0xa4, 0xe0, 0x64, 0x6e, 0xa2,
      0x0e, 0x9f, 0x5f, 0x0c, 0xe0, 0x97, 0xd9, 0xa0, 0x52, 0x90, 0xd4, 0xa9, 0xe0, 0x54, 0xdf, 0x4e]"

definition FERDIE :: bytes where
  "FERDIE =
     [0x1c, 0xbd, 0x2d, 0x43, 0x53, 0x0a, 0x44, 0x70, 0x5a, 0xd0, 0x88, 0xaf, 0x31, 0x3e, 0x18, 0xf8,
      0x0b, 0x53, 0xef, 0x16, 0xb3, 0x61, 0x77, 0xcd, 0x4b, 0x77, 0xb8, 0x46, 0xf2, 0xa5, 0xf0, 0x7c]"

definition ALITH :: bytes where
  "ALITH =
     [0xf2, 0x4f, 0xf3, 0xa9, 0xcf, 0x04, 0xc7, 0x1d, 0xbc, 0x94, 0xd0, 0xb5, 0x66, 0xf7, 0xa2, 0x7b,
      0x94, 0x56, 0x6c, 0xac]"

definition BALTATHAR :: bytes where
  "BALTATHAR =
     [0x3c, 0xd0, 0xa7, 0x05, 0xa2, 0xdc, 0x65, 0xe5, 0xb1, 0xe1, 0x20, 0x58, 0x96, 0xba, 0xa2, 0xbe,
      0x8a, 0x07, 0xc6, 0xe0]"

definition CHARLETH :: bytes where
  "CHARLETH =
     [0x79, 0x8d, 0x4b, 0xa9, 0xba, 0xf0, 0x06, 0x4e, 0xc1, 0x9e, 0xb4, 0xf0, 0xa1, 0xa4, 0x57, 0x85,
      0xae, 0x9d, 0x6d, 0xfc]"

definition DOROTHY :: bytes where
  "DOROTHY =
     [0x77, 0x35, 0x39, 0xd4, 0xac, 0x0e, 0x78, 0x62, 0x33, 0xd9, 0x0a, 0x23, 0x36, 0x54, 0xcc, 0xee,
      0x26, 0xa6, 0x13, 0xd9]"

definition ETHAN :: bytes where
  "ETHAN =
     [0xff, 0x64, 0xd3, 0xf6, 0xef, 0xe2, 0x31, 0x7e, 0xe2, 0x80, 0x7d, 0x22, 0x3a, 0x0b, 0xdc, 0x4c,
      0x0c, 0x49, 0xdf, 0xdb]"

definition FAITH :: bytes where
  "FAITH =
     [0xc0, 0xf0, 0xf4, 0xab, 0x32, 0x4c, 0x46, 0xe5, 0x5d, 0x02, 0xd0, 0x03, 0x33, 0x43, 0xb4, 0xbe,
      0x8a, 0x55, 0x53, 0x2d]"

definition SUBSTRATE_DEV_ACCOUNTS :: "(string \<times> bytes) list" where
  "SUBSTRATE_DEV_ACCOUNTS =
     [(''Alice'', ALICE), (''Bob'', BOB), (''Charlie'', CHARLIE), (''Dave'', DAVE), (''Eve'', EVE),
      (''Ferdie'', FERDIE)]"

definition ETHEREUM_DEV_ACCOUNTS :: "(string \<times> bytes) list" where
  "ETHEREUM_DEV_ACCOUNTS =
     [(''Alith'', ALITH), (''Baltathar'', BALTATHAR), (''Charleth'', CHARLETH), (''Dorothy'', DOROTHY),
      (''Ethan'', ETHAN), (''Faith'', FAITH)]"

section \<open>Keys and values\<close>

definition account_storage_key :: "('n, 'm) substrate \<Rightarrow> bytes \<Rightarrow> bytes" where
  "account_storage_key B account =
     storage_key B ''System'' ''Account'' @ sb_blake2_128 B account @ account"

definition sudo_key_storage_key :: "('n, 'm) substrate \<Rightarrow> bytes" where
  "sudo_key_storage_key B = storage_key B ''Sudo'' ''Key''"

text \<open>\<open>data[a..b].copy_from_slice(..)\<close>, \<open>None\<close> for the panic on a range beyond the end.\<close>

definition copy_into :: "nat \<Rightarrow> bytes \<Rightarrow> bytes \<Rightarrow> bytes option" where
  "copy_into a new data =
     (if a + length new \<le> length data
      then Some (take a data @ new @ drop (a + length new) data) else None)"

definition build_account_info :: "u128 \<Rightarrow> bytes option" where
  "build_account_info free_balance =
     Option.bind (copy_into 8 (to_le_bytes 4 (1 :: u32)) (replicate 80 0)) (copy_into 16 (to_le_bytes 16 free_balance))"

definition patch_free_balance :: "bytes \<Rightarrow> u128 \<Rightarrow> bytes option" where
  "patch_free_balance existing new_balance = copy_into 16 (to_le_bytes 16 new_balance) existing"

section \<open>The sudo account\<close>

definition TYPE_RESOLVE_MAX_DEPTH :: nat where
  "TYPE_RESOLVE_MAX_DEPTH = 8"

definition is_u8 :: "type_info option \<Rightarrow> bool" where
  "is_u8 ty = (case ty of Some t \<Rightarrow> ti_def t = TPrimitiveU8 | None \<Rightarrow> False)"

text \<open>
  The depth is counted down: \<open>left\<close> is one more than the levels still allowed, so that it starts at
  \<open>TYPE_RESOLVE_MAX_DEPTH + 1\<close> and the code's test \<open>depth > TYPE_RESOLVE_MAX_DEPTH\<close> is \<open>left = 0\<close>. The
  fields of all variants are looked at in order; two that disagree end the search.
\<close>

function (sequential) infer_account_id_len :: "(u32 \<Rightarrow> type_info option) \<Rightarrow> u32 \<Rightarrow> nat \<Rightarrow> nat option"
  and infer_from_fields :: "(u32 \<Rightarrow> type_info option) \<Rightarrow> u32 list \<Rightarrow> nat \<Rightarrow> nat option \<Rightarrow> nat option" where
  "infer_account_id_len registry ty_id 0 = None"
| "infer_account_id_len registry ty_id (Suc left) =
     (case registry ty_id of
        None \<Rightarrow> None
      | Some ty \<Rightarrow>
          (let seg = (if ti_path ty = [] then None else Some (last (ti_path ty))) in
           if seg = Some ''AccountId20'' \<or> seg = Some ''H160'' then Some 20
           else if seg = Some ''AccountId32'' \<or> seg = Some ''H256'' then Some 32
           else case ti_def ty of
             TArray len element \<Rightarrow>
               if (len = 20 \<or> len = 32) \<and> is_u8 (registry element) then Some (unat len) else None
           | TComposite ids \<Rightarrow>
               (case ids of [i] \<Rightarrow> infer_account_id_len registry i left | _ \<Rightarrow> None)
           | TVariant ids \<Rightarrow> infer_from_fields registry (concat ids) left None
           | _ \<Rightarrow> None))"
| "infer_from_fields registry [] left inferred_len = inferred_len"
| "infer_from_fields registry (i # is) left inferred_len =
     (case infer_account_id_len registry i left of
        None \<Rightarrow> infer_from_fields registry is left inferred_len
      | Some len \<Rightarrow>
          if inferred_len \<noteq> None \<and> inferred_len \<noteq> Some len then None
          else infer_from_fields registry is left (Some len))"
  by pat_completeness auto

termination infer_account_id_len
  by (relation "measures [\<lambda>x. case x of Inl (_, _, n) \<Rightarrow> 2 * n | Inr (_, _, n, _) \<Rightarrow> 2 * n + 1,
      \<lambda>x. case x of Inl _ \<Rightarrow> 0 | Inr (_, ids, _, _) \<Rightarrow> length ids]") auto

definition sudo_account_id_len :: "('n, 'm) substrate \<Rightarrow> 'm \<Rightarrow> nat option" where
  "sudo_account_id_len B md =
     Option.bind (pallet_by_name B md ''Sudo'') (\<lambda>p.
     Option.bind (pl_storage p) (\<lambda>entries.
     Option.bind (List.find (\<lambda>e. en_name e = ''Key'') entries) (\<lambda>e.
     infer_account_id_len (sb_types B md) (en_value_ty e) (Suc TYPE_RESOLVE_MAX_DEPTH))))"

text \<open>\<open>None\<close> is the panic on an empty list of accounts.\<close>

definition select_sudo_account :: "(string \<times> bytes) list \<Rightarrow> nat option \<Rightarrow> (string \<times> bytes) option" where
  "select_sudo_account accounts expected_len =
     (case Option.bind expected_len (\<lambda>len. List.find (\<lambda>(_, account). length account = len) accounts) of
        Some selected \<Rightarrow> Some selected
      | None \<Rightarrow> (case accounts of a # _ \<Rightarrow> Some a | [] \<Rightarrow> None))"

section \<open>What the functions do\<close>

lemma copy_into_result:
  "copy_into a new data = Some d \<longleftrightarrow> a + length new \<le> length data \<and> length d = length data \<and>
     take (length new) (drop a d) = new \<and> take a d = take a data \<and>
     drop (a + length new) d = drop (a + length new) data"
proof
  assume r: "a + length new \<le> length data \<and> length d = length data \<and>
     take (length new) (drop a d) = new \<and> take a d = take a data \<and>
     drop (a + length new) d = drop (a + length new) data"
  have "d = take a d @ take (length new) (drop a d) @ drop (length new) (drop a d)"
    by (simp only: append_take_drop_id)
  with r show "copy_into a new data = Some d" by (simp add: copy_into_def add.commute)
qed (cases new; auto simp: copy_into_def min_def split: if_splits)

lemma build_account_info_eq:
  "build_account_info b = Some (replicate 8 0 @ [1, 0, 0, 0] @ replicate 4 0 @ to_le_bytes 16 b @ replicate 48 0)"
proof -
  have "to_le_bytes 4 (1 :: u32) = [1, 0, 0, 0]" by code_simp
  then show ?thesis by (simp add: build_account_info_def copy_into_def numeral_eq_Suc)
qed

end
