(* ===== verification/Fork_Blockchain.thy ===== *)
theory Fork_Blockchain
  imports Block_Builder Dev_Accounts
begin

text \<open>
  The forked chain, \<^verbatim>\<open>crates/pop-fork/src/blockchain.rs\<close>: the head with its executor and
  caches, over the fork. An operation is a program on the pair of the chain's own fields and the
  fork. The locks are held for a step at a time; \<open>build_block\<close> is given in the two steps between
  which another task may run, the building and the commit.
\<close>

section \<open>Types\<close>

datatype chain_type = RelayChain | Parachain u32

record valid_transaction =
  vt_priority :: u64
  vt_requires :: "bytes list"
  vt_provides :: "bytes list"
  vt_longevity :: u64
  vt_propagate :: bool

datatype invalid_transaction =
  InvCall | InvPayment | InvFuture | InvStale | InvBadMandatory | InvMandatoryDispatch | InvBadSigner | InvCustom u8

datatype unknown_transaction = CannotLookup | NoUnsignedValidator | UnkCustom u8

datatype transaction_validity_error = Invalid invalid_transaction | Unknown unknown_transaction

datatype transaction_validity = ValidityOk valid_transaction | ValidityErr transaction_validity_error

definition reason :: "transaction_validity_error \<Rightarrow> string" where
  "reason e = (case e of
     Invalid why \<Rightarrow> (case why of
       InvCall \<Rightarrow> ''Call failed''
     | InvPayment \<Rightarrow> ''Insufficient funds for fees''
     | InvFuture \<Rightarrow> ''Nonce too high''
     | InvStale \<Rightarrow> ''Nonce too low (already used)''
     | InvBadMandatory \<Rightarrow> ''Bad mandatory inherent''
     | InvMandatoryDispatch \<Rightarrow> ''Mandatory dispatch failed''
     | InvBadSigner \<Rightarrow> ''Invalid signature''
     | InvCustom code \<Rightarrow> ''Custom error: '' @ digits (unat code))
   | Unknown unk \<Rightarrow> (case unk of
       CannotLookup \<Rightarrow> ''Cannot lookup validity''
     | NoUnsignedValidator \<Rightarrow> ''No unsigned validator''
     | UnkCustom code \<Rightarrow> ''Custom unknown: '' @ digits (unat code)))"

definition is_unknown :: "transaction_validity_error \<Rightarrow> bool" where
  "is_unknown e = (case e of Unknown _ \<Rightarrow> True | Invalid _ \<Rightarrow> False)"

record build_result =
  br_block :: block
  br_included :: "bytes list"
  br_failed :: "(bytes \<times> string) list"

text \<open>The event of a new block: hash, number, parent hash, header and modified keys.\<close>

datatype blockchain_event = NewBlock h256 u32 h256 bytes "bytes list"

datatype blockchain_error =
    BCBlock block_error
  | BCBuilder builder_error
  | BCCache cache_error
  | BCExecutor exec_error
  | BCPanic

record 'p blockchain =
  bc_head :: block
  bc_providers :: "inherent_provider list"
  bc_chain_name :: string
  bc_chain_type :: chain_type
  bc_fork_point_hash :: h256
  bc_fork_point_number :: u32
  bc_executor_config :: executor_config
  bc_executor :: executor
  bc_warm_prototype :: "'p option"
  bc_prefetch_done :: bool
  bc_cached_slot_duration :: u64
  bc_events :: "blockchain_event list"
  bc_genesis_hash :: "string option"
  bc_last_reconnect_log :: u64

type_synonym ('p, 'n, 'm) node_state = "'p blockchain \<times> ('n, 'm) fork"

section \<open>Parts of an operation\<close>

definition on_fork :: "(('n, 'm) fork, 'e, 'a) prog \<Rightarrow> (('p, 'n, 'm) node_state, 'e, 'a) prog" where
  "on_fork m = on_field snd (\<lambda>s p. (fst p, s)) m"

definition bc_gets :: "('p blockchain \<Rightarrow> 'a) \<Rightarrow> (('p, 'n, 'm) node_state, 'e, 'a) prog" where
  "bc_gets f = gets (\<lambda>p. f (fst p))"

definition bc_modify :: "('p blockchain \<Rightarrow> 'p blockchain) \<Rightarrow> (('p, 'n, 'm) node_state, 'e, unit) prog" where
  "bc_modify f = modify (\<lambda>(bc, s). (f bc, s))"

text \<open>A remote operation with the error it has as a block error.\<close>

definition on_remote :: "('n remote, remote_error, 'a) prog \<Rightarrow> (('n, 'm) fork, blockchain_error, 'a) prog" where
  "on_remote m = map_err (\<lambda>e. BCBlock (BRemote e)) (on_field f_remote (\<lambda>r s. s\<lparr>f_remote := r\<rparr>) m)"

definition on_upstream :: "('n, rpc_error, 'a) prog \<Rightarrow> (('n, 'm) fork, blockchain_error, 'a) prog" where
  "on_upstream m = map_err (\<lambda>e. BCBlock (BRpc e))
     (on_field f_remote (\<lambda>r s. s\<lparr>f_remote := r\<rparr>) (on_field r_net (\<lambda>n r. r\<lparr>r_net := n\<rparr>) m))"

definition RECONNECT_LOG_DEBOUNCE_SECS :: u64 where
  "RECONNECT_LOG_DEBOUNCE_SECS = 30"

definition saturating_sub_u64 :: "u64 \<Rightarrow> u64 \<Rightarrow> u64" where
  "saturating_sub_u64 a b = (if b \<le> a then a - b else 0)"

definition reconnect_upstream ::
  "('n, 'm) upstream \<Rightarrow> ('n, 'm) substrate \<Rightarrow> (('p, 'n, 'm) node_state, 'e, bool) prog" where
  "reconnect_upstream U B =
     bindE (on_fork (read_clock B)) (\<lambda>now_ms.
     bindE (bc_gets bc_last_reconnect_log) (\<lambda>last_log.
     let elapsed_secs = saturating_sub_u64 now_ms last_log div 1000 in
     bindE (if RECONNECT_LOG_DEBOUNCE_SECS \<le> elapsed_secs
            then bc_modify (\<lambda>bc. bc\<lparr>bc_last_reconnect_log := now_ms\<rparr>) else ret ()) (\<lambda>_.
     matchE (on_fork (on_upstream (reconnect U))) (\<lambda>_. ret False) (\<lambda>_. ret True))))"

text \<open>
  \<open>match op { Ok(x) => x, Err(first) => if reconnect { op? } else { first } }\<close>.
\<close>

definition with_upstream ::
  "('n, 'm) upstream \<Rightarrow> ('n, 'm) substrate \<Rightarrow> (('n, 'm) fork, blockchain_error, 'a) prog \<Rightarrow>
     (('p, 'n, 'm) node_state, blockchain_error, 'a) prog" where
  "with_upstream U B m =
     matchE (on_fork m)
       (\<lambda>first_err. bindE (reconnect_upstream U B) (\<lambda>ok. if ok then on_fork m else fail first_err))
       ret"

section \<open>Blocks\<close>

definition head_number :: "(('p, 'n, 'm) node_state, blockchain_error, u32) prog" where
  "head_number = bc_gets (\<lambda>bc. blk_number (bc_head bc))"

definition head_hash :: "(('p, 'n, 'm) node_state, blockchain_error, h256) prog" where
  "head_hash = bc_gets (\<lambda>bc. blk_hash (bc_head bc))"

text \<open>The walk from the head to the fork point.\<close>

definition find_local :: "(block \<Rightarrow> bool) \<Rightarrow> block \<Rightarrow> block option" where
  "find_local P b = List.find P (lineage b)"

definition bc_block_body ::
  "('n, 'm) upstream \<Rightarrow> ('n, 'm) substrate \<Rightarrow> h256 \<Rightarrow>
     (('p, 'n, 'm) node_state, blockchain_error, bytes list option) prog" where
  "bc_block_body U B hash =
     bindE (bc_gets bc_head) (\<lambda>hb.
     case find_local (\<lambda>b. blk_hash b = hash) hb of
       Some b \<Rightarrow> ret (Some (blk_extrinsics b))
     | None \<Rightarrow> with_upstream U B (on_remote (remote_block_body U hash)))"

definition bc_block_header ::
  "('n, 'm) upstream \<Rightarrow> ('n, 'm) substrate \<Rightarrow> h256 \<Rightarrow>
     (('p, 'n, 'm) node_state, blockchain_error, bytes option) prog" where
  "bc_block_header U B hash =
     bindE (bc_gets bc_head) (\<lambda>hb.
     case find_local (\<lambda>b. blk_hash b = hash) hb of
       Some b \<Rightarrow> ret (Some (blk_header b))
     | None \<Rightarrow> with_upstream U B (on_remote (remote_block_header U hash)))"

definition bc_block_hash_at ::
  "('n, 'm) upstream \<Rightarrow> ('n, 'm) substrate \<Rightarrow> u32 \<Rightarrow>
     (('p, 'n, 'm) node_state, blockchain_error, h256 option) prog" where
  "bc_block_hash_at U B block_number =
     bindE (bc_gets bc_head) (\<lambda>hb.
     if blk_number hb < block_number then ret None
     else case find_local (\<lambda>b. blk_number b = block_number) hb of
       Some b \<Rightarrow> ret (Some (blk_hash b))
     | None \<Rightarrow> with_upstream U B (on_remote (block_hash_by_number U block_number)))"

definition bc_block_number_by_hash ::
  "('n, 'm) upstream \<Rightarrow> ('n, 'm) substrate \<Rightarrow> h256 \<Rightarrow>
     (('p, 'n, 'm) node_state, blockchain_error, u32 option) prog" where
  "bc_block_number_by_hash U B hash =
     bindE (bc_gets bc_head) (\<lambda>hb.
     case find_local (\<lambda>b. blk_hash b = hash) hb of
       Some b \<Rightarrow> ret (Some (blk_number b))
     | None \<Rightarrow> with_upstream U B (on_remote (block_number_by_hash U hash)))"

definition bc_block_parent_hash ::
  "('n, 'm) upstream \<Rightarrow> ('n, 'm) substrate \<Rightarrow> h256 \<Rightarrow>
     (('p, 'n, 'm) node_state, blockchain_error, h256 option) prog" where
  "bc_block_parent_hash U B hash =
     bindE (bc_gets bc_head) (\<lambda>hb.
     case find_local (\<lambda>b. blk_hash b = hash) hb of
       Some b \<Rightarrow> ret (Some (blk_parent_hash b))
     | None \<Rightarrow> with_upstream U B (on_remote (remote_parent_hash U hash)))"

definition genesis_hash ::
  "('n, 'm) upstream \<Rightarrow> ('n, 'm) substrate \<Rightarrow> (('p, 'n, 'm) node_state, blockchain_error, string) prog" where
  "genesis_hash U B =
     bindE (bc_gets bc_genesis_hash) (\<lambda>known.
     case known of
       Some h \<Rightarrow> ret h
     | None \<Rightarrow>
         bindE (bc_block_hash_at U B 0) (\<lambda>found.
         case found of
           Some hash \<Rightarrow>
             let h = ''0x'' @ sb_hex B (as_bytes hash) in
             bindE (bc_modify (\<lambda>bc. bc\<lparr>bc_genesis_hash := Some h\<rparr>)) (\<lambda>_. ret h)
         | None \<Rightarrow> fail (BCBlock RuntimeCodeNotFound)))"

section \<open>Prefetch and warmup\<close>

definition do_prefetch ::
  "('n, 'm) upstream \<Rightarrow> ('n, 'm) substrate \<Rightarrow> block \<Rightarrow> (('n, 'm) fork, blockchain_error, unit) prog" where
  "do_prefetch U B hb =
     bindE (map_err BCBlock (block_metadata U hb)) (\<lambda>md.
     let block_hash = first_forked_block_hash (blk_storage hb);
         (value_keys, pallet_prefixes) = prefetch_targets B md in
     bindE (ignore_errors (on_remote (remote_get_batch U block_hash value_keys))) (\<lambda>_.
     bindE (each (\<lambda>pre. ignore_errors
              (on_remote (prefetch_prefix_single_page U block_hash pre PREFETCH_PAGE_SIZE)))
              pallet_prefixes) (\<lambda>_.
     ret ())))"

definition ensure_prefetched ::
  "('n, 'm) upstream \<Rightarrow> ('n, 'm) substrate \<Rightarrow> (('p, 'n, 'm) node_state, blockchain_error, unit) prog" where
  "ensure_prefetched U B =
     bindE (bc_gets bc_prefetch_done) (\<lambda>is_done.
     if is_done then ret ()
     else
       bindE (bc_gets bc_head) (\<lambda>hb.
       bindE (ignore_errors (on_fork (do_prefetch U B hb))) (\<lambda>_.
       bc_modify (\<lambda>bc. bc\<lparr>bc_prefetch_done := True\<rparr>))))"

definition warmup_duration ::
  "('n, 'm) upstream \<Rightarrow> ('n, 'm) substrate \<Rightarrow> chain_type \<Rightarrow> block \<Rightarrow> exec_error + call_result \<Rightarrow>
     (('n, 'm) fork, blockchain_error, u64) prog" where
  "warmup_duration U B ty hb result =
     (case (case result of Inr c \<Rightarrow> sb_dec_u64 B (cr_output c) | Inl _ \<Rightarrow> None) of
        Some d \<Rightarrow> ret d
      | None \<Rightarrow>
          bindE (ignore_errors (block_metadata U hb)) (\<lambda>md.
          ret (case Option.bind md (\<lambda>m. constant_from_metadata B m ''Babe'' ''ExpectedBlockTime'') of
                 Some d \<Rightarrow> d
               | None \<Rightarrow> (case ty of RelayChain \<Rightarrow> RELAY_CHAIN_FALLBACK_MS
                                     | Parachain _ \<Rightarrow> PARACHAIN_FALLBACK_MS))))"

text \<open>The warmup of one provider after the other; their errors are dropped.\<close>

fun warmup_all ::
  "('v, 'p) vm_host \<Rightarrow> ('n, 'm) upstream \<Rightarrow> ('n, 'm) substrate \<Rightarrow> block \<Rightarrow> executor \<Rightarrow>
     inherent_provider list \<Rightarrow> ('n, 'm) fork \<Rightarrow> (inherent_provider list \<times> ('n, 'm) fork) option" where
  "warmup_all H U B hb X [] s = Some ([], s)"
| "warmup_all H U B hb X (p # ps) s = (case warmup_provider H U B hb X p s of
     None \<Rightarrow> None
   | Some (_, p', s1) \<Rightarrow> (case warmup_all H U B hb X ps s1 of
       None \<Rightarrow> None | Some (ps', s2) \<Rightarrow> Some (p' # ps', s2)))"

definition warmup_prototype ::
  "('v, 'p) vm_host \<Rightarrow> ('n, 'm) upstream \<Rightarrow> ('n, 'm) substrate \<Rightarrow>
     (('p, 'n, 'm) node_state, blockchain_error, unit) loop_prog" where
  "warmup_prototype H U B = (\<lambda>(bc, s).
     case create_prototype H (bc_executor bc) of
       Inl _ \<Rightarrow> Some (Inr (), (bc, s))
     | Inr proto \<Rightarrow>
         (case call_with_prototype H U (bc_executor bc) (Some proto) ''AuraApi_slot_duration'' []
                 (blk_storage (bc_head bc)) s of
            None \<Rightarrow> None
          | Some ((result, returned), s1) \<Rightarrow>
              returns (bindE (on_fork (warmup_duration U B (bc_chain_type bc) (bc_head bc) result)) (\<lambda>duration.
                bc_modify (\<lambda>bc. bc\<lparr>bc_cached_slot_duration := duration, bc_warm_prototype := returned\<rparr>)))
                (bc, s1)))"

definition warmup ::
  "('v, 'p) vm_host \<Rightarrow> ('n, 'm) upstream \<Rightarrow> ('n, 'm) substrate \<Rightarrow>
     (('p, 'n, 'm) node_state, blockchain_error, unit) loop_prog" where
  "warmup H U B =
     bindL (returns (bc_gets bc_executor)) (\<lambda>X.
     bindL (warmup_prototype H U B) (\<lambda>_.
     bindL (returns (ensure_prefetched U B)) (\<lambda>_ (bc, s).
       map_option (\<lambda>(ps, s'). (Inr (), (bc\<lparr>bc_providers := ps\<rparr>, s')))
         (warmup_all H U B (bc_head bc) X (bc_providers bc) s))))"

section \<open>Building a block\<close>

definition apply_all ::
  "('v, 'p) vm_host \<Rightarrow> ('n, 'm) upstream \<Rightarrow> ('n, 'm) substrate \<Rightarrow> bytes list \<Rightarrow>
     (('p, 'n, 'm) build, builder_error, (bytes \<times> apply_result) list) loop_prog" where
  "apply_all H U B extrinsics =
     eachL (\<lambda>x. bindL (apply_extrinsic H U B x) (\<lambda>r. returns (ret (x, r)))) extrinsics"

definition included_of :: "(bytes \<times> apply_result) list \<Rightarrow> bytes list" where
  "included_of rs = List.map_filter (\<lambda>(x, r). case r of Success _ \<Rightarrow> Some x | DispatchFailed _ \<Rightarrow> None) rs"

definition failed_of :: "(bytes \<times> apply_result) list \<Rightarrow> (bytes \<times> string) list" where
  "failed_of rs = List.map_filter (\<lambda>(x, r). case r of Success _ \<Rightarrow> None | DispatchFailed e \<Rightarrow> Some (x, e)) rs"

text \<open>The work of the builder: the block with the prototype, the outcomes, and whether the code changed.\<close>

definition assemble ::
  "('v, 'p) vm_host \<Rightarrow> ('n, 'm) upstream \<Rightarrow> ('n, 'm) substrate \<Rightarrow> 't relay_codec \<Rightarrow> bytes list \<Rightarrow>
     (('p, 'n, 'm) build, builder_error, (block \<times> 'p option) \<times> (bytes \<times> apply_result) list \<times> bool) loop_prog" where
  "assemble H U B R extrinsics =
     bindL (initialize H U B) (\<lambda>_.
     bindL (apply_inherents H U B R) (\<lambda>_.
     bindL (apply_all H U B extrinsics) (\<lambda>outcomes.
     bindL (returns (gets runtime_upgraded)) (\<lambda>upgraded.
     bindL (finalize H U B) (\<lambda>built_block.
     returns (ret (built_block, outcomes, upgraded)))))))"

text \<open>The providers are shared with the builder, which may have changed their caches.\<close>

definition with_builder ::
  "'p builder \<Rightarrow> (('p, 'n, 'm) build, builder_error, 'a) loop_prog \<Rightarrow>
     (('p, 'n, 'm) node_state, blockchain_error, 'a) loop_prog" where
  "with_builder bu m = (\<lambda>(bc, s).
     map_option (\<lambda>(r, (bu', s')). (map_sum BCBuilder (\<lambda>x. x) r, (bc\<lparr>bc_providers := bu_providers bu'\<rparr>, s')))
       (m (bu, s)))"

record 'p built_block =
  bb_parent_hash :: h256
  bb_block :: block
  bb_prototype :: "'p option"
  bb_outcomes :: "(bytes \<times> apply_result) list"
  bb_upgraded :: bool
  bb_executor :: "executor option"

text \<open>After an upgrade an executor of the new code; failing to make one is only logged.\<close>

definition new_executor_for ::
  "('v, 'p) vm_host \<Rightarrow> ('n, 'm) upstream \<Rightarrow> executor_config \<Rightarrow> bool \<Rightarrow> block \<Rightarrow>
     (('n, 'm) fork, blockchain_error, executor option) prog" where
  "new_executor_for H U config upgraded b =
     (if upgraded
      then bindE (ignore_errors (block_runtime_code U b)) (\<lambda>found. ret (case found of
             None \<Rightarrow> None
           | Some code \<Rightarrow> (case executor_with_config H code None config of Inl _ \<Rightarrow> None | Inr X \<Rightarrow> Some X)))
      else ret None)"

definition build_phase ::
  "('v, 'p) vm_host \<Rightarrow> ('n, 'm) upstream \<Rightarrow> ('n, 'm) substrate \<Rightarrow> 't relay_codec \<Rightarrow> bytes list \<Rightarrow>
     (('p, 'n, 'm) node_state, blockchain_error, 'p built_block) loop_prog" where
  "build_phase H U B R extrinsics =
     bindL (returns (bc_gets (\<lambda>bc. bc))) (\<lambda>bc.
     let parent_block = bc_head bc;
         executor = bc_executor bc;
         warm_prototype = bc_warm_prototype bc;
         slot = (if bc_cached_slot_duration bc = 0 then None else Some (bc_cached_slot_duration bc)) in
     bindL (returns (bc_modify (\<lambda>bc. bc\<lparr>bc_warm_prototype := None\<rparr>))) (\<lambda>_.
     bindL (map_errL BCBuilder (on_snd (create_next_header_with_slot H U B parent_block executor [] slot))) (\<lambda>header.
     bindL (returns (ensure_prefetched U B)) (\<lambda>_.
     bindL (returns (bc_gets bc_providers)) (\<lambda>providers.
     let bu = new_builder parent_block executor header providers warm_prototype True in
     bindL (with_builder bu (assemble H U B R extrinsics)) (\<lambda>((new_block, prototype), outcomes, upgraded).
     bindL (returns (on_fork (new_executor_for H U (bc_executor_config bc) upgraded new_block))) (\<lambda>new_exec.
     returns (ret \<lparr>bb_parent_hash = blk_hash parent_block, bb_block = new_block, bb_prototype = prototype,
       bb_outcomes = outcomes, bb_upgraded = upgraded, bb_executor = new_exec\<rparr>))))))))"

text \<open>The optimistic check, and the update of head, executor and caches.\<close>

definition install :: "'p built_block \<Rightarrow> 'p blockchain \<Rightarrow> 'p blockchain" where
  "install bb bc =
     (let bc1 = bc\<lparr>bc_head := bb_block bb,
           bc_executor := (case bb_executor bb of Some X \<Rightarrow> X | None \<Rightarrow> bc_executor bc)\<rparr>
      in if bb_upgraded bb
         then bc1\<lparr>bc_cached_slot_duration := 0, bc_warm_prototype := None,
               bc_providers := map invalidate_cache (bc_providers bc1)\<rparr>
         else bc1\<lparr>bc_warm_prototype := bb_prototype bb\<rparr>)"

definition commit_phase ::
  "'p built_block \<Rightarrow> (('p, 'n, 'm) node_state, blockchain_error, build_result) prog" where
  "commit_phase bb =
     bindE (bc_gets bc_head) (\<lambda>hb.
     if blk_hash hb \<noteq> bb_parent_hash bb then fail (BCBlock ConcurrentBlockBuild)
     else
       bindE (bc_modify (install bb)) (\<lambda>_.
       let b = bb_block bb in
       bindE (on_fork (ignore_errors diff)) (\<lambda>modified.
       let modified_keys = map fst (case modified of Some d \<Rightarrow> d | None \<Rightarrow> []) in
       bindE (bc_modify (\<lambda>bc. bc\<lparr>bc_events := bc_events bc @
         [NewBlock (blk_hash b) (blk_number b) (blk_parent_hash b) (blk_header b) modified_keys]\<rparr>)) (\<lambda>_.
       ret \<lparr>br_block = b, br_included = included_of (bb_outcomes bb), br_failed = failed_of (bb_outcomes bb)\<rparr>))))"

definition build_block ::
  "('v, 'p) vm_host \<Rightarrow> ('n, 'm) upstream \<Rightarrow> ('n, 'm) substrate \<Rightarrow> 't relay_codec \<Rightarrow> bytes list \<Rightarrow>
     (('p, 'n, 'm) node_state, blockchain_error, build_result) loop_prog" where
  "build_block H U B R extrinsics = bindL (build_phase H U B R extrinsics) (\<lambda>bb. returns (commit_phase bb))"

definition build_empty_block ::
  "('v, 'p) vm_host \<Rightarrow> ('n, 'm) upstream \<Rightarrow> ('n, 'm) substrate \<Rightarrow> 't relay_codec \<Rightarrow>
     (('p, 'n, 'm) node_state, blockchain_error, block) loop_prog" where
  "build_empty_block H U B R = bindL (build_block H U B R []) (\<lambda>r. returns (ret (br_block r)))"

section \<open>Storage\<close>

definition get_storage_value ::
  "('n, 'm) upstream \<Rightarrow> ('n, 'm) substrate \<Rightarrow> u32 \<Rightarrow> bytes \<Rightarrow>
     (('p, 'n, 'm) node_state, blockchain_error, bytes option) prog" where
  "get_storage_value U B block_number key =
     bindE (bc_gets bc_head) (\<lambda>hb.
     bindE (with_upstream U B
              (map_err (\<lambda>e. BCBlock (BStorage e)) (layer_get U (blk_storage hb) block_number key))) (\<lambda>value.
     ret (Option.bind value sv_value)))"

definition bc_storage ::
  "('n, 'm) upstream \<Rightarrow> ('n, 'm) substrate \<Rightarrow> bytes \<Rightarrow>
     (('p, 'n, 'm) node_state, blockchain_error, bytes option) prog" where
  "bc_storage U B key = bindE head_number (\<lambda>n. get_storage_value U B n key)"

definition bc_storage_at ::
  "('n, 'm) upstream \<Rightarrow> ('n, 'm) substrate \<Rightarrow> u32 \<Rightarrow> bytes \<Rightarrow>
     (('p, 'n, 'm) node_state, blockchain_error, bytes option) prog" where
  "bc_storage_at U B block_number key = get_storage_value U B block_number key"

definition on_forkL :: "(('n, 'm) fork, 'e, 'a) loop_prog \<Rightarrow> (('p, 'n, 'm) node_state, 'e, 'a) loop_prog" where
  "on_forkL m = on_snd m"

text \<open>The number of a block built by the fork; other blocks are the node's.\<close>

definition fork_local :: "'p blockchain \<Rightarrow> u32 option \<Rightarrow> u32 option" where
  "fork_local bc block_number = (case block_number of
     Some n \<Rightarrow> if bc_fork_point_number bc < n then Some n else None
   | None \<Rightarrow> None)"

definition bc_storage_keys_paged ::
  "('n, 'm) upstream \<Rightarrow> ('n, 'm) substrate \<Rightarrow> bytes \<Rightarrow> u32 \<Rightarrow> bytes option \<Rightarrow> h256 option \<Rightarrow>
     (('p, 'n, 'm) node_state, blockchain_error, bytes list) loop_prog" where
  "bc_storage_keys_paged U B pre count start_key at =
     bindL (returns (bc_gets (\<lambda>bc. bc))) (\<lambda>bc.
     let block_hash = (case at of Some h \<Rightarrow> h | None \<Rightarrow> blk_hash (bc_head bc)) in
     bindL (returns (bc_block_number_by_hash U B block_hash)) (\<lambda>block_number.
     case fork_local bc block_number of
       Some n \<Rightarrow>
         bindL (on_forkL (map_errL (\<lambda>e. BCBlock (BStorage e))
                  (keys_by_prefix U (blk_storage (bc_head bc)) pre n))) (\<lambda>all_keys.
         returns (ret (take (unat count) (keys_after start_key all_keys))))
     | None \<Rightarrow>
         returns (with_upstream U B (on_upstream (storage_keys_paged U pre count start_key block_hash)))))"

definition bc_storage_keys_by_prefix ::
  "('n, 'm) upstream \<Rightarrow> ('n, 'm) substrate \<Rightarrow> bytes \<Rightarrow> h256 \<Rightarrow>
     (('p, 'n, 'm) node_state, blockchain_error, bytes list) loop_prog" where
  "bc_storage_keys_by_prefix U B pre at =
     bindL (returns (bc_gets (\<lambda>bc. bc))) (\<lambda>bc.
     bindL (returns (bc_block_number_by_hash U B at)) (\<lambda>block_number.
     case fork_local bc block_number of
       Some n \<Rightarrow>
         on_forkL (map_errL (\<lambda>e. BCBlock (BStorage e)) (keys_by_prefix U (blk_storage (bc_head bc)) pre n))
     | None \<Rightarrow>
         on_forkL (map_errL (\<lambda>e. BCBlock (BRemote e))
           (on_fieldL f_remote (\<lambda>r s. s\<lparr>f_remote := r\<rparr>) (get_keys U at pre)))))"

definition bc_storage_batch ::
  "('n, 'm) upstream \<Rightarrow> ('n, 'm) substrate \<Rightarrow> h256 \<Rightarrow> bytes list \<Rightarrow>
     (('p, 'n, 'm) node_state, blockchain_error, bytes option list) prog" where
  "bc_storage_batch U B at keys = with_upstream U B (on_remote (remote_get_batch U at keys))"

definition proxy_state_call ::
  "('n, 'm) upstream \<Rightarrow> ('n, 'm) substrate \<Rightarrow> string \<Rightarrow> bytes \<Rightarrow> h256 \<Rightarrow>
     (('p, 'n, 'm) node_state, blockchain_error, bytes) prog" where
  "proxy_state_call U B fn args at = with_upstream U B (on_upstream (state_call U fn args (Some at)))"

definition bc_clear_local_storage :: "(('p, 'n, 'm) node_state, blockchain_error, unit) prog" where
  "bc_clear_local_storage = on_fork (map_err BCCache (on_field f_remote (\<lambda>r s. s\<lparr>f_remote := r\<rparr>)
     (on_field r_cache (\<lambda>c r. r\<lparr>r_cache := c\<rparr>) clear_local_storage)))"

section \<open>Runtime calls\<close>

text \<open>
  A call on the head takes the warm prototype, and puts back the one the call returned if the head is
  still the same.
\<close>

definition call_head_block ::
  "('v, 'p) vm_host \<Rightarrow> ('n, 'm) upstream \<Rightarrow> string \<Rightarrow> bytes \<Rightarrow>
     (('p, 'n, 'm) node_state, 'e, exec_error + call_result) loop_prog" where
  "call_head_block H U fn args = (\<lambda>(bc, s).
     map_option (\<lambda>((result, returned), s').
         (Inr result, (bc\<lparr>bc_warm_prototype := returned\<rparr>, s')))
       (call_with_prototype H U (bc_executor bc) (bc_warm_prototype bc) fn args (blk_storage (bc_head bc)) s))"

text \<open>A block of the fork, or one of the node with the handle of the head.\<close>

definition find_or_create_block_for_call ::
  "('n, 'm) upstream \<Rightarrow> h256 \<Rightarrow> (('p, 'n, 'm) node_state, blockchain_error, block option) prog" where
  "find_or_create_block_for_call U hash =
     bindE (bc_gets bc_head) (\<lambda>hb.
     case find_local (\<lambda>b. blk_hash b = hash) hb of
       Some b \<Rightarrow> ret (Some b)
     | None \<Rightarrow>
         bindE (on_fork (on_remote (block_number_by_hash U hash))) (\<lambda>found.
         ret (map_option (\<lambda>number. mocked_for_call hash number (blk_storage hb)) found)))"

definition call_at_block ::
  "('v, 'p) vm_host \<Rightarrow> ('n, 'm) upstream \<Rightarrow> h256 \<Rightarrow> string \<Rightarrow> bytes \<Rightarrow>
     (('p, 'n, 'm) node_state, blockchain_error, bytes option) loop_prog" where
  "call_at_block H U hash fn args =
     bindL (returns (bc_gets (\<lambda>bc. bc))) (\<lambda>bc.
     if hash = blk_hash (bc_head bc)
     then
       bindL (call_head_block H U fn args) (\<lambda>result.
       case result of
         Inl e \<Rightarrow> returns (fail (BCExecutor e))
       | Inr c \<Rightarrow> returns (ret (Some (cr_output c))))
     else
       bindL (returns (find_or_create_block_for_call U hash)) (\<lambda>found.
       case found of
         None \<Rightarrow> returns (ret None)
       | Some b \<Rightarrow>
           bindL (returns (on_fork (map_err BCBlock (block_runtime_code U b)))) (\<lambda>code.
           case executor_with_config H code None (bc_executor_config bc) of
             Inl e \<Rightarrow> returns (fail (BCExecutor e))
           | Inr X \<Rightarrow>
               bindL (on_forkL (map_errL BCExecutor (executor_call H U X fn args (blk_storage b)))) (\<lambda>c.
               returns (ret (Some (cr_output c)))))))"

definition bc_call ::
  "('v, 'p) vm_host \<Rightarrow> ('n, 'm) upstream \<Rightarrow> string \<Rightarrow> bytes \<Rightarrow>
     (('p, 'n, 'm) node_state, blockchain_error, bytes) loop_prog" where
  "bc_call H U fn args =
     bindL (returns head_hash) (\<lambda>h.
     bindL (call_at_block H U h fn args) (\<lambda>result.
     case result of Some out \<Rightarrow> returns (ret out) | None \<Rightarrow> returns (fail BCPanic)))"

definition EXTERNAL :: u8 where
  "EXTERNAL = 2"

text \<open>The decoder of \<open>TransactionValidity\<close> is derived by the SCALE codec: it is an argument.\<close>

definition validate_extrinsic ::
  "('v, 'p) vm_host \<Rightarrow> ('n, 'm) upstream \<Rightarrow> (bytes \<Rightarrow> transaction_validity option) \<Rightarrow> bytes \<Rightarrow>
     (('p, 'n, 'm) node_state, transaction_validity_error, valid_transaction) loop_prog" where
  "validate_extrinsic H U dec extrinsic =
     bindL (returns (bc_gets bc_head)) (\<lambda>hb.
     let args = EXTERNAL # extrinsic @ as_bytes (blk_hash hb) in
     bindL (call_head_block H U ''TaggedTransactionQueue_validate_transaction'' args) (\<lambda>result.
     case result of
       Inl _ \<Rightarrow> returns (fail (Unknown CannotLookup))
     | Inr c \<Rightarrow> (case dec (cr_output c) of
         None \<Rightarrow> returns (fail (Unknown CannotLookup))
       | Some (ValidityOk v) \<Rightarrow> returns (ret v)
       | Some (ValidityErr e) \<Rightarrow> returns (fail e))))"

section \<open>Creating the fork\<close>

definition get_para_id ::
  "('n, 'm) upstream \<Rightarrow> ('n, 'm) substrate \<Rightarrow> block \<Rightarrow> (('n, 'm) fork, 'e, u32 option) prog" where
  "get_para_id U B b =
     bindE (ignore_errors (layer_get U (blk_storage b) (blk_number b)
              (storage_key B ''ParachainInfo'' ''ParachainId''))) (\<lambda>found.
     ret (Option.bind (Option.bind (Option.bind found (\<lambda>v. v)) sv_value) (sb_dec_u32 B)))"

definition detect_chain_type ::
  "('n, 'm) upstream \<Rightarrow> ('n, 'm) substrate \<Rightarrow> block \<Rightarrow> (('n, 'm) fork, blockchain_error, chain_type) prog" where
  "detect_chain_type U B b =
     bindE (map_err BCBlock (block_metadata U b)) (\<lambda>md.
     if pallet_by_name B md ''ParachainSystem'' \<noteq> None
     then bindE (get_para_id U B b) (\<lambda>id. ret (Parachain (case id of Some i \<Rightarrow> i | None \<Rightarrow> 0)))
     else ret RelayChain)"

definition get_chain_name ::
  "('v, 'p) vm_host \<Rightarrow> ('n, 'm) upstream \<Rightarrow> block \<Rightarrow> (('n, 'm) fork, blockchain_error, string) prog" where
  "get_chain_name H U b =
     bindE (map_err BCBlock (block_runtime_code U b)) (\<lambda>code.
     lift_sum (case new_executor H code None of
       Inl e \<Rightarrow> Inl (BCExecutor e)
     | Inr X \<Rightarrow> (case runtime_version H X of Inl e \<Rightarrow> Inl (BCExecutor e) | Inr v \<Rightarrow> Inr v)))"

definition setup_chain ::
  "('v, 'p) vm_host \<Rightarrow> ('n, 'm) upstream \<Rightarrow> ('n, 'm) substrate \<Rightarrow> executor_config \<Rightarrow> block \<Rightarrow>
     (('n, 'm) fork, blockchain_error, 'p blockchain) prog" where
  "setup_chain H U B config fork_block =
     bindE (detect_chain_type U B fork_block) (\<lambda>ty.
     bindE (get_chain_name H U fork_block) (\<lambda>chain_name.
     let providers = default_providers (case ty of Parachain _ \<Rightarrow> True | RelayChain \<Rightarrow> False) in
     bindE (map_err BCBlock (block_runtime_code U fork_block)) (\<lambda>code.
     case executor_with_config H code None config of
       Inl e \<Rightarrow> fail (BCExecutor e)
     | Inr X \<Rightarrow> ret
         \<lparr>bc_head = fork_block, bc_providers = providers, bc_chain_name = chain_name, bc_chain_type = ty,
          bc_fork_point_hash = blk_hash fork_block, bc_fork_point_number = blk_number fork_block,
          bc_executor_config = config, bc_executor = X, bc_warm_prototype = None,
          bc_prefetch_done = False, bc_cached_slot_duration = 0, bc_events = [], bc_genesis_hash = None,
          bc_last_reconnect_log = 0\<rparr>)))"

text \<open>
  The cache is the one that was opened. The warmup that the code starts in the background is the
  operation \<open>warmup\<close>.
\<close>

definition fork_with_config ::
  "('v, 'p) vm_host \<Rightarrow> ('n, 'm) upstream \<Rightarrow> ('n, 'm) substrate \<Rightarrow> cache \<Rightarrow> block_fork_point option \<Rightarrow>
     executor_config \<Rightarrow> ('n, blockchain_error, ('p, 'n, 'm) node_state) prog" where
  "fork_with_config H U B c point config =
     bindE (case point of
              Some fp \<Rightarrow> ret fp
            | None \<Rightarrow>
                bindE (map_err (\<lambda>e. BCBlock (BRpc e)) (create_connection U (u_endpoint U))) (\<lambda>_.
                bindE (map_err (\<lambda>e. BCBlock (BRpc e)) (finalized_head U)) (\<lambda>finalized.
                ret (ForkHash finalized)))) (\<lambda>fp.
     bindE (map_err BCBlock (fork_point U c fp)) (\<lambda>(b, s).
     (\<lambda>_. case setup_chain H U B config b s of
        (Inl e, s') \<Rightarrow> (Inl e, r_net (f_remote s'))
      | (Inr bc, s') \<Rightarrow> (Inr (bc, s'), r_net (f_remote s')))))"

section \<open>Development accounts\<close>

fun funded_entries :: "(bytes \<times> bytes option) list \<Rightarrow> (bytes \<times> bytes option) list option" where
  "funded_entries [] = Some []"
| "funded_entries ((key, existing) # rest) =
     Option.bind (case existing of
        Some data \<Rightarrow> patch_free_balance data DEV_BALANCE
      | None \<Rightarrow> build_account_info DEV_BALANCE) (\<lambda>value.
     map_option (\<lambda>entries. (key, Some value) # entries) (funded_entries rest))"

definition set_sudo ::
  "('n, 'm) substrate \<Rightarrow> (string \<times> bytes) list \<Rightarrow> 'm \<Rightarrow> layer \<Rightarrow> (('n, 'm) fork, blockchain_error, unit) prog" where
  "set_sudo B accounts md L =
     (if pallet_by_name B md ''Sudo'' = None then ret ()
      else case select_sudo_account accounts (sudo_account_id_len B md) of
             None \<Rightarrow> fail BCPanic
           | Some (_, sudo_account) \<Rightarrow>
               map_err (\<lambda>e. BCBlock (BStorage e)) (set_initial L (sudo_key_storage_key B) (Some sudo_account)))"

text \<open>\<open>is_ethereum\<close> is the property of that name the node reports, false when it does not.\<close>

definition dev_accounts :: "bool \<Rightarrow> (string \<times> bytes) list" where
  "dev_accounts is_ethereum = SUBSTRATE_DEV_ACCOUNTS @ (if is_ethereum then ETHEREUM_DEV_ACCOUNTS else [])"

definition initialize_dev_accounts ::
  "('n, 'm) upstream \<Rightarrow> ('n, 'm) substrate \<Rightarrow> bool \<Rightarrow> (('p, 'n, 'm) node_state, blockchain_error, unit) prog" where
  "initialize_dev_accounts U B is_ethereum =
     bindE (bc_gets (\<lambda>bc. bc)) (\<lambda>bc.
     let hb = bc_head bc;
         accounts = dev_accounts is_ethereum;
         keys = map (\<lambda>(_, a). account_storage_key B a) accounts in
     bindE (on_fork (on_remote (remote_get_batch U (bc_fork_point_hash bc) keys))) (\<lambda>existing_values.
     case funded_entries (zip keys existing_values) of
       None \<Rightarrow> fail BCPanic
     | Some entries \<Rightarrow>
         bindE (on_fork (map_err (\<lambda>e. BCBlock (BStorage e)) (set_batch_initial (blk_storage hb) entries))) (\<lambda>_.
         bindE (on_fork (map_err BCBlock (block_metadata U hb))) (\<lambda>md.
         on_fork (set_sudo B accounts md (blk_storage hb))))))"

end
