(* ===== verification/Blockchain_Laws.thy ===== *)
theory Blockchain_Laws
  imports Fork_Blockchain Builder_Laws
begin

text \<open>
  The invariant of a forked chain, and what its operations keep: a read leaves the head and what
  it reads as they are, building a block leads to the state that the builder's laws describe.
\<close>

section \<open>The invariant\<close>

definition node_inv :: "('n, 'm) upstream \<Rightarrow> chain \<Rightarrow> ('p, 'n, 'm) node_state \<Rightarrow> bool" where
  "node_inv U C = (\<lambda>(bc, s). fork_head U C (bc_head bc) s \<and>
     bc_fork_point_hash bc = first_forked_block_hash (blk_storage (bc_head bc)) \<and>
     bc_fork_point_number bc = first_forked_block_number (blk_storage (bc_head bc)))"

section \<open>Reads\<close>

text \<open>Everything but the caches of the chain stays.\<close>

definition same_chain :: "'p blockchain \<Rightarrow> 'p blockchain \<Rightarrow> bool" where
  "same_chain bc bc' \<longleftrightarrow> bc_head bc' = bc_head bc \<and> bc_fork_point_hash bc' = bc_fork_point_hash bc \<and>
     bc_fork_point_number bc' = bc_fork_point_number bc \<and> bc_executor bc' = bc_executor bc \<and>
     bc_executor_config bc' = bc_executor_config bc \<and> bc_events bc' = bc_events bc \<and>
     bc_chain_type bc' = bc_chain_type bc"

lemma same_chain_refl [simp]: "same_chain bc bc"
  by (simp add: same_chain_def)

fun quiet_node :: "('n, 'm) upstream \<Rightarrow> chain \<Rightarrow> ('p, 'n, 'm) node_state \<Rightarrow> ('p, 'n, 'm) node_state \<Rightarrow> bool" where
  "quiet_node U C (bc, s) (bc', s') \<longleftrightarrow> same_chain bc bc' \<and> quiet U C (blk_storage (bc_head bc)) s s'"

interpretation quiet_node: frame "quiet_node U C" for U C
proof
  show "quiet_node U C s s" for s :: "('p, 'a, 'b) node_state"
    by (cases s) (simp add: quiet.refl)
  show "quiet_node U C s t \<Longrightarrow> quiet_node U C t u \<Longrightarrow> quiet_node U C s u" for s t u :: "('p, 'a, 'b) node_state"
    by (cases s; cases t; cases u) (auto simp: same_chain_def intro: quiet.trans)
qed

lemma quiet_node_inv: "quiet_node U C p q \<Longrightarrow> node_inv U C p \<Longrightarrow> node_inv U C q"
  by (cases p; cases q)
    (auto simp: node_inv_def same_chain_def fork_head_def quiet_def intro: history_inv_same)

lemma quiet_node_values:
  "quiet_node U C (bc, s) (bc', s') \<Longrightarrow> node_inv U C (bc, s) \<Longrightarrow>
     layer_value (blk_storage (bc_head bc')) C s' = layer_value (blk_storage (bc_head bc)) C s"
  by (auto simp: node_inv_def same_chain_def fork_head_def quiet_def layer_value_same)

lemma quiet_bc_gets [frame_intros]: "keeps (quiet_node U C) (returns (bc_gets f))"
  unfolding bc_gets_def by (rule quiet_node.pure)

lemma quiet_bc_modify: "(\<And>bc. same_chain bc (f bc)) \<Longrightarrow> keeps (quiet_node U C) (returns (bc_modify f))"
  by (auto simp: keeps_def bc_modify_def prog_simps quiet.refl split: prod.splits)

lemma quiet_on_fork [frame_intros]:
  assumes "\<And>L. keeps (quiet U C L) (returns m)"
  shows "keeps (quiet_node U C) (returns (on_fork m))"
  using keeps_returnsD [OF assms]
  by (auto simp: keeps_def on_fork_def prog_simps split: prod.splits)

lemma quiet_on_forkL [frame_intros]:
  assumes "\<And>L. keeps (quiet U C L) m"
  shows "keeps (quiet_node U C) (on_forkL m)"
  using keepsD [OF assms]
  by (auto simp: keeps_def on_forkL_def on_snd_def prog_simps split: option.splits)

text \<open>A remote operation that keeps the remote layer as it should be is quiet.\<close>

lemma quiet_on_remote:
  assumes "\<And>T s. remote_inv U C T s \<Longrightarrow> wp m (\<lambda>_. remote_inv U C T) (\<lambda>_. remote_inv U C T) s"
  shows "keeps (quiet U C L) (returns (on_remote m))"
proof (rule quietI)
  fix s assume inv: "fork_inv U C L s"
  let ?T = "local_tables (fdb s)"
  have "remote_inv U C ?T (f_remote s)" using inv by (simp add: fork_inv_def)
  from assms [OF this] show "wp (on_remote m) (\<lambda>_ s'. fork_inv U C L s' \<and> same_fork s s')
      (\<lambda>_ s'. fork_inv U C L s' \<and> same_fork s s') s"
    unfolding on_remote_def
    by (intro wp_map_err wp_on_field) (auto intro: wp_mono dest: fork_inv_remote [OF inv])
qed

lemma quiet_on_upstream [frame_intros]: "keeps (quiet U C L) (returns (on_upstream m))"
proof (rule quietI)
  fix s assume inv: "fork_inv U C L s"
  have "fork_inv U C L (s\<lparr>f_remote := (f_remote s)\<lparr>r_net := n\<rparr>\<rparr>) \<and>
      same_fork s (s\<lparr>f_remote := (f_remote s)\<lparr>r_net := n\<rparr>\<rparr>)" for n
    by (rule fork_inv_remote [OF inv]) (use inv in \<open>simp add: fork_inv_def remote_inv_def\<close>)
  then show "wp (on_upstream m) (\<lambda>_ s'. fork_inv U C L s' \<and> same_fork s s')
      (\<lambda>_ s'. fork_inv U C L s' \<and> same_fork s s') s"
    by (simp add: on_upstream_def wp_def prog_simps split: prod.splits sum.splits)
qed

lemma wp_rpc_any: "remote_inv U C T s \<Longrightarrow> wp (rpc m) (\<lambda>_. remote_inv U C T) (\<lambda>_. remote_inv U C T) s"
  by (auto simp: rpc_def wp_def prog_simps remote_inv_def split: prod.splits sum.splits)

lemma quiet_remote_ops [frame_intros]:
  "keeps (quiet U C L) (returns (on_remote (remote_block_body U h)))"
  "keeps (quiet U C L) (returns (on_remote (remote_block_header U h)))"
  "keeps (quiet U C L) (returns (on_remote (block_hash_by_number U n)))"
  "keeps (quiet U C L) (returns (on_remote (block_number_by_hash U h)))"
  "keeps (quiet U C L) (returns (on_remote (remote_parent_hash U h)))"
  "keeps (quiet U C L) (returns (on_remote (remote_get_batch U h ks)))"
proof -
  show "keeps (quiet U C L) (returns (on_remote (remote_block_body U h)))"
    unfolding remote_block_body_def
    by (rule quiet_on_remote, rule wp_bindE, rule wp_mono [OF wp_rpc_any]) (auto intro: wp_ret)
  show "keeps (quiet U C L) (returns (on_remote (remote_block_header U h)))"
    unfolding remote_block_header_def
    by (rule quiet_on_remote)
      (auto simp: wp_def prog_simps remote_inv_def split: prod.splits sum.splits rpc_error.splits)
  show "keeps (quiet U C L) (returns (on_remote (block_hash_by_number U n)))"
    unfolding block_hash_by_number_def by (rule quiet_on_remote, rule wp_rpc_any)
  show "keeps (quiet U C L) (returns (on_remote (block_number_by_hash U h)))"
    by (rule quiet_on_remote, rule wp_block_number_by_hash) simp_all
  show "keeps (quiet U C L) (returns (on_remote (remote_parent_hash U h)))"
    by (rule quiet_on_remote, rule wp_remote_parent_hash) simp_all
  show "keeps (quiet U C L) (returns (on_remote (remote_get_batch U h ks)))"
    by (rule quiet_on_remote, rule wp_remote_get_batch) simp_all
qed

lemma quiet_single_page [frame_intros]:
  "keeps (quiet U C L) (returns (on_remote (prefetch_prefix_single_page U h pre PREFETCH_PAGE_SIZE)))"
  by (rule quiet_on_remote, rule wp_single_page) (simp_all add: PREFETCH_PAGE_SIZE_def)

text \<open>A reconnection touches no layer at all.\<close>

definition quiet_all ::
  "('n, 'm) upstream \<Rightarrow> chain \<Rightarrow> ('p, 'n, 'm) node_state \<Rightarrow> ('p, 'n, 'm) node_state \<Rightarrow> bool" where
  "quiet_all U C p q \<longleftrightarrow> same_chain (fst p) (fst q) \<and> (\<forall>L. quiet U C L (snd p) (snd q))"

interpretation quiet_all: frame "quiet_all U C" for U C
  by unfold_locales (auto simp: quiet_all_def quiet.refl same_chain_def intro: quiet.trans)

lemma all_on_fork:
  "(\<And>L. keeps (quiet U C L) (returns m)) \<Longrightarrow> keeps (quiet_all U C) (returns (on_fork m))"
  by (auto simp: keeps_def quiet_all_def on_fork_def prog_simps split: prod.splits)

lemma all_reconnect: "keeps (quiet_all U C) (returns (reconnect_upstream U B))"
  unfolding reconnect_upstream_def Let_def
  by (intro frame_intros all_on_fork quiet_all.bindE quiet_all.matchE quiet_all.pure)
    (auto simp: keeps_def quiet_all_def quiet.refl bc_gets_def bc_modify_def prog_simps same_chain_def)

lemma quiet_reconnect [frame_intros]: "keeps (quiet_node U C) (returns (reconnect_upstream U B))"
proof (rule keepsI)
  fix p q r
  assume "returns (reconnect_upstream U B) p = Some (r, q)"
  from keepsD [OF all_reconnect this] show "quiet_node U C p q"
    by (cases p; cases q) (simp add: quiet_all_def)
qed

lemma quiet_with_upstream [frame_intros]:
  assumes "\<And>L. keeps (quiet U C L) (returns m)"
  shows "keeps (quiet_node U C) (returns (with_upstream U B m))"
  unfolding with_upstream_def
  by (intro frame_intros assms quiet_node.matchE quiet_node.bindE quiet_node.pure)

lemma quiet_runtime_code [frame_intros]:
  "blk_storage b = L \<Longrightarrow> keeps (quiet U C L) (returns (block_runtime_code U b))"
  unfolding block_runtime_code_def by (auto intro!: frame_intros quiet.bindE quiet.pure quiet.map_err)

lemma quiet_block_number_by_hash [frame_intros]:
  "keeps (quiet_node U C) (returns (bc_block_number_by_hash U B h))"
  unfolding bc_block_number_by_hash_def by (intro frame_intros quiet_node.bindE quiet_node.pure)

lemma quiet_block_hash_at [frame_intros]:
  "keeps (quiet_node U C) (returns (bc_block_hash_at U B n))"
  unfolding bc_block_hash_at_def by (intro frame_intros quiet_node.bindE quiet_node.pure)

lemma quiet_ensure_prefetched [frame_intros]: "keeps (quiet_node U C) (returns (ensure_prefetched U B))"
proof -
  have "keeps (quiet U C L) (returns (do_prefetch U B hb))" for L hb
    unfolding do_prefetch_def Let_def
    by (intro frame_intros quiet.bindE quiet.pure quiet.map_err quiet.ignore_errors quiet.each)
  then show ?thesis
    unfolding ensure_prefetched_def
    by (intro frame_intros quiet_node.bindE quiet_node.pure quiet_node.ignore_errors quiet_bc_modify)
      (simp_all add: same_chain_def)
qed

text \<open>
  Operations on the handle of the head, which is known only when they run: \<open>quiet_at\<close> is the frame
  of the states whose head has the handle \<open>L\<close>.
\<close>

definition quiet_at ::
  "('n, 'm) upstream \<Rightarrow> chain \<Rightarrow> layer \<Rightarrow> ('p, 'n, 'm) node_state \<Rightarrow> ('p, 'n, 'm) node_state \<Rightarrow> bool" where
  "quiet_at U C L p q \<longleftrightarrow> (blk_storage (bc_head (fst p)) = L \<longrightarrow> quiet_node U C p q)"

interpretation quiet_at: frame "quiet_at U C L" for U C L
proof
  show "quiet_at U C L s s" for s :: "('p, 'a, 'b) node_state"
    by (simp add: quiet_at_def quiet_node.refl)
  show "quiet_at U C L s t \<Longrightarrow> quiet_at U C L t u \<Longrightarrow> quiet_at U C L s u" for s t u :: "('p, 'a, 'b) node_state"
    by (cases s; cases t; cases u) (auto simp: quiet_at_def same_chain_def intro: quiet.trans)
qed

lemma quiet_node_at: "(\<And>L. keeps (quiet_at U C L) m) \<Longrightarrow> keeps (quiet_node U C) m"
  by (simp add: keeps_def quiet_at_def)

lemma quiet_at_node: "keeps (quiet_node U C) m \<Longrightarrow> keeps (quiet_at U C L) m"
  by (auto simp: keeps_def quiet_at_def)

lemma at_on_fork: "keeps (quiet U C L) (returns m) \<Longrightarrow> keeps (quiet_at U C L) (returns (on_fork m))"
  using keeps_returnsD
  by (fastforce simp: keeps_def quiet_at_def on_fork_def prog_simps split: prod.splits)

lemma at_on_forkL: "keeps (quiet U C L) m \<Longrightarrow> keeps (quiet_at U C L) (on_forkL m)"
  by (fastforce simp: keeps_def quiet_at_def on_forkL_def on_snd_def prog_simps split: option.splits)

lemma at_with_upstream:
  "keeps (quiet U C L) (returns m) \<Longrightarrow> keeps (quiet_at U C L) (returns (with_upstream U B m))"
  unfolding with_upstream_def
  by (intro quiet_at.matchE quiet_at.bindE quiet_at.pure at_on_fork keeps_if_returns
      quiet_at_node [OF quiet_reconnect])

lemma at_head:
  "(\<And>bc. blk_storage (bc_head bc) = L \<Longrightarrow> keeps (quiet_at U C L) (returns (f (g bc)))) \<Longrightarrow>
     keeps (quiet_at U C L) (returns (bindE (bc_gets g) f))"
  "(\<And>bc. blk_storage (bc_head bc) = L \<Longrightarrow> keeps (quiet_at U C L) (h (g bc))) \<Longrightarrow>
     keeps (quiet_at U C L) (bindL (returns (bc_gets g)) h)"
  by (auto simp: keeps_def quiet_at_def bc_gets_def prog_simps)

lemma quiet_get_storage_value [frame_intros]:
  "keeps (quiet_node U C) (returns (get_storage_value U B n k))"
  unfolding get_storage_value_def
  by (rule quiet_node_at, rule at_head, rule quiet_at.bindE, rule at_with_upstream)
    (auto intro: quiet.map_err quiet_layer_get quiet_at.pure)

lemma quiet_call_head [frame_intros]:
  "keeps (quiet_node U C) (call_head_block H U fn args)"
  by (rule keepsI) (auto simp: call_head_block_def same_chain_def dest: quiet_call)

section \<open>Queries\<close>

lemma find_local_Some: "find_local P b = Some x \<Longrightarrow> x \<in> set (lineage b) \<and> P x"
  unfolding find_local_def by (rule find_SomeD)

lemma find_local_None: "find_local P b = None \<longleftrightarrow> (\<forall>x \<in> set (lineage b). \<not> P x)"
  unfolding find_local_def by (rule find_None_all)

text \<open>Every number from the fork point to a block is the number of a block of its line.\<close>

lemma lineage_covers:
  assumes "linked b" and "first_forked_block_number (blk_storage b) \<le> n" and "n \<le> blk_number b"
  shows "\<exists>x \<in> set (lineage b). blk_number x = n"
  using assms
proof (induction b rule: lineage.induct)
  case (2 m h ph hdr exts L p)
  show ?case
  proof (cases "n = m")
    case False
    have m: "m = blk_number p + 1" "n \<le> m" using 2 by simp_all
    have "n \<le> blk_number p"
    proof (cases "blk_number p = - 1")
      case True
      then show ?thesis by simp
    next
      case False
      then show ?thesis
        using less_plus_one_u32 [OF False, of n] m \<open>n \<noteq> m\<close> by (simp add: order.strict_iff_order)
    qed
    with 2 show ?thesis by simp
  qed simp
qed simp

text \<open>The fork point ends the line of every block.\<close>

lemma lineage_ends: "linked b \<Longrightarrow>
   \<exists>x \<in> set (lineage b). blk_number x = first_forked_block_number (blk_storage b) \<and>
     blk_hash x = first_forked_block_hash (blk_storage b) \<and> blk_parent x = None"
  by (induction b rule: lineage.induct) auto

text \<open>
  A request that is sent again after a reconnection, under an invariant that the operation and any
  quiet step keep.
\<close>

lemma wp_with_upstream_keeps:
  assumes op: "\<And>s. I s \<Longrightarrow> wp m (\<lambda>x s'. I s' \<and> P x) (\<lambda>_ s'. I s') s"
    and quiet: "\<And>s s'. I s \<Longrightarrow> (\<And>L. quiet U C L s s') \<Longrightarrow> I s'"
    and "I s" and "with_upstream U B m (bc, s) = (Inr x, (bc', s'))"
  shows "P x \<and> I s' \<and> same_chain bc bc'"
proof (cases "m s")
  case (Pair r s1)
  show ?thesis
  proof (cases r)
    case (Inr y)
    then show ?thesis
      using op [OF assms(3)] assms(4) Pair
      by (simp add: with_upstream_def on_fork_def prog_simps wp_def)
  next
    case (Inl e)
    have inv1: "I s1" using op [OF assms(3)] Pair Inl by (simp add: wp_def)
    obtain k :: "blockchain_error + bool" and bc2 s2 where k: "reconnect_upstream U B (bc, s1) = (k, (bc2, s2))"
      by (rule prod_cases3)
    have q: "same_chain bc bc2 \<and> (\<forall>L. quiet U C L s1 s2)"
      using keeps_returnsD [OF all_reconnect k, of C] by (simp add: quiet_all_def)
    with quiet [OF inv1] have inv2: "I s2" by blast
    show ?thesis
      using op [OF inv2] assms(4) Pair Inl k q
      by (auto simp: with_upstream_def on_fork_def prog_simps wp_def split: sum.splits if_splits prod.splits)
  qed
qed

lemma wp_with_upstream:
  assumes "\<And>s. fork_inv U C L s \<Longrightarrow> wp m (\<lambda>x s'. fork_inv U C L s' \<and> P x) (\<lambda>_ s'. fork_inv U C L s') s"
    and "fork_inv U C L s" and "with_upstream U B m (bc, s) = (Inr x, p)"
  shows "P x"
proof (cases p)
  case (Pair bc' s')
  have same: "fork_inv U C L t'" if "fork_inv U C L t" and "\<And>K. quiet U C K t t'" for t t'
    using that(1) that(2) [of L] by (simp add: quiet_def)
  show ?thesis
    by (rule wp_with_upstream_keeps [where I = "fork_inv U C L", THEN conjunct1, OF assms(1) same assms(2) assms(3) [unfolded Pair]])
qed

lemma wp_remote_number:
  assumes "fork_inv U C L s"
  shows "wp (on_remote (block_number_by_hash U h))
     (\<lambda>x s'. fork_inv U C L s' \<and> x = map_option (\<lambda>b. nh_number (nb_header b)) (ch_block C h))
     (\<lambda>_ s'. fork_inv U C L s') s"
proof -
  have inv: "remote_inv U C (local_tables (fdb s)) (f_remote s)" using assms by (simp add: fork_inv_def)
  show ?thesis
    unfolding on_remote_def
    by (intro wp_map_err wp_on_field wp_block_number_by_hash [OF inv]) (use fork_inv_remote [OF assms] in auto)
qed

end
