(* ===== verification/Build_Laws.thy ===== *)
theory Build_Laws
  imports Blockchain_Laws "HOL-Library.Multiset"
begin

text \<open>
  Building a block with \<open>build_block\<close>: what the builder's run means for the chain, the commit of
  the new head, and the rejection of a block whose parent is no longer the head.
\<close>

section \<open>The builder's run\<close>

lemma eachL_Nil: "eachL f [] = returns (ret [])"
  by simp

lemma included_of_simps [simp]:
  "included_of [] = []" "included_of ((x, Success n) # rs) = x # included_of rs"
  "included_of ((x, DispatchFailed e) # rs) = included_of rs"
  by (simp_all add: included_of_def)

lemma failed_of_simps [simp]:
  "failed_of [] = []" "failed_of ((x, Success n) # rs) = failed_of rs"
  "failed_of ((x, DispatchFailed e) # rs) = (x, e) # failed_of rs"
  by (simp_all add: failed_of_def)

lemma applied_outcome:
  assumes "applied H U C B x bu s r bu' s'"
  shows "\<exists>d. built U C d bu s bu' s'" and "bu_extrinsics bu' = bu_extrinsics bu @ included_of [(x, r)]"
    and "bu_phase bu' = bu_phase bu"
proof -
  obtain c where c: "if succeeded c
      then r = Success (length (cr_storage_diff c)) \<and> bu_extrinsics bu' = bu_extrinsics bu @ [x] \<and>
        built U C (cr_storage_diff c) bu s bu' s'
      else r = DispatchFailed (''Dispatch failed: '' @ sb_hex B (cr_output c)) \<and>
        quiet_build U C (bu, s) (bu', s')"
    using assms unfolding applied_def by blast
  have "(\<exists>d. built U C d bu s bu' s') \<and> bu_extrinsics bu' = bu_extrinsics bu @ included_of [(x, r)]"
  proof (cases "succeeded c")
    case False
    with c have "quiet_build U C (bu, s) (bu', s')" "included_of [(x, r)] = []" by simp_all
    with quiet_buildD show ?thesis by (metis append_Nil2)
  qed (use c in auto)
  then show "\<exists>d. built U C d bu s bu' s'" "bu_extrinsics bu' = bu_extrinsics bu @ included_of [(x, r)]" by simp_all
  show "bu_phase bu' = bu_phase bu" using assms by (simp add: applied_def)
qed

lemma included_of_Cons: "included_of (p # rs) = included_of [p] @ included_of rs"
  by (simp add: included_of_def map_filter_def)

text \<open>Every extrinsic is tried in turn; the block gets those that are reported as applied.\<close>

lemma wlp_apply_all:
  assumes "fork_inv U C (builder_storage bu) s"
  shows "wlp (apply_all H U B xs)
     (\<lambda>rs (bu', s'). map fst rs = xs \<and> bu_extrinsics bu' = bu_extrinsics bu @ included_of rs \<and>
        (\<exists>d. built U C d bu s bu' s'))
     (\<lambda>_ (bu', s'). \<exists>d. built U C d bu s bu' s') (bu, s)"
  using assms unfolding apply_all_def
proof (induction xs arbitrary: bu s)
  case Nil
  then show ?case by (auto intro!: wlp_pure simp: built_def intro: writes_quiet quiet.refl)
next
  case (Cons x xs)
  let ?each = "eachL (\<lambda>x. bindL (apply_extrinsic H U B x) (\<lambda>r. returns (ret (x, r))))"
  have one: "wlp (bindL (apply_extrinsic H U B x) (\<lambda>r. returns (ret (x, r))))
      (\<lambda>y (bu', s'). \<exists>r. y = (x, r) \<and> applied H U C B x bu s r bu' s')
      (\<lambda>_ (bu', s'). \<exists>d. built U C d bu s bu' s') (bu, s)"
    by (rule wlp_bindL, rule wlp_mono [OF wlp_apply_extrinsic [OF Cons.prems]])
      (auto intro!: wlp_pure simp del: quiet_build.simps dest!: quiet_buildD)
  have rest: "wlp (bindL (?each xs) (\<lambda>ys. returns (ret ((x, r) # ys))))
      (\<lambda>rs (bu', s'). map fst rs = x # xs \<and> bu_extrinsics bu' = bu_extrinsics bu @ included_of rs \<and>
        (\<exists>d. built U C d bu s bu' s'))
      (\<lambda>_ (bu', s'). \<exists>d. built U C d bu s bu' s') (bu1, s1)"
    if a: "applied H U C B x bu s r bu1 s1" for r bu1 s1
  proof -
    obtain d where d: "built U C d bu s bu1 s1" using applied_outcome(1) [OF a] by blast
    note trans = built_trans [OF d]
    obtain inc where inc: "bu_extrinsics bu1 = bu_extrinsics bu @ inc"
      "\<And>ys. included_of ((x, r) # ys) = inc @ included_of ys"
      using applied_outcome(2) [OF a] included_of_Cons [of "(x, r)"] by blast
    show ?thesis
      by (rule wlp_bindL, rule wlp_mono [OF Cons.IH [OF built_inv [OF d Cons.prems]]])
        (auto intro!: wlp_pure simp: inc simp del: included_of_simps dest: trans)
  qed
  show ?case
    unfolding eachL.simps
    by (rule wlp_bindL, rule wlp_mono [OF one], clarify, rule rest, assumption, assumption)
qed

text \<open>The block that a run gives, on the parent of the builder.\<close>

definition child_built ::
  "('n, 'm) upstream \<Rightarrow> chain \<Rightarrow> block \<Rightarrow> ('n, 'm) fork \<Rightarrow> block \<Rightarrow> ('n, 'm) fork \<Rightarrow> bool" where
  "child_built U C p s b s' \<longleftrightarrow> blk_number b = blk_number p + 1 \<and> blk_parent_hash b = blk_hash p \<and> linked b \<and>
     first_forked_block_number (blk_storage b) = first_forked_block_number (blk_storage p) \<and>
     first_forked_block_hash (blk_storage b) = first_forked_block_hash (blk_storage p) \<and>
     fork_head U C b s' \<and>
     (clean (blk_storage p) s \<longrightarrow>
       (\<forall>n \<le> blk_number p. layer_value (blk_storage b) C s' n = layer_value (blk_storage p) C s n))"

lemma built_fork_head:
  assumes "built U C d bu s bu' s'" and "fork_head U C (bu_parent bu) s"
  shows "fork_head U C (bu_parent bu') s'"
  using assms by (simp add: built_def fork_head_def writes_def builder_storage_def)

lemma finished_child:
  assumes d: "built U C d bu s bu1 s1" and f: "finished H U C B bu1 s1 b s'"
    and head: "fork_head U C (bu_parent bu) s"
  shows "child_built U C (bu_parent bu) s b s'"
proof -
  let ?p = "bu_parent bu"
  have p: "bu_parent bu1 = ?p" "builder_storage bu1 = blk_storage ?p" and w: "writes U C (blk_storage ?p) d s s1"
    using d by (simp_all add: built_def builder_storage_def)
  have inv: "fork_inv U C (blk_storage ?p) s" "history_inv (blk_storage ?p) s"
    and num: "blk_number ?p \<noteq> - 1" "current_block_number (blk_storage ?p) = blk_number ?p + 1"
    using head by (simp_all add: fork_head_def)
  have n: "blk_number b = blk_number ?p + 1" "blk_parent_hash b = blk_hash ?p" "linked b"
    "first_forked_block_number (blk_storage b) = first_forked_block_number (blk_storage ?p)"
    "first_forked_block_hash (blk_storage b) = first_forked_block_hash (blk_storage ?p)"
    "fork_head U C b s'"
    using f unfolding finished_def p by blast+
  have le: "m < blk_number ?p + 1 \<longleftrightarrow> m \<le> blk_number ?p" for m
    using less_plus_one_u32 [OF num(1)] .
  have past: "clean (blk_storage ?p) s \<longrightarrow>
      (\<forall>m \<le> blk_number ?p. layer_value (blk_storage b) C s' m = layer_value (blk_storage ?p) C s m)"
    using f w inv n(1) unfolding finished_def p by (simp add: writes_def num le)
  show ?thesis unfolding child_built_def using n past by blast
qed

lemma wlp_assemble:
  assumes head: "fork_head U C (bu_parent bu) s"
  shows "wlp (assemble H U B R xs)
     (\<lambda>((b, _), rs, _) (_, s'). map fst rs = xs \<and> child_built U C (bu_parent bu) s b s' \<and>
        (\<exists>is. blk_extrinsics b = is @ included_of rs))
     (\<lambda>_ (_, s'). \<exists>d. writes U C (builder_storage bu) d s s') (bu, s)"
proof -
  let ?E = "\<lambda>_ (_, s'). \<exists>d. writes U C (builder_storage bu) d s s'"
  have inv: "fork_inv U C (builder_storage bu) s" using head by (simp add: fork_head_def builder_storage_def)
  have err: "\<exists>d. writes U C (builder_storage bu) d s s'" if "built U C d bu s bu' s'" for d bu' s'
    using that by (auto simp: built_def)
  have end_phase: "wlp (bindL (finalize H U B) (\<lambda>built_block. returns (ret (built_block, rs, upgraded))))
     (\<lambda>((b, _), rs, _) (_, s'). map fst rs = xs \<and> child_built U C (bu_parent bu) s b s' \<and>
        (\<exists>is. blk_extrinsics b = is @ included_of rs)) ?E (bu3, s3)"
    if d: "built U C d bu s bu3 s3" and rs: "map fst rs = xs" "bu_extrinsics bu3 = is @ included_of rs"
    for d bu3 s3 rs upgraded "is"
  proof -
    have "\<exists>is. blk_extrinsics b = is @ included_of rs" if "finished H U C B bu3 s3 b s'" for b s'
      using that rs(2) by (auto simp: finished_def)
    with rs(1) show ?thesis
      by - (rule wlp_bindL, rule wlp_mono [OF wlp_finalize [OF built_fork_head [OF d head]]],
        auto intro!: wlp_pure intro: finished_child [OF d _ head] err dest: built_trans [OF d])
  qed
  have apply_phase: "wlp (bindL (apply_all H U B xs) (\<lambda>outcomes.
       bindL (returns (gets runtime_upgraded)) (\<lambda>upgraded.
       bindL (finalize H U B) (\<lambda>built_block. returns (ret (built_block, outcomes, upgraded))))))
     (\<lambda>((b, _), rs, _) (_, s'). map fst rs = xs \<and> child_built U C (bu_parent bu) s b s' \<and>
        (\<exists>is. blk_extrinsics b = is @ included_of rs)) ?E (bu2, s2)"
    if d: "built U C d bu s bu2 s2" for d bu2 s2
  proof (rule wlp_bindL, rule wlp_mono [OF wlp_apply_all [OF built_inv [OF d inv]]])
    fix rs q
    assume r: "case q of (bu', s') \<Rightarrow> map fst rs = xs \<and> bu_extrinsics bu' = bu_extrinsics bu2 @ included_of rs \<and>
        (\<exists>d. built U C d bu2 s2 bu' s')"
    obtain bu3 s3 where q: "q = (bu3, s3)" by (cases q)
    with r obtain d' where "built U C d' bu2 s2 bu3 s3" by blast
    from built_trans [OF d this] r show "wlp (bindL (returns (gets runtime_upgraded)) (\<lambda>upgraded.
        bindL (finalize H U B) (\<lambda>built_block. returns (ret (built_block, rs, upgraded)))))
      (\<lambda>((b, _), rs, _) (_, s'). map fst rs = xs \<and> child_built U C (bu_parent bu) s b s' \<and>
        (\<exists>is. blk_extrinsics b = is @ included_of rs)) ?E q"
      unfolding q by - (rule wlp_bindL, rule wlp_pure(3), rule end_phase, auto)
  next
    fix e q assume "case q of (bu', s') \<Rightarrow> \<exists>d. built U C d bu2 s2 bu' s'"
    then show "?E e q" using built_trans [OF d] err by (cases q) blast
  qed
  show ?thesis
    unfolding assemble_def
  proof (rule wlp_bindL, rule wlp_mono [OF wlp_initialize [OF inv]])
    fix c q
    assume i: "case q of (bu', s') \<Rightarrow> bu_phase bu = Created \<and> bu_phase bu' = Initialized \<and>
        bu_extrinsics bu' = bu_extrinsics bu \<and> built U C (cr_storage_diff c) bu s bu' s' \<and>
        answered H U C bu s ''Core_initialize_block'' (bu_header bu) c"
    obtain bu1 s1 where q: "q = (bu1, s1)" by (cases q)
    have d: "built U C (cr_storage_diff c) bu s bu1 s1" using i q by simp
    show "wlp (bindL (apply_inherents H U B R) (\<lambda>_. bindL (apply_all H U B xs) (\<lambda>outcomes.
       bindL (returns (gets runtime_upgraded)) (\<lambda>upgraded.
       bindL (finalize H U B) (\<lambda>built_block. returns (ret (built_block, outcomes, upgraded)))))))
     (\<lambda>((b, _), rs, _) (_, s'). map fst rs = xs \<and> child_built U C (bu_parent bu) s b s' \<and>
        (\<exists>is. blk_extrinsics b = is @ included_of rs)) ?E q"
      unfolding q
      by (rule wlp_bindL, rule wlp_mono [OF wlp_apply_inherents [OF built_inv [OF d inv]]], clarify,
          rule apply_phase, rule built_trans [OF d], assumption)
        (auto dest!: built_trans [OF d] err)
  next
    fix e q assume "case q of (bu', s') \<Rightarrow> quiet_build U C (bu, s) (bu', s')"
    then show "?E e q" using err by (cases q) (auto simp del: quiet_build.simps dest!: quiet_buildD)
  qed
qed

section \<open>The build and the commit\<close>

lemma quiet_header_timestamp [frame_intros]:
  "blk_storage b = L \<Longrightarrow> keeps (quiet U C L) (returns (header_timestamp U B b))"
  unfolding header_timestamp_def by (auto intro!: frame_intros quiet.bindE quiet.map_err quiet.pure)

lemma quiet_next_header [frame_intros]:
  "blk_storage b = L \<Longrightarrow> keeps (quiet U C L) (create_next_header_with_slot H U B b X items d)"
  unfolding create_next_header_with_slot_def Let_def
  by (auto intro!: frame_intros quiet.bindL quiet.map_err quiet.pure)

lemma at_on_snd: "keeps (quiet U C L) m \<Longrightarrow> keeps (quiet_at U C L) (on_snd m)"
  using at_on_forkL by (simp add: on_forkL_def)

text \<open>Up to the builder's run the chain is only read; then the run decides.\<close>

lemma wlp_with_builder:
  assumes "wlp m (\<lambda>x (bu', s'). Q x (bc\<lparr>bc_providers := bu_providers bu'\<rparr>, s'))
      (\<lambda>e (bu', s'). E (BCBuilder e) (bc\<lparr>bc_providers := bu_providers bu'\<rparr>, s')) (bu, s)"
  shows "wlp (with_builder bu m) Q E (bc, s)"
  using assms
  by (auto simp: wlp_def with_builder_def map_sum_cases split: option.splits prod.splits sum.splits)

text \<open>The state after a build that gave a block: the old head, over a fork that has the new one.\<close>

definition phase_built ::
  "('n, 'm) upstream \<Rightarrow> chain \<Rightarrow> bytes list \<Rightarrow> 'p blockchain \<Rightarrow> ('n, 'm) fork \<Rightarrow> 'p built_block \<Rightarrow>
     'p blockchain \<Rightarrow> ('n, 'm) fork \<Rightarrow> bool" where
  "phase_built U C xs bc s bb bc' s' \<longleftrightarrow> same_chain bc bc' \<and> bb_parent_hash bb = blk_hash (bc_head bc) \<and>
     map fst (bb_outcomes bb) = xs \<and> child_built U C (bc_head bc) s (bb_block bb) s' \<and>
     (\<exists>is. blk_extrinsics (bb_block bb) = is @ included_of (bb_outcomes bb))"

lemma child_built_before: "quiet U C (blk_storage p) s t \<Longrightarrow> fork_inv U C (blk_storage p) s \<Longrightarrow>
   child_built U C p t b s' \<Longrightarrow> child_built U C p s b s'"
proof -
  assume q: "quiet U C (blk_storage p) s t" "fork_inv U C (blk_storage p) s"
  then have same: "same_fork s t" by (simp add: quiet_def)
  then have "clean (blk_storage p) s \<Longrightarrow> clean (blk_storage p) t"
    by (auto simp: clean_def same_fork_def injected_def)
  with layer_value_same [OF same] show "child_built U C p t b s' \<Longrightarrow> child_built U C p s b s'"
    by (auto simp: child_built_def)
qed

lemma child_built_after:
  assumes "child_built U C p s b s'" and "quiet U C (blk_storage b) s' s''"
  shows "child_built U C p s b s''"
proof -
  have head: "fork_head U C b s'" using assms(1) by (simp add: child_built_def)
  then have same: "fork_inv U C (blk_storage b) s''" "same_fork s' s''"
    using assms(2) by (simp_all add: quiet_def fork_head_def)
  then have "fork_head U C b s''" using head by (auto simp: fork_head_def intro: history_inv_same)
  with assms(1) layer_value_same [OF same(2)] show ?thesis by (simp add: child_built_def)
qed

lemma writes_node_inv:
  assumes "writes U C (blk_storage (bc_head bc)) d s s'" and "node_inv U C (bc, s)" and "same_chain bc bc'"
  shows "node_inv U C (bc', s')"
  using assms by (auto simp: node_inv_def fork_head_def writes_def same_chain_def)

lemma quiet_new_executor:
  "blk_storage b = L \<Longrightarrow> keeps (quiet U C L) (returns (new_executor_for H U config upgraded b))"
  unfolding new_executor_for_def
  by (auto intro!: frame_intros quiet.bindE quiet.pure quiet.ignore_errors quiet.map_err)

lemma wlp_new_executor:
  assumes "child_built U C p s b s1" and "\<And>x s2. child_built U C p s b s2 \<Longrightarrow> Q x (bc, s2)"
  shows "wlp (returns (on_fork (new_executor_for H U config upgraded b))) Q E (bc, s1)"
proof -
  obtain r s2 where r: "new_executor_for H U config upgraded b s1 = (r, s2)" by fastforce
  have "child_built U C p s b s2"
    by (rule child_built_after [OF assms(1) keeps_returnsD [OF quiet_new_executor [OF refl] r]])
  moreover obtain x where "r = Inr x"
    using r by (auto simp: new_executor_for_def ignore_errors_def prog_simps split: if_splits prod.splits sum.splits)
  ultimately show ?thesis using assms(2) r by (simp add: wlp_def on_fork_def prog_simps)
qed

lemma wlp_build_phase:
  assumes inv: "node_inv U C (bc, s)"
  shows "wlp (build_phase H U B R xs) (\<lambda>bb (bc', s'). phase_built U C xs bc s bb bc' s')
     (\<lambda>_ (bc', s'). same_chain bc bc' \<and> node_inv U C (bc', s')) (bc, s)"
proof -
  let ?L = "blk_storage (bc_head bc)"
  let ?E = "\<lambda>_ (bc', s'). same_chain bc bc' \<and> node_inv U C (bc', s')"
  have finv: "fork_inv U C ?L s" using inv by (simp add: node_inv_def fork_head_def)
  have quiet_err: "same_chain bc bc' \<and> node_inv U C (bc', s')" if "quiet_node U C (bc, s) (bc', s')" for bc' s'
    using that quiet_node_inv [OF that inv] by simp
  have step: "wlp l Q ?E (bc1, s1)"
    if "keeps (quiet_at U C ?L) l" and q: "quiet_node U C (bc, s) (bc1, s1)"
      and Q: "\<And>x bc' s'. quiet_node U C (bc, s) (bc', s') \<Longrightarrow> Q x (bc', s')"
    for l bc1 s1 and Q :: "'x \<Rightarrow> _" 
  proof (rule wlp_keeps [OF that(1)])
    have "blk_storage (bc_head bc1) = ?L" using q by (simp add: same_chain_def)
    then have "quiet_node U C (bc, s) p" if "quiet_at U C ?L (bc1, s1) p" for p
      using quiet_node.trans [OF q, of p] that by (simp add: quiet_at_def)
    then show "Q x p" "?E e p" if "quiet_at U C ?L (bc1, s1) p" for x e p
      using that Q quiet_err by (cases p; blast)+
  qed
  have runs: "wlp (with_builder (new_builder (bc_head bc) X header ps proto True) (assemble H U B R xs))
      (\<lambda>((b, _), rs, _) (bc', s'). same_chain bc bc' \<and> map fst rs = xs \<and> child_built U C (bc_head bc) s b s' \<and>
        (\<exists>is. blk_extrinsics b = is @ included_of rs)) ?E (bc1, s1)"
    if q: "quiet_node U C (bc, s) (bc1, s1)" for X header ps proto bc1 s1
  proof -
    let ?bu = "new_builder (bc_head bc) X header ps proto True"
    have b: "bu_parent ?bu = bc_head bc" "builder_storage ?bu = ?L"
      by (simp_all add: new_builder_def builder_storage_def)
    have inv1: "node_inv U C (bc1, s1)" and same: "same_chain bc bc1" and qs: "quiet U C ?L s s1"
      using quiet_node_inv [OF q inv] q by simp_all
    have head: "fork_head U C (bu_parent ?bu) s1"
      using inv1 same by (simp add: node_inv_def same_chain_def b)
    have keep: "same_chain bc (bc1\<lparr>bc_providers := ps'\<rparr>)" for ps' using same by (simp add: same_chain_def)
    have err: "node_inv U C (bc1\<lparr>bc_providers := ps'\<rparr>, s2)" if "writes U C ?L d s1 s2" for ps' d s2
      using writes_node_inv [of U C bc1 d s1 s2 "bc1\<lparr>bc_providers := ps'\<rparr>"] that inv1 same
      by (simp add: same_chain_def)
    show ?thesis
      by (rule wlp_with_builder, rule wlp_mono [OF wlp_assemble [OF head]])
        (auto simp: b keep intro: child_built_before [OF qs finv] err)
  qed
  have header: "keeps (quiet_at U C ?L) (map_errL BCBuilder
      (on_snd (create_next_header_with_slot H U B (bc_head bc) (bc_executor bc) [] slot)))" for slot
    by (intro quiet_at.map_errL at_on_snd quiet_next_header refl)
  have warm: "keeps (quiet_at U C ?L) (returns (bc_modify (\<lambda>bc. bc\<lparr>bc_warm_prototype := None\<rparr>)))"
    by (rule quiet_at_node, rule quiet_bc_modify) (simp add: same_chain_def)
  show ?thesis
    unfolding build_phase_def Let_def
    by (rule wlp_bindL, subst bc_gets_def, rule wlp_pure(3), unfold fst_conv,
        rule wlp_bindL, rule step [OF warm quiet_node.refl],
        rule wlp_bindL, rule step [OF header], assumption,
        rule wlp_bindL, rule step [OF quiet_at_node [OF quiet_ensure_prefetched]], assumption,
        rule wlp_bindL, rule step [OF quiet_at_node [OF quiet_bc_gets]], assumption,
        rule wlp_bindL, rule wlp_mono [OF runs], assumption)
      (auto intro!: wlp_bindL wlp_new_executor wlp_pure simp: phase_built_def)
qed

section \<open>The commit\<close>

lemma included_failed:
  "mset (included_of rs) + mset (map fst (failed_of rs)) = mset (map fst rs)"
proof (induction rs)
  case (Cons p rs)
  obtain x r where "p = (x, r)" by fastforce
  with Cons show ?case by (cases r) (simp_all add: add_mset_commute)
qed simp

lemma install_head [simp]: "bc_head (install bb bc) = bb_block bb" "bc_events (install bb bc) = bc_events bc"
  "bc_fork_point_hash (install bb bc) = bc_fork_point_hash bc"
  "bc_fork_point_number (install bb bc) = bc_fork_point_number bc"
  by (simp_all add: install_def Let_def)

lemma commit_run:
  assumes "blk_hash (bc_head bc) = bb_parent_hash bb" and "\<not> modifications_poisoned s"
  shows "commit_phase bb (bc, s) = (Inr \<lparr>br_block = bb_block bb, br_included = included_of (bb_outcomes bb),
       br_failed = failed_of (bb_outcomes bb)\<rparr>,
     ((install bb bc)\<lparr>bc_events := bc_events bc @
       [NewBlock (blk_hash (bb_block bb)) (blk_number (bb_block bb)) (blk_parent_hash (bb_block bb))
         (blk_header (bb_block bb)) (map fst (modifications s))]\<rparr>, s))"
  using assms
  by (simp add: commit_phase_def bc_gets_def bc_modify_def on_fork_def diff_def lock_def ignore_errors_def
      prog_simps Let_def)

text \<open>What a call of \<open>build_block\<close> that returns a block has done to the chain.\<close>

definition advanced ::
  "('n, 'm) upstream \<Rightarrow> chain \<Rightarrow> bytes list \<Rightarrow> ('p, 'n, 'm) node_state \<Rightarrow> build_result \<Rightarrow>
     ('p, 'n, 'm) node_state \<Rightarrow> bool" where
  "advanced U C xs = (\<lambda>(bc, s) r (bc', s'). bc_head bc' = br_block r \<and> node_inv U C (bc', s') \<and>
     child_built U C (bc_head bc) s (br_block r) s' \<and>
     (\<exists>is. blk_extrinsics (br_block r) = is @ br_included r) \<and>
     mset (br_included r) + mset (map fst (br_failed r)) = mset xs \<and>
     (\<exists>ks. bc_events bc' = bc_events bc @
       [NewBlock (blk_hash (br_block r)) (blk_number (br_block r)) (blk_hash (bc_head bc))
         (blk_header (br_block r)) ks]))"

lemma wlp_build_block:
  assumes inv: "node_inv U C (bc, s)"
  shows "wlp (build_block H U B R xs) (\<lambda>r p. advanced U C xs (bc, s) r p)
     (\<lambda>_ (bc', s'). same_chain bc bc' \<and> node_inv U C (bc', s')) (bc, s)"
proof -
  have "wp (commit_phase bb) (\<lambda>r p. advanced U C xs (bc, s) r p) E (bc', s')"
    if b: "phase_built U C xs bc s bb bc' s'" for bb bc' s' E
  proof -
    have h: "blk_hash (bc_head bc') = bb_parent_hash bb" "bc_events bc' = bc_events bc"
      "bc_fork_point_hash bc' = bc_fork_point_hash bc" "bc_fork_point_number bc' = bc_fork_point_number bc"
      and c: "child_built U C (bc_head bc) s (bb_block bb) s'"
      using b by (simp_all add: phase_built_def same_chain_def)
    have inv': "node_inv U C ((install bb bc')\<lparr>bc_events := es\<rparr>, s')" for es
      using c inv h by (simp add: node_inv_def child_built_def)
    have "\<not> modifications_poisoned s'" using c by (simp add: child_built_def fork_head_def fork_inv_def)
    note run = commit_run [OF h(1) this]
    have "mset (included_of (bb_outcomes bb)) + mset (map fst (failed_of (bb_outcomes bb))) = mset xs"
      using b included_failed [of "bb_outcomes bb"] by (simp add: phase_built_def)
    then show ?thesis
      using b c inv' h unfolding wp_def run by (simp add: advanced_def phase_built_def child_built_def)
  qed
  then show ?thesis
    unfolding build_block_def
    by - (rule wlp_bindL, rule wlp_mono [OF wlp_build_phase [OF inv]], auto intro!: wlp_returns)
qed

end
