(* ===== verification/Fork_Setup.thy ===== *)
theory Fork_Setup
  imports Blockchain_Laws Sample_Runtime
begin

text \<open>
  What a forked chain starts as, what its storage queries answer, and what the development
  accounts read as once they have been set up.
\<close>

section \<open>Storage queries\<close>

lemma storage_at_run:
  assumes inv: "node_inv U C (bc, s)" and run: "bc_storage_at U B n k (bc, s) = (Inr v, q)"
  shows "v = layer_value (blk_storage (bc_head bc)) C s n k"
proof -
  let ?L = "blk_storage (bc_head bc)"
  let ?I = "\<lambda>t. fork_inv U C ?L t \<and> layer_value ?L C t = layer_value ?L C s"
  obtain bc' s' where q: "q = (bc', s')" by fastforce
  obtain w where w: "with_upstream U B (map_err (\<lambda>e. BCBlock (BStorage e)) (layer_get U ?L n k)) (bc, s) =
      (Inr w, (bc', s'))" "v = Option.bind w sv_value"
    using run unfolding q by (auto simp: bc_storage_at_def get_storage_value_def bc_gets_def prog_simps
        split: prod.splits sum.splits)
  have "Option.bind w sv_value = layer_value ?L C s n k"
  proof (rule wp_with_upstream_keeps [where I = ?I, THEN conjunct1, OF _ _ _ w(1)])
    fix t assume t: "?I t"
    then show "wp (map_err (\<lambda>e. BCBlock (BStorage e)) (layer_get U ?L n k))
        (\<lambda>x t'. ?I t' \<and> Option.bind x sv_value = layer_value ?L C s n k) (\<lambda>_. ?I) t"
      by (intro wp_map_err wp_layer_get) (auto simp: layer_value_same)
  next
    fix t t' assume t: "?I t" and "\<And>L. quiet U C L t t'"
    then have "quiet U C ?L t t'" by blast
    with t show "?I t'" by (auto simp: quiet_def layer_value_same)
  qed (use inv in \<open>simp add: node_inv_def fork_head_def\<close>)
  with w(2) show ?thesis by simp
qed

text \<open>
  A storage query at any block is answered with the value that the head's layer stands for, in
  whatever way the connection failed in between, and the query changes neither the chain nor what
  any later query reads.
\<close>

theorem storage_at_value:
  assumes inv: "node_inv U C (bc, s)" and run: "bc_storage_at U B n k (bc, s) = (Inr v, (bc', s'))"
  shows "v = layer_value (blk_storage (bc_head bc)) C s n k \<and> node_inv U C (bc', s') \<and>
     bc_head bc' = bc_head bc \<and>
     layer_value (blk_storage (bc_head bc')) C s' = layer_value (blk_storage (bc_head bc)) C s"
proof -
  have q: "quiet_node U C (bc, s) (bc', s')"
    by (rule keeps_returnsD [OF quiet_get_storage_value run [unfolded bc_storage_at_def]])
  with storage_at_run [OF inv run] quiet_node_inv [OF q inv] quiet_node_values [OF q inv] show ?thesis
    by (simp add: same_chain_def)
qed

text \<open>The sample chain, with an executor that answers at once.\<close>

definition sample_node_state :: "bool list \<Rightarrow> (unit, bool list, bytes) node_state" where
  "sample_node_state script =
     (\<lparr>bc_head = sample_head, bc_providers = [], bc_chain_name = ''sample'', bc_chain_type = RelayChain,
       bc_fork_point_hash = hash_of 2, bc_fork_point_number = 2, bc_executor_config = default_config,
       bc_executor = sample_executor, bc_warm_prototype = None, bc_prefetch_done = False,
       bc_cached_slot_duration = 6000, bc_events = [], bc_genesis_hash = None, bc_last_reconnect_log = 0\<rparr>,
      sample_fork script)"

lemma sample_node_inv: "node_inv sample_node sample_chain (sample_node_state script)"
  by (simp add: node_inv_def sample_node_state_def sample_fork_head)
    (simp add: sample_head_def sample_layer_def)

text \<open>The first request finds the connection dropped; the query reconnects and answers.\<close>

theorem storage_at_witness:
  "\<exists>q. bc_storage_at sample_node sample_substrate 1 [1] (sample_node_state [False]) = (Inr (Some [9]), q)"
proof -
  let ?run = "bc_storage_at sample_node sample_substrate 1 [1] (sample_node_state [False])"
  obtain bc s where p: "sample_node_state [False] = (bc, s)" by fastforce
  have h: "blk_storage (bc_head bc) = sample_layer" "s = sample_fork [False]"
    using p by (auto simp: sample_node_state_def sample_head_def)
  have "\<not> isl (fst ?run)" by code_simp
  then obtain v bc' s' where run: "?run = (Inr v, (bc', s'))" using run_ok by (metis surj_pair)
  have "layer_value sample_layer sample_chain (sample_fork [False]) 1 [1] = Some [9]" by code_simp
  with storage_at_value [OF sample_node_inv [of "[False]", unfolded p] run [unfolded p]]
  have "v = Some [9]" by (simp add: h)
  with run show ?thesis by blast
qed

section \<open>Creating the fork\<close>

lemma quiet_setup_chain:
  assumes "blk_storage b = L"
  shows "keeps (quiet U C L) (returns (setup_chain H U B config b))"
proof -
  have para: "keeps (quiet U C L) (returns (get_para_id U B b))"
    unfolding get_para_id_def assms by (intro frame_intros quiet.bindE quiet.pure quiet.ignore_errors)
  have ty: "keeps (quiet U C L) (returns (detect_chain_type U B b))"
    unfolding detect_chain_type_def
    by (intro frame_intros para quiet.bindE quiet.pure quiet.map_err)
  have nm: "keeps (quiet U C L) (returns (get_chain_name H U b))"
    unfolding get_chain_name_def
    by (intro frame_intros assms quiet.bindE quiet.pure quiet.map_err)
  show ?thesis
    unfolding setup_chain_def Let_def
    by (intro frame_intros ty nm assms quiet.bindE quiet.pure quiet.map_err)
qed

lemma setup_chain_result:
  assumes "setup_chain H U B config b s = (Inr bc, s')"
  shows "bc_head bc = b \<and> bc_fork_point_hash bc = blk_hash b \<and> bc_fork_point_number bc = blk_number b \<and>
     bc_events bc = []"
  using assms
  unfolding setup_chain_def Let_def bindE_Inr
  by (elim exE conjE) (simp add: Inr_simps split: sum.splits, auto)

lemma untouched_value:
  assumes "modifications s = []" and "deleted_prefixes s = []" and "history_inv L s"
    and "first_forked_block_number L < current_block_number L"
  shows "layer_value L C s n k =
    (if first_forked_block_number L < n \<and> n \<le> current_block_number L
     then chain_value C (first_forked_block_hash L) k else block_value C n k)"
proof -
  have "local_value_at k m (fdb s) = None" for m
    using assms by (simp add: history_inv_def under_deleted_def)
  then show ?thesis
    using assms(1,2,4) by (auto simp: layer_value_def beyond_value_def local_modification_def)
qed

text \<open>
  C17: a fork that was created stands on a block of the chain: its head is the fork point, without a
  parent, the invariant holds, nothing is injected or deleted, and every block up to the one to be
  built reads as the chain does at that block, the one to be built as the fork point. (The node
  answers truthfully, the cache is fresh, and the fork point is not the last block number there is.)
\<close>

theorem fork_starts_as_the_chain:
  assumes hon: "honest U C" and can: "canonical C" and "cache_db c = empty_db"
    and run: "fork_with_config H U B c point config n = (Inr (bc, s), n')"
    and max: "bc_fork_point_number bc \<noteq> - 1"
  shows "node_inv U C (bc, s) \<and> clean (blk_storage (bc_head bc)) s \<and> blk_parent (bc_head bc) = None \<and>
     blk_number (bc_head bc) = bc_fork_point_number bc \<and>
     ch_hash C (bc_fork_point_number bc) = Some (blk_hash (bc_head bc)) \<and>
     (\<forall>m \<le> bc_fork_point_number bc + 1. \<forall>k. layer_value (blk_storage (bc_head bc)) C s m k =
        block_value C (min m (bc_fork_point_number bc)) k)"
proof -
  obtain fp b s0 n0 n1 where fp: "fork_point U c fp n0 = (Inr (b, s0), n1)"
    and rest: "(case setup_chain H U B config b s0 of
        (Inl e, t) \<Rightarrow> (Inl e, r_net (f_remote t))
      | (Inr d, t) \<Rightarrow> (Inr (d, t), r_net (f_remote t))) = (Inr (bc, s), n')"
    using run unfolding fork_with_config_def bindE_Inr by auto
  then have made: "setup_chain H U B config b s0 = (Inr bc, s)"
    by (simp split: prod.splits sum.splits)
  note bc = setup_chain_result [OF made]
  note at_point = wp_Inr [OF wp_fork_point [OF assms(1-3), of fp n0] fp, unfolded split_conv]
  have head: "fork_head U C b s0" "modifications s0 = []" "deleted_prefixes s0 = []"
    using at_point max bc by simp_all
  have "quiet U C (blk_storage b) s0 s"
    by (rule keeps_returnsD [OF quiet_setup_chain [OF refl] made])
  then have s: "fork_inv U C (blk_storage b) s" "same_fork s0 s"
    using head by (simp_all add: quiet_def fork_head_def)
  then have hist: "history_inv (blk_storage b) s" and none: "modifications s = []" "deleted_prefixes s = []"
    using head history_inv_same [OF s(2)] by (simp_all add: fork_head_def same_fork_def)
  let ?L = "blk_storage b"
  have L: "first_forked_block_number ?L = blk_number b" "first_forked_block_hash ?L = blk_hash b"
      "current_block_number ?L = blk_number b + 1" "linked b" "blk_parent b = None"
    using head at_point by (cases b rule: lineage.cases; auto simp: fork_head_def)+
  have lt: "first_forked_block_number ?L < current_block_number ?L" using s(1) by (simp add: fork_inv_def)
  have "node_inv U C (bc, s)"
    using s hist head bc L by (simp add: node_inv_def fork_head_def)
  moreover have "clean ?L s" using none by (simp add: clean_def injected_def)
  moreover have "layer_value ?L C s m k = block_value C (min m (blk_number b)) k"
    if "m \<le> blk_number b + 1" for m k
    using that at_point
    by (auto simp: untouched_value [OF none hist lt] L block_value_def min_def not_le)
  ultimately show ?thesis using bc L at_point by simp
qed


text \<open>A fork, at its block 2, of the sample chain with a runtime code.\<close>

definition code_chain :: chain where
  "code_chain = sample_chain\<lparr>ch_state := \<lambda>h. sample_state h @ [(CODE, [0])]\<rparr>"

lemma wf_code_chain: "wf_chain code_chain"
proof -
  have "sorted_wrt (<) (map fst (ch_state code_chain h))" for h
    by (simp add: code_chain_def sample_state_def item_def CODE_def) code_simp
  with wf_sample show ?thesis by (simp add: wf_chain_def code_chain_def)
qed

lemma canonical_code_chain: "canonical code_chain"
  using canonical_sample by (simp add: canonical_def code_chain_def)

theorem fork_starts_witness:
  "\<exists>bc s n. fork_with_config sample_host (serve code_chain) sample_substrate (in_memory [])
       (Some (ForkNumber 2)) default_config [] = (Inr (bc, s), n) \<and>
     blk_number (bc_head bc) = 2 \<and> layer_value (blk_storage (bc_head bc)) code_chain s 1 [1] = Some [9]"
proof -
  let ?run = "fork_with_config sample_host (serve code_chain) sample_substrate (in_memory [])
    (Some (ForkNumber 2)) default_config []"
  have "map_sum (\<lambda>_. ()) (\<lambda>(bc, _). bc_fork_point_number bc) (fst ?run) = Inr 2" by code_simp
  then obtain bc s n where run: "?run = (Inr (bc, s), n)" and two: "bc_fork_point_number bc = 2"
    by (auto simp: map_sum_cases) (metis prod.collapse)
  have "block_value code_chain 1 [1] = Some [9]" by code_simp
  then show ?thesis
    using fork_starts_as_the_chain [OF serve_honest [OF wf_code_chain] canonical_code_chain _ run] run two
    by (auto simp: min_def in_memory_def)
qed

end
