(* ===== verification/Blockchain_Properties.thy ===== *)
theory Blockchain_Properties
  imports Build_Laws Fork_Setup
begin

text \<open>
  Properties of the forked chain: what building a block does to it, what its queries answer, and
  what the development accounts read as.
\<close>

section \<open>Building\<close>



text \<open>
  C14: a build that fails, in whatever phase, leaves the head, the executor and the events of the
  chain as they were, and the invariant holds.
\<close>

theorem failed_build_keeps_the_head:
  assumes "node_inv U C (bc, s)" and "build_block H U B R xs (bc, s) = Some (Inl e, (bc', s'))"
  shows "bc_head bc' = bc_head bc \<and> bc_executor bc' = bc_executor bc \<and> bc_events bc' = bc_events bc \<and>
     node_inv U C (bc', s')"
  using wlp_Inl [OF wlp_build_block [OF assms(1)] assms(2)] by (simp add: same_chain_def)

text \<open>The sample runtime without an answer for the finalisation.\<close>

definition broken_host :: "(string \<times> bytes, unit) vm_host" where
  "broken_host = sample_host\<lparr>vh_run := (\<lambda>_ fn args _ _.
     if fn = ''BlockBuilder_finalize_block'' then Inl (''trap'', ()) else Inr (fn, args))\<rparr>"

theorem failed_build_witness:
  "\<exists>e bc' s'. build_block broken_host sample_node sample_substrate sample_codec [[0, 7]]
       (sample_node_state []) = Some (Inl e, (bc', s')) \<and> bc_head bc' = sample_head \<and>
     node_inv sample_node sample_chain (bc', s')"
proof -
  let ?run = "build_block broken_host sample_node sample_substrate sample_codec [[0, 7]] (sample_node_state [])"
  have "map_option (\<lambda>(r, _). isl r) ?run = Some True" by code_simp
  then obtain e q where run: "?run = Some (Inl e, q)" by (auto simp: isl_def)
  obtain bc s where p: "sample_node_state [] = (bc, s)" by fastforce
  obtain bc' s' where q: "q = (bc', s')" by fastforce
  have "bc_head bc = sample_head" using p by (auto simp: sample_node_state_def)
  with failed_build_keeps_the_head [OF sample_node_inv [of "[]", unfolded p] run [unfolded p q]] run q
  show ?thesis by auto
qed


definition sample_built :: "bytes \<Rightarrow> unit built_block" where
  "sample_built body = \<lparr>bb_parent_hash = hash_of 2,
     bb_block = Block 3 (H256 body) (hash_of 2) body [body] sample_layer (Some sample_head),
     bb_prototype = None, bb_outcomes = [], bb_upgraded = False, bb_executor = None\<rparr>"


section \<open>Queries\<close>

lemma wp_remote_hash:
  assumes "fork_inv U C L s"
  shows "wp (on_remote (block_hash_by_number U n)) (\<lambda>x s'. fork_inv U C L s' \<and> x = ch_hash C n)
     (\<lambda>_ s'. fork_inv U C L s') s"
proof -
  have inv: "remote_inv U C (local_tables (fdb s)) (f_remote s)" using assms by (simp add: fork_inv_def)
  then have hon: "honest U C" by (simp add: remote_inv_def)
  show ?thesis
    unfolding on_remote_def block_hash_by_number_def
    by (intro wp_map_err wp_on_field wp_rpc [OF inv])
      (use fork_inv_remote [OF assms] in \<open>auto dest: block_hash_at_honest [OF hon]\<close>)
qed

text \<open>
  the hash of a number is that of the fork's own block from the fork point to the head, the
  node's before it, and none beyond the head; between the fork point and the head there is always
  one.
\<close>

theorem block_hash_at_exact:
  assumes inv: "node_inv U C (bc, s)" and run: "bc_block_hash_at U B n (bc, s) = (Inr r, p)"
  shows "(blk_number (bc_head bc) < n \<longrightarrow> r = None) \<and>
     (n \<le> blk_number (bc_head bc) \<longrightarrow>
       r = (case find_local (\<lambda>b. blk_number b = n) (bc_head bc) of Some b \<Rightarrow> Some (blk_hash b) | None \<Rightarrow> ch_hash C n)) \<and>
     (bc_fork_point_number bc \<le> n \<longrightarrow> n \<le> blk_number (bc_head bc) \<longrightarrow>
       (\<exists>b \<in> set (lineage (bc_head bc)). blk_number b = n \<and> r = Some (blk_hash b)))"
proof -
  let ?h = "bc_head bc"
  let ?find = "find_local (\<lambda>b. blk_number b = n) ?h"
  have finv: "fork_inv U C (blk_storage ?h) s" and lk: "linked ?h"
    and fp: "bc_fork_point_number bc = first_forked_block_number (blk_storage ?h)"
    using inv by (simp_all add: node_inv_def fork_head_def)
  have none: "blk_number ?h < n \<longrightarrow> r = None"
    using run by (auto simp: bc_block_hash_at_def bc_gets_def prog_simps)
  have found: "r = (case ?find of Some b \<Rightarrow> Some (blk_hash b) | None \<Rightarrow> ch_hash C n)" if "n \<le> blk_number ?h"
  proof (cases ?find)
    case None
    then have "with_upstream U B (on_remote (block_hash_by_number U n)) (bc, s) = (Inr r, p)"
      using run that by (simp add: bc_block_hash_at_def bc_gets_def prog_simps leD)
    from wp_with_upstream [OF wp_remote_hash finv this] None show ?thesis by simp
  qed (use run that in \<open>simp add: bc_block_hash_at_def bc_gets_def prog_simps leD\<close>)
  have "\<exists>b \<in> set (lineage ?h). blk_number b = n \<and> r = Some (blk_hash b)"
    if from_fork: "bc_fork_point_number bc \<le> n" and to_head: "n \<le> blk_number ?h"
  proof -
    obtain x where "x \<in> set (lineage ?h)" "blk_number x = n"
      using lineage_covers [OF lk from_fork [unfolded fp] to_head] by blast
    then obtain b where "?find = Some b" using find_local_None [of "\<lambda>b. blk_number b = n" ?h] by blast
    with find_local_Some [OF this] found [OF to_head] show ?thesis by auto
  qed
  with none found show ?thesis by blast
qed

theorem block_hash_at_witness:
  "\<exists>p. bc_block_hash_at sample_node sample_substrate 1 (sample_node_state []) = (Inr (Some (hash_of 1)), p)"
proof -
  let ?run = "bc_block_hash_at sample_node sample_substrate 1 (sample_node_state [])"
  obtain bc s where p: "sample_node_state [] = (bc, s)" by fastforce
  have "\<not> isl (fst ?run)" by code_simp
  then obtain r q where run: "?run = (Inr r, q)" using run_ok by blast
  have h: "blk_number (bc_head bc) = 2" "find_local (\<lambda>b. blk_number b = 1) (bc_head bc) = None"
    using p by (auto simp: sample_node_state_def sample_head_def find_local_def)
  have "r = ch_hash sample_chain 1"
    using block_hash_at_exact [OF sample_node_inv [of "[]", unfolded p] run [unfolded p]] h by simp
  moreover have "ch_hash sample_chain 1 = Some (hash_of 1)" by (simp add: sample_chain_def)
  ultimately show ?thesis using run by simp
qed

text \<open>
  C16: the number of the hash of a number is the number again, if no two blocks of the fork have the
  same hash and none has the hash of a block of the node with another number.
\<close>

theorem hash_number_roundtrip:
  assumes inv: "node_inv U C (bc, s)" and run: "bc_block_hash_at U B n (bc, s) = (Inr (Some h), p)"
    and number: "bc_block_number_by_hash U B h p = (Inr r, q)"
    and dist: "distinct (map blk_hash (lineage (bc_head bc)))"
    and apart: "\<And>b m. b \<in> set (lineage (bc_head bc)) \<Longrightarrow> ch_hash C m = Some (blk_hash b) \<Longrightarrow> m = blk_number b"
  shows "r = Some n"
proof -
  let ?h = "bc_head bc"
  obtain bc1 s1 where p: "p = (bc1, s1)" by fastforce
  have q1: "quiet_node U C (bc, s) (bc1, s1)"
    using keeps_returnsD [OF quiet_block_hash_at run] p by simp
  have hb: "bc_head bc1 = ?h" using q1 by (simp add: same_chain_def)
  have finv: "fork_inv U C (blk_storage ?h) s1"
    using quiet_node_inv [OF q1 inv] hb by (simp add: node_inv_def fork_head_def)
  have n: "n \<le> blk_number ?h" and h: "Some h = (case find_local (\<lambda>b. blk_number b = n) ?h of
      Some b \<Rightarrow> Some (blk_hash b) | None \<Rightarrow> ch_hash C n)"
    using block_hash_at_exact [OF inv run] by (auto simp: not_less [symmetric])
  show ?thesis
  proof (cases "find_local (\<lambda>b. blk_hash b = h) ?h")
    case (Some b)
    then have b: "b \<in> set (lineage ?h)" "blk_hash b = h" "r = Some (blk_number b)"
      using find_local_Some [OF Some] number
      by (simp_all add: p hb bc_block_number_by_hash_def bc_gets_def prog_simps)
    have "blk_number b = n"
    proof (cases "find_local (\<lambda>b. blk_number b = n) ?h")
      case None
      then show ?thesis using apart [OF b(1), of n] h b(2) by simp
    next
      case (Some c)
      then have "c \<in> set (lineage ?h)" "blk_number c = n" "blk_hash c = blk_hash b"
        using find_local_Some [OF Some] h b(2) by simp_all
      with b(1) dist show ?thesis by (metis distinct_map inj_on_eq_iff)
    qed
    with b(3) show ?thesis by simp
  next
    case None
    then have "with_upstream U B (on_remote (block_number_by_hash U h)) (bc1, s1) = (Inr r, q)"
      using number by (simp add: p hb bc_block_number_by_hash_def bc_gets_def prog_simps)
    from wp_with_upstream [OF wp_remote_number finv this]
    have r: "r = map_option (\<lambda>b. nh_number (nb_header b)) (ch_block C h)" .
    have "find_local (\<lambda>b. blk_number b = n) ?h = None"
      using h None find_local_Some [of "\<lambda>b. blk_number b = n" ?h] find_local_None [of "\<lambda>b. blk_hash b = h" ?h]
      by (cases "find_local (\<lambda>b. blk_number b = n) ?h") auto
    then have c: "ch_hash C n = Some h" using h by simp
    have wf: "wf_chain C" "canonical C"
      using finv by (auto simp: fork_inv_def remote_inv_def dest: honestD)
    with c obtain nb where "ch_block C h = Some nb" unfolding canonical_def by blast
    with wf(1) c r show ?thesis unfolding wf_chain_def by auto
  qed
qed

theorem hash_number_witness:
  "\<exists>p q. bc_block_hash_at sample_node sample_substrate 1 (sample_node_state []) = (Inr (Some (hash_of 1)), p) \<and>
     bc_block_number_by_hash sample_node sample_substrate (hash_of 1) p = (Inr (Some 1), q)"
proof -
  let ?run = "bc_block_hash_at sample_node sample_substrate 1 (sample_node_state [])"
  obtain bc s where s: "sample_node_state [] = (bc, s)" by fastforce
  have "fst ?run = Inr (Some (hash_of 1))" by code_simp
  note run = run_of_fst [OF this]
  have "\<not> isl (fst (bc_block_number_by_hash sample_node sample_substrate (hash_of 1) (snd ?run)))" by code_simp
  note again = run_ok [OF this]
  have lin: "lineage (bc_head bc) = [sample_head]" using s by (auto simp: sample_node_state_def sample_head_def)
  have "m = blk_number b" if "b \<in> set (lineage (bc_head bc))" "ch_hash sample_chain m = Some (blk_hash b)" for b m
    using that lin upto_two [of m] by (auto simp: sample_chain_def sample_head_def split: if_splits)
  moreover have "distinct (map blk_hash (lineage (bc_head bc)))" by (simp add: lin)
  ultimately have "projr (fst (bc_block_number_by_hash sample_node sample_substrate (hash_of 1) (snd ?run))) = Some 1"
    unfolding s
    by - (rule hash_number_roundtrip [OF sample_node_inv [of "[]", unfolded s] run [unfolded s] again [unfolded s]])
  with run again show ?thesis by metis
qed

end
