(* ===== verification/Dev_Properties.thy ===== *)
theory Dev_Properties
  imports Fork_Setup
begin

text \<open>
  The development accounts: what \<open>initialize_dev_accounts\<close> makes them, and the sudo key, read as,
  and how the choice of the sudo account and the patching of an account behave.
\<close>

section \<open>Values injected at the fork point\<close>

lemma put_all_inject:
  assumes "fork_inv U C L s" and "initial_block L < n"
  shows "layer_value L C (put_all (initial_block L) kvs s) n k =
     (case map_of (rev kvs) k of Some v \<Rightarrow> v | None \<Rightarrow> layer_value L C s n k)"
  using assms(1)
proof (induction kvs arbitrary: s)
  case (Cons kv kvs)
  obtain k' v where kv: "kv = (k', v)" by fastforce
  have "layer_value L C (put_modification (initial_block L) k' v s) n k =
      (if k = k' then v else layer_value L C s n k)"
    using layer_value_inject [OF Cons.prems] assms(2) by auto
  with Cons.IH [OF fork_inv_put [OF Cons.prems]] show ?case
    by (auto simp: kv map_add_def split: option.splits)
qed simp

lemma set_batch_initial_run:
  "fork_inv U C L s \<Longrightarrow> set_batch_initial L kvs s = (Inr (), put_all (initial_block L) kvs s)"
  by (simp add: set_batch_initial_def Let_def lock_def prog_simps fork_inv_def put_all_def initial_block_def)

lemma set_initial_run:
  "fork_inv U C L s \<Longrightarrow> set_initial L k v s = (Inr (), put_all (initial_block L) [(k, v)] s)"
  by (simp add: set_initial_def lock_def prog_simps fork_inv_def initial_block_def)

lemma initial_less_first: "first_forked_block_number L \<noteq> 0 \<Longrightarrow> first_forked_block_number L \<le> n \<Longrightarrow> initial_block L < n"
proof -
  assume "first_forked_block_number L \<noteq> 0" and n: "first_forked_block_number L \<le> n"
  then have "initial_block L < first_forked_block_number L"
    unfolding initial_block_def saturating_sub_u32_def ONE_BLOCK_def
    by (auto simp: word_less_nat_alt word_le_nat_alt unat_sub_if' unat_gt_0 split: if_splits)
  with n show ?thesis by simp
qed

section \<open>The accounts\<close>

text \<open>The value an account is given: a fresh one, or the old one with the free balance replaced.\<close>

definition funded_value :: "bytes option \<Rightarrow> bytes option" where
  "funded_value existing = (case existing of
     Some data \<Rightarrow> patch_free_balance data DEV_BALANCE | None \<Rightarrow> build_account_info DEV_BALANCE)"

lemma funded_value_balance:
  assumes "funded_value existing = Some v"
  shows "take 16 (drop 16 v) = to_le_bytes 16 DEV_BALANCE"
  using assms
  by (auto simp: funded_value_def patch_free_balance_def copy_into_result build_account_info_eq split: option.splits)

lemma funded_entries_result:
  assumes "funded_entries (map (\<lambda>k. (k, f k)) keys) = Some entries"
  shows "\<exists>g. entries = map (\<lambda>k. (k, Some (g k))) keys \<and> (\<forall>k \<in> set keys. funded_value (f k) = Some (g k))"
proof -
  have "entries = map (\<lambda>k. (k, Some (the (funded_value (f k))))) keys \<and>
      (\<forall>k \<in> set keys. funded_value (f k) \<noteq> None)"
    using assms
  proof (induction keys arbitrary: entries)
    case (Cons k keys)
    have "\<exists>v es. funded_value (f k) = Some v \<and> funded_entries (map (\<lambda>k. (k, f k)) keys) = Some es \<and>
        entries = (k, Some v) # es"
      using Cons.prems by (auto simp: funded_value_def split: option.splits bind_splits)
    then obtain v es where "funded_value (f k) = Some v" "entries = (k, Some v) # es"
      and rest: "funded_entries (map (\<lambda>k. (k, f k)) keys) = Some es" by blast
    with Cons.IH [OF rest] show ?case by simp
  qed simp
  then show ?thesis by (intro exI [of _ "\<lambda>k. the (funded_value (f k))"]) auto
qed

lemma on_fork_Inr: "on_fork m (bc, s) = (Inr x, p) \<longleftrightarrow> (\<exists>s'. m s = (Inr x, s') \<and> p = (bc, s'))"
  by (auto simp: on_fork_def prog_simps split: prod.splits)

lemma map_of_graph: "map_of (rev (map (\<lambda>k. (k, g k)) ks)) k = (if k \<in> set ks then Some (g k) else None)"
  by (simp only: rev_map map_of_map_restrict) (simp add: restrict_map_def)

text \<open>The sudo account is one of the accounts, of the expected length if any has it.\<close>

lemma select_sudo_member: "select_sudo_account accounts len = Some a \<Longrightarrow> a \<in> set accounts"
  by (auto simp: select_sudo_account_def split: option.splits list.splits bind_splits dest: find_SomeD)

lemma set_sudo_run:
  assumes "fork_inv U C L s" and "set_sudo B accounts md L s = (Inr (), s')"
  shows "s' = s \<or> (\<exists>(nm, a) \<in> set accounts. s' = put_all (initial_block L) [(sudo_key_storage_key B, Some a)] s)"
  using assms set_initial_run [OF assms(1)]
  by (auto simp: set_sudo_def prog_simps split: if_splits option.splits dest!: select_sudo_member)

lemma account_keys_long:
  assumes "\<And>b. length (sb_twox_128 B b) = 16" and "(nm, a) \<in> set (dev_accounts eth)"
  shows "account_storage_key B a \<noteq> sudo_key_storage_key B"
proof -
  have "a \<noteq> []"
    using assms(2)
    by (auto simp: dev_accounts_def SUBSTRATE_DEV_ACCOUNTS_def ETHEREUM_DEV_ACCOUNTS_def ALICE_def BOB_def
        CHARLIE_def DAVE_def EVE_def FERDIE_def ALITH_def BALTATHAR_def CHARLETH_def DOROTHY_def ETHAN_def
        FAITH_def split: if_splits)
  then have "length (sudo_key_storage_key B) < length (account_storage_key B a)"
    by (simp add: sudo_key_storage_key_def account_storage_key_def storage_key_def assms(1))
  then show ?thesis by auto
qed


section \<open>A run\<close>

lemma length_remove_each [simp]: "length (remove_each m ks) = length ks"
  by (induction ks arbitrary: m) simp_all

lemma distinct_fst_zip: "distinct xs \<Longrightarrow> distinct (map fst (zip xs ys))"
  by (simp add: map_fst_zip_take)

text \<open>A batch read of distinct keys is answered if the connection drops at most once.\<close>

lemma wp_remote_get_batch_healthy:
  assumes U: "drops_once U ready up" and s: "healthy ready s" and keys: "distinct keys"
  shows "wp (remote_get_batch U h keys) (\<lambda>_. healthy ready) (\<lambda>_ _. False) s"
proof -
  have empty: "wp (cached (ret ([] :: bytes option option list))) (\<lambda>rs s'. healthy ready s' \<and> length rs = length keys)
      (\<lambda>_ _. False) s" if "keys = []"
    using that s by (simp add: cached_def wp_def prog_simps)
  have "wp (cached (query q)) (\<lambda>rs s'. healthy ready s' \<and> length rs = length keys) (\<lambda>_ _. False) s"
    if "length (q (rdb s)) = length keys" for q :: "db \<Rightarrow> bytes option option list"
    by (rule wp_query_healthy [OF s]) (use that in simp)
  with empty keys have cached: "wp (cached (get_storage_batch h keys))
      (\<lambda>rs s'. healthy ready s' \<and> length rs = length keys) (\<lambda>_ _. False) s"
    by (simp add: get_storage_batch_def Let_def)
  have dist: "distinct (map (\<lambda>i. keys ! i) (filter P [0..<length keys]))" for P
    using keys by (auto simp: distinct_map inj_on_def nth_eq_iff_index_eq)
  show ?thesis
    unfolding remote_get_batch_def Let_def
    by (intro wp_if wp_ret wp_bindE wp_mono [OF cached] wp_retry [OF U tolerates_batch [OF U]]
        wp_set_batch_healthy [of ready])
      (auto simp: s dist distinct_fst_zip)
qed

text \<open>
  On the sample chain no development account exists; its metadata has a pallet \<open>Sudo\<close> with no
  storage, so that the first account is taken.
\<close>

definition dev_substrate :: "(bool list, bytes) substrate" where
  "dev_substrate = sample_substrate\<lparr>sb_twox_128 := \<lambda>b. take 16 (b @ replicate 16 0),
     sb_pallets := \<lambda>_. [\<lparr>pl_name = ''Sudo'', pl_index = 0, pl_storage = None, pl_calls = None, pl_constants = []\<rparr>]\<rparr>"

abbreviation dev_keys :: "bytes list" where
  "dev_keys \<equiv> map (\<lambda>(_, a). account_storage_key dev_substrate a) (dev_accounts False)"

lemma dev_run:
  "\<exists>s'. initialize_dev_accounts sample_node dev_substrate False (sample_node_state []) =
     (Inr (), (fst (sample_node_state []), s'))"
proof -
  have keys: "distinct dev_keys" by code_simp
  have none: "map (chain_value sample_chain (hash_of 2)) dev_keys = replicate 6 None" by code_simp
  obtain bc where p: "sample_node_state [] = (bc, sample_fork [])"
    and bc: "bc_head bc = sample_head" "bc_fork_point_hash bc = hash_of 2"
    by (simp add: sample_node_state_def)
  have head: "blk_storage sample_head = sample_layer" "blk_number sample_head = 2"
    by (simp_all add: sample_head_def)
  have "healthy one_drop (sample_remote [])"
    by (simp add: healthy_def sample_remote_def new_remote_def in_memory_def one_drop_def)
  note healthy = wp_remote_get_batch_healthy [OF serve_drops_once this keys, of sample_chain "hash_of 2"]
  have sound: "wp (remote_get_batch sample_node (hash_of 2) dev_keys)
      (\<lambda>vs _. vs = map (chain_value sample_chain (hash_of 2)) dev_keys) (\<lambda>_ _. True) (sample_remote [])"
    by (rule wp_remote_get_batch [OF sample_remote_inv]) simp_all
  have fr: "f_remote (sample_fork []) = sample_remote []"
    by (simp add: sample_fork_def new_layer_def)
  obtain s1 where get: "on_remote (remote_get_batch sample_node (hash_of 2) dev_keys) (sample_fork []) =
      (Inr (replicate 6 None), s1)"
    using healthy sound unfolding none
    by (cases "remote_get_batch sample_node (hash_of 2) dev_keys (sample_remote [])")
      (auto simp: wp_def on_remote_def prog_simps fr split: sum.splits)
  have "quiet sample_node sample_chain sample_layer (sample_fork []) s1"
    by (rule keeps_returnsD [OF quiet_remote_ops(6) get])
  then have s1: "fork_inv sample_node sample_chain sample_layer s1" "metadata_versions s1 = metadata_versions (sample_fork [])"
    using sample_invs(1) [of "[]"] by (simp_all add: quiet_def same_fork_def)
  have "funded_entries (zip dev_keys (replicate 6 None)) \<noteq> None" by code_simp
  then obtain entries where ents: "funded_entries (zip dev_keys (replicate 6 None)) = Some entries" by blast
  let ?s2 = "put_all (initial_block sample_layer) entries s1"
  have s2: "fork_inv sample_node sample_chain sample_layer ?s2" by (rule put_all_fork_inv [OF s1(1)])
  then have md: "block_metadata sample_node sample_head ?s2 = (Inr [], ?s2)"
    using s1(2)
    by (simp add: block_metadata_def metadata_at_def lock_def prog_simps fork_inv_def head sample_layer_def
        sample_fork_def new_layer_def version_at_def)
  have "select_sudo_account (dev_accounts False) (sudo_account_id_len dev_substrate []) \<noteq> None" by code_simp
  then have "\<exists>s3. set_sudo dev_substrate (dev_accounts False) [] sample_layer ?s2 = (Inr (), s3)"
    by (auto simp: set_sudo_def set_initial_run [OF s2] prog_simps)
  then show ?thesis
    unfolding p
    using get ents md set_batch_initial_run [OF s1(1), of entries]
    by (auto simp: initialize_dev_accounts_def Let_def bindE_apply bc_gets_def gets_apply on_fork_def
        on_field_apply map_err_apply bc head)
qed


end
