(* ===== verification/Rpc_Types.thy ===== *)
theory Rpc_Types
  imports Fork_Blockchain Tx_Pool
begin

text \<open>
  The types of the RPC server, \<^verbatim>\<open>crates/pop-fork/src/rpc_server/\<close> (\<^verbatim>\<open>types/common.rs\<close>,
  \<^verbatim>\<open>types/storage.rs\<close>, \<^verbatim>\<open>error.rs\<close>, the parsers of \<^verbatim>\<open>mod.rs\<close>). What the server sends as JSON is kept as
  the Rust value it is made from.
\<close>

section \<open>What the server takes from other crates\<close>

text \<open>
  \<^verbatim>\<open>hex::decode\<close> with the text of its error, the SCALE decoders of a byte vector, of a runtime
  version and of a header, the encoder of a digest item, the SS58 decoder, and the text of an error of
  the chain. (\<^verbatim>\<open>hex::encode\<close> is \<open>sb_hex\<close>.)
\<close>

record scale_version =
  v_spec_name :: string
  v_impl_name :: string
  v_authoring_version :: u32
  v_spec_version :: u32
  v_impl_version :: u32
  v_apis :: "(bytes \<times> u32) list"
  v_transaction_version :: u32
  v_state_version :: u8

record rpc_env =
  re_hex_decode :: "string \<Rightarrow> string + bytes"
  re_dec_bytes :: "bytes \<Rightarrow> string + bytes"
  re_dec_version :: "bytes \<Rightarrow> string + scale_version"
  re_dec_header :: "bytes \<Rightarrow> string + block_header"
  re_dec_validity :: "bytes \<Rightarrow> transaction_validity option"
  re_enc_digest :: "digest_item \<Rightarrow> bytes"
  re_ss58 :: "string \<Rightarrow> bytes option"
  re_show :: "blockchain_error \<Rightarrow> string"

section \<open>Errors\<close>

definition PARSE_ERROR :: int where "PARSE_ERROR = - 32700"
definition INVALID_REQUEST :: int where "INVALID_REQUEST = - 32600"
definition METHOD_NOT_FOUND :: int where "METHOD_NOT_FOUND = - 32601"
definition INVALID_PARAMS :: int where "INVALID_PARAMS = - 32602"
definition INTERNAL_ERROR :: int where "INTERNAL_ERROR = - 32603"
definition TOO_MANY_SUBSCRIPTIONS :: int where "TOO_MANY_SUBSCRIPTIONS = - 32800"
definition INVALID_BLOCK :: int where "INVALID_BLOCK = - 32801"
definition OPERATION_LIMIT :: int where "OPERATION_LIMIT = - 32802"
definition OPERATION_NOT_FOUND :: int where "OPERATION_NOT_FOUND = - 32803"
definition INVALID_TRANSACTION :: int where "INVALID_TRANSACTION = 1010"
definition UNKNOWN_TRANSACTION :: int where "UNKNOWN_TRANSACTION = 1011"

datatype rpc_server_error =
    ServerStart string
  | TooManySubscriptions nat
  | BlockNotPinned string
  | InvalidSubscription string
  | OperationNotFound string
  | RpcStorage string
  | RpcRuntimeCall string
  | InvalidParam string
  | Internal string
  | BlockNotFound string
  | InvalidTransactionErr string "string option"
  | UnknownTransactionErr string "string option"

record error_object =
  eo_code :: int
  eo_message :: string
  eo_data :: "string option"

definition error_object_of :: "rpc_server_error \<Rightarrow> error_object" where
  "error_object_of err = (case err of
     ServerStart msg \<Rightarrow> \<lparr>eo_code = INTERNAL_ERROR, eo_message = msg, eo_data = None\<rparr>
   | TooManySubscriptions limit \<Rightarrow> \<lparr>eo_code = TOO_MANY_SUBSCRIPTIONS,
       eo_message = ''Too many subscriptions (limit: '' @ digits limit @ '')'', eo_data = None\<rparr>
   | BlockNotPinned hash \<Rightarrow> \<lparr>eo_code = INVALID_BLOCK,
       eo_message = ''Block '' @ hash @ '' is not pinned or unknown'', eo_data = None\<rparr>
   | InvalidSubscription i \<Rightarrow> \<lparr>eo_code = INVALID_PARAMS,
       eo_message = ''Invalid subscription ID: '' @ i, eo_data = None\<rparr>
   | OperationNotFound i \<Rightarrow> \<lparr>eo_code = OPERATION_NOT_FOUND,
       eo_message = ''Operation '' @ i @ '' not found'', eo_data = None\<rparr>
   | RpcStorage msg \<Rightarrow> \<lparr>eo_code = INTERNAL_ERROR, eo_message = msg, eo_data = None\<rparr>
   | RpcRuntimeCall msg \<Rightarrow> \<lparr>eo_code = INTERNAL_ERROR, eo_message = msg, eo_data = None\<rparr>
   | InvalidParam msg \<Rightarrow> \<lparr>eo_code = INVALID_PARAMS, eo_message = msg, eo_data = None\<rparr>
   | Internal msg \<Rightarrow> \<lparr>eo_code = INTERNAL_ERROR, eo_message = msg, eo_data = None\<rparr>
   | BlockNotFound msg \<Rightarrow> \<lparr>eo_code = INVALID_BLOCK, eo_message = msg, eo_data = None\<rparr>
   | InvalidTransactionErr why data \<Rightarrow> \<lparr>eo_code = INVALID_TRANSACTION,
       eo_message = ''Transaction is invalid: '' @ why, eo_data = data\<rparr>
   | UnknownTransactionErr why data \<Rightarrow> \<lparr>eo_code = UNKNOWN_TRANSACTION,
       eo_message = ''Transaction validity unknown: '' @ why, eo_data = data\<rparr>)"

section \<open>Hexadecimal strings\<close>

text \<open>\<^verbatim>\<open>trim_start_matches("0x")\<close>, which takes the prefix off as often as it is there.\<close>

function trim_0x :: "string \<Rightarrow> string" where
  "trim_0x s = (if take 2 s = ''0x'' then trim_0x (drop 2 s) else s)"
  by pat_completeness auto
termination
  by (relation "measure length") (auto dest: arg_cong [of _ _ length])

declare trim_0x.simps [simp del]

definition hex_string :: "('n, 'm) substrate \<Rightarrow> bytes \<Rightarrow> string" where
  "hex_string B b = ''0x'' @ sb_hex B b"

definition to_bytes :: "rpc_env \<Rightarrow> string \<Rightarrow> string + bytes" where
  "to_bytes R s = re_hex_decode R (trim_0x s)"

definition parse_hex_bytes :: "rpc_env \<Rightarrow> string \<Rightarrow> string \<Rightarrow> rpc_server_error + bytes" where
  "parse_hex_bytes R h field = (case re_hex_decode R (trim_0x h) of
     Inl e \<Rightarrow> Inl (InvalidParam (''Invalid hex '' @ field @ '': '' @ e)) | Inr b \<Rightarrow> Inr b)"

definition parse_block_hash :: "rpc_env \<Rightarrow> string \<Rightarrow> rpc_server_error + h256" where
  "parse_block_hash R h = (case re_hex_decode R (trim_0x h) of
     Inl e \<Rightarrow> Inl (InvalidParam (''Invalid hex hash: '' @ e))
   | Inr b \<Rightarrow> if length b \<noteq> 32 then Inl (Internal ''Invalid block hash length.'') else Inr (H256 b))"

text \<open>\<^verbatim>\<open>{:x}\<close>\<close>

fun hex_digits :: "nat \<Rightarrow> string" where
  "hex_digits n = (let d = (\<lambda>k. char_of (if k < 10 then 48 + k else 87 + k))
     in if n < 16 then [d n] else hex_digits (n div 16) @ [d (n mod 16)])"

declare hex_digits.simps [simp del]

section \<open>Values sent to clients\<close>

record head_json =
  rh_parent_hash :: string
  rh_number :: string
  rh_state_root :: string
  rh_extrinsics_root :: string
  rh_logs :: "string list"

definition from_header :: "('n, 'm) substrate \<Rightarrow> rpc_env \<Rightarrow> block_header \<Rightarrow> head_json" where
  "from_header B R h =
     \<lparr>rh_parent_hash = hex_string B (as_bytes (bh_parent_hash h)),
      rh_number = ''0x'' @ hex_digits (unat (bh_number h)),
      rh_state_root = hex_string B (as_bytes (bh_state_root h)),
      rh_extrinsics_root = hex_string B (as_bytes (bh_extrinsics_root h)),
      rh_logs = map (\<lambda>log. hex_string B (re_enc_digest R log)) (bh_digest h)\<rparr>"

record runtime_version_json =
  rv_spec_name :: string
  rv_impl_name :: string
  rv_authoring_version :: u32
  rv_spec_version :: u32
  rv_impl_version :: u32
  rv_transaction_version :: u32
  rv_state_version :: u8
  rv_apis :: "(string \<times> u32) list"

definition version_json :: "('n, 'm) substrate \<Rightarrow> scale_version \<Rightarrow> runtime_version_json" where
  "version_json B v =
     \<lparr>rv_spec_name = v_spec_name v, rv_impl_name = v_impl_name v,
      rv_authoring_version = v_authoring_version v, rv_spec_version = v_spec_version v,
      rv_impl_version = v_impl_version v, rv_transaction_version = v_transaction_version v,
      rv_state_version = v_state_version v, rv_apis = map (\<lambda>(i, ver). (hex_string B i, ver)) (v_apis v)\<rparr>"

record signed_block =
  sbk_header :: head_json
  sbk_extrinsics :: "string list"

record storage_change_set =
  cs_block :: string
  cs_changes :: "(string \<times> string option) list"

datatype storage_query_type =
  QValue | QHash | QClosestDescendantMerkleValue | QDescendantsValues | QDescendantsHashes

record storage_query_item =
  qi_key :: string
  qi_type :: storage_query_type

text \<open>The item of \<^verbatim>\<open>archive_v1_storage\<close> and that of \<^verbatim>\<open>chainHead_v1_storage\<close> have the same fields.\<close>

record storage_result_item =
  ri_key :: string
  ri_value :: "string option"
  ri_hash :: "string option"

datatype archive_storage_result = ArchiveOk "storage_result_item list" | ArchiveErr string

record archive_call_result =
  ac_success :: bool
  ac_value :: "string option"
  ac_error :: "string option"

definition call_ok :: "string \<Rightarrow> archive_call_result" where
  "call_ok v = \<lparr>ac_success = True, ac_value = Some v, ac_error = None\<rparr>"

definition call_err :: "string \<Rightarrow> archive_call_result" where
  "call_err m = \<lparr>ac_success = False, ac_value = None, ac_error = Some m\<rparr>"

record storage_diff_query_item =
  dq_key :: string
  dq_return_type :: storage_query_type

datatype storage_diff_type = Added | Modified | Deleted

record storage_diff_item =
  di_key :: string
  di_value :: "string option"
  di_hash :: "string option"
  di_type :: storage_diff_type

datatype archive_storage_diff_result = DiffOk "storage_diff_item list" | DiffErr string

section \<open>Running the chain inside a method\<close>

text \<open>The error of the chain as the error a method makes of it.\<close>

abbreviation chain_op ::
  "(blockchain_error \<Rightarrow> rpc_server_error) \<Rightarrow> ('s, blockchain_error, 'a) prog \<Rightarrow> ('s, rpc_server_error, 'a) loop_prog" where
  "chain_op f m \<equiv> returns (map_err f m)"

abbreviation chain_opL ::
  "(blockchain_error \<Rightarrow> rpc_server_error) \<Rightarrow> ('s, blockchain_error, 'a) loop_prog \<Rightarrow> ('s, rpc_server_error, 'a) loop_prog" where
  "chain_opL f m \<equiv> map_errL f m"

text \<open>The values of keys at a block, asked for together; a failing one reads as absent.\<close>

definition values_at ::
  "('n, 'm) upstream \<Rightarrow> ('n, 'm) substrate \<Rightarrow> u32 \<Rightarrow> bytes list \<Rightarrow>
     (('p, 'n, 'm) node_state, 'e, bytes option list) prog" where
  "values_at U B n keys =
     each (\<lambda>k. bindE (ignore_errors (bc_storage_at U B n k)) (\<lambda>r. ret (Option.bind r (\<lambda>v. v)))) keys"

text \<open>What the two methods of the server that list descendants answer for a prefix.\<close>

definition descendants ::
  "('n, 'm) upstream \<Rightarrow> ('n, 'm) substrate \<Rightarrow> bool \<Rightarrow> u32 \<Rightarrow> h256 \<Rightarrow> bytes \<Rightarrow>
     (('p, 'n, 'm) node_state, 'e, storage_result_item list) loop_prog" where
  "descendants U B hashes n at pre = (\<lambda>s. case bc_storage_keys_by_prefix U B pre at s of
     None \<Rightarrow> None
   | Some (Inl _, s') \<Rightarrow> Some (Inr [], s')
   | Some (Inr keys, s') \<Rightarrow>
       returns (bindE (values_at U B n keys) (\<lambda>values.
       ret (map (\<lambda>(k, v). \<lparr>ri_key = hex_string B k,
                 ri_value = (if hashes then None else map_option (hex_string B) v),
                 ri_hash = (if hashes then map_option (\<lambda>x. hex_string B (sb_blake2_256 B x)) v else None)\<rparr>)
              (zip keys values)))) s')"

end
