(* ===== verification/Rpc_Methods.thy ===== *)
theory Rpc_Methods
  imports Rpc_Types
begin

text \<open>
  The methods of the RPC server that answer at once, \<^verbatim>\<open>crates/pop-fork/src/rpc_server/methods/\<close>:
  \<^verbatim>\<open>chain.rs\<close>, \<^verbatim>\<open>state.rs\<close>, \<^verbatim>\<open>archive.rs\<close>, \<^verbatim>\<open>payment.rs\<close>, \<^verbatim>\<open>system.rs\<close>, \<^verbatim>\<open>chain_spec.rs\<close>. The code is generic over a
  trait with the operations of the chain; here they are those of the forked chain, which the
  server is run with. \<^verbatim>\<open>join_all\<close> on reads is their sequence: reads change nothing a read can see.
\<close>

type_synonym ('p, 'n, 'm, 'a) rpc_run = "(('p, 'n, 'm) node_state, rpc_server_error, 'a) loop_prog"

definition parsed :: "rpc_server_error + 'a \<Rightarrow> ('s, rpc_server_error, 'a) loop_prog" where
  "parsed r = returns (lift_sum r)"

definition of_head :: "(block \<Rightarrow> 'a) \<Rightarrow> (('p, 'n, 'm) node_state, 'e, 'a) loop_prog" where
  "of_head f = returns (bc_gets (\<lambda>bc. f (bc_head bc)))"

text \<open>The hash a client gave, or that of the head.\<close>

definition hash_or_head :: "rpc_env \<Rightarrow> string option \<Rightarrow> ('p, 'n, 'm, h256) rpc_run" where
  "hash_or_head R at = (case at of Some h \<Rightarrow> parsed (parse_block_hash R h) | None \<Rightarrow> of_head blk_hash)"

section \<open>chain\<close>

definition get_block_hash ::
  "('n, 'm) upstream \<Rightarrow> ('n, 'm) substrate \<Rightarrow> rpc_env \<Rightarrow> u32 option \<Rightarrow> ('p, 'n, 'm, string option) rpc_run" where
  "get_block_hash U B R block_number =
     bindL (case block_number of Some n \<Rightarrow> returns (ret n) | None \<Rightarrow> of_head blk_number) (\<lambda>number.
     bindL (chain_op (\<lambda>e. Internal (''Failed to fetch block hash: '' @ re_show R e)) (bc_block_hash_at U B number)) (\<lambda>found.
     returns (ret (map_option (\<lambda>h. hex_string B (as_bytes h)) found))))"

definition get_header ::
  "('n, 'm) upstream \<Rightarrow> ('n, 'm) substrate \<Rightarrow> rpc_env \<Rightarrow> string option \<Rightarrow> ('p, 'n, 'm, head_json option) rpc_run" where
  "get_header U B R hash =
     bindL (hash_or_head R hash) (\<lambda>block_hash.
     bindL (chain_op (\<lambda>e. Internal (''Failed to fetch block header: '' @ re_show R e)) (bc_block_header U B block_hash)) (\<lambda>found.
     case found of
       None \<Rightarrow> returns (ret None)
     | Some header_bytes \<Rightarrow> (case re_dec_header R header_bytes of
         Inl e \<Rightarrow> returns (fail (Internal (''Failed to decode header: '' @ e)))
       | Inr header \<Rightarrow> returns (ret (Some (from_header B R header))))))"

definition chain_get_block ::
  "('n, 'm) upstream \<Rightarrow> ('n, 'm) substrate \<Rightarrow> rpc_env \<Rightarrow> string option \<Rightarrow> ('p, 'n, 'm, signed_block option) rpc_run" where
  "chain_get_block U B R hash =
     bindL (hash_or_head R hash) (\<lambda>block_hash.
     bindL (get_header U B R (Some (hex_string B (as_bytes block_hash)))) (\<lambda>header.
     case header of
       None \<Rightarrow> returns (ret None)
     | Some h \<Rightarrow>
         bindL (chain_op (\<lambda>e. Internal (''Failed to fetch block body: '' @ re_show R e)) (bc_block_body U B block_hash)) (\<lambda>body.
         returns (ret (map_option (\<lambda>xs. \<lparr>sbk_header = h, sbk_extrinsics = map (hex_string B) xs\<rparr>) body)))))"

definition get_finalized_head :: "('n, 'm) substrate \<Rightarrow> ('p, 'n, 'm, string) rpc_run" where
  "get_finalized_head B = of_head (\<lambda>b. hex_string B (as_bytes (blk_hash b)))"

text \<open>
  A subscription to new heads sends the header of the head, and then that of every new block;
  a header that does not decode is skipped.
\<close>

definition first_head ::
  "('n, 'm) upstream \<Rightarrow> ('n, 'm) substrate \<Rightarrow> rpc_env \<Rightarrow> ('p, 'n, 'm, head_json list) rpc_run" where
  "first_head U B R =
     bindL (of_head blk_hash) (\<lambda>h.
     returns (bindE (ignore_errors (bc_block_header U B h)) (\<lambda>found.
     ret (case Option.bind found (\<lambda>x. x) of
       None \<Rightarrow> []
     | Some header_bytes \<Rightarrow> (case re_dec_header R header_bytes of
         Inl _ \<Rightarrow> [] | Inr header \<Rightarrow> [from_header B R header])))))"

definition next_head :: "('n, 'm) substrate \<Rightarrow> rpc_env \<Rightarrow> blockchain_event \<Rightarrow> head_json list" where
  "next_head B R event = (case event of NewBlock hash number parent_hash header modified_keys \<Rightarrow>
     (case re_dec_header R header of Inl _ \<Rightarrow> [] | Inr h \<Rightarrow> [from_header B R h]))"

definition subscribe_new_heads ::
  "('n, 'm) upstream \<Rightarrow> ('n, 'm) substrate \<Rightarrow> rpc_env \<Rightarrow> blockchain_event list \<Rightarrow> ('p, 'n, 'm, head_json list) rpc_run" where
  "subscribe_new_heads U B R events =
     bindL (first_head U B R) (\<lambda>initial. returns (ret (initial @ concat (map (next_head B R) events))))"

section \<open>state\<close>

text \<open>
  The number and the hash of the block a client named, or of the head. A block that is not found is
  reported with \<open>missing\<close>.
\<close>

definition resolve_block ::
  "('n, 'm) upstream \<Rightarrow> ('n, 'm) substrate \<Rightarrow> rpc_env \<Rightarrow> string \<Rightarrow> string option \<Rightarrow> ('p, 'n, 'm, u32 \<times> h256) rpc_run" where
  "resolve_block U B R missing at = (case at of
     Some hash \<Rightarrow>
       bindL (parsed (parse_block_hash R hash)) (\<lambda>p.
       bindL (chain_op (\<lambda>_. InvalidParam (''Invalid block hash: '' @ hash)) (bc_block_number_by_hash U B p)) (\<lambda>found.
       case found of
         None \<Rightarrow> returns (fail (InvalidParam (missing @ hash)))
       | Some num \<Rightarrow> returns (ret (num, p))))
   | None \<Rightarrow> of_head (\<lambda>b. (blk_number b, blk_hash b)))"

definition state_get_storage ::
  "('n, 'm) upstream \<Rightarrow> ('n, 'm) substrate \<Rightarrow> rpc_env \<Rightarrow> string \<Rightarrow> string option \<Rightarrow> ('p, 'n, 'm, string option) rpc_run" where
  "state_get_storage U B R key at =
     bindL (resolve_block U B R ''Invalid block hash: '' at) (\<lambda>(block_number, _).
     bindL (parsed (parse_hex_bytes R key ''key'')) (\<lambda>key_bytes.
     bindL (chain_op (\<lambda>e. RpcStorage (re_show R e)) (bc_storage_at U B block_number key_bytes)) (\<lambda>value.
     returns (ret (map_option (hex_string B) value)))))"

definition get_metadata ::
  "('v, 'p) vm_host \<Rightarrow> ('n, 'm) upstream \<Rightarrow> ('n, 'm) substrate \<Rightarrow> rpc_env \<Rightarrow> string option \<Rightarrow> ('p, 'n, 'm, string) rpc_run" where
  "get_metadata H U B R at =
     bindL (hash_or_head R at) (\<lambda>block_hash.
     bindL (chain_opL (\<lambda>_. Internal ''Failed to get metadata'')
              (call_at_block H U block_hash ''Metadata_metadata'' [])) (\<lambda>result.
     case result of
       None \<Rightarrow> returns (fail (Internal ''Failed to get metadata''))
     | Some r \<Rightarrow> (case re_dec_bytes R r of
         Inl e \<Rightarrow> returns (fail (Internal (''Failed to decode metadata: '' @ e)))
       | Inr b \<Rightarrow> returns (ret (hex_string B b)))))"

text \<open>
  A call that may be answered by the node: for a block up to the fork point its runtime is the
  node's. When the node does not answer, and for later blocks, the call is run here.
\<close>

definition upstream_result ::
  "('n, 'm) upstream \<Rightarrow> ('n, 'm) substrate \<Rightarrow> string \<Rightarrow> bytes \<Rightarrow> u32 \<Rightarrow> h256 \<Rightarrow>
     (('p, 'n, 'm) node_state, 'e, bytes option) loop_prog" where
  "upstream_result U B fn params block_number block_hash =
     bindL (returns (bc_gets bc_fork_point_number)) (\<lambda>fork_point.
     if block_number \<le> fork_point
     then returns (ignore_errors (proxy_state_call U B fn params block_hash))
     else returns (ret None))"

definition get_runtime_version ::
  "('v, 'p) vm_host \<Rightarrow> ('n, 'm) upstream \<Rightarrow> ('n, 'm) substrate \<Rightarrow> rpc_env \<Rightarrow> string option \<Rightarrow>
     ('p, 'n, 'm, runtime_version_json) rpc_run" where
  "get_runtime_version H U B R at =
     bindL (resolve_block U B R ''Block not found: '' at) (\<lambda>(block_number, block_hash).
     bindL (upstream_result U B ''Core_version'' [] block_number block_hash) (\<lambda>proxied.
     bindL (case proxied of
              Some r \<Rightarrow> returns (ret r)
            | None \<Rightarrow>
                bindL (chain_opL (\<lambda>e. Internal (''Failed to get runtime version: '' @ re_show R e))
                         (call_at_block H U block_hash ''Core_version'' [])) (\<lambda>found.
                case found of
                  None \<Rightarrow> returns (fail (Internal ''Failed to get runtime version''))
                | Some r \<Rightarrow> returns (ret r))) (\<lambda>result.
     case re_dec_version R result of
       Inl e \<Rightarrow> returns (fail (Internal (''Failed to decode runtime version: '' @ e)))
     | Inr v \<Rightarrow> returns (ret (version_json B v)))))"

definition get_keys_paged ::
  "('n, 'm) upstream \<Rightarrow> ('n, 'm) substrate \<Rightarrow> rpc_env \<Rightarrow> string option \<Rightarrow> u32 \<Rightarrow> string option \<Rightarrow> string option \<Rightarrow>
     ('p, 'n, 'm, string list) rpc_run" where
  "get_keys_paged U B R pre count start_key at =
     bindL (case pre of Some p \<Rightarrow> parsed (parse_hex_bytes R p ''prefix'') | None \<Rightarrow> returns (ret [])) (\<lambda>prefix_bytes.
     bindL (case start_key of
              Some k \<Rightarrow> bindL (parsed (parse_hex_bytes R k ''start_key'')) (\<lambda>b. returns (ret (Some b)))
            | None \<Rightarrow> returns (ret None)) (\<lambda>start_key_bytes.
     bindL (case at of
              Some h \<Rightarrow> bindL (parsed (parse_block_hash R h)) (\<lambda>b. returns (ret (Some b)))
            | None \<Rightarrow> returns (ret None)) (\<lambda>block_hash.
     bindL (chain_opL (\<lambda>e. RpcStorage (re_show R e))
              (bc_storage_keys_paged U B prefix_bytes count start_key_bytes block_hash)) (\<lambda>keys.
     returns (ret (map (hex_string B) keys))))))"

definition METADATA_PREFIX :: string where
  "METADATA_PREFIX = ''Metadata_''"

definition state_rpc_call ::
  "('v, 'p) vm_host \<Rightarrow> ('n, 'm) upstream \<Rightarrow> ('n, 'm) substrate \<Rightarrow> rpc_env \<Rightarrow> string \<Rightarrow> string \<Rightarrow> string option \<Rightarrow>
     ('p, 'n, 'm, string) rpc_run" where
  "state_rpc_call H U B R fn data at =
     bindL (parsed (parse_hex_bytes R data ''data'')) (\<lambda>params.
     bindL (resolve_block U B R ''Block not found: '' at) (\<lambda>(block_number, block_hash).
     bindL (if take 9 fn = METADATA_PREFIX then upstream_result U B fn params block_number block_hash
            else returns (ret None)) (\<lambda>proxied.
     case proxied of
       Some r \<Rightarrow> returns (ret (hex_string B r))
     | None \<Rightarrow>
         bindL (chain_opL (\<lambda>e. Internal (''Runtime call failed: '' @ re_show R e))
                  (call_at_block H U block_hash fn params)) (\<lambda>found.
         case found of
           None \<Rightarrow> returns (fail (Internal ''Call returned no result''))
         | Some r \<Rightarrow> returns (ret (hex_string B r))))))"

text \<open>The first key that does not parse ends the query.\<close>

fun parse_all :: "('a \<Rightarrow> 'e + 'b) \<Rightarrow> 'a list \<Rightarrow> 'e + 'b list" where
  "parse_all f [] = Inr []"
| "parse_all f (x # xs) = (case f x of Inl e \<Rightarrow> Inl e | Inr y \<Rightarrow> map_sum (\<lambda>e. e) ((#) y) (parse_all f xs))"

definition query_storage_at ::
  "('n, 'm) upstream \<Rightarrow> ('n, 'm) substrate \<Rightarrow> rpc_env \<Rightarrow> string list \<Rightarrow> string option \<Rightarrow>
     ('p, 'n, 'm, storage_change_set list) rpc_run" where
  "query_storage_at U B R keys at =
     bindL (resolve_block U B R ''Block not found: '' at) (\<lambda>(block_number, block_hash).
     bindL (parsed (parse_all (\<lambda>k. parse_hex_bytes R k ''key'') keys)) (\<lambda>parsed_keys.
     bindL (returns (bc_gets bc_fork_point_number)) (\<lambda>fork_point.
     bindL (if block_number \<le> fork_point
            then chain_op (\<lambda>e. RpcStorage (re_show R e)) (bc_storage_batch U B block_hash parsed_keys)
            else returns (values_at U B block_number parsed_keys)) (\<lambda>values.
     returns (ret [\<lparr>cs_block = hex_string B (as_bytes block_hash),
                    cs_changes = zip keys (map (map_option (hex_string B)) values)\<rparr>])))))"

section \<open>Subscriptions to storage and to the runtime version\<close>

text \<open>
  The keys that decode, in order, and all keys as they were given: \<open>ss_hex ! i\<close> is what the \<open>i\<close>-th
  decoded key is reported as.
\<close>

record storage_subscription =
  ss_keys :: "bytes list"
  ss_hex :: "string list"

definition open_subscription :: "rpc_env \<Rightarrow> string list option \<Rightarrow> storage_subscription" where
  "open_subscription R keys =
     (let given = (case keys of Some ks \<Rightarrow> ks | None \<Rightarrow> [])
      in \<lparr>ss_keys = List.map_filter (\<lambda>k. case to_bytes R k of Inr b \<Rightarrow> Some b | Inl _ \<Rightarrow> None) given,
          ss_hex = given\<rparr>)"

definition hex_name :: "storage_subscription \<Rightarrow> nat \<Rightarrow> string" where
  "hex_name sub i = (if i < length (ss_hex sub) then ss_hex sub ! i else [])"

definition changes_of ::
  "('n, 'm) upstream \<Rightarrow> ('n, 'm) substrate \<Rightarrow> storage_subscription \<Rightarrow> nat list \<Rightarrow>
     (('p, 'n, 'm) node_state, 'e, (string \<times> string option) list) prog" where
  "changes_of U B sub indices =
     each (\<lambda>i. bindE (ignore_errors (bc_storage U B (ss_keys sub ! i))) (\<lambda>r.
       ret (hex_name sub i, map_option (hex_string B) (Option.bind r (\<lambda>v. v))))) indices"

definition storage_initial ::
  "('n, 'm) upstream \<Rightarrow> ('n, 'm) substrate \<Rightarrow> storage_subscription \<Rightarrow> ('p, 'n, 'm, storage_change_set) rpc_run" where
  "storage_initial U B sub =
     bindL (of_head blk_hash) (\<lambda>head_hash.
     bindL (returns (changes_of U B sub [0..<length (ss_keys sub)])) (\<lambda>changes.
     returns (ret \<lparr>cs_block = hex_string B (as_bytes head_hash), cs_changes = changes\<rparr>)))"

definition storage_event ::
  "('n, 'm) upstream \<Rightarrow> ('n, 'm) substrate \<Rightarrow> storage_subscription \<Rightarrow> blockchain_event \<Rightarrow>
     ('p, 'n, 'm, storage_change_set list) rpc_run" where
  "storage_event U B sub event = (case event of NewBlock hash number parent_hash header modified_keys \<Rightarrow>
     (let affected = filter (\<lambda>i. ss_keys sub ! i \<in> set modified_keys) [0..<length (ss_keys sub)]
      in if affected = [] then returns (ret [])
         else bindL (returns (changes_of U B sub affected)) (\<lambda>changes.
              returns (ret [\<lparr>cs_block = hex_string B (as_bytes hash), cs_changes = changes\<rparr>]))))"

text \<open>The state of the subscription is the version last sent.\<close>

definition version_event ::
  "('v, 'p) vm_host \<Rightarrow> ('n, 'm) upstream \<Rightarrow> ('n, 'm) substrate \<Rightarrow> rpc_env \<Rightarrow> u32 option \<Rightarrow> blockchain_event \<Rightarrow>
     ('p, 'n, 'm, u32 option \<times> runtime_version_json list) rpc_run" where
  "version_event H U B R last_spec_version event = (case event of NewBlock hash number parent_hash header modified_keys \<Rightarrow>
     if CODE \<notin> set modified_keys then returns (ret (last_spec_version, []))
     else (\<lambda>s. case call_at_block H U hash ''Core_version'' [] s of
       None \<Rightarrow> None
     | Some (r, s') \<Rightarrow>
         (case r of
            Inr (Some result) \<Rightarrow> (case re_dec_version R result of
                Inr v \<Rightarrow>
                  if last_spec_version \<noteq> Some (v_spec_version v)
                  then Some (Inr (Some (v_spec_version v), [version_json B v]), s')
                  else Some (Inr (last_spec_version, []), s')
              | Inl _ \<Rightarrow> Some (Inr (last_spec_version, []), s'))
          | _ \<Rightarrow> Some (Inr (last_spec_version, []), s'))))"

section \<open>archive\<close>

definition finalized_height :: "('p, 'n, 'm, u32) rpc_run" where
  "finalized_height = of_head blk_number"

definition hash_by_height ::
  "('n, 'm) upstream \<Rightarrow> ('n, 'm) substrate \<Rightarrow> rpc_env \<Rightarrow> u32 \<Rightarrow> ('p, 'n, 'm, string list option) rpc_run" where
  "hash_by_height U B R height =
     bindL (chain_op (\<lambda>e. Internal (''Failed to fetch block hash: '' @ re_show R e)) (bc_block_hash_at U B height)) (\<lambda>found.
     returns (ret (map_option (\<lambda>h. [hex_string B (as_bytes h)]) found)))"

definition archive_header ::
  "('n, 'm) upstream \<Rightarrow> ('n, 'm) substrate \<Rightarrow> rpc_env \<Rightarrow> string \<Rightarrow> ('p, 'n, 'm, string option) rpc_run" where
  "archive_header U B R hash =
     bindL (parsed (parse_block_hash R hash)) (\<lambda>block_hash.
     bindL (chain_op (\<lambda>e. Internal (''Failed to fetch block header: '' @ re_show R e)) (bc_block_header U B block_hash)) (\<lambda>found.
     returns (ret (map_option (hex_string B) found))))"

definition archive_body ::
  "('n, 'm) upstream \<Rightarrow> ('n, 'm) substrate \<Rightarrow> rpc_env \<Rightarrow> string \<Rightarrow> ('p, 'n, 'm, string list option) rpc_run" where
  "archive_body U B R hash =
     bindL (parsed (parse_block_hash R hash)) (\<lambda>block_hash.
     bindL (chain_op (\<lambda>e. Internal (''Failed to fetch block body: '' @ re_show R e)) (bc_block_body U B block_hash)) (\<lambda>found.
     returns (ret (map_option (map (hex_string B)) found))))"

text \<open>A program with its result as a value.\<close>

definition tryL :: "('s, 'e, 'a) loop_prog \<Rightarrow> ('s, 'f, 'e + 'a) loop_prog" where
  "tryL m = (\<lambda>s. map_option (\<lambda>(r, s'). (Inr r, s')) (m s))"

definition archive_call ::
  "('v, 'p) vm_host \<Rightarrow> ('n, 'm) upstream \<Rightarrow> ('n, 'm) substrate \<Rightarrow> rpc_env \<Rightarrow> string \<Rightarrow> string \<Rightarrow> string \<Rightarrow>
     ('p, 'n, 'm, archive_call_result option) rpc_run" where
  "archive_call H U B R hash fn call_parameters =
     bindL (parsed (parse_block_hash R hash)) (\<lambda>block_hash.
     bindL (parsed (parse_hex_bytes R call_parameters ''parameters'')) (\<lambda>params.
     bindL (tryL (call_at_block H U block_hash fn params)) (\<lambda>r.
     returns (ret (case r of
         Inr (Some result) \<Rightarrow> Some (call_ok (hex_string B result))
       | Inr None \<Rightarrow> None
       | Inl e \<Rightarrow> Some (call_err (re_show R e)))))))"

text \<open>The items one query of a storage request adds; an error ends the request.\<close>

definition archive_item ::
  "('n, 'm) upstream \<Rightarrow> ('n, 'm) substrate \<Rightarrow> rpc_env \<Rightarrow> u32 \<Rightarrow> h256 \<Rightarrow> storage_query_item \<Rightarrow>
     ('p, 'n, 'm, storage_result_item list) rpc_run" where
  "archive_item U B R block_number block_hash item =
     bindL (parsed (parse_hex_bytes R (qi_key item) ''key'')) (\<lambda>key_bytes.
     case qi_type item of
       QClosestDescendantMerkleValue \<Rightarrow> returns (ret [\<lparr>ri_key = qi_key item, ri_value = None, ri_hash = None\<rparr>])
     | QDescendantsValues \<Rightarrow> descendants U B False block_number block_hash key_bytes
     | QDescendantsHashes \<Rightarrow> descendants U B True block_number block_hash key_bytes
     | QValue \<Rightarrow>
         bindL (chain_op (\<lambda>e. RpcStorage (re_show R e)) (bc_storage_at U B block_number key_bytes)) (\<lambda>v.
         returns (ret [\<lparr>ri_key = qi_key item, ri_value = map_option (hex_string B) v, ri_hash = None\<rparr>]))
     | QHash \<Rightarrow>
         bindL (chain_op (\<lambda>e. RpcStorage (re_show R e)) (bc_storage_at U B block_number key_bytes)) (\<lambda>v.
         returns (ret [\<lparr>ri_key = qi_key item, ri_value = None,
             ri_hash = map_option (\<lambda>x. hex_string B (sb_blake2_256 B x)) v\<rparr>])))"

definition archive_storage ::
  "('n, 'm) upstream \<Rightarrow> ('n, 'm) substrate \<Rightarrow> rpc_env \<Rightarrow> string \<Rightarrow> storage_query_item list \<Rightarrow>
     ('p, 'n, 'm, archive_storage_result) rpc_run" where
  "archive_storage U B R hash items =
     bindL (parsed (parse_block_hash R hash)) (\<lambda>block_hash.
     bindL (chain_op (\<lambda>e. Internal (''Failed to resolve block: '' @ re_show R e)) (bc_block_number_by_hash U B block_hash)) (\<lambda>found.
     case found of
       None \<Rightarrow> returns (ret (ArchiveErr ''Block not found''))
     | Some block_number \<Rightarrow>
         bindL (eachL (archive_item U B R block_number block_hash) items) (\<lambda>results.
         returns (ret (ArchiveOk (concat results))))))"

definition archive_genesis_hash ::
  "('n, 'm) upstream \<Rightarrow> ('n, 'm) substrate \<Rightarrow> rpc_env \<Rightarrow> ('p, 'n, 'm, string) rpc_run" where
  "archive_genesis_hash U B R =
     chain_op (\<lambda>e. Internal (''Failed to fetch genesis hash: '' @ re_show R e)) (genesis_hash U B)"

text \<open>The value of a changed key, as the client wants it: the types that make no sense read as \<open>QValue\<close>.\<close>

definition diff_fields :: "('n, 'm) substrate \<Rightarrow> storage_query_type \<Rightarrow> bytes \<Rightarrow> string option \<times> string option" where
  "diff_fields B ty v = (case ty of
     QHash \<Rightarrow> (None, Some (hex_string B (sb_blake2_256 B v)))
   | _ \<Rightarrow> (Some (hex_string B v), None))"

definition diff_of ::
  "('n, 'm) substrate \<Rightarrow> storage_diff_query_item \<Rightarrow> bytes option \<Rightarrow> bytes option \<Rightarrow> storage_diff_item list" where
  "diff_of B item current previous = (case (current, previous) of
     (None, None) \<Rightarrow> []
   | (Some v, None) \<Rightarrow> (case diff_fields B (dq_return_type item) v of (val, hsh) \<Rightarrow>
       [\<lparr>di_key = dq_key item, di_value = val, di_hash = hsh, di_type = Added\<rparr>])
   | (None, Some _) \<Rightarrow> [\<lparr>di_key = dq_key item, di_value = None, di_hash = None, di_type = Deleted\<rparr>]
   | (Some v, Some p) \<Rightarrow>
       (if v = p then []
        else case diff_fields B (dq_return_type item) v of (val, hsh) \<Rightarrow>
          [\<lparr>di_key = dq_key item, di_value = val, di_hash = hsh, di_type = Modified\<rparr>]))"

definition diff_item ::
  "('n, 'm) upstream \<Rightarrow> ('n, 'm) substrate \<Rightarrow> rpc_env \<Rightarrow> u32 \<Rightarrow> u32 \<Rightarrow> storage_diff_query_item \<Rightarrow>
     ('p, 'n, 'm, storage_diff_item list) rpc_run" where
  "diff_item U B R block_number prev_block_number item =
     bindL (parsed (parse_hex_bytes R (dq_key item) ''key'')) (\<lambda>key_bytes.
     bindL (chain_op (\<lambda>e. RpcStorage (re_show R e)) (bc_storage_at U B block_number key_bytes)) (\<lambda>current.
     bindL (chain_op (\<lambda>e. RpcStorage (re_show R e)) (bc_storage_at U B prev_block_number key_bytes)) (\<lambda>previous.
     returns (ret (diff_of B item current previous)))))"

definition storage_diff ::
  "('n, 'm) upstream \<Rightarrow> ('n, 'm) substrate \<Rightarrow> rpc_env \<Rightarrow> string \<Rightarrow> storage_diff_query_item list \<Rightarrow> string option \<Rightarrow>
     ('p, 'n, 'm, archive_storage_diff_result) rpc_run" where
  "storage_diff U B R hash items previous_hash =
     bindL (parsed (parse_block_hash R hash)) (\<lambda>block_hash.
     bindL (chain_op (\<lambda>e. Internal (''Failed to resolve block: '' @ re_show R e)) (bc_block_number_by_hash U B block_hash)) (\<lambda>found.
     case found of
       None \<Rightarrow> returns (ret (DiffErr ''Block not found''))
     | Some block_number \<Rightarrow>
         bindL (case previous_hash of
                  Some p \<Rightarrow> bindL (parsed (parse_block_hash R p)) (\<lambda>h. returns (ret (Some h)))
                | None \<Rightarrow> chain_op (\<lambda>e. Internal (''Failed to get parent hash: '' @ re_show R e))
                    (bc_block_parent_hash U B block_hash)) (\<lambda>prev.
         case prev of
           None \<Rightarrow> returns (ret (DiffErr ''Block not found''))
         | Some prev_block_hash \<Rightarrow>
             bindL (chain_op (\<lambda>e. Internal (''Failed to resolve previous block: '' @ re_show R e))
                      (bc_block_number_by_hash U B prev_block_hash)) (\<lambda>found_prev.
             case found_prev of
               None \<Rightarrow> returns (ret (DiffErr ''Previous block not found''))
             | Some prev_block_number \<Rightarrow>
                 bindL (eachL (diff_item U B R block_number prev_block_number) items) (\<lambda>results.
                 returns (ret (DiffOk (concat results))))))))"

section \<open>payment, system, chain specification\<close>

definition fee_call ::
  "('v, 'p) vm_host \<Rightarrow> ('n, 'm) upstream \<Rightarrow> ('n, 'm) substrate \<Rightarrow> rpc_env \<Rightarrow> string \<Rightarrow> string \<Rightarrow> string option \<Rightarrow>
     ('p, 'n, 'm, string) rpc_run" where
  "fee_call H U B R fn extrinsic at =
     bindL (parsed (parse_hex_bytes R extrinsic ''extrinsic'')) (\<lambda>ext_bytes.
     bindL (hash_or_head R at) (\<lambda>block_hash.
     bindL (chain_opL (\<lambda>e. Internal (''Runtime call failed: '' @ re_show R e))
              (call_at_block H U block_hash fn (ext_bytes @ sb_enc_u32 B (of_nat (length ext_bytes))))) (\<lambda>found.
     case found of
       None \<Rightarrow> returns (fail (Internal ''Runtime call returned no result''))
     | Some r \<Rightarrow> returns (ret (hex_string B r)))))"

definition query_info ::
  "('v, 'p) vm_host \<Rightarrow> ('n, 'm) upstream \<Rightarrow> ('n, 'm) substrate \<Rightarrow> rpc_env \<Rightarrow> string \<Rightarrow> string option \<Rightarrow> ('p, 'n, 'm, string) rpc_run" where
  "query_info H U B R = fee_call H U B R ''TransactionPaymentApi_query_info''"

definition query_fee_details ::
  "('v, 'p) vm_host \<Rightarrow> ('n, 'm) upstream \<Rightarrow> ('n, 'm) substrate \<Rightarrow> rpc_env \<Rightarrow> string \<Rightarrow> string option \<Rightarrow> ('p, 'n, 'm, string) rpc_run" where
  "query_fee_details H U B R = fee_call H U B R ''TransactionPaymentApi_query_fee_details''"

record sync_state_json =
  sy_starting_block :: u32
  sy_current_block :: u32
  sy_highest_block :: u32

definition sync_state :: "('p, 'n, 'm, sync_state_json) rpc_run" where
  "sync_state = of_head (\<lambda>b. \<lparr>sy_starting_block = 0, sy_current_block = blk_number b, sy_highest_block = blk_number b\<rparr>)"

definition u32_from_le_bytes :: "bytes \<Rightarrow> u32" where
  "u32_from_le_bytes bs = foldr (\<lambda>b acc. ucast b + 256 * acc) bs 0"

definition NONCE_SIZE :: nat where
  "NONCE_SIZE = 4"

definition account_next_index ::
  "('n, 'm) upstream \<Rightarrow> ('n, 'm) substrate \<Rightarrow> rpc_env \<Rightarrow> string \<Rightarrow> ('p, 'n, 'm, u32) rpc_run" where
  "account_next_index U B R account = (case re_ss58 R account of
     None \<Rightarrow> returns (fail (InvalidParam (''Invalid SS58 address: '' @ account)))
   | Some account_bytes \<Rightarrow>
       let key = sb_twox_128 B (bytes_of_string ''System'') @ sb_twox_128 B (bytes_of_string ''Account'') @
             sb_blake2_128 B account_bytes @ account_bytes in
       bindL (of_head blk_number) (\<lambda>block_number.
       bindL (returns (ignore_errors (bc_storage_at U B block_number key))) (\<lambda>found.
       returns (ret (case Option.bind found (\<lambda>v. v) of
           Some data \<Rightarrow> if NONCE_SIZE \<le> length data then u32_from_le_bytes (take NONCE_SIZE data) else 0
         | None \<Rightarrow> 0)))))"

definition chain_spec_name :: "('p, 'n, 'm, string) rpc_run" where
  "chain_spec_name = returns (bc_gets bc_chain_name)"

end
