(* ===== verification/Chain_Head.thy ===== *)
theory Chain_Head
  imports Rpc_Methods
begin

text \<open>
  The chainHead methods, \<^verbatim>\<open>crates/pop-fork/src/rpc_server/methods/chain_head.rs\<close>. A follow
  subscription has a handle: a channel of operation events and the number of its operations in
  progress. The handle is shared between the table of subscriptions and the tasks of the
  operations, so it lives in a store and is referred to by its place in it. Requests run
  concurrently: the steps they are made of are those of \<open>ch_step\<close>.
\<close>

section \<open>State\<close>

datatype operation_event =
    OperationBodyDone (op_of: string) "string list"
  | OperationCallDone (op_of: string) string
  | OperationStorageItems (op_of: string) "storage_result_item list"
  | OperationStorageDone (op_of: string)
  | OperationError (op_of: string) string

record subscription_handle =
  sh_events :: "operation_event list"
  sh_operation_count :: u64
  sh_with_runtime :: bool

record chain_head_state =
  ch_handles :: "subscription_handle list"
  ch_subscriptions :: "(string \<times> nat) list"
  ch_next_op_id :: u64

definition MAX_SUBSCRIPTIONS :: nat where
  "MAX_SUBSCRIPTIONS = 1024"

definition MAX_OPERATIONS :: u64 where
  "MAX_OPERATIONS = 16"

definition new_chain_head :: chain_head_state where
  "new_chain_head = \<lparr>ch_handles = [], ch_subscriptions = [], ch_next_op_id = 1\<rparr>"

definition op_name :: "u64 \<Rightarrow> string" where
  "op_name i = ''op-'' @ digits (unat i)"

definition can_add_subscription :: "chain_head_state \<Rightarrow> bool" where
  "can_add_subscription c \<longleftrightarrow> length (ch_subscriptions c) < MAX_SUBSCRIPTIONS"

definition get_subscription :: "chain_head_state \<Rightarrow> string \<Rightarrow> nat option" where
  "get_subscription c i = map_of (ch_subscriptions c) i"

text \<open>A new handle in the store, known under the identifier of the subscription.\<close>

definition register_subscription :: "string \<Rightarrow> bool \<Rightarrow> chain_head_state \<Rightarrow> chain_head_state" where
  "register_subscription i with_runtime c =
     c\<lparr>ch_handles := ch_handles c @ [\<lparr>sh_events = [], sh_operation_count = 0, sh_with_runtime = with_runtime\<rparr>],
       ch_subscriptions := alist_insert i (length (ch_handles c)) (ch_subscriptions c)\<rparr>"

definition remove_subscription :: "string \<Rightarrow> chain_head_state \<Rightarrow> chain_head_state" where
  "remove_subscription i c = c\<lparr>ch_subscriptions := filter (\<lambda>(j, _). j \<noteq> i) (ch_subscriptions c)\<rparr>"

section \<open>Events of the chain\<close>

datatype chain_head_event =
    Initialized "string list" "scale_version option"
  | NewBlockEvent string string
  | BestBlockChanged string
  | Finalized "string list" "string list"

text \<open>What a new subscriber is sent; the version is asked for only if it wants it.\<close>

definition chainhead_version ::
  "('v, 'p) vm_host \<Rightarrow> ('n, 'm) upstream \<Rightarrow> rpc_env \<Rightarrow> (('p, 'n, 'm) node_state, 'e, scale_version option) loop_prog" where
  "chainhead_version H U R =
     bindL (of_head blk_hash) (\<lambda>head_hash.
     bindL (tryL (call_at_block H U head_hash ''Core_version'' [])) (\<lambda>r.
     returns (ret (case r of
         Inr (Some result) \<Rightarrow> (case re_dec_version R result of Inr v \<Rightarrow> Some v | Inl _ \<Rightarrow> None)
       | _ \<Rightarrow> None))))"

definition follow_events ::
  "('v, 'p) vm_host \<Rightarrow> ('n, 'm) upstream \<Rightarrow> ('n, 'm) substrate \<Rightarrow> rpc_env \<Rightarrow> bool \<Rightarrow>
     (('p, 'n, 'm) node_state, 'e, chain_head_event list) loop_prog" where
  "follow_events H U B R with_runtime =
     bindL (of_head (\<lambda>b. hex_string B (as_bytes (blk_hash b)))) (\<lambda>h.
     bindL (if with_runtime then chainhead_version H U R else returns (ret None)) (\<lambda>v.
     returns (ret [Initialized [h] v, BestBlockChanged h])))"

definition block_events :: "('n, 'm) substrate \<Rightarrow> blockchain_event \<Rightarrow> chain_head_event list" where
  "block_events B event = (case event of NewBlock hash number parent_hash header modified_keys \<Rightarrow>
     (let h = hex_string B (as_bytes hash)
      in [NewBlockEvent h (hex_string B (as_bytes parent_hash)), BestBlockChanged h, Finalized [h] []]))"

section \<open>Operations\<close>

text \<open>A request, and the job that its task runs once the arguments are understood.\<close>

datatype op_request =
    ReqBody string
  | ReqCall string string string
  | ReqStorage string "storage_query_item list"

datatype op_job =
    JobBody (job_op: string) h256
  | JobCall (job_op: string) h256 string bytes
  | JobStorage (job_op: string) h256 u32 "storage_query_item list"

datatype op_check = LimitReached | Proceed nat

definition check_operation :: "string \<Rightarrow> chain_head_state \<Rightarrow> rpc_server_error + op_check" where
  "check_operation follow_subscription c = (case get_subscription c follow_subscription of
     None \<Rightarrow> Inl (InvalidSubscription follow_subscription)
   | Some h \<Rightarrow> if MAX_OPERATIONS \<le> sh_operation_count (ch_handles c ! h)
               then Inr LimitReached else Inr (Proceed h))"

definition update_handle :: "nat \<Rightarrow> (subscription_handle \<Rightarrow> subscription_handle) \<Rightarrow> chain_head_state \<Rightarrow> chain_head_state" where
  "update_handle h f c = c\<lparr>ch_handles := (ch_handles c)[h := f (ch_handles c ! h)]\<rparr>"

text \<open>\<^verbatim>\<open>fetch_add\<close> on the count of the handle and on the next identifier.\<close>

definition count_operation :: "nat \<Rightarrow> chain_head_state \<Rightarrow> string \<times> chain_head_state" where
  "count_operation h c =
     (let c1 = update_handle h (\<lambda>s. s\<lparr>sh_operation_count := sh_operation_count s + 1\<rparr>) c
      in (op_name (ch_next_op_id c1), c1\<lparr>ch_next_op_id := ch_next_op_id c1 + 1\<rparr>))"

definition resolve_request ::
  "('n, 'm) upstream \<Rightarrow> ('n, 'm) substrate \<Rightarrow> rpc_env \<Rightarrow> string \<Rightarrow> op_request \<Rightarrow>
     (('p, 'n, 'm) node_state, rpc_server_error, op_job) prog" where
  "resolve_request U B R i req = (case req of
     ReqBody hash \<Rightarrow>
       bindE (lift_sum (parse_block_hash R hash)) (\<lambda>block_hash. ret (JobBody i block_hash))
   | ReqCall hash fn call_parameters \<Rightarrow>
       bindE (lift_sum (parse_block_hash R hash)) (\<lambda>block_hash.
       bindE (lift_sum (parse_hex_bytes R call_parameters ''call_parameters'')) (\<lambda>params.
       ret (JobCall i block_hash fn params)))
   | ReqStorage hash items \<Rightarrow>
       bindE (lift_sum (parse_block_hash R hash)) (\<lambda>block_hash.
       bindE (map_err (\<lambda>e. Internal (re_show R e)) (bc_block_number_by_hash U B block_hash)) (\<lambda>found.
       case found of
         None \<Rightarrow> fail (BlockNotFound hash)
       | Some block_number \<Rightarrow> ret (JobStorage i block_hash block_number items))))"

text \<open>The items a storage query adds at once, and those whose values are fetched at the end.\<close>

fun inline_items ::
  "('n, 'm) upstream \<Rightarrow> ('n, 'm) substrate \<Rightarrow> rpc_env \<Rightarrow> u32 \<Rightarrow> h256 \<Rightarrow> storage_query_item \<Rightarrow>
     (('p, 'n, 'm) node_state, 'e, storage_result_item list) loop_prog" where
  "inline_items U B R n at item = (case to_bytes R (qi_key item) of
     Inl _ \<Rightarrow> returns (ret [])
   | Inr key_bytes \<Rightarrow> (case qi_type item of
       QClosestDescendantMerkleValue \<Rightarrow> returns (ret [\<lparr>ri_key = qi_key item, ri_value = None, ri_hash = None\<rparr>])
     | QDescendantsValues \<Rightarrow> descendants U B False n at key_bytes
     | QDescendantsHashes \<Rightarrow> descendants U B True n at key_bytes
     | _ \<Rightarrow> returns (ret [])))"

definition deferred_items :: "rpc_env \<Rightarrow> storage_query_item list \<Rightarrow> (string \<times> bytes \<times> bool) list" where
  "deferred_items R items = List.map_filter (\<lambda>item. case to_bytes R (qi_key item) of
     Inl _ \<Rightarrow> None
   | Inr key_bytes \<Rightarrow> (case qi_type item of
       QValue \<Rightarrow> Some (qi_key item, key_bytes, False)
     | QHash \<Rightarrow> Some (qi_key item, key_bytes, True)
     | _ \<Rightarrow> None)) items"

definition storage_items ::
  "('n, 'm) upstream \<Rightarrow> ('n, 'm) substrate \<Rightarrow> rpc_env \<Rightarrow> u32 \<Rightarrow> h256 \<Rightarrow> storage_query_item list \<Rightarrow>
     (('p, 'n, 'm) node_state, 'e, storage_result_item list) loop_prog" where
  "storage_items U B R n at items =
     bindL (eachL (inline_items U B R n at) items) (\<lambda>inline.
     let later = deferred_items R items in
     bindL (returns (values_at U B n (map (\<lambda>(_, k, _). k) later))) (\<lambda>values.
     returns (ret (concat inline @ map (\<lambda>((key, _, hashed), v).
        if hashed then \<lparr>ri_key = key, ri_value = None, ri_hash = map_option (\<lambda>x. hex_string B (sb_blake2_256 B x)) v\<rparr>
        else \<lparr>ri_key = key, ri_value = map_option (hex_string B) v, ri_hash = None\<rparr>) (zip later values)))))"

text \<open>The task of an operation: the events it sends, in order.\<close>

definition run_call ::
  "('v, 'p) vm_host \<Rightarrow> ('n, 'm) upstream \<Rightarrow> ('n, 'm) substrate \<Rightarrow> h256 \<Rightarrow> string \<Rightarrow> bytes \<Rightarrow>
     (('p, 'n, 'm) node_state, blockchain_error, bytes option) loop_prog" where
  "run_call H U B block_hash fn params =
     (if take 9 fn = METADATA_PREFIX
      then
        bindL (returns (ignore_errors (bc_block_number_by_hash U B block_hash))) (\<lambda>found.
        bindL (returns (bc_gets bc_fork_point_number)) (\<lambda>fork_point.
        case Option.bind found (\<lambda>n. n) of
          None \<Rightarrow> call_at_block H U block_hash fn params
        | Some n \<Rightarrow>
            if n \<le> fork_point
            then bindL (tryL (returns (proxy_state_call U B fn params block_hash))) (\<lambda>r.
                 case r of Inr out \<Rightarrow> returns (ret (Some out)) | Inl _ \<Rightarrow> call_at_block H U block_hash fn params)
            else call_at_block H U block_hash fn params))
      else call_at_block H U block_hash fn params)"

definition run_job ::
  "('v, 'p) vm_host \<Rightarrow> ('n, 'm) upstream \<Rightarrow> ('n, 'm) substrate \<Rightarrow> rpc_env \<Rightarrow> op_job \<Rightarrow>
     (('p, 'n, 'm) node_state, 'e, operation_event list) loop_prog" where
  "run_job H U B R job = (case job of
     JobBody i hash \<Rightarrow>
       bindL (tryL (returns (bc_block_body U B hash))) (\<lambda>r.
       returns (ret [case r of
           Inr (Some body) \<Rightarrow> OperationBodyDone i (map (hex_string B) body)
         | Inr None \<Rightarrow> OperationError i ''Block not found''
         | Inl e \<Rightarrow> OperationError i (re_show R e)]))
   | JobCall i hash fn params \<Rightarrow>
       bindL (tryL (run_call H U B hash fn params)) (\<lambda>r.
       returns (ret [case r of
           Inr (Some out) \<Rightarrow> OperationCallDone i (hex_string B out)
         | Inr None \<Rightarrow> OperationError i ''Call returned no result''
         | Inl e \<Rightarrow> OperationError i (re_show R e)]))
   | JobStorage i hash n items \<Rightarrow>
       bindL (storage_items U B R n hash items) (\<lambda>results.
       returns (ret ((if results = [] then [] else [OperationStorageItems i results]) @ [OperationStorageDone i]))))"

text \<open>The events are sent and the count goes down.\<close>

definition finish_operation :: "nat \<Rightarrow> operation_event list \<Rightarrow> chain_head_state \<Rightarrow> chain_head_state" where
  "finish_operation h events c = update_handle h (\<lambda>s. s\<lparr>sh_events := sh_events s @ events,
     sh_operation_count := sh_operation_count s - 1\<rparr>) c"

section \<open>Requests, run without interruption\<close>

datatype method_response = ResponseStarted string "nat option" | ResponseLimitReached

text \<open>\<open>body\<close>, \<open>call\<close> and \<open>storage\<close>: the answer, and the task that was started.\<close>

definition operation_request ::
  "('n, 'm) upstream \<Rightarrow> ('n, 'm) substrate \<Rightarrow> rpc_env \<Rightarrow> string \<Rightarrow> op_request \<Rightarrow>
     (chain_head_state \<times> ('p, 'n, 'm) node_state, rpc_server_error, method_response \<times> (nat \<times> op_job) option) prog" where
  "operation_request U B R follow_subscription req = (\<lambda>(c, p).
     case check_operation follow_subscription c of
       Inl e \<Rightarrow> (Inl e, (c, p))
     | Inr LimitReached \<Rightarrow> (Inr (ResponseLimitReached, None), (c, p))
     | Inr (Proceed h) \<Rightarrow>
         (case count_operation h c of (i, c1) \<Rightarrow>
           (case resolve_request U B R i req p of
              (Inl e, p1) \<Rightarrow> (Inl e, (c1, p1))
            | (Inr job, p1) \<Rightarrow>
                (Inr (ResponseStarted i (case req of ReqStorage _ _ \<Rightarrow> Some 0 | _ \<Rightarrow> None), Some (h, job)), (c1, p1)))))"

definition ch_header ::
  "('n, 'm) upstream \<Rightarrow> ('n, 'm) substrate \<Rightarrow> rpc_env \<Rightarrow> string \<Rightarrow> string \<Rightarrow>
     (chain_head_state \<times> ('p, 'n, 'm) node_state, rpc_server_error, string option) prog" where
  "ch_header U B R follow_subscription hash =
     bindE (gets (\<lambda>(c, _). get_subscription c follow_subscription)) (\<lambda>found.
     if found = None then fail (InvalidSubscription follow_subscription)
     else
       bindE (lift_sum (parse_block_hash R hash)) (\<lambda>block_hash.
       bindE (on_field snd (\<lambda>p (c, _). (c, p)) (map_err (\<lambda>e. Internal (''Failed to get header: '' @ re_show R e))
                (bc_block_header U B block_hash))) (\<lambda>header.
       ret (map_option (hex_string B) header))))"

definition unpin :: "string \<Rightarrow> (chain_head_state, rpc_server_error, unit) prog" where
  "unpin follow_subscription =
     bindE (gets (\<lambda>c. get_subscription c follow_subscription)) (\<lambda>found.
     if found = None then fail (InvalidSubscription follow_subscription) else ret ())"

section \<open>Requests, interleaved\<close>

text \<open>
  Between its steps a request is in one of the lists: followers that passed the check but are not
  registered; requests that passed the check of the limit but are not counted; requests that are
  counted but not understood; tasks that run. \<open>sys_leaked\<close> remembers the requests that were counted and
  then refused.
\<close>

record ('p, 'n, 'm) ch_system =
  sys_ch :: chain_head_state
  sys_node :: "('p, 'n, 'm) node_state"
  sys_following :: "(string \<times> bool) list"
  sys_checked :: "(nat \<times> op_request) list"
  sys_counted :: "(nat \<times> string \<times> op_request) list"
  sys_running :: "(nat \<times> op_job) list"
  sys_leaked :: "(nat \<times> string) list"

definition ch_initial :: "('p, 'n, 'm) node_state \<Rightarrow> ('p, 'n, 'm) ch_system" where
  "ch_initial p = \<lparr>sys_ch = new_chain_head, sys_node = p, sys_following = [], sys_checked = [], sys_counted = [],
     sys_running = [], sys_leaked = []\<rparr>"

inductive ch_step ::
  "('v, 'p) vm_host \<Rightarrow> ('n, 'm) upstream \<Rightarrow> ('n, 'm) substrate \<Rightarrow> rpc_env \<Rightarrow>
     ('p, 'n, 'm) ch_system \<Rightarrow> ('p, 'n, 'm) ch_system \<Rightarrow> bool"
  for H U B R where
  follow_check: "can_add_subscription (sys_ch s) \<Longrightarrow>
     ch_step H U B R s (s\<lparr>sys_following := (i, wr) # sys_following s\<rparr>)"
| follow_register: "(i, wr) \<in> set (sys_following s) \<Longrightarrow>
     ch_step H U B R s (s\<lparr>sys_following := remove1 (i, wr) (sys_following s),
       sys_ch := register_subscription i wr (sys_ch s)\<rparr>)"
| unfollow: "ch_step H U B R s (s\<lparr>sys_ch := remove_subscription i (sys_ch s)\<rparr>)"
| check: "check_operation i (sys_ch s) = Inr (Proceed h) \<Longrightarrow>
     ch_step H U B R s (s\<lparr>sys_checked := (h, req) # sys_checked s\<rparr>)"
| count: "(h, req) \<in> set (sys_checked s) \<Longrightarrow> count_operation h (sys_ch s) = (i, c) \<Longrightarrow>
     ch_step H U B R s (s\<lparr>sys_checked := remove1 (h, req) (sys_checked s),
       sys_counted := (h, i, req) # sys_counted s, sys_ch := c\<rparr>)"
| refuse: "(h, i, req) \<in> set (sys_counted s) \<Longrightarrow> resolve_request U B R i req (sys_node s) = (Inl e, p) \<Longrightarrow>
     ch_step H U B R s (s\<lparr>sys_counted := remove1 (h, i, req) (sys_counted s),
       sys_leaked := (h, i) # sys_leaked s, sys_node := p\<rparr>)"
| start: "(h, i, req) \<in> set (sys_counted s) \<Longrightarrow> resolve_request U B R i req (sys_node s) = (Inr job, p) \<Longrightarrow>
     ch_step H U B R s (s\<lparr>sys_counted := remove1 (h, i, req) (sys_counted s),
       sys_running := (h, job) # sys_running s, sys_node := p\<rparr>)"
| finish: "(h, job) \<in> set (sys_running s) \<Longrightarrow>
     run_job H U B R job (sys_node s) = Some (Inr events :: unit + operation_event list, p) \<Longrightarrow>
     ch_step H U B R s (s\<lparr>sys_running := remove1 (h, job) (sys_running s),
       sys_ch := finish_operation h events (sys_ch s), sys_node := p\<rparr>)"
| chain: "ch_step H U B R s (s\<lparr>sys_node := p\<rparr>)"

text \<open>
  The states that are reached while at most \<open>k\<close> requests of one subscription are between check and
  count, and at most \<open>k\<close> followers between check and registration.
\<close>

definition in_flight :: "nat \<Rightarrow> ('p, 'n, 'm) ch_system \<Rightarrow> bool" where
  "in_flight k s \<longleftrightarrow> length (sys_following s) \<le> k \<and>
     (\<forall>h. length (filter (\<lambda>(h', _). h' = h) (sys_checked s)) \<le> k)"

inductive ch_reach ::
  "('v, 'p) vm_host \<Rightarrow> ('n, 'm) upstream \<Rightarrow> ('n, 'm) substrate \<Rightarrow> rpc_env \<Rightarrow> nat \<Rightarrow> ('p, 'n, 'm) ch_system \<Rightarrow> bool"
  for H U B R k where
  init: "ch_reach H U B R k (ch_initial p)"
| step: "ch_reach H U B R k s \<Longrightarrow> ch_step H U B R s t \<Longrightarrow> in_flight k t \<Longrightarrow> ch_reach H U B R k t"

end
