(* ===== verification/Chain_Head_Laws.thy ===== *)
theory Chain_Head_Laws
  imports Chain_Head "HOL-Library.Multiset"
begin

text \<open>
  What the interleaved requests of the chainHead methods keep: the count of a handle is the number
  of its operations that are in progress or were refused after they were counted; the operation
  identifiers that were handed out are each in one place.
\<close>

section \<open>Lists\<close>

lemma mset_concat_update:
  assumes "h < length xs"
  shows "mset (concat (map f (xs[h := y]))) + mset (f (xs ! h)) = mset (concat (map f xs)) + mset (f y)"
proof -
  have "mset (concat (map f xs)) = mset (concat (map f (take h xs @ xs ! h # drop (Suc h) xs)))"
    by (subst id_take_nth_drop [OF assms, symmetric]) (rule refl)
  moreover have "xs[h := y] = take h xs @ y # drop (Suc h) xs"
    by (rule upd_conv_take_nth_drop [OF assms])
  ultimately show ?thesis by simp
qed

lemma image_mset_remove1:
  "x \<in> set xs \<Longrightarrow> image_mset f (mset xs) = add_mset (f x) (image_mset f (mset xs - {#x#}))"
  by (metis image_mset_add_mset insert_DiffM set_mset_mset)

lemma length_alist_insert: "length (alist_insert k v m) \<le> Suc (length m)"
  by (induction m) auto

lemma set_alist_insert: "set (alist_insert k v m) \<subseteq> insert (k, v) (set m)"
  by (induction m) auto

section \<open>The operations of a handle\<close>

text \<open>How many elements of a list belong to a handle.\<close>

definition of_handle :: "nat \<Rightarrow> (nat \<times> 'a) list \<Rightarrow> nat" where
  "of_handle h xs = length (filter (\<lambda>(h', _). h' = h) xs)"

lemma of_handle_simps [simp]:
  "of_handle h [] = 0"
  "of_handle h ((h', x) # xs) = (if h' = h then Suc (of_handle h xs) else of_handle h xs)"
  by (simp_all add: of_handle_def)

lemma of_handle_remove1:
  "(h', x) \<in> set xs \<Longrightarrow>
     of_handle h xs = (if h' = h then Suc (of_handle h (remove1 (h', x) xs)) else of_handle h (remove1 (h', x) xs))"
proof (induction xs)
  case (Cons y xs)
  then show ?case by (cases "y = (h', x)"; cases y) auto
qed simp

definition operations :: "('p, 'n, 'm) ch_system \<Rightarrow> nat \<Rightarrow> nat" where
  "operations s h = of_handle h (sys_counted s) + of_handle h (sys_running s) + of_handle h (sys_leaked s)"

lemma operations_update [simp]:
  "operations (sys_ch_update f s) = operations s"
  "operations (sys_node_update g s) = operations s"
  "operations (sys_following_update k s) = operations s"
  "operations (sys_checked_update l s) = operations s"
  by (simp_all add: operations_def fun_eq_iff)

text \<open>Every handle in use is in the store, and its count is right.\<close>

definition refs :: "('p, 'n, 'm) ch_system \<Rightarrow> nat set" where
  "refs s = fst ` set (sys_checked s) \<union> fst ` set (sys_counted s) \<union> fst ` set (sys_running s) \<union>
     fst ` set (sys_leaked s) \<union> snd ` set (ch_subscriptions (sys_ch s))"

definition ch_inv :: "('p, 'n, 'm) ch_system \<Rightarrow> bool" where
  "ch_inv s \<longleftrightarrow> (\<forall>h \<in> refs s. h < length (ch_handles (sys_ch s))) \<and>
     (\<forall>h < length (ch_handles (sys_ch s)). sh_operation_count (ch_handles (sys_ch s) ! h) = of_nat (operations s h))"

lemma of_handle_beyond: "(\<And>h. h \<in> fst ` set xs \<Longrightarrow> h < n) \<Longrightarrow> of_handle n xs = 0"
  by (fastforce simp: of_handle_def filter_empty_conv)

lemma check_operation_Proceed:
  "check_operation i c = Inr (Proceed h) \<longleftrightarrow>
     map_of (ch_subscriptions c) i = Some h \<and> sh_operation_count (ch_handles c ! h) < MAX_OPERATIONS"
  by (auto simp: check_operation_def get_subscription_def split: option.splits)

lemma Proceed_refs: "check_operation i (sys_ch s) = Inr (Proceed h) \<Longrightarrow> h \<in> refs s"
  by (drule check_operation_Proceed [THEN iffD1, THEN conjunct1, THEN map_of_SomeD, THEN imageI [of _ _ snd]])
    (simp add: refs_def)

lemma refsI:
  "x \<in> set (sys_checked s) \<Longrightarrow> fst x \<in> refs s"
  "y \<in> set (sys_running s) \<Longrightarrow> fst y \<in> refs s"
  by (simp_all add: refs_def)

lemma remove1_fst: "fst ` set (remove1 x xs) \<subseteq> fst ` set xs"
  using set_remove1_subset by fast

lemma ch_invI:
  assumes "ch_inv s"
    and "refs t \<subseteq> refs s"
    and "length (ch_handles (sys_ch t)) = length (ch_handles (sys_ch s))"
    and "\<And>h. h < length (ch_handles (sys_ch s)) \<Longrightarrow>
           sh_operation_count (ch_handles (sys_ch t) ! h) = of_nat (operations t h)"
  shows "ch_inv t"
  using assms unfolding ch_inv_def by (metis subsetD)

lemma ch_inv_count:
  "ch_inv s \<Longrightarrow> h < length (ch_handles (sys_ch s)) \<Longrightarrow>
     sh_operation_count (ch_handles (sys_ch s) ! h) = of_nat (operations s h)"
  by (simp add: ch_inv_def)

lemma ch_inv_refs: "ch_inv s \<Longrightarrow> h \<in> refs s \<Longrightarrow> h < length (ch_handles (sys_ch s))"
  by (simp add: ch_inv_def)

lemma register_inv:
  assumes "ch_inv s"
  shows "ch_inv (s\<lparr>sys_following := xs, sys_ch := register_subscription i wr (sys_ch s)\<rparr>)" (is "ch_inv ?t")
proof -
  let ?n = "length (ch_handles (sys_ch s))"
  have fresh: "operations s ?n = 0"
    using assms unfolding operations_def ch_inv_def refs_def
    by (auto intro!: of_handle_beyond)
  have "refs ?t \<subseteq> insert ?n (refs s)"
    using set_alist_insert [of i ?n "ch_subscriptions (sys_ch s)"]
    by (auto simp: refs_def register_subscription_def)
  then have "\<forall>h \<in> refs ?t. h < Suc ?n"
    using ch_inv_refs [OF assms] by (auto simp: less_Suc_eq)
  moreover have "operations ?t = operations s"
    by (simp add: operations_def fun_eq_iff)
  ultimately show ?thesis
    using fresh ch_inv_count [OF assms] unfolding ch_inv_def
    by (simp add: register_subscription_def nth_append less_Suc_eq all_conj_distrib)
qed

lemma check_inv:
  assumes "ch_inv s" and "check_operation i (sys_ch s) = Inr (Proceed h)"
  shows "ch_inv (s\<lparr>sys_checked := (h, req) # sys_checked s\<rparr>)"
proof (rule ch_invI [OF assms(1)])
  show "refs (s\<lparr>sys_checked := (h, req) # sys_checked s\<rparr>) \<subseteq> refs s"
    using Proceed_refs [OF assms(2)] by (auto simp: refs_def)
qed (simp_all add: ch_inv_count [OF assms(1)] operations_def)

lemma count_inv:
  assumes "ch_inv s" and "(h, req) \<in> set (sys_checked s)" and "count_operation h (sys_ch s) = (i, c)"
  shows "ch_inv (s\<lparr>sys_checked := remove1 (h, req) (sys_checked s),
    sys_counted := (h, i, req) # sys_counted s, sys_ch := c\<rparr>)" (is "ch_inv ?t")
proof (rule ch_invI [OF assms(1)])
  have c: "ch_subscriptions c = ch_subscriptions (sys_ch s)"
    "ch_handles c = (ch_handles (sys_ch s))[h := (ch_handles (sys_ch s) ! h)
       \<lparr>sh_operation_count := sh_operation_count (ch_handles (sys_ch s) ! h) + 1\<rparr>]"
    using assms(3) by (auto simp: count_operation_def update_handle_def Let_def)
  have h: "h \<in> fst ` set (sys_checked s)"
    using assms(2) by force
  then show "refs ?t \<subseteq> refs s"
    using remove1_fst [of "(h, req)" "sys_checked s"] by (auto simp: refs_def c)
  show "length (ch_handles (sys_ch ?t)) = length (ch_handles (sys_ch s))"
    by (simp add: c)
  have "operations ?t h' = (if h' = h then Suc (operations s h) else operations s h')" for h'
    by (simp add: operations_def)
  then show "sh_operation_count (ch_handles (sys_ch ?t) ! h') = of_nat (operations ?t h')"
    if "h' < length (ch_handles (sys_ch s))" for h'
    using that ch_inv_count [OF assms(1)] by (simp add: c nth_list_update add.commute)
qed

lemma move_inv:
  assumes "ch_inv s" and "refs t \<subseteq> refs s" and "sys_ch t = sys_ch s" and "operations t = operations s"
  shows "ch_inv t"
  by (rule ch_invI [OF assms(1,2)]) (simp_all add: assms(3,4) ch_inv_count [OF assms(1)])

lemma refuse_inv:
  assumes "ch_inv s" and "(h, i, req) \<in> set (sys_counted s)"
  shows "ch_inv (s\<lparr>sys_counted := remove1 (h, i, req) (sys_counted s),
    sys_leaked := (h, i) # sys_leaked s, sys_node := p\<rparr>)" (is "ch_inv ?t")
proof (rule move_inv [OF assms(1)])
  have "h \<in> fst ` set (sys_counted s)"
    using assms(2) by force
  then show "refs ?t \<subseteq> refs s"
    using remove1_fst [of "(h, i, req)" "sys_counted s"] by (auto simp: refs_def)
  show "operations ?t = operations s"
    by (simp add: operations_def fun_eq_iff of_handle_remove1 [OF assms(2)])
qed simp

lemma start_inv:
  assumes "ch_inv s" and "(h, i, req) \<in> set (sys_counted s)"
  shows "ch_inv (s\<lparr>sys_counted := remove1 (h, i, req) (sys_counted s),
    sys_running := (h, job) # sys_running s, sys_node := p\<rparr>)" (is "ch_inv ?t")
proof (rule move_inv [OF assms(1)])
  have "h \<in> fst ` set (sys_counted s)"
    using assms(2) by force
  then show "refs ?t \<subseteq> refs s"
    using remove1_fst [of "(h, i, req)" "sys_counted s"] by (auto simp: refs_def)
  show "operations ?t = operations s"
    by (simp add: operations_def fun_eq_iff of_handle_remove1 [OF assms(2)])
qed simp

lemma finish_inv:
  assumes "ch_inv s" and "(h, job) \<in> set (sys_running s)"
  shows "ch_inv (s\<lparr>sys_running := remove1 (h, job) (sys_running s),
    sys_ch := finish_operation h events (sys_ch s), sys_node := p\<rparr>)" (is "ch_inv ?t")
proof (rule ch_invI [OF assms(1)])
  show "refs ?t \<subseteq> refs s"
    using remove1_fst [of "(h, job)" "sys_running s"]
    by (auto simp: refs_def finish_operation_def update_handle_def)
  show "length (ch_handles (sys_ch ?t)) = length (ch_handles (sys_ch s))"
    by (simp add: finish_operation_def update_handle_def)
  have "operations s h' = (if h' = h then Suc (operations ?t h) else operations ?t h')" for h'
    by (simp add: operations_def of_handle_remove1 [OF assms(2)])
  then show "sh_operation_count (ch_handles (sys_ch ?t) ! h') = of_nat (operations ?t h')"
    if "h' < length (ch_handles (sys_ch s))" for h'
    using that ch_inv_count [OF assms(1) that]
    by (simp add: finish_operation_def update_handle_def nth_list_update split: if_split_asm)
qed

lemma ch_step_inv:
  assumes "ch_step H U B R s t" and "ch_inv s"
  shows "ch_inv t"
  using assms
proof (induction rule: ch_step.induct)
  case (unfollow s i)
  then show ?case
    by (rule ch_invI)
      (auto simp: refs_def remove_subscription_def operations_def ch_inv_count [OF unfollow])
qed (auto simp: register_inv check_inv count_inv refuse_inv start_inv finish_inv
       intro: move_inv simp: refs_def operations_def)

lemma ch_initial_inv: "ch_inv (ch_initial p)"
  by (simp add: ch_inv_def ch_initial_def new_chain_head_def refs_def)

lemma ch_reach_inv: "ch_reach H U B R k s \<Longrightarrow> ch_inv s"
  by (induction rule: ch_reach.induct) (auto intro: ch_initial_inv ch_step_inv)

section \<open>Bounds\<close>

text \<open>What is in progress on a handle and what may still be counted on it.\<close>

definition load :: "('p, 'n, 'm) ch_system \<Rightarrow> nat \<Rightarrow> nat" where
  "load s h = operations s h + of_handle h (sys_checked s)"

lemma in_flight_of_handle: "in_flight k s \<Longrightarrow> of_handle h (sys_checked s) \<le> k"
  by (simp add: in_flight_def of_handle_def)

lemma operations_below_limit:
  assumes "ch_inv s" and "check_operation i (sys_ch s) = Inr (Proceed h)" and "operations s h < 2 ^ 64"
  shows "operations s h \<le> 15"
proof -
  from ch_inv_count [OF assms(1) ch_inv_refs [OF assms(1) Proceed_refs [OF assms(2)]]] assms(2)
  have "(of_nat (operations s h) :: u64) < 16"
    by (simp add: check_operation_Proceed MAX_OPERATIONS_def)
  then show ?thesis
    using assms(3) by (simp add: word_less_nat_alt unat_of_nat take_bit_eq_mod)
qed

lemma ch_step_load:
  assumes "ch_step H U B R s t"
  shows "(\<forall>h. load t h \<le> load s h) \<or>
    (\<exists>i h req. check_operation i (sys_ch s) = Inr (Proceed h) \<and> t = s\<lparr>sys_checked := (h, req) # sys_checked s\<rparr>)"
  using assms
proof (induction rule: ch_step.induct)
  case (count h req s i c)
  show ?case
    by (rule disjI1) (simp add: load_def operations_def of_handle_remove1 [OF count(1)])
next
  case (refuse h i req s e p)
  show ?case
    by (rule disjI1) (simp add: load_def operations_def of_handle_remove1 [OF refuse(1)])
next
  case (start h i req s job p)
  show ?case
    by (rule disjI1) (simp add: load_def operations_def of_handle_remove1 [OF start(1)])
next
  case (finish h job s events p)
  show ?case
    by (rule disjI1) (simp add: load_def operations_def of_handle_remove1 [OF finish(1)])
next
  case (check i s h req)
  then show ?case by (intro disjI2 exI [of _ i] exI [of _ h] exI [of _ req] conjI refl)
qed (rule disjI1, simp add: load_def)+

lemma ch_reach_load:
  assumes "ch_reach H U B R k s" and "k \<le> 2 ^ 32"
  shows "load s h \<le> 15 + k"
  using assms(1)
proof (induction arbitrary: h rule: ch_reach.induct)
  case (init p)
  then show ?case by (simp add: load_def operations_def ch_initial_def)
next
  case (step s t)
  from ch_step_load [OF step(2)] show ?case
  proof (elim disjE exE conjE)
    assume "\<forall>h. load t h \<le> load s h"
    with step.IH show ?case by (meson le_trans)
  next
    fix i h' req
    assume c: "check_operation i (sys_ch s) = Inr (Proceed h')" and t: "t = s\<lparr>sys_checked := (h', req) # sys_checked s\<rparr>"
    have "operations s h' < 2 ^ 64"
      using step.IH [of h'] assms(2) by (simp add: load_def)
    from operations_below_limit [OF ch_reach_inv [OF step(1)] c this]
    have "operations t h' \<le> 15" by (simp add: t)
    then show ?case
      using step.IH [of h] in_flight_of_handle [OF step(3), of h] by (cases "h = h'") (simp_all add: load_def t)
  qed
qed

lemma ch_step_subscriptions:
  assumes "ch_step H U B R s t"
  shows "length (ch_subscriptions (sys_ch t)) + length (sys_following t) \<le>
      length (ch_subscriptions (sys_ch s)) + length (sys_following s) \<or>
    (can_add_subscription (sys_ch s) \<and> length (ch_subscriptions (sys_ch t)) = length (ch_subscriptions (sys_ch s)))"
  using assms
proof (induction rule: ch_step.induct)
  case (follow_register i wr s)
  then have "length (sys_following s) = Suc (length (remove1 (i, wr) (sys_following s)))"
    by (metis Suc_pred' One_nat_def length_pos_if_in_set length_remove1)
  with length_alist_insert [of i "length (ch_handles (sys_ch s))" "ch_subscriptions (sys_ch s)"]
  show ?case by (simp add: register_subscription_def)
qed (auto simp: remove_subscription_def count_operation_def update_handle_def finish_operation_def Let_def)

lemma ch_reach_subscriptions:
  assumes "ch_reach H U B R k s"
  shows "length (ch_subscriptions (sys_ch s)) + length (sys_following s) \<le> 1023 + k"
  using assms
proof (induction rule: ch_reach.induct)
  case (init p)
  then show ?case by (simp add: ch_initial_def new_chain_head_def)
next
  case (step s t)
  from ch_step_subscriptions [OF step(2)] step(3,4) show ?case
    by (auto simp: can_add_subscription_def MAX_SUBSCRIPTIONS_def in_flight_def)
qed

section \<open>Identifiers\<close>

text \<open>The decimal digits name a number.\<close>

lemma digits_value: "foldl (\<lambda>a c. 10 * a + (of_char c - 48)) 0 (digits n) = n"
proof (induction n rule: digits.induct)
  case (1 n)
  have d: "of_char (char_of (48 + m) :: char) = 48 + m" if "m < 10" for m :: nat
    using that by (simp add: of_char_mod_256)
  show ?case
    using 1 d [of n] d [of "n mod 10"] by (subst digits.simps) simp
qed

lemma op_name_inj: "op_name a = op_name b \<longleftrightarrow> a = b"
  by (metis op_name_def append_same_eq digits_value same_append_eq unsigned_word_eqI word_unat_eq_iff)

text \<open>The event an operation ends with.\<close>

fun terminal :: "operation_event \<Rightarrow> bool" where
  "terminal (OperationStorageItems _ _) = False"
| "terminal _ = True"

definition ended :: "chain_head_state \<Rightarrow> string list" where
  "ended c = concat (map (\<lambda>s. map op_of (filter terminal (sh_events s))) (ch_handles c))"

text \<open>Where the identifiers are: requests being read, tasks, requests refused, answers.\<close>

definition ids :: "('p, 'n, 'm) ch_system \<Rightarrow> string list" where
  "ids s = map (fst \<circ> snd) (sys_counted s) @ map (job_op \<circ> snd) (sys_running s) @
     map snd (sys_leaked s) @ ended (sys_ch s)"

lemma resolve_request_op:
  "resolve_request U B R i req p = (Inr job, p') \<Longrightarrow> job_op job = i"
  by (cases req)
    (auto simp: resolve_request_def prog_simps lift_sum_def map_err_def split: sum.splits option.splits prod.splits)

lemma run_job_events:
  assumes "run_job H U B R job p = Some (Inr events, p')"
  shows "map op_of (filter terminal events) = [job_op job] \<and> (\<forall>e \<in> set events. op_of e = job_op job) \<and>
    events \<noteq> [] \<and> terminal (last events)"
  using assms
  by (cases job)
    (auto simp: run_job_def bindL_def returns_def ret_def tryL_def split: sum.splits option.splits prod.splits if_splits)

lemma ended_finish:
  assumes "h < length (ch_handles c)"
  shows "mset (ended (finish_operation h events c)) = mset (ended c) + mset (map op_of (filter terminal events))"
  using mset_concat_update [OF assms, of "\<lambda>s. map op_of (filter terminal (sh_events s))"
      "(ch_handles c ! h)\<lparr>sh_events := sh_events (ch_handles c ! h) @ events,
        sh_operation_count := sh_operation_count (ch_handles c ! h) - 1\<rparr>"]
  by (simp add: ended_def finish_operation_def update_handle_def)

lemma ended_count:
  assumes "h < length (ch_handles c)" and "count_operation h c = (i, c')"
  shows "mset (ended c') = mset (ended c)" "i = op_name (ch_next_op_id c)" "ch_next_op_id c' = ch_next_op_id c + 1"
  using assms mset_concat_update [OF assms(1), of "\<lambda>s. map op_of (filter terminal (sh_events s))"
      "(ch_handles c ! h)\<lparr>sh_operation_count := sh_operation_count (ch_handles c ! h) + 1\<rparr>"]
  by (auto simp: ended_def count_operation_def update_handle_def Let_def)

text \<open>A step leaves the identifiers as they are, or hands out the next one.\<close>

lemma ch_step_ids:
  assumes "ch_step H U B R s t" and "ch_inv s"
  shows "(mset (ids t) = mset (ids s) \<and> ch_next_op_id (sys_ch t) = ch_next_op_id (sys_ch s)) \<or>
    (mset (ids t) = add_mset (op_name (ch_next_op_id (sys_ch s))) (mset (ids s)) \<and>
     ch_next_op_id (sys_ch t) = ch_next_op_id (sys_ch s) + 1)"
  using assms
proof (induction rule: ch_step.induct)
  case (count h req s i c)
  note ended_count [OF ch_inv_refs [OF count(3) refsI(1) [OF count(1), unfolded fst_conv]] count(2)]
  then show ?case by (intro disjI2) (simp add: ids_def)
next
  case (refuse h i req s e p)
  then show ?case
    by (intro disjI1) (simp add: ids_def image_mset_remove1 [OF refuse(1), of "fst \<circ> snd"])
next
  case (start h i req s job p)
  then show ?case
    by (intro disjI1) (simp add: ids_def image_mset_remove1 [OF start(1), of "fst \<circ> snd"] resolve_request_op [OF start(2)])
next
  case (finish h job s events p)
  note ended_finish [OF ch_inv_refs [OF finish(3) refsI(2) [OF finish(1), unfolded fst_conv]], of events]
  with run_job_events [OF finish(2)] show ?case
    by (intro disjI1)
      (simp add: ids_def image_mset_remove1 [OF finish(1), of "job_op \<circ> snd"],
       simp add: finish_operation_def update_handle_def)
qed (rule disjI1, simp add: ids_def ended_def register_subscription_def remove_subscription_def)+

lemma ch_reach_ids:
  assumes "ch_reach H U B R k s"
  shows "\<exists>n. ch_next_op_id (sys_ch s) = of_nat (Suc n) \<and>
    mset (ids s) = mset (map (\<lambda>j. op_name (of_nat (Suc j))) [0..<n])"
  using assms
proof (induction rule: ch_reach.induct)
  case (init p)
  show ?case
    by (rule exI [of _ 0]) (simp add: ch_initial_def new_chain_head_def ids_def ended_def)
next
  case (step s t)
  then obtain n where n: "ch_next_op_id (sys_ch s) = of_nat (Suc n)"
    "mset (ids s) = mset (map (\<lambda>j. op_name (of_nat (Suc j))) [0..<n])"
    by blast
  from ch_step_ids [OF step(2) ch_reach_inv [OF step(1)]] show ?case
  proof
    assume "mset (ids t) = mset (ids s) \<and> ch_next_op_id (sys_ch t) = ch_next_op_id (sys_ch s)"
    with n show ?thesis by auto
  next
    assume "mset (ids t) = add_mset (op_name (ch_next_op_id (sys_ch s))) (mset (ids s)) \<and>
      ch_next_op_id (sys_ch t) = ch_next_op_id (sys_ch s) + 1"
    with n show ?thesis by (intro exI [of _ "Suc n"]) simp
  qed
qed

lemma distinct_names:
  assumes "n < 2 ^ 64"
  shows "distinct (map (\<lambda>j. op_name (of_nat (Suc j))) [0..<n])"
proof -
  have "inj_on (\<lambda>j. of_nat (Suc j) :: u64) {0..<n}"
    using assms by (intro inj_onI) (simp add: unat_of_nat take_bit_eq_mod word_unat_eq_iff del: of_nat_Suc)
  then show ?thesis
    by (simp add: distinct_map inj_on_def op_name_inj del: of_nat_Suc)
qed

end
