(* ===== verification/Rpc_Author.thy ===== *)
theory Rpc_Author
  imports Rpc_Methods
begin

text \<open>
  The methods that change the chain: \<^verbatim>\<open>methods/author.rs\<close>, \<^verbatim>\<open>methods/transaction.rs\<close> and
  \<^verbatim>\<open>methods/dev.rs\<close>. They run on the chain, the transaction pool and the counter of operation ids.
\<close>

record ('p, 'n, 'm) rpc_server =
  rs_node :: "('p, 'n, 'm) node_state"
  rs_pool :: tx_pool
  rs_operation_counter :: u64

type_synonym ('p, 'n, 'm, 'a) srv = "(('p, 'n, 'm) rpc_server, rpc_server_error, 'a) loop_prog"

definition on_node :: "(('p, 'n, 'm) node_state, 'e, 'a) loop_prog \<Rightarrow> (('p, 'n, 'm) rpc_server, 'e, 'a) loop_prog" where
  "on_node m = on_fieldL rs_node (\<lambda>n s. s\<lparr>rs_node := n\<rparr>) m"

definition on_pool :: "(tx_pool, 'e, 'a) prog \<Rightarrow> (('p, 'n, 'm) rpc_server, 'e, 'a) loop_prog" where
  "on_pool m = returns (on_field rs_pool (\<lambda>p s. s\<lparr>rs_pool := p\<rparr>) m)"

definition show_pool_error :: "pool_error \<Rightarrow> string" where
  "show_pool_error e = (case e of PoolLock msg \<Rightarrow> ''TxPool acquire error: '' @ msg)"

definition pool_op_or :: "string \<Rightarrow> (tx_pool, pool_error, 'a) prog \<Rightarrow> ('p, 'n, 'm, 'a) srv" where
  "pool_op_or text m = on_pool (map_err (\<lambda>e. Internal (text @ show_pool_error e)) m)"

definition build_or_fail ::
  "('v, 'p) vm_host \<Rightarrow> ('n, 'm) upstream \<Rightarrow> ('n, 'm) substrate \<Rightarrow> 't relay_codec \<Rightarrow> rpc_env \<Rightarrow> bytes list \<Rightarrow>
     ('p, 'n, 'm, build_result) srv" where
  "build_or_fail H U B C R txs =
     on_node (map_errL (\<lambda>e. Internal (''Failed to build block: '' @ re_show R e)) (build_block H U B C txs))"

section \<open>author\<close>

definition validation_error :: "transaction_validity_error \<Rightarrow> rpc_server_error" where
  "validation_error e = (if is_unknown e then UnknownTransactionErr (reason e) None
     else InvalidTransactionErr (reason e) None)"

definition submit_extrinsic ::
  "('v, 'p) vm_host \<Rightarrow> ('n, 'm) upstream \<Rightarrow> ('n, 'm) substrate \<Rightarrow> 't relay_codec \<Rightarrow> rpc_env \<Rightarrow> string \<Rightarrow>
     ('p, 'n, 'm, string) srv" where
  "submit_extrinsic H U B C R extrinsic =
     bindL (parsed (parse_hex_bytes R extrinsic ''extrinsic'')) (\<lambda>ext_bytes.
     bindL (on_node (map_errL validation_error (validate_extrinsic H U (re_dec_validity R) ext_bytes))) (\<lambda>_.
     bindL (pool_op_or ''Failed to submit extrinsic: '' (submit_and_drain B ext_bytes)) (\<lambda>(hash, pending_txs).
     bindL (build_or_fail H U B C R pending_txs) (\<lambda>_.
     returns (ret (hex_string B (as_bytes hash)))))))"

text \<open>The statuses a watched extrinsic goes through, in the order they are sent.\<close>

datatype tx_status =
    TxInvalid string | TxReady | TxBroadcast | TxDropped string | TxInBlock string | TxFinalized string

definition submit_and_watch ::
  "('v, 'p) vm_host \<Rightarrow> ('n, 'm) upstream \<Rightarrow> ('n, 'm) substrate \<Rightarrow> 't relay_codec \<Rightarrow> rpc_env \<Rightarrow> string \<Rightarrow>
     (('p, 'n, 'm) rpc_server, 'e, tx_status list) loop_prog" where
  "submit_and_watch H U B C R extrinsic = (case to_bytes R extrinsic of
     Inl e \<Rightarrow> returns (ret [TxInvalid (''Invalid hex: '' @ e)])
   | Inr ext_bytes \<Rightarrow>
       bindL (tryL (on_node (validate_extrinsic H U (re_dec_validity R) ext_bytes))) (\<lambda>valid.
       case valid of
         Inl err \<Rightarrow> returns (ret [TxInvalid (reason err)])
       | Inr _ \<Rightarrow>
           bindL (tryL (on_pool (submit B ext_bytes))) (\<lambda>submitted.
           case submitted of
             Inl e \<Rightarrow> returns (ret [TxReady, TxBroadcast, TxInvalid (''Failed to submit: '' @ show_pool_error e)])
           | Inr _ \<Rightarrow>
               bindL (tryL (on_pool drain)) (\<lambda>drained.
               case drained of
                 Inl e \<Rightarrow> returns (ret [TxReady, TxBroadcast, TxDropped (''Pool error: '' @ show_pool_error e)])
               | Inr pending_txs \<Rightarrow>
                   bindL (tryL (on_node (build_block H U B C pending_txs))) (\<lambda>built.
                   returns (ret ([TxReady, TxBroadcast] @ (case built of
                       Inl e \<Rightarrow> [TxDropped (''Build failed: '' @ re_show R e)]
                     | Inr r \<Rightarrow> (case br_failed r of
                         (_, why) # _ \<Rightarrow> [TxInvalid why]
                       | [] \<Rightarrow> let block_hex = hex_string B (as_bytes (blk_hash (br_block r)))
                               in [TxInBlock block_hex, TxFinalized block_hex])))))))))"

definition pending_extrinsics :: "('n, 'm) substrate \<Rightarrow> ('p, 'n, 'm, string list) srv" where
  "pending_extrinsics B =
     bindL (pool_op_or ''Failed to get pending extrinsics: '' pending) (\<lambda>xs. returns (ret (map (hex_string B) xs)))"

section \<open>transaction\<close>

definition generate_operation_id :: "(('p, 'n, 'm) rpc_server, 'e, string) prog" where
  "generate_operation_id =
     bindE (gets rs_operation_counter) (\<lambda>i.
     bindE (modify (\<lambda>s. s\<lparr>rs_operation_counter := i + 1\<rparr>)) (\<lambda>_.
     ret (''tx-op-'' @ digits (unat i))))"

definition broadcast ::
  "('v, 'p) vm_host \<Rightarrow> ('n, 'm) upstream \<Rightarrow> ('n, 'm) substrate \<Rightarrow> 't relay_codec \<Rightarrow> rpc_env \<Rightarrow> string \<Rightarrow>
     ('p, 'n, 'm, string option) srv" where
  "broadcast H U B C R transaction =
     bindL (parsed (parse_hex_bytes R transaction ''transaction'')) (\<lambda>tx_bytes.
     bindL (pool_op_or ''Failed to submit transaction: '' (submit B tx_bytes)) (\<lambda>_.
     bindL (pool_op_or ''Failed to drain transaction pool: '' drain) (\<lambda>pending_txs.
     bindL (build_or_fail H U B C R pending_txs) (\<lambda>_.
     bindL (returns generate_operation_id) (\<lambda>i. returns (ret (Some i)))))))"

section \<open>dev\<close>

record new_block_result =
  nb_hash :: string
  nb_number :: u32
  nb_extrinsics_count :: nat

definition dev_new_block ::
  "('v, 'p) vm_host \<Rightarrow> ('n, 'm) upstream \<Rightarrow> ('n, 'm) substrate \<Rightarrow> 't relay_codec \<Rightarrow> rpc_env \<Rightarrow>
     ('p, 'n, 'm, new_block_result) srv" where
  "dev_new_block H U B C R =
     bindL (pool_op_or ''Failed to drain transaction pool: '' drain) (\<lambda>pending_txs.
     bindL (build_or_fail H U B C R pending_txs) (\<lambda>r.
     returns (ret \<lparr>nb_hash = hex_string B (as_bytes (blk_hash (br_block r))), nb_number = blk_number (br_block r),
       nb_extrinsics_count = length (blk_extrinsics (br_block r))\<rparr>)))"

end
