(* ===== verification/Sample_Rpc.thy ===== *)
theory Sample_Rpc
  imports Chain_Head Rpc_Author Fork_Setup
begin

text \<open>
  Hexadecimal text as the server relies on it, and an environment to run the methods of the
  server in.
\<close>

text \<open>What is encoded decodes to itself, and no encoding has an \<open>x\<close> in it.\<close>

definition hex_ok :: "('n, 'm) substrate \<Rightarrow> rpc_env \<Rightarrow> bool" where
  "hex_ok B R \<longleftrightarrow> (\<forall>b. re_hex_decode R (sb_hex B b) = Inr b \<and> CHR ''x'' \<notin> set (sb_hex B b))"

lemma trim_0x_hex:
  assumes "CHR ''x'' \<notin> set s"
  shows "trim_0x (''0x'' @ s) = s"
proof -
  have "take 2 s \<noteq> ''0x''" using assms set_take_subset [of 2 s] by auto
  then have "trim_0x s = s" by (simp add: trim_0x.simps [of s])
  then show ?thesis by (simp add: trim_0x.simps [of "CHR ''0'' # CHR ''x'' # s"] numeral_2_eq_2)
qed

lemma parse_hex_roundtrip: "hex_ok B R \<Longrightarrow> parse_hex_bytes R (hex_string B b) field = Inr b"
  by (simp add: hex_ok_def parse_hex_bytes_def hex_string_def trim_0x_hex del: append.simps)

lemma to_bytes_roundtrip: "hex_ok B R \<Longrightarrow> to_bytes R (hex_string B b) = Inr b"
  by (simp add: hex_ok_def to_bytes_def hex_string_def trim_0x_hex del: append.simps)

lemma parse_hash_roundtrip:
  "hex_ok B R \<Longrightarrow> length (as_bytes h) = 32 \<Longrightarrow> parse_block_hash R (hex_string B (as_bytes h)) = Inr h"
  by (simp add: hex_ok_def parse_block_hash_def hex_string_def trim_0x_hex del: append.simps)

section \<open>A sample environment\<close>

definition hex_digit :: "nat \<Rightarrow> char" where
  "hex_digit d = ''0123456789abcdef'' ! (d mod 16)"

definition hex_encode :: "bytes \<Rightarrow> string" where
  "hex_encode b = concat (map (\<lambda>x. [hex_digit (unat x div 16), hex_digit (unat x mod 16)]) b)"

definition digit_value :: "char \<Rightarrow> nat option" where
  "digit_value c = map_of (zip ''0123456789abcdef'' [0..<16]) c"

fun hex_decode :: "string \<Rightarrow> string + bytes" where
  "hex_decode [] = Inr []"
| "hex_decode [c] = Inl ''odd length''"
| "hex_decode (c # d # s) = (case (digit_value c, digit_value d) of
     (Some x, Some y) \<Rightarrow> map_sum (\<lambda>e. e) ((#) (of_nat (16 * x + y))) (hex_decode s)
   | _ \<Rightarrow> Inl ''invalid character'')"

lemma below_16: "n < 16 \<Longrightarrow> n \<in> {0, 1, 2, 3, 4, 5, 6, 7, 8, 9, 10, 11, 12, 13, 14, 15}" for n :: nat
  by (simp, presburger)

lemma digit_ok: "d < 16 \<Longrightarrow> digit_value (hex_digit d) = Some d \<and> hex_digit d \<noteq> CHR ''x''"
  by (drule below_16) (elim insertE emptyE; simp add: digit_value_def hex_digit_def upt_rec)

definition sample_validity :: valid_transaction where
  "sample_validity = \<lparr>vt_priority = 0, vt_requires = [], vt_provides = [], vt_longevity = 64, vt_propagate = True\<rparr>"

text \<open>The sample machine, with an answer for the validation of an extrinsic.\<close>

definition pool_host :: "(string \<times> bytes, unit) vm_host" where
  "pool_host = sample_host\<lparr>vh_event := (\<lambda>(fn, args).
     if fn = ''TaggedTransactionQueue_validate_transaction'' then FinishedOk [0] [] ()
     else vh_event sample_host (fn, args))\<rparr>"

definition sample_rpc :: rpc_env where
  "sample_rpc = \<lparr>re_hex_decode = hex_decode, re_dec_bytes = Inr, re_dec_version = (\<lambda>_. Inl ''version''),
     re_dec_header = (\<lambda>_. Inl ''header''), re_dec_validity = (\<lambda>_. Some (ValidityOk sample_validity)), re_enc_digest = (\<lambda>_. []),
     re_ss58 = (\<lambda>_. None), re_show = (\<lambda>_. ''error'')\<rparr>"

definition hex_substrate :: "(bool list, bytes) substrate" where
  "hex_substrate = sample_substrate\<lparr>sb_hex := hex_encode\<rparr>"

lemma byte_halves: "of_nat (16 * (unat x div 16) + unat x mod 16) = (x :: u8)"
  by simp

lemma hex_ok_sample: "hex_ok hex_substrate sample_rpc"
proof -
  have "hex_decode (hex_encode b) = Inr b \<and> CHR ''x'' \<notin> set (hex_encode b)" for b
  proof (induction b)
    case (Cons x b)
    have "unat x div 16 < 16" using unsigned_less [of x, where ?'a = nat] by simp
    with Cons digit_ok [of "unat x div 16"] digit_ok [of "unat x mod 16"] byte_halves [of x] show ?case
      by (auto simp: hex_encode_def simp del: of_nat_add of_nat_mult)
  qed (simp add: hex_encode_def)
  then show ?thesis by (simp add: hex_ok_def hex_substrate_def sample_rpc_def)
qed

end
