(* ===== verification/Chain_Head_Properties.thy ===== *)
theory Chain_Head_Properties
  imports Chain_Head_Laws Sample_Rpc
begin

text \<open>
  Properties of the chainHead methods: what the limits on subscriptions and operations bound, where
  the identifiers of operations go, and what a request that is refused after it was counted leaves
  behind.
\<close>

section \<open>Runs\<close>

definition ch_run ::
  "('v, 'p) vm_host \<Rightarrow> ('n, 'm) upstream \<Rightarrow> ('n, 'm) substrate \<Rightarrow> rpc_env \<Rightarrow> nat \<Rightarrow>
     ('p, 'n, 'm) ch_system \<Rightarrow> ('p, 'n, 'm) ch_system \<Rightarrow> bool" where
  "ch_run H U B R k = (\<lambda>s t. ch_step H U B R s t \<and> in_flight k t)\<^sup>*\<^sup>*"

lemma ch_run_refl [simp]: "ch_run H U B R k s s"
  by (simp add: ch_run_def)

lemma ch_run_step: "ch_step H U B R s t \<Longrightarrow> in_flight k t \<Longrightarrow> ch_run H U B R k t u \<Longrightarrow> ch_run H U B R k s u"
  unfolding ch_run_def by (rule converse_rtranclp_into_rtranclp) blast+

lemma ch_run_reach: "ch_run H U B R k s t \<Longrightarrow> ch_reach H U B R k s \<Longrightarrow> ch_reach H U B R k t"
  unfolding ch_run_def by (induction rule: rtranclp_induct) (blast intro: ch_reach.step)+

lemma ch_step_leaked: "ch_step H U B R s t \<Longrightarrow> of_handle h (sys_leaked s) \<le> of_handle h (sys_leaked t)"
  by (induction rule: ch_step.induct) simp_all

lemma ch_run_leaked: "ch_run H U B R k s t \<Longrightarrow> of_handle h (sys_leaked s) \<le> of_handle h (sys_leaked t)"
  unfolding ch_run_def by (induction rule: rtranclp_induct) (use ch_step_leaked le_trans in blast)+

lemma ch_reach_count:
  assumes "ch_reach H U B R k s" and "k \<le> 2 ^ 32" and "h < length (ch_handles (sys_ch s))"
  shows "unat (sh_operation_count (ch_handles (sys_ch s) ! h)) = operations s h \<and> operations s h \<le> 15 + k"
proof -
  have "operations s h \<le> 15 + k"
    using ch_reach_load [OF assms(1,2), of h] by (simp add: load_def)
  with assms(2) ch_inv_count [OF ch_reach_inv [OF assms(1)] assms(3)] show ?thesis
    by (simp add: unat_of_nat take_bit_eq_mod)
qed

text \<open>
  A request that runs without interruption is a run of the steps, with one request at a time between
  the check of the limit and the count.
\<close>

definition leaves :: "('a, 'b) sum \<Rightarrow> nat \<Rightarrow> string \<Rightarrow> (nat \<times> string) list" where
  "leaves r h i = (case r of Inl _ \<Rightarrow> [(h, i)] | Inr _ \<Rightarrow> [])"

lemma request_is_run:
  assumes quiet: "in_flight 0 s" and op: "operation_request U B R i req (sys_ch s, sys_node s) = (r, (c, p))"
  shows "\<exists>t. ch_run H U B R 1 s t \<and> in_flight 0 t \<and> sys_ch t = c \<and> sys_node t = p \<and>
    sys_running t = (case r of Inr (_, Some task) \<Rightarrow> task # sys_running s | _ \<Rightarrow> sys_running s) \<and>
    sys_leaked t = (case check_operation i (sys_ch s) of
       Inr (Proceed h) \<Rightarrow> leaves r h (op_name (ch_next_op_id (sys_ch s))) | _ \<Rightarrow> []) @ sys_leaked s"
proof (cases "\<exists>h. check_operation i (sys_ch s) = Inr (Proceed h)")
  case False
  then have "c = sys_ch s \<and> p = sys_node s \<and> (case r of Inr (_, Some _) \<Rightarrow> False | _ \<Rightarrow> True)"
    using op by (auto simp: operation_request_def split: sum.splits op_check.splits)
  with False quiet show ?thesis
    by (intro exI [of _ s]) (auto split: sum.splits op_check.splits option.splits)
next
  case True
  then obtain h where h: "check_operation i (sys_ch s) = Inr (Proceed h)" by blast
  obtain j c1 where count: "count_operation h (sys_ch s) = (j, c1)" by fastforce
  then have j: "j = op_name (ch_next_op_id (sys_ch s))"
    by (auto simp: count_operation_def update_handle_def Let_def)
  let ?s1 = "s\<lparr>sys_checked := (h, req) # sys_checked s\<rparr>"
  let ?s2 = "s\<lparr>sys_counted := (h, j, req) # sys_counted s, sys_ch := c1\<rparr>"
  have "x \<notin> set (sys_checked s)" for x
    using quiet by (cases x) (auto simp: in_flight_def filter_empty_conv)
  then have none: "sys_following s = []" "sys_checked s = []"
    using quiet by (simp add: in_flight_def, metis list.set_intros(1) neq_Nil_conv)
  have s1: "ch_step H U B R s ?s1" by (rule ch_step.check [OF h])
  have "ch_step H U B R ?s1 (?s1\<lparr>sys_checked := remove1 (h, req) (sys_checked ?s1),
      sys_counted := (h, j, req) # sys_counted ?s1, sys_ch := c1\<rparr>)"
    by (rule ch_step.count) (simp_all add: count)
  then have s2: "ch_step H U B R ?s1 ?s2" by simp
  have fl: "in_flight 1 ?s1" "in_flight 1 ?s2" using none by (simp_all add: in_flight_def)
  obtain res p1 where Pair: "resolve_request U B R j req (sys_node s) = (res, p1)" by (metis surj_pair)
  show ?thesis
  proof (cases res)
    case (Inl e)
    then have r: "r = Inl e" "c = c1" "p = p1"
      using op h count Pair by (simp_all add: operation_request_def)
    let ?t = "?s2\<lparr>sys_counted := sys_counted s, sys_leaked := (h, j) # sys_leaked s, sys_node := p1\<rparr>"
    have "ch_step H U B R ?s2 (?s2\<lparr>sys_counted := remove1 (h, j, req) (sys_counted ?s2),
        sys_leaked := (h, j) # sys_leaked ?s2, sys_node := p1\<rparr>)"
      by (rule ch_step.refuse) (use Pair Inl in simp_all)
    then have s3: "ch_step H U B R ?s2 ?t" by simp
    have "in_flight 1 ?t" using none by (simp add: in_flight_def)
    then have run: "ch_run H U B R 1 s ?t"
      by (intro ch_run_step [OF s1 fl(1)] ch_run_step [OF s2 fl(2)] ch_run_step [OF s3] ch_run_refl)
    show ?thesis
      by (intro exI [of _ ?t] conjI run) (simp_all add: in_flight_def none r h leaves_def j)
  next
    case (Inr job)
    then obtain x where r: "r = Inr (x, Some (h, job))" "c = c1" "p = p1"
      using op h count Pair by (auto simp: operation_request_def)
    let ?t = "?s2\<lparr>sys_counted := sys_counted s, sys_running := (h, job) # sys_running s, sys_node := p1\<rparr>"
    have "ch_step H U B R ?s2 (?s2\<lparr>sys_counted := remove1 (h, j, req) (sys_counted ?s2),
        sys_running := (h, job) # sys_running ?s2, sys_node := p1\<rparr>)"
      by (rule ch_step.start) (use Pair Inr in simp_all)
    then have s3: "ch_step H U B R ?s2 ?t" by simp
    have "in_flight 1 ?t" using none by (simp add: in_flight_def)
    then have run: "ch_run H U B R 1 s ?t"
      by (intro ch_run_step [OF s1 fl(1)] ch_run_step [OF s2 fl(2)] ch_run_step [OF s3] ch_run_refl)
    show ?thesis
      by (intro exI [of _ ?t] conjI run) (simp_all add: in_flight_def none r h leaves_def)
  qed
qed


section \<open>A client that sends requests with a hash that is not one\<close>

abbreviation sample_reach :: "(unit, bool list, bytes) ch_system \<Rightarrow> bool" where
  "sample_reach \<equiv> ch_reach sample_host sample_node hex_substrate sample_rpc 1"

text \<open>One follower.\<close>

definition followed :: "(unit, bool list, bytes) ch_system" where
  "followed = (ch_initial (sample_node_state []))\<lparr>sys_ch := register_subscription ''a'' False new_chain_head\<rparr>"

lemma followed_reach: "sample_reach followed"
proof -
  let ?i = "ch_initial (sample_node_state [])"
  let ?s = "?i\<lparr>sys_following := [(''a'', False)]\<rparr>"
  have "ch_step sample_host sample_node hex_substrate sample_rpc ?i (?i\<lparr>sys_following := (''a'', False) # sys_following ?i\<rparr>)"
    by (rule ch_step.follow_check)
      (simp add: ch_initial_def can_add_subscription_def new_chain_head_def MAX_SUBSCRIPTIONS_def)
  then have 1: "ch_step sample_host sample_node hex_substrate sample_rpc ?i ?s"
    by (simp add: ch_initial_def)
  have "ch_step sample_host sample_node hex_substrate sample_rpc ?s
     (?s\<lparr>sys_following := remove1 (''a'', False) (sys_following ?s), sys_ch := register_subscription ''a'' False (sys_ch ?s)\<rparr>)"
    by (rule ch_step.follow_register) simp
  then have 2: "ch_step sample_host sample_node hex_substrate sample_rpc ?s followed"
    by (simp add: followed_def ch_initial_def)
  show ?thesis
    by (rule ch_reach.step [OF ch_reach.step [OF ch_reach.init 1] 2])
      (simp_all add: in_flight_def followed_def ch_initial_def)
qed

definition bad_request :: op_request where
  "bad_request = ReqBody ''zz''"

lemma bad_request_refused: "\<exists>e. resolve_request U B sample_rpc i bad_request p = (Inl e, p)"
  by (simp add: resolve_request_def bad_request_def parse_block_hash_def sample_rpc_def trim_0x.simps [of "''zz''"]
      digit_value_def upt_rec prog_simps lift_sum_def)

text \<open>Up to 16 of them are counted and refused.\<close>

lemma refused_requests:
  assumes "n \<le> 16"
  shows "\<exists>s. sample_reach s \<and> in_flight 0 s \<and> map_of (ch_subscriptions (sys_ch s)) ''a'' = Some 0 \<and>
    length (ch_handles (sys_ch s)) = 1 \<and> operations s 0 = n \<and> of_handle 0 (sys_leaked s) = n \<and> sys_running s = []"
  using assms
proof (induction n)
  case 0
  show ?case
    by (rule exI [of _ followed], intro conjI followed_reach)
      (simp_all add: followed_def ch_initial_def in_flight_def register_subscription_def new_chain_head_def operations_def)
next
  case (Suc n)
  then obtain s where s: "sample_reach s" "in_flight 0 s" "map_of (ch_subscriptions (sys_ch s)) ''a'' = Some 0"
    "length (ch_handles (sys_ch s)) = 1" "operations s 0 = n" "of_handle 0 (sys_leaked s) = n" "sys_running s = []"
    by auto
  obtain e where e: "resolve_request sample_node hex_substrate sample_rpc (op_name (ch_next_op_id (sys_ch s))) bad_request (sys_node s) =
      (Inl e, sys_node s)"
    using bad_request_refused by blast
  have count: "sh_operation_count (ch_handles (sys_ch s) ! 0) = of_nat n"
    using ch_inv_count [OF ch_reach_inv [OF s(1)], of 0] s(4,5) by simp
  then have below: "check_operation ''a'' (sys_ch s) = Inr (Proceed 0)"
    using Suc(2) s(3)
    by (simp add: check_operation_Proceed MAX_OPERATIONS_def word_less_nat_alt unat_of_nat take_bit_eq_mod)
  obtain c where c: "operation_request sample_node hex_substrate sample_rpc ''a'' bad_request (sys_ch s, sys_node s) =
      (Inl e, (c, sys_node s))" "ch_subscriptions c = ch_subscriptions (sys_ch s)" "length (ch_handles c) = 1"
    "sh_operation_count (ch_handles c ! 0) = of_nat (Suc n)"
    using below e s(4) count
    by (simp add: operation_request_def count_operation_def update_handle_def Let_def)
  from request_is_run [OF s(2) c(1), of sample_host] obtain t where
    t: "ch_run sample_host sample_node hex_substrate sample_rpc 1 s t" "in_flight 0 t" "sys_ch t = c"
      "sys_running t = []" "of_handle 0 (sys_leaked t) = Suc n"
    using below s(6,7) by (auto simp: leaves_def)
  have reach: "sample_reach t" by (rule ch_run_reach [OF t(1) s(1)])
  have "unat (of_nat (Suc n) :: u64) = Suc n"
    using Suc(2) by (simp add: unat_of_nat take_bit_eq_mod del: of_nat_Suc)
  then have "operations t 0 = Suc n"
    using ch_reach_count [OF reach, of 0] c(3,4) t(3) by (simp del: of_nat_Suc)
  with reach t c(2,3) s(3) show ?case by auto
qed

section \<open>Limits\<close>

text \<open>
  C20: the count of a handle is the number of its operations that are being read, run or were
  refused after they were counted. With at most \<open>k\<close> requests of a subscription at a time between the
  check of the limit and the count, it never exceeds \<open>15 + k\<close>: 16, the limit, when requests come one
  after the other. In the same way there are never more than \<open>1023 + k\<close> subscriptions.
\<close>

theorem operations_bounded:
  assumes "ch_reach H U B R k s" and "k \<le> 2 ^ 32" and "h < length (ch_handles (sys_ch s))"
  shows "unat (sh_operation_count (ch_handles (sys_ch s) ! h)) =
      of_handle h (sys_counted s) + of_handle h (sys_running s) + of_handle h (sys_leaked s) \<and>
    unat (sh_operation_count (ch_handles (sys_ch s) ! h)) \<le> 15 + k \<and>
    length (ch_subscriptions (sys_ch s)) \<le> 1023 + k"
  using ch_reach_count [OF assms] ch_reach_subscriptions [OF assms(1)] by (simp add: operations_def)

theorem operations_bounded_witness:
  "\<exists>s. sample_reach s \<and> unat (sh_operation_count (ch_handles (sys_ch s) ! 0)) = 16 \<and>
     length (ch_subscriptions (sys_ch s)) \<le> 1024"
proof -
  obtain s where s: "sample_reach s" "length (ch_handles (sys_ch s)) = 1" "operations s 0 = 16"
    using refused_requests [of 16] by auto
  from operations_bounded [OF s(1), of 0] s show ?thesis by (auto simp: operations_def)
qed

text \<open>
  C21: a handle on which 16 requests were refused after they were counted answers \<open>LimitReached\<close> to
  every later request, whatever happens in between and even when none of its operations runs: nothing takes
  those requests off the count.
\<close>

theorem leaked_handle_stays_full:
  assumes "ch_reach H U B R k s" and "k \<le> 2 ^ 32" and "16 \<le> of_handle h (sys_leaked s)"
    and "ch_run H U B R k s t" and "map_of (ch_subscriptions (sys_ch t)) i = Some h"
  shows "operation_request U B R i req (sys_ch t, p) = (Inr (ResponseLimitReached, None), (sys_ch t, p))"
proof -
  have reach: "ch_reach H U B R k t" by (rule ch_run_reach [OF assms(4,1)])
  have "h \<in> refs t"
    using imageI [OF map_of_SomeD [OF assms(5)], of snd] by (simp add: refs_def)
  note h = ch_inv_refs [OF ch_reach_inv [OF reach] this]
  have "16 \<le> operations t h"
    using ch_run_leaked [OF assms(4), of h] assms(3) by (simp add: operations_def)
  then have "16 \<le> sh_operation_count (ch_handles (sys_ch t) ! h)"
    using ch_reach_count [OF reach assms(2) h] by (simp add: word_le_nat_alt)
  then show ?thesis
    using assms(5)
    by (simp add: operation_request_def check_operation_def get_subscription_def MAX_OPERATIONS_def)
qed

theorem leaked_handle_witness:
  "\<exists>s. sample_reach s \<and> sys_running s = [] \<and>
     operation_request sample_node hex_substrate sample_rpc ''a'' (ReqBody (hex_string hex_substrate (as_bytes (hash_of 2))))
       (sys_ch s, sys_node s) = (Inr (ResponseLimitReached, None), (sys_ch s, sys_node s))"
proof -
  obtain s where s: "sample_reach s" "map_of (ch_subscriptions (sys_ch s)) ''a'' = Some 0"
    "of_handle 0 (sys_leaked s) = 16" "sys_running s = []"
    using refused_requests [of 16] by auto
  show ?thesis
    by (rule exI [of _ s], intro conjI s(1,4) leaked_handle_stays_full [OF s(1) _ _ ch_run_refl s(2)]) (simp_all add: s(3))
qed

section \<open>Identifiers\<close>

text \<open>
  C22: however requests interleave, the identifiers that were handed out are in one place each: the
  request is being read, its task runs, it was refused, or the client was sent one event that ends
  it. They are \<open>op-1\<close>, \<open>op-2\<close> and so on, all different up to \<open>2 ^ 64\<close>.
\<close>

theorem operation_ids_accounted:
  assumes "ch_reach H U B R k s"
  shows "\<exists>n. ch_next_op_id (sys_ch s) = of_nat (Suc n) \<and>
    mset (ids s) = mset (map (\<lambda>j. op_name (of_nat (Suc j))) [0..<n]) \<and>
    (n < 2 ^ 64 \<longrightarrow> distinct (ids s))"
  using ch_reach_ids [OF assms] distinct_names by (metis mset_eq_imp_distinct_iff)

theorem operation_ids_witness:
  "\<exists>s n. sample_reach s \<and> length (sys_leaked s) \<noteq> 0 \<and> ch_next_op_id (sys_ch s) = of_nat (Suc n) \<and>
    mset (ids s) = mset (map (\<lambda>j. op_name (of_nat (Suc j))) [0..<n])"
proof -
  obtain s where s: "sample_reach s" "of_handle 0 (sys_leaked s) = 1"
    using refused_requests [of 1] by auto
  with operation_ids_accounted [OF s(1)] show ?thesis by fastforce
qed


end
