(* ===== verification/Rpc_Laws.thy ===== *)
theory Rpc_Laws
  imports Build_Laws Fork_Setup Sample_Rpc
begin

text \<open>
  What the methods of the RPC server that only read keep, and what the operations of the chain that
  they are made of answer, in terms of the values the chain stands for.
\<close>

section \<open>What a state of the chain stands for\<close>

text \<open>The value of a key at a block, and the number of a hash.\<close>

definition node_value :: "chain \<Rightarrow> ('p, 'n, 'm) node_state \<Rightarrow> u32 \<Rightarrow> bytes \<Rightarrow> bytes option" where
  "node_value C p = layer_value (blk_storage (bc_head (fst p))) C (snd p)"

definition number_of :: "chain \<Rightarrow> ('p, 'n, 'm) node_state \<Rightarrow> h256 \<Rightarrow> u32 option" where
  "number_of C p h = (case find_local (\<lambda>b. blk_hash b = h) (bc_head (fst p)) of
     Some b \<Rightarrow> Some (blk_number b) | None \<Rightarrow> map_option (\<lambda>b. nh_number (nb_header b)) (ch_block C h))"

text \<open>A state that a client cannot tell from the first.\<close>

definition same_view :: "('n, 'm) upstream \<Rightarrow> chain \<Rightarrow> ('p, 'n, 'm) node_state \<Rightarrow> ('p, 'n, 'm) node_state \<Rightarrow> bool" where
  "same_view U C p q \<longleftrightarrow> node_inv U C p \<and> node_inv U C q \<and> bc_head (fst q) = bc_head (fst p) \<and>
     node_value C q = node_value C p \<and> number_of C q = number_of C p"

lemma same_view_refl: "node_inv U C p \<Longrightarrow> same_view U C p p"
  by (simp add: same_view_def)

lemma same_view_trans: "same_view U C p q \<Longrightarrow> same_view U C q r \<Longrightarrow> same_view U C p r"
  by (auto simp: same_view_def)

lemma same_view_inv: "same_view U C p q \<Longrightarrow> node_inv U C q"
  by (simp add: same_view_def)

lemma quiet_same_view: "quiet_node U C p q \<Longrightarrow> node_inv U C p \<Longrightarrow> same_view U C p q"
  using quiet_node_inv [of U C p q] quiet_node_values [of U C "fst p" "snd p" "fst q" "snd q"]
  by (cases p; cases q)
    (simp add: same_view_def node_value_def [abs_def] number_of_def [abs_def] same_chain_def)

text \<open>The triples of the methods: from a state with the view of \<open>p\<close> to one.\<close>

definition views ::
  "('n, 'm) upstream \<Rightarrow> chain \<Rightarrow> ('p, 'n, 'm) node_state \<Rightarrow> (('p, 'n, 'm) node_state, 'e, 'a) loop_prog \<Rightarrow> ('a \<Rightarrow> bool) \<Rightarrow> bool" where
  "views U C p m P \<longleftrightarrow> (\<forall>q r t. same_view U C p q \<longrightarrow> m q = Some (r, t) \<longrightarrow>
     same_view U C p t \<and> (\<forall>x. r = Inr x \<longrightarrow> P x))"

lemma viewsI:
  assumes "\<And>q r t. same_view U C p q \<Longrightarrow> m q = Some (r, t) \<Longrightarrow> same_view U C p t"
    and "\<And>q x t. same_view U C p q \<Longrightarrow> m q = Some (Inr x, t) \<Longrightarrow> P x"
  shows "views U C p m P"
  unfolding views_def using assms by blast

lemma viewsE:
  assumes "views U C p m P" and "same_view U C p q" and "m q = Some (r, t)"
  shows "same_view U C p t" and "r = Inr x \<Longrightarrow> P x"
  using assms unfolding views_def by blast+

lemma viewsD:
  "views U C p m P \<Longrightarrow> node_inv U C p \<Longrightarrow> m p = Some (Inr x, q) \<Longrightarrow> P x \<and> same_view U C p q"
  using same_view_refl viewsE by metis

lemma views_bind:
  assumes m: "views U C p m P" and f: "\<And>x. P x \<Longrightarrow> views U C p (f x) Q"
  shows "views U C p (bindL m f) Q"
proof (rule viewsI)
  fix q r t assume q: "same_view U C p q" "bindL m f q = Some (r, t)"
  then show "same_view U C p t"
    using viewsE [OF m q(1)] viewsE(1) [OF f] unfolding bindL_Some by blast
next
  fix q x t assume q: "same_view U C p q" "bindL m f q = Some (Inr x, t)"
  then show "Q x"
    using viewsE [OF m q(1)] viewsE(2) [OF f] unfolding bindL_Some by blast
qed

lemma views_ret: "P x \<Longrightarrow> views U C p (returns (ret x)) P"
  by (rule viewsI) (simp_all add: prog_simps)

lemma views_fail: "views U C p (returns (fail e)) P"
  by (rule viewsI) (simp_all add: prog_simps)

lemma views_parsed: "(\<And>x. r = Inr x \<Longrightarrow> P x) \<Longrightarrow> views U C p (parsed r) P"
  by (rule viewsI) (simp_all add: parsed_def prog_simps)

lemma views_of_head: "P (f (bc_head (fst p))) \<Longrightarrow> views U C p (of_head f) P"
  by (rule viewsI) (auto simp: of_head_def bc_gets_def prog_simps same_view_def)

lemma views_run:
  assumes "\<And>q r t. node_inv U C q \<Longrightarrow> m q = (r, t) \<Longrightarrow> quiet_node U C q t"
    and "\<And>q x t. node_inv U C q \<Longrightarrow> same_view U C p q \<Longrightarrow> m q = (Inr x, t) \<Longrightarrow> P x"
  shows "views U C p (chain_op f m) P"
proof (rule viewsI)
  fix q r t assume q: "same_view U C p q" "chain_op f m q = Some (r, t)"
  then obtain r' where "m q = (r', t)"
    by (auto simp: prog_simps split: prod.splits sum.splits)
  from assms(1) [OF same_view_inv [OF q(1)] this] show "same_view U C p t"
    using same_view_trans [OF q(1) quiet_same_view] same_view_inv [OF q(1)] by blast
next
  fix q x t assume "same_view U C p q" "chain_op f m q = Some (Inr x, t)"
  then show "P x"
    using assms(2) [OF same_view_inv] unfolding returns_Some map_err_Inr by blast
qed

lemma eachL_map: "eachL f (map g xs) = eachL (\<lambda>x. f (g x)) xs"
  by (induction xs) simp_all

lemma views_each: "(\<And>x. x \<in> set xs \<Longrightarrow> views U C p (f x) (\<lambda>y. y = g x)) \<Longrightarrow> views U C p (eachL f xs) (\<lambda>ys. ys = map g xs)"
proof (induction xs)
  case (Cons x xs)
  show ?case
    unfolding eachL.simps
    by (rule views_bind [OF Cons.prems], simp, rule views_bind [OF Cons.IH [OF Cons.prems]]) (simp_all add: views_ret)
qed (simp add: views_ret)

text \<open>A run that ends well.\<close>

lemma loop_ok: "map_option (\<lambda>(r, _). isl r) l = Some False \<Longrightarrow> \<exists>x q. l = Some (Inr x, q)"
  by (auto simp: isl_def) (metis obj_sumE)

section \<open>Operations of the chain\<close>

lemma views_storage_at: "views U C p (chain_op f (bc_storage_at U B n k)) (\<lambda>v. v = node_value C p n k)"
proof (rule views_run)
  show "quiet_node U C q t" if "bc_storage_at U B n k q = (r, t)" for q r t
    by (rule keeps_returnsD [OF quiet_get_storage_value that [unfolded bc_storage_at_def]])
  show "x = node_value C p n k" if "node_inv U C q" "same_view U C p q" "bc_storage_at U B n k q = (Inr x, t)" for q x t
  proof -
    have "x = node_value C q n k"
      using storage_at_run [of U C "fst q" "snd q" B n k x t] that by (simp add: node_value_def)
    with that(2) show ?thesis by (simp add: same_view_def)
  qed
qed

lemma number_by_hash_run:
  assumes "node_inv U C (bc, s)" and run: "bc_block_number_by_hash U B h (bc, s) = (Inr r, q)"
  shows "r = number_of C (bc, s) h"
proof (cases "find_local (\<lambda>b. blk_hash b = h) (bc_head bc)")
  case None
  then have "with_upstream U B (on_remote (block_number_by_hash U h)) (bc, s) = (Inr r, q)"
    using run by (simp add: bc_block_number_by_hash_def bc_gets_def prog_simps)
  moreover have "fork_inv U C (blk_storage (bc_head bc)) s"
    using assms(1) by (simp add: node_inv_def fork_head_def)
  ultimately show ?thesis
    using wp_with_upstream [OF wp_remote_number] None by (fastforce simp: number_of_def)
qed (use run in \<open>auto simp: number_of_def bc_block_number_by_hash_def bc_gets_def prog_simps\<close>)

lemma views_number_by_hash: "views U C p (chain_op f (bc_block_number_by_hash U B h)) (\<lambda>r. r = number_of C p h)"
proof (rule views_run)
  show "quiet_node U C q t" if "bc_block_number_by_hash U B h q = (r, t)" for q r t
    by (rule keeps_returnsD [OF quiet_block_number_by_hash that])
  show "x = number_of C p h"
    if "node_inv U C q" "same_view U C p q" "bc_block_number_by_hash U B h q = (Inr x, t)" for q x t
    using number_by_hash_run [of U C "fst q" "snd q" B h x t] that by (simp add: same_view_def)
qed

section \<open>Methods\<close>

text \<open>The block a client names by a hash, or the head.\<close>

definition block_meant :: "chain \<Rightarrow> ('p, 'n, 'm) node_state \<Rightarrow> h256 option \<Rightarrow> u32 \<Rightarrow> bool" where
  "block_meant C p at n \<longleftrightarrow> (case at of None \<Rightarrow> n = blk_number (bc_head (fst p)) | Some h \<Rightarrow> number_of C p h = Some n)"

abbreviation hash_text :: "('n, 'm) substrate \<Rightarrow> h256 \<Rightarrow> string" where
  "hash_text B h \<equiv> hex_string B (as_bytes h)"

lemma parse_own_hash: "hex_ok B R \<Longrightarrow> parse_block_hash R (hash_text B h) = Inr g \<Longrightarrow> g = h"
  by (cases h) (auto simp: hex_ok_def parse_block_hash_def hex_string_def trim_0x_hex split: if_splits simp del: append.simps)

lemma views_resolve:
  assumes "hex_ok B R"
  shows "views U C p (resolve_block U B R missing (map_option (hash_text B) at)) (\<lambda>(n, _). block_meant C p at n)"
proof (cases at)
  case None
  then show ?thesis by (simp add: resolve_block_def block_meant_def views_of_head)
next
  case (Some h)
  show ?thesis
    unfolding resolve_block_def Some option.map option.case
    by (rule views_bind [OF views_parsed [of _ "\<lambda>g. g = h"]], erule parse_own_hash [OF assms],
      rule views_bind [OF views_number_by_hash])
      (auto simp: block_meant_def views_ret views_fail split: option.splits)
qed

lemma views_state_get_storage:
  assumes "hex_ok B R"
  shows "views U C p (state_get_storage U B R (hex_string B k) (map_option (hash_text B) at))
     (\<lambda>v. \<exists>n. block_meant C p at n \<and> v = map_option (hex_string B) (node_value C p n k))"
  unfolding state_get_storage_def
  by (rule views_bind [OF views_resolve [OF assms]], clarify,
    rule views_bind [OF views_parsed [of _ "\<lambda>b. b = k"]], simp add: parse_hex_roundtrip [OF assms],
    rule views_bind [OF views_storage_at]) (auto intro!: views_ret)

text \<open>A query with the text of a key, and what it is answered with for two values.\<close>

definition key_query :: "('n, 'm) substrate \<Rightarrow> bytes \<times> storage_query_type \<Rightarrow> storage_diff_query_item" where
  "key_query B = (\<lambda>(k, ty). \<lparr>dq_key = hex_string B k, dq_return_type = ty\<rparr>)"

lemma views_diff_item:
  assumes "hex_ok B R"
  shows "views U C p (diff_item U B R n m (key_query B (k, ty)))
     (\<lambda>y. y = diff_of B (key_query B (k, ty)) (node_value C p n k) (node_value C p m k))"
  unfolding diff_item_def
  by (rule views_bind [OF views_parsed [of _ "\<lambda>b. b = k"]], simp add: key_query_def parse_hex_roundtrip [OF assms],
    rule views_bind [OF views_storage_at], rule views_bind [OF views_storage_at])
    (auto intro!: views_ret)

lemma views_storage_diff:
  assumes "hex_ok B R"
  shows "views U C p (storage_diff U B R (hash_text B h) (map (key_query B) ks) (Some (hash_text B g)))
     (\<lambda>r. \<forall>xs. r = DiffOk xs \<longrightarrow> (\<exists>n m. number_of C p h = Some n \<and> number_of C p g = Some m \<and>
        xs = concat (map (\<lambda>(k, ty). diff_of B (key_query B (k, ty)) (node_value C p n k) (node_value C p m k)) ks)))"
proof -
  have items: "views U C p (eachL (diff_item U B R n m) (map (key_query B) ks))
     (\<lambda>ys. ys = map (\<lambda>(k, ty). diff_of B (key_query B (k, ty)) (node_value C p n k) (node_value C p m k)) ks)" for n m
  proof -
    have "views U C p (eachL (\<lambda>x. diff_item U B R n m (key_query B x)) ks)
       (\<lambda>ys. ys = map (\<lambda>(k, ty). diff_of B (key_query B (k, ty)) (node_value C p n k) (node_value C p m k)) ks)"
    proof (rule views_each)
      show "views U C p (diff_item U B R n m (key_query B x))
         (\<lambda>y. y = (case x of (k, ty) \<Rightarrow> diff_of B (key_query B (k, ty)) (node_value C p n k) (node_value C p m k)))" for x
        by (cases x) (simp add: views_diff_item [OF assms])
    qed
    then show ?thesis by (simp add: eachL_map)
  qed
  show ?thesis
    unfolding storage_diff_def option.case
    apply (rule views_bind [OF views_parsed [of _ "\<lambda>x. x = h"]], erule parse_own_hash [OF assms])
    apply (rule views_bind [OF views_number_by_hash])
    apply (clarsimp simp: views_ret split: option.splits)
    apply (rule views_bind [of _ _ _ _ "\<lambda>x. x = Some g"])
     apply (rule views_bind [OF views_parsed [of _ "\<lambda>x. x = g"]], erule parse_own_hash [OF assms], simp add: views_ret)
    apply (clarsimp simp: views_ret split: option.splits)
    apply (rule views_bind [OF views_number_by_hash])
    apply (clarsimp simp: views_ret split: option.splits)
    apply (rule views_bind [OF items])
    apply (simp add: views_ret)
    done
qed

lemma hex_string_inj: "hex_ok B R \<Longrightarrow> hex_string B k = hex_string B l \<longleftrightarrow> k = l"
  by (metis Inr_inject to_bytes_roundtrip)

lemma diff_of_keys:
  "di_key ` set (diff_of B (key_query B (k, ty)) v w) = (if v = w then {} else {hex_string B k})"
  by (cases v; cases w; cases "diff_fields B ty (the v)") (auto simp: diff_of_def key_query_def)

lemma diff_of_keys': "di_key ` set (diff_of B (key_query B x) v w) = (if v = w then {} else {hex_string B (fst x)})"
  by (cases x) (simp only: diff_of_keys fst_conv)

section \<open>Submitting\<close>

lemma wlp_on_fieldL:
  "wlp l (\<lambda>x t. Q x (f t s)) (\<lambda>e t. E e (f t s)) (g s) \<Longrightarrow> wlp (on_fieldL g f l) Q E s"
  by (auto simp: wlp_def prog_simps split: option.splits prod.splits sum.splits)

lemma wlp_map_errL: "wlp l Q (\<lambda>e. E (g e)) s \<Longrightarrow> wlp (map_errL g l) Q E s"
  by (auto simp: wlp_def prog_simps split: option.splits prod.splits sum.splits)

lemma quiet_validate: "keeps (quiet_node U C) (validate_extrinsic H U dec x)"
  unfolding validate_extrinsic_def Let_def
  by (intro frame_intros quiet_node.bindL quiet_node.pure)
    (auto intro: quiet_node.pure split: transaction_validity.split)

lemma advanced_head:
  assumes "advanced U C xs n r n'"
  shows "node_inv U C n' \<and> blk_number (bc_head (fst n')) = blk_number (bc_head (fst n)) + 1 \<and>
     blk_parent_hash (bc_head (fst n')) = blk_hash (bc_head (fst n)) \<and>
     (\<exists>included failed inherents. mset included + mset failed = mset xs \<and>
        blk_extrinsics (bc_head (fst n')) = inherents @ included)"
proof -
  obtain bc s bc' s' where n: "n = (bc, s)" "n' = (bc', s')" by (metis surj_pair)
  have facts: "node_inv U C n'" "blk_number (bc_head (fst n')) = blk_number (bc_head (fst n)) + 1"
    "blk_parent_hash (bc_head (fst n')) = blk_hash (bc_head (fst n))"
    "mset (br_included r) + mset (map fst (br_failed r)) = mset xs"
    "\<exists>is. blk_extrinsics (bc_head (fst n')) = is @ br_included r"
    using assms unfolding n advanced_def child_built_def by auto
  then show ?thesis by blast
qed

text \<open>Draining the pool with one more extrinsic.\<close>

lemma wlp_submit_and_drain:
  assumes "\<not> pool_poisoned (rs_pool s)"
    and "Q (H256 (sb_blake2_256 B x), pool_pending (rs_pool s) @ [x]) (s\<lparr>rs_pool := (rs_pool s)\<lparr>pool_pending := []\<rparr>\<rparr>)"
  shows "wlp (pool_op_or text (submit_and_drain B x)) Q E s"
  using assms
  by (simp add: pool_op_or_def on_pool_def wlp_def pool_defs prog_simps)

text \<open>What becomes of the server when an extrinsic is submitted.\<close>

definition submitted ::
  "('n, 'm) upstream \<Rightarrow> chain \<Rightarrow> ('n, 'm) substrate \<Rightarrow> bytes \<Rightarrow> ('p, 'n, 'm) rpc_server \<Rightarrow> string \<Rightarrow> ('p, 'n, 'm) rpc_server \<Rightarrow> bool" where
  "submitted U C B x s h s' \<longleftrightarrow> h = hash_text B (H256 (sb_blake2_256 B x)) \<and>
     pool_pending (rs_pool s') = [] \<and> node_inv U C (rs_node s') \<and>
     blk_number (bc_head (fst (rs_node s'))) = blk_number (bc_head (fst (rs_node s))) + 1 \<and>
     blk_parent_hash (bc_head (fst (rs_node s'))) = blk_hash (bc_head (fst (rs_node s))) \<and>
     (\<exists>included failed inherents. mset included + mset failed = mset (pool_pending (rs_pool s) @ [x]) \<and>
        blk_extrinsics (bc_head (fst (rs_node s'))) = inherents @ included)"

definition not_submitted ::
  "('n, 'm) upstream \<Rightarrow> chain \<Rightarrow> rpc_env \<Rightarrow> ('p, 'n, 'm) rpc_server \<Rightarrow> rpc_server_error \<Rightarrow> ('p, 'n, 'm) rpc_server \<Rightarrow> bool" where
  "not_submitted U C R s e s' \<longleftrightarrow> node_inv U C (rs_node s') \<and>
     bc_head (fst (rs_node s')) = bc_head (fst (rs_node s)) \<and>
     pool_pending (rs_pool s') =
       (if \<exists>b. e = Internal (''Failed to build block: '' @ re_show R b) then [] else pool_pending (rs_pool s))"

lemma wlp_submit:
  assumes inv: "node_inv U C (rs_node s)" and pool: "\<not> pool_poisoned (rs_pool s)"
    and parse: "parse_hex_bytes R text ''extrinsic'' = Inr x"
  shows "wlp (submit_extrinsic H U B D R text) (submitted U C B x s) (not_submitted U C R s) s"
proof -
  have build: "wlp (bindL (build_or_fail H U B D R xs) (\<lambda>_. returns (ret h)))
      (\<lambda>y t. y = h \<and> rs_pool t = rs_pool s1 \<and> (\<exists>r. advanced U C xs (rs_node s1) r (rs_node t)))
      (\<lambda>e t. (\<exists>b. e = Internal (''Failed to build block: '' @ re_show R b)) \<and> rs_pool t = rs_pool s1 \<and>
         node_inv U C (rs_node t) \<and> bc_head (fst (rs_node t)) = bc_head (fst (rs_node s1))) s1"
    if "node_inv U C (rs_node s1)" for s1 xs and h :: string
  proof -
    obtain bc f where n: "rs_node s1 = (bc, f)" by fastforce
    show ?thesis
      unfolding build_or_fail_def on_node_def
      by (intro wlp_bindL wlp_on_fieldL wlp_map_errL,
        subst n, rule wlp_mono [OF wlp_build_block [OF that [unfolded n]]])
        (auto simp: n same_chain_def intro!: wlp_pure)
  qed
  have valid: "wlp (on_node (map_errL validation_error (validate_extrinsic H U (re_dec_validity R) x)))
      (\<lambda>_ t. node_inv U C (rs_node t) \<and> bc_head (fst (rs_node t)) = bc_head (fst (rs_node s)) \<and> rs_pool t = rs_pool s)
      (\<lambda>e t. (\<forall>m. e \<noteq> Internal m) \<and> node_inv U C (rs_node t) \<and>
         bc_head (fst (rs_node t)) = bc_head (fst (rs_node s)) \<and> rs_pool t = rs_pool s) s"
    unfolding on_node_def
    by (intro wlp_on_fieldL wlp_map_errL wlp_keeps [OF quiet_validate [of U C]])
      (use quiet_same_view [OF _ inv] in \<open>auto simp: same_view_def validation_error_def\<close>)
  show ?thesis
    unfolding submit_extrinsic_def parse parsed_def
    apply (rule wlp_bindL, simp add: wlp_def [of "returns (lift_sum _)"] prog_simps)
    apply (rule wlp_bindL, rule wlp_mono [OF valid])
     apply (elim conjE, rule wlp_bindL, rule wlp_submit_and_drain)
      apply (simp add: pool)
     apply (simp, rule wlp_mono [OF build])
       apply simp
      apply (elim conjE exE, drule advanced_head)
      apply (simp_all add: submitted_def not_submitted_def)
    done
qed

end
