(* ===== verification/Rpc_Properties.thy ===== *)
theory Rpc_Properties
  imports Rpc_Laws Chain_Head_Properties
begin

text \<open>
  Properties of the methods of the RPC server: what a client reads by a block hash, what the
  difference of two blocks lists, and what submitting an extrinsic does to the pool and the chain.
\<close>

section \<open>Reading\<close>

text \<open>
  \<open>state_getStorage\<close> with the text of a key and of the hash of a block answers with the text of the
  value that the key has at the block of that hash, or at the head when no hash is given; what a
  client reads next is as before.
\<close>

theorem state_get_storage_value:
  assumes "node_inv U C p" and "hex_ok B R"
    and "state_get_storage U B R (hex_string B k) (map_option (hash_text B) at) p = Some (Inr v, q)"
  shows "(\<exists>n. block_meant C p at n \<and> v = map_option (hex_string B) (node_value C p n k)) \<and> same_view U C p q"
  by (rule viewsD [OF views_state_get_storage [OF assms(2)] assms(1,3)])

theorem state_get_storage_witness:
  "\<exists>q. state_get_storage sample_node hex_substrate sample_rpc ''0x01'' None (sample_node_state []) = Some (Inr (Some ''0x0a''), q)"
proof -
  let ?run = "state_get_storage sample_node hex_substrate sample_rpc ''0x01'' None (sample_node_state [])"
  have "map_option (\<lambda>(r, _). isl r) ?run = Some False" by code_simp
  from loop_ok [OF this] obtain v q where run: "?run = Some (Inr v, q)" by blast
  have key: "hex_string hex_substrate [1] = ''0x01''" by code_simp
  obtain n where n: "block_meant sample_chain (sample_node_state []) None n"
    "v = map_option (hex_string hex_substrate) (node_value sample_chain (sample_node_state []) n [1])"
    using state_get_storage_value [OF sample_node_inv [of "[]"] hex_ok_sample, of "[1]" None v q] run
    unfolding key by auto
  have "n = 2" using n(1) by (simp add: block_meant_def sample_node_state_def sample_head_def)
  moreover have "map_option (hex_string hex_substrate) (node_value sample_chain (sample_node_state []) 2 [1]) = Some ''0x0a''"
    by code_simp
  ultimately show ?thesis using run n(2) by auto
qed

text \<open>
  C23: the difference of two blocks lists, for each key that was asked for and in that order, how its
  value at the first block differs from that at the second; a key is listed exactly if the two values differ.
\<close>

theorem storage_diff_exact:
  assumes inv: "node_inv U C p" and hex: "hex_ok B R"
    and run: "storage_diff U B R (hash_text B h) (map (key_query B) ks) (Some (hash_text B g)) p = Some (Inr (DiffOk xs), q)"
  shows "\<exists>n m. number_of C p h = Some n \<and> number_of C p g = Some m \<and>
     xs = concat (map (\<lambda>(k, ty). diff_of B (key_query B (k, ty)) (node_value C p n k) (node_value C p m k)) ks) \<and>
     (\<forall>k \<in> fst ` set ks. hex_string B k \<in> di_key ` set xs \<longleftrightarrow> node_value C p n k \<noteq> node_value C p m k)"
proof -
  obtain n m where nm: "number_of C p h = Some n" "number_of C p g = Some m"
    "xs = concat (map (\<lambda>(k, ty). diff_of B (key_query B (k, ty)) (node_value C p n k) (node_value C p m k)) ks)"
    using viewsD [OF views_storage_diff [OF hex] inv run] by auto
  have keys: "di_key ` set xs = hex_string B ` {k \<in> fst ` set ks. node_value C p n k \<noteq> node_value C p m k}"
    by (simp add: nm(3) image_UN case_prod_unfold diff_of_keys') auto
  have "hex_string B k \<in> di_key ` set xs \<longleftrightarrow> node_value C p n k \<noteq> node_value C p m k" if "k \<in> fst ` set ks" for k
    using that hex_string_inj [OF hex] unfolding keys by auto
  with nm show ?thesis by blast
qed

theorem storage_diff_witness:
  "\<exists>q. storage_diff sample_node hex_substrate sample_rpc (hash_text hex_substrate (hash_of 2)) [key_query hex_substrate ([1], QValue)]
       (Some (hash_text hex_substrate (hash_of 2))) (sample_node_state []) = Some (Inr (DiffOk []), q)"
proof -
  let ?run = "storage_diff sample_node hex_substrate sample_rpc (hash_text hex_substrate (hash_of 2))
    [key_query hex_substrate ([1], QValue)] (Some (hash_text hex_substrate (hash_of 2))) (sample_node_state [])"
  have "(case ?run of Some (Inr (DiffOk _), _) \<Rightarrow> True | _ \<Rightarrow> False)" by code_simp
  then obtain xs q where run: "?run = Some (Inr (DiffOk xs), q)"
    by (auto split: option.splits prod.splits sum.splits archive_storage_diff_result.splits)
  with storage_diff_exact [OF sample_node_inv [of "[]"] hex_ok_sample, of "hash_of 2" "[([1], QValue)]" "hash_of 2" xs q]
  have "xs = []" by (auto simp: diff_of_def split: option.splits)
  with run show ?thesis by blast
qed

section \<open>Submitting\<close>


definition sample_server :: "(unit, bool list, bytes) rpc_server" where
  "sample_server = \<lparr>rs_node = sample_node_state [], rs_pool = \<lparr>pool_pending = [[0, 9]], pool_poisoned = False\<rparr>,
     rs_operation_counter = 0\<rparr>"

lemma sample_server_facts:
  "node_inv sample_node sample_chain (rs_node sample_server)" "\<not> pool_poisoned (rs_pool sample_server)"
  "pool_pending (rs_pool sample_server) = [[0, 9]]" "bc_head (fst (rs_node sample_server)) = sample_head"
  "blk_number sample_head = 2"
  by (simp_all add: sample_server_def sample_node_inv) (simp_all add: sample_node_state_def sample_head_def)


text \<open>
  C25: a submission that fails leaves the head as it was. What was in the pool stays there, unless it
  is the building of the block that fails: then the pool is empty, and neither the extrinsics
  that were in it nor the new one are anywhere.
\<close>

theorem failed_submission:
  assumes "node_inv U C (rs_node s)" and "\<not> pool_poisoned (rs_pool s)"
    and "parse_hex_bytes R text ''extrinsic'' = Inr x"
    and "submit_extrinsic H U B D R text s = Some (Inl e, s')"
  shows "node_inv U C (rs_node s') \<and> bc_head (fst (rs_node s')) = bc_head (fst (rs_node s)) \<and>
    pool_pending (rs_pool s') =
      (if \<exists>b. e = Internal (''Failed to build block: '' @ re_show R b) then [] else pool_pending (rs_pool s))"
  using wlp_Inl [OF wlp_submit [OF assms(1-3)] assms(4)] unfolding not_submitted_def .

text \<open>A machine that accepts the extrinsic and fails to finalise the block.\<close>

definition failing_host :: "(string \<times> bytes, unit) vm_host" where
  "failing_host = pool_host\<lparr>vh_run := (\<lambda>_ fn args _ _.
     if fn = ''BlockBuilder_finalize_block'' then Inl (''trap'', ()) else Inr (fn, args))\<rparr>"

theorem failed_submission_witness:
  "\<exists>s'. submit_extrinsic failing_host sample_node hex_substrate sample_codec sample_rpc ''0x0007'' sample_server =
       Some (Inl (Internal ''Failed to build block: error''), s') \<and>
     bc_head (fst (rs_node s')) = sample_head \<and> pool_pending (rs_pool s') = []"
proof -
  let ?run = "submit_extrinsic failing_host sample_node hex_substrate sample_codec sample_rpc ''0x0007'' sample_server"
  have "map_option fst ?run = Some (Inl (Internal ''Failed to build block: error''))" by code_simp
  from run_of_map_fst [OF this] obtain s' where
    run: "?run = Some (Inl (Internal ''Failed to build block: error''), s')" by blast
  have parse: "parse_hex_bytes sample_rpc ''0x0007'' ''extrinsic'' = Inr [0, 7]" by code_simp
  have "\<exists>b. Internal ''Failed to build block: error'' = Internal (''Failed to build block: '' @ re_show sample_rpc b)"
    by (simp add: sample_rpc_def)
  with failed_submission [OF sample_server_facts(1,2) parse run, unfolded sample_server_facts] run show ?thesis by auto
qed

end
