(* ===== verification/Versions.thy ===== *)
theory Versions
  imports Prelude "HOL-Library.Multiset" "HOL-Library.Option_ord" "HOL-Library.Product_Lexorder"
begin

text \<open>
  Versions of releases, \<^verbatim>\<open>crates/pop-common/src/polkadot_sdk.rs\<close> and the sorted slices of
  \<^verbatim>\<open>crates/pop-common/src/lib.rs\<close>, with the part of regular expressions that the code uses: the
  leftmost match, alternatives in their order, repetition greedy. Strings are those of
  eight-bit characters, so \<open>\d\<close> is an ASCII digit.
\<close>

section \<open>Regular expressions\<close>

datatype rx =
    Lit string
  | Digit
  | Digits
  | Anything
  | Seq rx rx
  | Opt rx
  | Group string rx

definition is_digit :: "char \<Rightarrow> bool" where
  "is_digit c \<longleftrightarrow> 48 \<le> (of_char c :: int) \<and> (of_char c :: int) \<le> 57"

type_synonym captures = "(string \<times> string) list"

text \<open>The non-empty prefixes of characters with a property, the longest first: what is left of each.\<close>

definition greedy :: "(char \<Rightarrow> bool) \<Rightarrow> string \<Rightarrow> (string \<times> captures) list" where
  "greedy P s = map (\<lambda>k. (drop k s, [])) (rev [1..<Suc (length (takeWhile P s))])"

text \<open>All matches at the start of a string, in the order of preference: the rest and the groups.\<close>

fun rx_run :: "rx \<Rightarrow> string \<Rightarrow> (string \<times> captures) list" where
  "rx_run (Lit t) s = (if take (length t) s = t then [(drop (length t) s, [])] else [])"
| "rx_run Digit s = (case s of c # r \<Rightarrow> if is_digit c then [(r, [])] else [] | [] \<Rightarrow> [])"
| "rx_run Digits s = greedy is_digit s"
| "rx_run Anything s = greedy (\<lambda>c. c \<noteq> CHR 0x0A) s"
| "rx_run (Seq a b) s = concat (map (\<lambda>(r, cs). map (\<lambda>(r', cs'). (r', cs @ cs')) (rx_run b r)) (rx_run a s))"
| "rx_run (Opt a) s = rx_run a s @ [(s, [])]"
| "rx_run (Group n a) s = map (\<lambda>(r, cs). (r, (n, take (length s - length r) s) # cs)) (rx_run a s)"

fun rx_search :: "rx \<Rightarrow> string \<Rightarrow> captures option" where
  "rx_search e s = (case rx_run e s of
     (_, cs) # _ \<Rightarrow> Some cs
   | [] \<Rightarrow> (case s of [] \<Rightarrow> None | _ # t \<Rightarrow> rx_search e t))"

declare rx_search.simps [simp del]

text \<open>A match of the whole string, \<^verbatim>\<open>^...$\<close>.\<close>

definition rx_full :: "rx \<Rightarrow> string \<Rightarrow> captures option" where
  "rx_full e s = map_option snd (List.find (\<lambda>(r, _). r = []) (rx_run e s))"

abbreviation rx_seq :: "rx list \<Rightarrow> rx" where
  "rx_seq es \<equiv> foldr Seq es (Lit [])"

section \<open>Versions\<close>

type_synonym version = "u32 \<times> u32 \<times> u32"

definition STABLE :: rx where
  "STABLE = rx_seq [Opt (Seq (Lit ''polkadot-'') (Opt (Lit ''parachain-''))), Lit ''stable'',
     Group ''year'' (Seq Digit Digit), Group ''month'' (Seq Digit Digit),
     Opt (Seq (Lit ''-'') (Group ''patch'' Digits)), Opt (Seq (Lit ''-rc'') Digits)]"

definition VERSION :: rx where
  "VERSION = rx_seq [Lit ''v'', Group ''major'' Digits, Lit ''.'', Group ''minor'' Digits, Lit ''.'',
     Group ''patch'' Digits, Opt (Seq (Lit ''-rc'') Digits)]"

text \<open>\<^verbatim>\<open>str::parse::<u32>\<close> of a string of digits.\<close>

definition digits_val :: "string \<Rightarrow> int" where
  "digits_val s = foldl (\<lambda>n c. 10 * n + (of_char c - 48)) 0 s"

definition parse_u32 :: "string \<Rightarrow> u32 option" where
  "parse_u32 s = (if s \<noteq> [] \<and> list_all is_digit s \<and> digits_val s < 2 ^ 32 then Some (of_int (digits_val s)) else None)"

definition parse_semantic_version :: "string \<Rightarrow> version option" where
  "parse_semantic_version value =
     (if contains value ''-rc'' then None
      else Option.bind (rx_search VERSION value) (\<lambda>v.
        Option.bind (Option.bind (map_of v ''major'') parse_u32) (\<lambda>major.
        Option.bind (Option.bind (map_of v ''minor'') parse_u32) (\<lambda>minor.
        Option.bind (Option.bind (map_of v ''patch'') parse_u32) (\<lambda>patch.
        Some (major, minor, patch))))))"

definition parse_stable_version :: "string \<Rightarrow> version option" where
  "parse_stable_version value =
     (if contains value ''-rc'' then None
      else Option.bind (rx_search STABLE value) (\<lambda>v.
        Option.bind (Option.bind (map_of v ''year'') parse_u32) (\<lambda>year.
        Option.bind (Option.bind (map_of v ''month'') parse_u32) (\<lambda>month.
        Some (year, month, case Option.bind (map_of v ''patch'') parse_u32 of Some p \<Rightarrow> p | None \<Rightarrow> 0)))))"

definition parse_version :: "string \<Rightarrow> version option" where
  "parse_version value = (case parse_stable_version value of
     Some v \<Rightarrow> Some v | None \<Rightarrow> parse_semantic_version value)"

section \<open>The latest tag\<close>

text \<open>\<^verbatim>\<open>max_by\<close>: of several greatest elements, the last.\<close>

fun max_last :: "('a \<Rightarrow> 'b::linorder) \<Rightarrow> 'a list \<Rightarrow> 'a option" where
  "max_last f [] = None"
| "max_last f (x # xs) = Some (foldl (\<lambda>m y. if f m \<le> f y then y else m) x xs)"

definition parse_latest_stable_tag :: "string list \<Rightarrow> string option" where
  "parse_latest_stable_tag tags = map_option fst (max_last snd
     (List.map_filter (\<lambda>tag. map_option (Pair tag) (parse_stable_version tag)) tags))"

definition parse_latest_semantic_version :: "string list \<Rightarrow> string option" where
  "parse_latest_semantic_version items = map_option fst (max_last snd
     (List.map_filter (\<lambda>tag. map_option (Pair tag) (parse_semantic_version tag)) items))"

definition parse_latest_tag :: "string list \<Rightarrow> string option" where
  "parse_latest_tag tags = (case parse_latest_stable_tag tags of
     Some t \<Rightarrow> Some t | None \<Rightarrow> parse_latest_semantic_version tags)"

section \<open>Sorting\<close>

text \<open>\<^verbatim>\<open>std::cmp::Reverse\<close>\<close>

datatype 'a reverse = Reverse (unreverse: 'a)

instantiation reverse :: (linorder) linorder
begin

definition less_eq_reverse :: "'a reverse \<Rightarrow> 'a reverse \<Rightarrow> bool" where
  "less_eq_reverse x y \<longleftrightarrow> unreverse y \<le> unreverse x"

definition less_reverse :: "'a reverse \<Rightarrow> 'a reverse \<Rightarrow> bool" where
  "less_reverse x y \<longleftrightarrow> unreverse y < unreverse x"

instance
proof
  show "x < y \<longleftrightarrow> x \<le> y \<and> \<not> y \<le> x" for x y :: "'a reverse"
    by (auto simp: less_eq_reverse_def less_reverse_def)
  show "x \<le> x" for x :: "'a reverse" by (simp add: less_eq_reverse_def)
  show "x \<le> y \<Longrightarrow> y \<le> z \<Longrightarrow> x \<le> z" for x y z :: "'a reverse"
    by (simp add: less_eq_reverse_def)
  show "x \<le> y \<Longrightarrow> y \<le> x \<Longrightarrow> x = y" for x y :: "'a reverse"
    by (simp add: less_eq_reverse_def reverse.expand)
  show "x \<le> y \<or> y \<le> x" for x y :: "'a reverse"
    by (auto simp: less_eq_reverse_def)
qed

end

definition sorted_by_key :: "('a \<Rightarrow> 'b::linorder) \<Rightarrow> 'a list \<Rightarrow> 'a list" where
  "sorted_by_key f xs = sort_key f xs"

definition sort_by_latest_semantic_version :: "string list \<Rightarrow> string list" where
  "sort_by_latest_semantic_version = sorted_by_key (\<lambda>tag. Reverse (parse_version tag))"

definition sort_by_latest_stable_version :: "string list \<Rightarrow> string list" where
  "sort_by_latest_stable_version = sorted_by_key (\<lambda>tag. Reverse (parse_stable_version tag))"

definition sort_by_latest_version :: "string list \<Rightarrow> string list" where
  "sort_by_latest_version = sorted_by_key (\<lambda>tag. Reverse (parse_version tag))"

section \<open>What sorting and the latest tag are\<close>

text \<open>The sorted versions: the same ones, the greatest first, those that are none last, equal ones in the order given.\<close>

lemma sorted_by_reverse:
  fixes f :: "'a \<Rightarrow> 'b::linorder"
  shows "mset (sorted_by_key (\<lambda>x. Reverse (f x)) xs) = mset xs"
    and "sorted_wrt (\<lambda>x y. f y \<le> f x) (sorted_by_key (\<lambda>x. Reverse (f x)) xs)"
    and "filter (\<lambda>y. f y = k) (sorted_by_key (\<lambda>x. Reverse (f x)) xs) = filter (\<lambda>y. f y = k) xs"
proof -
  show "mset (sorted_by_key (\<lambda>x. Reverse (f x)) xs) = mset xs"
    by (simp add: sorted_by_key_def)
  have "sorted (map (\<lambda>x. Reverse (f x)) (sorted_by_key (\<lambda>x. Reverse (f x)) xs))"
    by (simp add: sorted_by_key_def)
  then show "sorted_wrt (\<lambda>x y. f y \<le> f x) (sorted_by_key (\<lambda>x. Reverse (f x)) xs)"
    by (simp add: sorted_wrt_map less_eq_reverse_def)
  have "filter (\<lambda>y. Reverse (f y) = Reverse k) (sort_key (\<lambda>x. Reverse (f x)) xs) = filter (\<lambda>y. Reverse (f y) = Reverse k) xs"
    by (rule sort_key_stable)
  then show "filter (\<lambda>y. f y = k) (sorted_by_key (\<lambda>x. Reverse (f x)) xs) = filter (\<lambda>y. f y = k) xs"
    by (simp add: sorted_by_key_def)
qed

lemma max_last_fold:
  "foldl (\<lambda>m y. if f m \<le> f y then y else m) x xs \<in> set (x # xs) \<and>
   (\<forall>y \<in> set (x # xs). f y \<le> f (foldl (\<lambda>m y. if f m \<le> f y then y else m) x xs))"
  for f :: "'a \<Rightarrow> 'b::linorder"
proof (induction xs arbitrary: x)
  case (Cons y ys)
  show ?case
    using Cons.IH [of "if f x \<le> f y then y else x"] by (auto split: if_splits)
qed simp

lemma max_last_Some:
  "max_last f xs = Some m \<Longrightarrow> m \<in> set xs \<and> (\<forall>y \<in> set xs. f y \<le> f m)" for f :: "'a \<Rightarrow> 'b::linorder"
  using max_last_fold by (cases xs) fastforce+

lemma max_last_None [simp]: "max_last f xs = None \<longleftrightarrow> xs = []"
  by (cases xs) simp_all

end
