(* ===== verification/Sourcing.thy ===== *)
theory Sourcing
  imports Versions
begin

text \<open>
  Sourcing of binaries, \<^verbatim>\<open>crates/pop-common/src/sourcing/\<close> (\<^verbatim>\<open>mod.rs\<close>, \<^verbatim>\<open>binary.rs\<close>), with the
  releases of a repository from \<^verbatim>\<open>git.rs\<close>. The network, cargo, git and the unpacking of archives are
  arguments; the files of the machine are a map from paths.
\<close>

section \<open>Strings and paths\<close>

text \<open>\<^verbatim>\<open>str::replace\<close> with a pattern that is not empty, and what lies between its occurrences.\<close>

function replace_all :: "string \<Rightarrow> string \<Rightarrow> string \<Rightarrow> string" where
  "replace_all f t s =
     (if f = [] \<or> s = [] then s
      else if take (length f) s = f then t @ replace_all f t (drop (length f) s)
      else hd s # replace_all f t (tl s))"
  by pat_completeness auto
termination by (relation "measure (\<lambda>(_, _, s). length s)") auto

declare replace_all.simps [simp del]

function pieces :: "string \<Rightarrow> string \<Rightarrow> string list" where
  "pieces f s =
     (if f = [] \<or> s = [] then [s]
      else if take (length f) s = f then [] # pieces f (drop (length f) s)
      else (case pieces f (tl s) of p # ps \<Rightarrow> (hd s # p) # ps | [] \<Rightarrow> [[hd s]]))"
  by pat_completeness auto
termination by (relation "measure (\<lambda>(_, s). length s)") auto

declare pieces.simps [simp del]

definition path_join :: "string \<Rightarrow> string \<Rightarrow> string" where
  "path_join a b = (if take 1 b = ''/'' \<or> a = [] then b else if last a = CHR ''/'' then a @ b else a @ ''/'' @ b)"

text \<open>\<^verbatim>\<open>Path::parent\<close> of a path with no doubled or trailing separators, and its last component.\<close>

definition path_parent :: "string \<Rightarrow> string option" where
  "path_parent path = (if path = [] \<or> path = ''/'' then None
     else (case dropWhile (\<lambda>c. c \<noteq> CHR ''/'') (rev path) of
       [] \<Rightarrow> Some [] | [_] \<Rightarrow> Some ''/'' | _ # d \<Rightarrow> Some (rev d)))"

definition path_file_name :: "string \<Rightarrow> string option" where
  "path_file_name path = (let n = rev (takeWhile (\<lambda>c. c \<noteq> CHR ''/'') (rev path))
     in if n \<in> {[], ''.'', ''..''} then None else Some n)"

section \<open>Tag patterns\<close>

definition VERSION_MARK :: string where
  "VERSION_MARK = ''{version}''"

record tag_pattern =
  tp_regex :: rx
  tp_pattern :: string

text \<open>
  The pattern of a tag. All patterns in the code are literal text with at most one \<^verbatim>\<open>{version}\<close>; with
  two the regular expression is invalid (a group named twice) and the code panics.
\<close>

definition tag_pattern_new :: "string \<Rightarrow> tag_pattern option" where
  "tag_pattern_new pattern = (case pieces VERSION_MARK pattern of
     [a] \<Rightarrow> Some \<lparr>tp_regex = Lit a, tp_pattern = pattern\<rparr>
   | [a, b] \<Rightarrow> Some \<lparr>tp_regex = rx_seq [Lit a, Group ''version'' Anything, Lit b], tp_pattern = pattern\<rparr>
   | _ \<Rightarrow> None)"

definition tag_matches :: "tag_pattern \<Rightarrow> string \<Rightarrow> bool" where
  "tag_matches p value \<longleftrightarrow> rx_full (tp_regex p) value \<noteq> None"

definition resolve_tag :: "tag_pattern \<Rightarrow> string \<Rightarrow> string" where
  "resolve_tag p value = (if tag_matches p value then value else replace_all VERSION_MARK value (tp_pattern p))"

definition tag_version :: "tag_pattern \<Rightarrow> string \<Rightarrow> string option" where
  "tag_version p value = Option.bind (rx_full (tp_regex p) value) (\<lambda>c. map_of c ''version'')"

section \<open>Sources\<close>

datatype source_error =
    AnyhowError string
  | ApiError string
  | ArchiveError string
  | HttpError string
  | SourceIO string
  | MissingBinary string
  | UrlParseError string

record archive_file_spec =
  af_name :: string
  af_target :: "string option"
  af_required :: bool

record release_archive =
  ra_owner :: string
  ra_repository :: string
  ra_tag :: "string option"
  ra_tag_pattern :: "tag_pattern option"
  ra_prerelease :: bool
  ra_version_comparator :: "string list \<Rightarrow> string list"
  ra_fallback :: string
  ra_archive :: string
  ra_contents :: "archive_file_spec list"
  ra_latest :: "string option"

record source_code_archive =
  sc_owner :: string
  sc_repository :: string
  sc_reference :: "string option"
  sc_manifest :: "string option"
  sc_package :: string
  sc_artifacts :: "string list"

datatype github_source = ReleaseArchive release_archive | SourceCodeArchive source_code_archive

datatype binary_source =
    Archive string "string list"
  | Git string "string option" "string option" string "string list"
  | GitHubSource github_source
  | UrlSource string string

datatype binary =
    Local string string "string option"
  | Sourced string binary_source string

record release =
  rel_tag_name :: string
  rel_name :: string
  rel_prerelease :: bool
  rel_commit :: "string option"
  rel_published_at :: string

section \<open>The machine\<close>

text \<open>
  The files are a map from paths; a directory exists when something is in it. The directories of
  \<^verbatim>\<open>tempdir()\<close> are on the same machine, and go when the call that made them ends.
\<close>

record stored_file =
  file_content :: bytes
  file_executable :: bool

type_synonym tree = "(string \<times> stored_file) list"

record 'w machine =
  mc_files :: tree
  mc_world :: 'w

text \<open>
  What is outside: the answer to a request (its retries included) and its body, an archive
  unpacked, whether an operation on files succeeds, a clone, what cargo does to the files with
  the given arguments, the JSON of the releases, the order in which a hash map yields its keys.
\<close>

datatype github_answer = Downloaded bytes | NotFound | GithubFails string

datatype io_op = Spool | Chmod string | Rename string string | CopyFile string string | RemoveFile string
  | CreateFile string | CreateDir string | WriteFile string | ReadFile string | Symlink string string | RemoveSymlink string
  | RemoveDirAll string | ReadDir string | Metadata string

record 'w sourcing_env =
  se_send :: "string \<Rightarrow> 'w \<Rightarrow> (source_error + unit) \<times> 'w"
  se_body :: "string \<Rightarrow> 'w \<Rightarrow> (source_error + bytes) \<times> 'w"
  se_github :: "string \<Rightarrow> 'w \<Rightarrow> github_answer \<times> 'w"
  se_releases :: "string \<Rightarrow> 'w \<Rightarrow> (string + release list) \<times> 'w"
  se_tempdir :: "'w \<Rightarrow> (source_error + string) \<times> 'w"
  se_io :: "io_op \<Rightarrow> 'w \<Rightarrow> bool \<times> 'w"
  se_unpack :: "bytes \<Rightarrow> source_error + tree"
  se_clone :: "string \<Rightarrow> string option \<Rightarrow> 'w \<Rightarrow> (source_error + tree) \<times> 'w"
  se_cargo :: "string list \<Rightarrow> tree \<Rightarrow> 'w \<Rightarrow> (source_error + unit) \<times> tree \<times> 'w"
  se_key_order :: "string list \<Rightarrow> string list"

type_synonym ('w, 'a) sourcing = "('w machine, source_error, 'a) prog"

definition on_world :: "('w \<Rightarrow> (source_error + 'a) \<times> 'w) \<Rightarrow> ('w, 'a) sourcing" where
  "on_world m = on_field mc_world (\<lambda>w s. s\<lparr>mc_world := w\<rparr>) m"

definition io_succeeds :: "'w sourcing_env \<Rightarrow> io_op \<Rightarrow> ('w, bool) sourcing" where
  "io_succeeds E op = on_world (\<lambda>w. case se_io E op w of (ok, w') \<Rightarrow> (Inr ok, w'))"

definition io :: "'w sourcing_env \<Rightarrow> io_op \<Rightarrow> ('w, unit) sourcing" where
  "io E op = bindE (io_succeeds E op) (\<lambda>ok. if ok then ret () else fail (SourceIO ''os error''))"

definition within :: "string \<Rightarrow> string \<Rightarrow> bool" where
  "within dir p \<longleftrightarrow> p = dir \<or> starts_with p (dir @ ''/'')"

definition path_exists :: "string \<Rightarrow> 'w machine \<Rightarrow> bool" where
  "path_exists path s \<longleftrightarrow> list_ex (\<lambda>(p, _). within path p) (mc_files s)"

definition put_file :: "string \<Rightarrow> stored_file \<Rightarrow> 'w machine \<Rightarrow> 'w machine" where
  "put_file path f s = s\<lparr>mc_files := alist_insert path f (mc_files s)\<rparr>"

definition put_tree :: "string \<Rightarrow> tree \<Rightarrow> 'w machine \<Rightarrow> 'w machine" where
  "put_tree dir t s = s\<lparr>mc_files := map (\<lambda>(p, f). (path_join dir p, f)) t @ mc_files s\<rparr>"

definition remove_path :: "string \<Rightarrow> 'w machine \<Rightarrow> 'w machine" where
  "remove_path path s = s\<lparr>mc_files := filter (\<lambda>(p, _). \<not> within path p) (mc_files s)\<rparr>"

definition move_path :: "string \<Rightarrow> string \<Rightarrow> 'w machine \<Rightarrow> 'w machine" where
  "move_path src dst s = s\<lparr>mc_files :=
     map (\<lambda>(p, f). (dst @ drop (length src) p, f)) (filter (\<lambda>(p, _). within src p) (mc_files s)) @
     filter (\<lambda>(p, _). \<not> within src p \<and> p \<noteq> dst) (mc_files s)\<rparr>"

definition make_executable :: "string \<Rightarrow> 'w machine \<Rightarrow> 'w machine" where
  "make_executable path s = s\<lparr>mc_files :=
     map (\<lambda>(p, f). (p, if p = path then f\<lparr>file_executable := True\<rparr> else f)) (mc_files s)\<rparr>"

text \<open>The names of the entries of a directory.\<close>

definition read_dir :: "string \<Rightarrow> 'w machine \<Rightarrow> string list" where
  "read_dir dir s = remdups (map (\<lambda>(p, _). takeWhile (\<lambda>c. c \<noteq> CHR ''/'') (drop (length dir + 1) p))
     (filter (\<lambda>(p, _). starts_with p (dir @ ''/'')) (mc_files s)))"

definition with_tempdir :: "'w sourcing_env \<Rightarrow> (string \<Rightarrow> ('w, 'a) sourcing) \<Rightarrow> ('w, 'a) sourcing" where
  "with_tempdir E m = bindE (on_world (se_tempdir E)) (\<lambda>dir s. case m dir s of (r, s') \<Rightarrow> (r, remove_path dir s'))"

text \<open>\<^verbatim>\<open>std::fs::copy\<close>, of a file only.\<close>

definition copy_file :: "'w sourcing_env \<Rightarrow> string \<Rightarrow> string \<Rightarrow> ('w, unit) sourcing" where
  "copy_file E src dst = bindE (gets (\<lambda>s. map_of (mc_files s) src)) (\<lambda>f. case f of
     None \<Rightarrow> fail (SourceIO src)
   | Some f \<Rightarrow> bindE (io E (CopyFile src dst)) (\<lambda>_. modify (put_file dst f)))"

section \<open>Fetching\<close>

definition set_executable_permission :: "'w sourcing_env \<Rightarrow> string \<Rightarrow> ('w, unit) sourcing" where
  "set_executable_permission E path = bindE (io E (Chmod path)) (\<lambda>_. modify (make_executable path))"

text \<open>A file of an archive: made executable and moved, by copying it when it cannot be renamed.\<close>

definition move_or_copy :: "'w sourcing_env \<Rightarrow> string \<Rightarrow> string \<Rightarrow> ('w, unit) sourcing" where
  "move_or_copy E src target =
     bindE (io_succeeds E (Rename src target)) (\<lambda>renamed.
     if renamed then modify (move_path src target)
     else
       bindE (copy_file E src target) (\<lambda>_.
       bindE (io E (RemoveFile src)) (\<lambda>_. modify (remove_path src))))"

definition place_file :: "'w sourcing_env \<Rightarrow> string \<Rightarrow> archive_file_spec \<Rightarrow> ('w, unit) sourcing" where
  "place_file E dir spec =
     bindE (gets (path_exists (path_join dir (af_name spec)))) (\<lambda>found.
     if found then
       bindE (set_executable_permission E (path_join dir (af_name spec))) (\<lambda>_.
       case af_target spec of
         None \<Rightarrow> ret ()
       | Some target \<Rightarrow> move_or_copy E (path_join dir (af_name spec)) target)
     else if af_required spec
       then fail (ArchiveError (''Expected file '' @ CHR 0x27 # af_name spec @ CHR 0x27 # '' in archive, but it was not found.''))
       else ret ())"

definition from_archive :: "'w sourcing_env \<Rightarrow> string \<Rightarrow> archive_file_spec list \<Rightarrow> ('w, unit) sourcing" where
  "from_archive E url contents =
     bindE (on_world (se_send E url)) (\<lambda>_.
     bindE (on_world (se_body E url)) (\<lambda>body.
     bindE (io E Spool) (\<lambda>_.
     with_tempdir E (\<lambda>dir.
       bindE (lift_sum (se_unpack E body)) (\<lambda>unpacked.
       bindE (modify (put_tree dir unpacked)) (\<lambda>_.
       bindE (each (place_file E dir) contents) (\<lambda>_. ret ())))))))"

text \<open>\<open>build\<close>: the arguments of cargo, and the artifacts copied from its target directory.\<close>

definition cargo_args :: "string \<Rightarrow> string \<Rightarrow> bool \<Rightarrow> string list" where
  "cargo_args manifest package optimised =
     [''build'', ''-p'', package, ''--manifest-path'', manifest] @ (if optimised then [''--release''] else [])"

definition target_dir :: "string \<Rightarrow> bool \<Rightarrow> string" where
  "target_dir manifest optimised =
     path_join (case path_parent manifest of Some d \<Rightarrow> d | None \<Rightarrow> [])
       (''target/'' @ (if optimised then ''release'' else ''debug''))"

definition run_cargo :: "'w sourcing_env \<Rightarrow> string list \<Rightarrow> ('w, unit) sourcing" where
  "run_cargo E args = (\<lambda>s. case se_cargo E args (mc_files s) (mc_world s) of
     (r, files, w) \<Rightarrow> (r, s\<lparr>mc_files := files, mc_world := w\<rparr>))"

definition build_package ::
  "'w sourcing_env \<Rightarrow> string \<Rightarrow> string \<Rightarrow> (string \<times> string) list \<Rightarrow> bool \<Rightarrow> ('w, unit) sourcing" where
  "build_package E manifest package artifacts optimised =
     bindE (run_cargo E (cargo_args manifest package optimised)) (\<lambda>_.
     bindE (each (\<lambda>(name, dest). copy_file E (path_join (target_dir manifest optimised) name) dest) artifacts) (\<lambda>_.
     ret ()))"

definition manifest_in :: "string \<Rightarrow> string option \<Rightarrow> string" where
  "manifest_in dir manifest = path_join dir (case manifest of Some m \<Rightarrow> m | None \<Rightarrow> ''Cargo.toml'')"

definition from_git ::
  "'w sourcing_env \<Rightarrow> string \<Rightarrow> string option \<Rightarrow> string option \<Rightarrow> string \<Rightarrow> (string \<times> string) list \<Rightarrow> bool \<Rightarrow>
     ('w, unit) sourcing" where
  "from_git E url reference manifest package artifacts optimised =
     with_tempdir E (\<lambda>dir.
       bindE (on_world (se_clone E url reference)) (\<lambda>cloned.
       bindE (modify (put_tree dir cloned)) (\<lambda>_.
       build_package E (manifest_in dir manifest) package artifacts optimised)))"

text \<open>
  What the reference is, is not known: a branch, a tag and a commit are tried in turn, the next
  one when the answer is that there is none such. The last answer is the result.
\<close>

fun first_found :: "'w sourcing_env \<Rightarrow> string \<Rightarrow> string list \<Rightarrow> ('w, bytes) sourcing" where
  "first_found E url urls =
     bindE (on_world (\<lambda>w. case se_github E url w of (x, w') \<Rightarrow> (Inr x, w'))) (\<lambda>answer.
     case answer of
       Downloaded b \<Rightarrow> ret b
     | GithubFails e \<Rightarrow> fail (ApiError e)
     | NotFound \<Rightarrow> (case urls of [] \<Rightarrow> fail (ApiError ''404 Not Found'') | u # us \<Rightarrow> first_found E u us))"

declare first_found.simps [simp del]

definition github_archive :: "'w sourcing_env \<Rightarrow> string \<Rightarrow> string \<Rightarrow> string option \<Rightarrow> ('w, bytes) sourcing" where
  "github_archive E owner repository reference = (case reference of
     Some r \<Rightarrow>
       (let archive = (\<lambda>kind. ''https://github.com/'' @ owner @ ''/'' @ repository @ ''/archive/'' @ kind @ r @ ''.tar.gz'')
        in first_found E (archive ''refs/heads/'') [archive ''refs/tags/'', archive ''''])
   | None \<Rightarrow> first_found E (''https://api.github.com/repos/'' @ owner @ ''/'' @ repository @ ''/tarball'') [])"

text \<open>The directory to build in: the only entry of the archive, when there is one only.\<close>

definition from_github_archive ::
  "'w sourcing_env \<Rightarrow> string \<Rightarrow> string \<Rightarrow> string option \<Rightarrow> string option \<Rightarrow> string \<Rightarrow> (string \<times> string) list \<Rightarrow> bool \<Rightarrow>
     ('w, unit) sourcing" where
  "from_github_archive E owner repository reference manifest package artifacts optimised =
     bindE (github_archive E owner repository reference) (\<lambda>body.
     bindE (io E Spool) (\<lambda>_.
     with_tempdir E (\<lambda>dir.
       bindE (lift_sum (se_unpack E body)) (\<lambda>unpacked.
       bindE (modify (put_tree dir unpacked)) (\<lambda>_.
       bindE (gets (read_dir dir)) (\<lambda>entries.
       case entries of
         [] \<Rightarrow> fail (ArchiveError ''The downloaded archive does not contain any entries.'')
       | [entry] \<Rightarrow> build_package E (manifest_in (path_join dir entry) manifest) package artifacts optimised
       | _ \<Rightarrow> build_package E (manifest_in dir manifest) package artifacts optimised))))))"

definition from_local_package :: "'w sourcing_env \<Rightarrow> string \<Rightarrow> string \<Rightarrow> bool \<Rightarrow> ('w, unit) sourcing" where
  "from_local_package E manifest package optimised = build_package E manifest package [] optimised"

text \<open>The file is created once the server has answered, and written once the body is there.\<close>

definition download :: "'w sourcing_env \<Rightarrow> string \<Rightarrow> string \<Rightarrow> ('w, unit) sourcing" where
  "download E url dest =
     bindE (on_world (se_send E url)) (\<lambda>_.
     bindE (io E (CreateFile dest)) (\<lambda>_.
     bindE (modify (put_file dest \<lparr>file_content = [], file_executable = False\<rparr>)) (\<lambda>_.
     bindE (on_world (se_body E url)) (\<lambda>body.
     bindE (io E (WriteFile dest)) (\<lambda>_.
     bindE (modify (put_file dest \<lparr>file_content = body, file_executable = False\<rparr>)) (\<lambda>_.
     set_executable_permission E dest))))))"

section \<open>Sourcing\<close>

definition with_suffix :: "string \<Rightarrow> string option \<Rightarrow> string" where
  "with_suffix name suffix = (case suffix of Some v \<Rightarrow> name @ ''-'' @ v | None \<Rightarrow> name)"

text \<open>The version in a tag, or the tag where there is no pattern or it does not match.\<close>

definition version_of_tag :: "tag_pattern option \<Rightarrow> string \<Rightarrow> string" where
  "version_of_tag pattern tag = (case Option.bind pattern (\<lambda>p. tag_version p tag) of Some v \<Rightarrow> v | None \<Rightarrow> tag)"

definition archive_target :: "string \<Rightarrow> release_archive \<Rightarrow> archive_file_spec \<Rightarrow> string" where
  "archive_target cache a spec = path_join cache (with_suffix
     (case af_target spec of Some t \<Rightarrow> t | None \<Rightarrow> af_name spec)
     (map_option (version_of_tag (ra_tag_pattern a)) (ra_tag a)))"

definition source_github :: "'w sourcing_env \<Rightarrow> string \<Rightarrow> bool \<Rightarrow> github_source \<Rightarrow> ('w, unit) sourcing" where
  "source_github E cache optimised g = (case g of
     ReleaseArchive a \<Rightarrow>
       (let base_url = ''https://github.com/'' @ ra_owner a @ ''/'' @ ra_repository a @ ''/releases'';
            url = (case ra_tag a of
              Some tag \<Rightarrow> base_url @ ''/download/'' @ tag @ ''/'' @ ra_archive a
            | None \<Rightarrow> base_url @ ''/latest/download/'' @ ra_archive a)
        in from_archive E url (map (\<lambda>spec. spec\<lparr>af_target := Some (archive_target cache a spec)\<rparr>) (ra_contents a)))
   | SourceCodeArchive a \<Rightarrow>
       from_github_archive E (sc_owner a) (sc_repository a) (sc_reference a) (sc_manifest a) (sc_package a)
         (map (\<lambda>name. (name, path_join cache (with_suffix name (sc_reference a)))) (sc_artifacts a)) optimised)"

definition source_source :: "'w sourcing_env \<Rightarrow> string \<Rightarrow> bool \<Rightarrow> binary_source \<Rightarrow> ('w, unit) sourcing" where
  "source_source E cache optimised src = (case src of
     Archive url contents \<Rightarrow> from_archive E url
       (map (\<lambda>name. \<lparr>af_name = name, af_target = Some (path_join cache name), af_required = True\<rparr>) contents)
   | Git url reference manifest package artifacts \<Rightarrow> from_git E url reference manifest package
       (map (\<lambda>name. (name, path_join cache (with_suffix name reference))) artifacts) optimised
   | GitHubSource g \<Rightarrow> source_github E cache optimised g
   | UrlSource url name \<Rightarrow> download E url (path_join cache name))"

definition source_binary :: "'w sourcing_env \<Rightarrow> bool \<Rightarrow> binary \<Rightarrow> ('w, unit) sourcing" where
  "source_binary E optimised b = (case b of
     Local name path manifest \<Rightarrow> (case manifest of
         None \<Rightarrow> fail (MissingBinary (''The '' @ path @ '' binary cannot be sourced automatically.''))
       | Some m \<Rightarrow> from_local_package E m name optimised)
   | Sourced name src cache \<Rightarrow> source_source E cache optimised src)"

section \<open>Binaries\<close>

fun binary_name :: "binary \<Rightarrow> string" where
  "binary_name (Local name _ _) = name"
| "binary_name (Sourced name _ _) = name"

fun source_version :: "binary_source \<Rightarrow> string option" where
  "source_version (Git _ reference _ _ _) = reference"
| "source_version (GitHubSource (ReleaseArchive a)) = map_option (version_of_tag (ra_tag_pattern a)) (ra_tag a)"
| "source_version (GitHubSource (SourceCodeArchive a)) = sc_reference a"
| "source_version _ = None"

fun binary_version :: "binary \<Rightarrow> string option" where
  "binary_version (Local _ _ _) = None"
| "binary_version (Sourced _ src _) = source_version src"

fun binary_path :: "binary \<Rightarrow> string" where
  "binary_path (Local _ path _) = path"
| "binary_path (Sourced name src cache) = path_join cache (with_suffix name (source_version src))"

fun binary_latest :: "binary \<Rightarrow> string option" where
  "binary_latest (Sourced _ (GitHubSource (ReleaseArchive a)) _) =
     Option.bind (ra_latest a) (\<lambda>tag. case ra_tag_pattern a of None \<Rightarrow> Some tag | Some p \<Rightarrow> tag_version p tag)"
| "binary_latest _ = None"

fun binary_stale :: "binary \<Rightarrow> bool" where
  "binary_stale (Sourced _ (GitHubSource (ReleaseArchive a)) _) =
     (case ra_latest a of Some l \<Rightarrow> ra_tag a \<noteq> Some l | None \<Rightarrow> False)"
| "binary_stale _ = False"

fun use_latest :: "binary \<Rightarrow> binary" where
  "use_latest (Sourced name (GitHubSource (ReleaseArchive a)) cache) =
     Sourced name (GitHubSource (ReleaseArchive
       (case ra_latest a of Some l \<Rightarrow> a\<lparr>ra_tag := Some l\<rparr> | None \<Rightarrow> a))) cache"
| "use_latest b = b"

definition binary_exists :: "binary \<Rightarrow> 'w machine \<Rightarrow> bool" where
  "binary_exists b s = path_exists (binary_path b) s"

text \<open>The version to use: the one specified, the first available one that is cached, or the first.\<close>

definition resolve_version :: "string \<Rightarrow> string option \<Rightarrow> string list \<Rightarrow> string \<Rightarrow> 'w machine \<Rightarrow> string option" where
  "resolve_version name specified available cache s = (case specified of
     Some v \<Rightarrow> Some v
   | None \<Rightarrow> (case List.find (\<lambda>v. path_exists (path_join cache (name @ ''-'' @ v)) s) available of
         Some v \<Rightarrow> Some v
       | None \<Rightarrow> (case available of v # _ \<Rightarrow> Some v | [] \<Rightarrow> None)))"

section \<open>Resolving\<close>

definition api_releases_url :: "string \<Rightarrow> string \<Rightarrow> string" where
  "api_releases_url owner repository = ''https://api.github.com/repos/'' @ owner @ ''/'' @ repository @ ''/releases''"

text \<open>\<open>GitHub::releases\<close>: without the prereleases unless they are wanted, the last published first.\<close>

definition releases :: "'w sourcing_env \<Rightarrow> string \<Rightarrow> string \<Rightarrow> bool \<Rightarrow> 'w \<Rightarrow> (string + release list) \<times> 'w" where
  "releases E owner repository prerelease w =
     (case se_releases E (api_releases_url owner repository) w of
     (Inl e, w') \<Rightarrow> (Inl e, w')
   | (Inr rs, w') \<Rightarrow>
       (Inr (sort_key (\<lambda>r. Reverse (map (\<lambda>c. of_char c :: nat) (rel_published_at r)))
          (filter (\<lambda>r. prerelease \<or> \<not> rel_prerelease r) rs)), w'))"

definition tag_for :: "tag_pattern option \<Rightarrow> string \<Rightarrow> string" where
  "tag_for pattern version = (case pattern of Some p \<Rightarrow> resolve_tag p version | None \<Rightarrow> version)"

text \<open>The versions that are known, with their tags: of the releases, and of the cached files.\<close>

definition release_binaries :: "tag_pattern option \<Rightarrow> release list \<Rightarrow> (string \<times> string) list" where
  "release_binaries pattern rs =
     foldl (\<lambda>m r. alist_insert (version_of_tag pattern (rel_tag_name r)) (rel_tag_name r) m) []
       (case pattern of Some p \<Rightarrow> filter (\<lambda>r. tag_matches p (rel_tag_name r)) rs | None \<Rightarrow> rs)"

definition add_cached ::
  "tag_pattern option \<Rightarrow> string \<Rightarrow> (string \<times> string) list \<Rightarrow> string \<Rightarrow> (string \<times> string) list" where
  "add_cached pattern name m f = (let v = replace_all (name @ ''-'') [] f in alist_insert v (tag_for pattern v) m)"

definition known_binaries ::
  "tag_pattern option \<Rightarrow> string \<Rightarrow> release list \<Rightarrow> string list \<Rightarrow> (string \<times> string) list" where
  "known_binaries pattern name rs files = foldl (add_cached pattern name) (release_binaries pattern rs) files"

definition github_resolve ::
  "'w sourcing_env \<Rightarrow> string \<Rightarrow> string option \<Rightarrow> string \<Rightarrow> (string \<Rightarrow> bool) \<Rightarrow> release_archive \<Rightarrow> 'w machine \<Rightarrow>
     release_archive \<times> 'w machine" where
  "github_resolve E name version cache cache_filter a s =
     (case releases E (ra_owner a) (ra_repository a) (ra_prerelease a) (mc_world s) of (answer, w) \<Rightarrow>
       let s' = s\<lparr>mc_world := w\<rparr>;
           rs = (case answer of
             Inr rs \<Rightarrow> rs
           | Inl _ \<Rightarrow> [\<lparr>rel_tag_name = tag_for (ra_tag_pattern a) (case version of Some v \<Rightarrow> v | None \<Rightarrow> ra_fallback a),
               rel_name = [], rel_prerelease = ra_prerelease a, rel_commit = None, rel_published_at = []\<rparr>]);
           binaries = known_binaries (ra_tag_pattern a) name rs (filter cache_filter (read_dir cache s'));
           specified = map_option (version_of_tag (ra_tag_pattern a)) version;
           versions = ra_version_comparator a (se_key_order E (map fst binaries));
           tag = (case specified of
             None \<Rightarrow> Option.bind (resolve_version name None versions cache s') (map_of binaries)
           | Some v \<Rightarrow> Some (tag_for (ra_tag_pattern a) v));
           latest = (case specified of
             None \<Rightarrow> (case versions of v # _ \<Rightarrow> map_of binaries v | [] \<Rightarrow> None)
           | Some _ \<Rightarrow> None)
       in (a\<lparr>ra_tag := tag, ra_latest := latest\<rparr>, s'))"

definition source_resolve ::
  "'w sourcing_env \<Rightarrow> string \<Rightarrow> string option \<Rightarrow> string \<Rightarrow> (string \<Rightarrow> bool) \<Rightarrow> binary_source \<Rightarrow> 'w machine \<Rightarrow>
     binary_source \<times> 'w machine" where
  "source_resolve E name version cache cache_filter src s = (case src of
     GitHubSource (ReleaseArchive a) \<Rightarrow>
       (case github_resolve E name version cache cache_filter a s of (a', s') \<Rightarrow> (GitHubSource (ReleaseArchive a'), s'))
   | _ \<Rightarrow> (src, s))"

text \<open>\<open>filters::prefix\<close>\<close>

definition prefix_filter :: "string \<Rightarrow> string \<Rightarrow> bool" where
  "prefix_filter candidate pre \<longleftrightarrow> starts_with candidate pre \<and>
     (pre \<noteq> ''polkadot'' \<or> \<not> list_ex (starts_with candidate)
        [''polkadot-execute-worker'', ''polkadot-prepare-worker'', ''polkadot-parachain'', ''polkadot-omni-node''])"

end
