(* ===== verification/Chain_Registry.thy ===== *)
theory Chain_Registry
  imports Sourcing
begin

text \<open>
  What can be launched: the runtimes and binaries known to \<^verbatim>\<open>crates/pop-chains/src/\<close>
  (\<^verbatim>\<open>registry/\<close>, \<^verbatim>\<open>up/chain_specs.rs\<close>, \<^verbatim>\<open>up/relay.rs\<close>, \<^verbatim>\<open>up/chains.rs\<close>, \<^verbatim>\<open>omni_node.rs\<close>,
  \<^verbatim>\<open>accounts.rs\<close>), with the repositories of \<^verbatim>\<open>pop-common/src/git.rs\<close> and the platform of
  \<^verbatim>\<open>pop-common/src/lib.rs\<close>. The names of the chains are ASCII.
\<close>

section \<open>Errors and the environment\<close>

text \<open>The last constructor stands for a panic.\<close>

datatype chains_error =
    UnsupportedPlatform string string
  | UrlParse
  | GitError string
  | UnsupportedCommand string
  | ChainsMissingBinary string
  | ConfigError string
  | NetworkConfigurationError "string list"
  | TomlError
  | ChainsIO
  | OrchestratorError string
  | Panic string

text \<open>
  A \<^verbatim>\<open>url::Url\<close>: its text, host, path, the segments of the path, query and fragment. The parser is
  an argument, as is what is left of a URL without query and fragment.
\<close>

record url =
  u_text :: string
  u_host :: "string option"
  u_path :: string
  u_segments :: "string list option"
  u_query :: "string option"
  u_fragment :: "string option"

text \<open>Values of JSON; a number that is not an integer is kept as its text.\<close>

datatype json = JNull | JBool bool | JNumber int | JFloat string | JString string | JArray "json list" | JObject "(string \<times> json) list"

type_synonym json_map = "(string \<times> json) list"

record 'w chains_env =
  ce_sourcing :: "'w sourcing_env"
  ce_url_parse :: "string \<Rightarrow> url option"
  ce_url_bare :: "url \<Rightarrow> url"
  ce_os :: string
  ce_arch :: string
  ce_ss58 :: "bytes \<Rightarrow> string"

type_synonym ('w, 'a) chains_prog = "('w machine, chains_error, 'a) prog"

section \<open>Platform and repositories\<close>

definition target :: "'w chains_env \<Rightarrow> chains_error + string" where
  "target E =
     (if ce_os E = ''windows'' then Inl (UnsupportedPlatform (ce_arch E) (ce_os E))
      else if ce_arch E = ''aarch64'' then
        Inr (if ce_os E = ''macos'' then ''aarch64-apple-darwin'' else ''aarch64-unknown-linux-gnu'')
      else if ce_arch E = ''x86_64'' \<or> ce_arch E = ''x86'' then
        Inr (if ce_os E = ''macos'' then ''x86_64-apple-darwin'' else ''x86_64-unknown-linux-gnu'')
      else Inl (UnsupportedPlatform (ce_arch E) (ce_os E)))"

definition github_org :: "url \<Rightarrow> chains_error + string" where
  "github_org u = (case u_segments u of
     None \<Rightarrow> Inl (Panic ''repository must have path segments'')
   | Some (s # _) \<Rightarrow> Inr s
   | Some [] \<Rightarrow> Inl (GitError ''the organization (or user) is missing from the github url''))"

definition github_name :: "url \<Rightarrow> chains_error + string" where
  "github_name u = (case u_segments u of
     None \<Rightarrow> Inl (Panic ''repository must have path segments'')
   | Some (_ # s # _) \<Rightarrow> Inr s
   | Some _ \<Rightarrow> Inl (GitError ''the repository name is missing from the github url''))"

definition sum_bind :: "'e + 'a \<Rightarrow> ('a \<Rightarrow> 'e + 'b) \<Rightarrow> 'e + 'b" where
  "sum_bind r f = (case r of Inl e \<Rightarrow> Inl e | Inr x \<Rightarrow> f x)"

lemma sum_bind_Inr [simp]: "sum_bind r f = Inr y \<longleftrightarrow> (\<exists>x. r = Inr x \<and> f x = Inr y)"
  by (auto simp: sum_bind_def split: sum.splits)

definition parse_url :: "'w chains_env \<Rightarrow> string \<Rightarrow> chains_error + url" where
  "parse_url E s = (case ce_url_parse E s of Some u \<Rightarrow> Inr u | None \<Rightarrow> Inl UrlParse)"

definition github_parse :: "'w chains_env \<Rightarrow> string \<Rightarrow> chains_error + (string \<times> string)" where
  "github_parse E s =
     sum_bind (parse_url E s) (\<lambda>u. sum_bind (github_org u) (\<lambda>org. sum_bind (github_name u) (\<lambda>name. Inr (org, name))))"

definition convert_to_ssh_url :: "url \<Rightarrow> string" where
  "convert_to_ssh_url u = ''git@'' @ (case u_host u of Some h \<Rightarrow> h | None \<Rightarrow> ''github.com'') @ '':'' @ tl (u_path u) @ ''.git''"

record repository =
  repo_url :: url
  repo_reference :: "string option"
  repo_package :: string

definition repository_parse :: "'w chains_env \<Rightarrow> string \<Rightarrow> chains_error + repository" where
  "repository_parse E s =
     sum_bind (parse_url E s) (\<lambda>u. let bare = ce_url_bare E u in
       sum_bind (case u_query u of Some q \<Rightarrow> Inr q | None \<Rightarrow> github_name bare) (\<lambda>package.
       Inr \<lparr>repo_url = bare, repo_reference = u_fragment u, repo_package = package\<rparr>))"

section \<open>Sources\<close>

text \<open>\<^verbatim>\<open>TagPattern::from\<close>, which panics on an invalid pattern; the patterns of the code are valid.\<close>

definition pattern_from :: "string \<Rightarrow> tag_pattern" where
  "pattern_from s = the (tag_pattern_new s)"

definition required_file :: "string \<Rightarrow> string option \<Rightarrow> archive_file_spec" where
  "required_file name t = \<lparr>af_name = name, af_target = t, af_required = True\<rparr>"

definition release_source ::
  "string \<Rightarrow> string \<Rightarrow> tag_pattern option \<Rightarrow> (string list \<Rightarrow> string list) \<Rightarrow> string \<Rightarrow> string \<Rightarrow>
     archive_file_spec list \<Rightarrow> binary_source" where
  "release_source owner repository pattern order fallback archive contents = GitHubSource (ReleaseArchive
     \<lparr>ra_owner = owner, ra_repository = repository, ra_tag = None, ra_tag_pattern = pattern, ra_prerelease = False,
      ra_version_comparator = order, ra_fallback = fallback, ra_archive = archive, ra_contents = contents,
      ra_latest = None\<rparr>)"

definition archive_name :: "string \<Rightarrow> string \<Rightarrow> string" where
  "archive_name binary triple = binary @ ''-'' @ triple @ ''.tar.gz''"

definition resolving :: "'w chains_env \<Rightarrow> string \<Rightarrow> string option \<Rightarrow> string \<Rightarrow> binary_source \<Rightarrow> ('w, binary_source) chains_prog" where
  "resolving E name version cache src = (\<lambda>s.
     case source_resolve (ce_sourcing E) name version cache (\<lambda>f. prefix_filter f name) src s of (src', s') \<Rightarrow> (Inr src', s'))"

section \<open>Runtimes of a relay chain\<close>

datatype runtime = Kusama | Paseo | Polkadot | Westend

definition runtimes :: "runtime list" where
  "runtimes = [Kusama, Paseo, Polkadot, Westend]"

fun runtime_name :: "runtime \<Rightarrow> string" where
  "runtime_name Kusama = ''Kusama''"
| "runtime_name Paseo = ''Paseo''"
| "runtime_name Polkadot = ''Polkadot''"
| "runtime_name Westend = ''Westend''"

fun runtime_repository :: "runtime \<Rightarrow> string" where
  "runtime_repository Kusama = ''https://github.com/r0gue-io/polkadot-runtimes''"
| "runtime_repository Paseo = ''https://github.com/r0gue-io/paseo-runtimes''"
| "runtime_repository Polkadot = ''https://github.com/r0gue-io/polkadot-runtimes''"
| "runtime_repository Westend = ''https://github.com/r0gue-io/polkadot''"

fun runtime_chain :: "runtime \<Rightarrow> string" where
  "runtime_chain Kusama = ''kusama-local''"
| "runtime_chain Paseo = ''paseo-local''"
| "runtime_chain Polkadot = ''polkadot-local''"
| "runtime_chain Westend = ''westend-local''"

text \<open>The properties that Westend does not have: reading one is a panic.\<close>

definition runtime_binary :: "runtime \<Rightarrow> string option" where
  "runtime_binary r = (if r = Westend then None else Some ''chain-spec-generator'')"

definition runtime_fallback :: "runtime \<Rightarrow> string option" where
  "runtime_fallback r = (if r = Westend then None else Some ''v1.4.1'')"

definition runtime_from :: "u8 \<Rightarrow> runtime option" where
  "runtime_from value =
     (if value = 0 then Some Kusama else if value = 1 then Some Paseo else if value = 2 then Some Polkadot
      else if value = 3 then Some Westend else None)"

definition from_chain :: "string \<Rightarrow> runtime option" where
  "from_chain chain = List.find (\<lambda>r. ends_with (to_ascii_lowercase chain) (runtime_chain r)) runtimes"

definition runtime_source :: "'w chains_env \<Rightarrow> runtime \<Rightarrow> chains_error + binary_source" where
  "runtime_source E r =
     sum_bind (github_parse E (runtime_repository r)) (\<lambda>(owner, repository).
     case runtime_binary r of
       None \<Rightarrow> Inl (Panic ''expected specification of `Binary` name'')
     | Some binary \<Rightarrow> (case runtime_fallback r of
         None \<Rightarrow> Inl (Panic ''expected specification of `Fallback` release tag'')
       | Some fallback \<Rightarrow>
           sum_bind (target E) (\<lambda>triple.
           Inr (release_source owner repository None sort_by_latest_semantic_version fallback (archive_name binary triple)
             [required_file binary (Some (to_ascii_lowercase (runtime_name r) @ ''-'' @ binary))]))))"

definition chain_spec_generator ::
  "'w chains_env \<Rightarrow> string \<Rightarrow> string option \<Rightarrow> string \<Rightarrow> ('w, binary option) chains_prog" where
  "chain_spec_generator E chain version cache = (case from_chain chain of
     None \<Rightarrow> ret None
   | Some r \<Rightarrow>
       if r = Westend then ret None
       else (case runtime_binary r of
         None \<Rightarrow> fail (Panic ''expected specification of `Binary` name'')
       | Some binary \<Rightarrow>
           (let name = to_ascii_lowercase (runtime_name r) @ ''-'' @ binary in
            bindE (lift_sum (runtime_source E r)) (\<lambda>src.
            bindE (resolving E name version cache src) (\<lambda>src'.
            ret (Some (Sourced name src' cache)))))))"

section \<open>Relay chains\<close>

record relay_chain =
  rc_runtime :: runtime
  rc_binary :: binary
  rc_workers :: "string list"
  rc_chain :: string
  rc_chain_spec_generator :: "binary option"

text \<open>The only relay chain binary, \<^verbatim>\<open>RelayChain::Polkadot\<close>.\<close>

definition RELAY_BINARY :: string where
  "RELAY_BINARY = ''polkadot''"

definition relay_workers :: "string list" where
  "relay_workers = [''polkadot-execute-worker'', ''polkadot-prepare-worker'']"

definition relay_source :: "'w chains_env \<Rightarrow> chains_error + binary_source" where
  "relay_source E =
     sum_bind (github_parse E ''https://github.com/r0gue-io/polkadot'') (\<lambda>(owner, repository).
     sum_bind (target E) (\<lambda>triple.
     Inr (release_source owner repository (Some (pattern_from ''polkadot-{version}'')) sort_by_latest_stable_version
       ''stable2512'' (archive_name RELAY_BINARY triple)
       (map (\<lambda>n. required_file n None) (RELAY_BINARY # relay_workers)))))"

definition relay_from ::
  "'w chains_env \<Rightarrow> string \<Rightarrow> string option \<Rightarrow> string option \<Rightarrow> string \<Rightarrow> string \<Rightarrow> ('w, relay_chain) chains_prog" where
  "relay_from E command version runtime_version chain cache =
     (if ends_with (to_ascii_lowercase command) RELAY_BINARY then
        bindE (lift_sum (relay_source E)) (\<lambda>src.
        bindE (resolving E RELAY_BINARY version cache src) (\<lambda>src'.
        case from_chain chain of
          None \<Rightarrow> fail (UnsupportedCommand (''the relay chain is unsupported: '' @ chain))
        | Some runtime \<Rightarrow>
            bindE (chain_spec_generator E chain runtime_version cache) (\<lambda>generator.
            ret \<lparr>rc_runtime = runtime, rc_binary = Sourced RELAY_BINARY src' cache, rc_workers = relay_workers,
              rc_chain = chain, rc_chain_spec_generator = generator\<rparr>)))
      else fail (UnsupportedCommand (''the relay chain command is unsupported: '' @ command)))"

definition relay_default ::
  "'w chains_env \<Rightarrow> string option \<Rightarrow> string option \<Rightarrow> string \<Rightarrow> string \<Rightarrow> ('w, relay_chain) chains_prog" where
  "relay_default E version runtime_version chain cache = relay_from E RELAY_BINARY version runtime_version chain cache"

section \<open>Registered chains\<close>

datatype chain_kind = AssetHub | BridgeHub | Collectives | Coretime | People | PassetHub | Pop

type_synonym u16 = "16 word"

record registered =
  reg_kind :: chain_kind
  reg_name :: string
  reg_id :: u32
  reg_chain :: string
  reg_port :: "u16 option"

definition system_chain_of :: "chain_kind \<Rightarrow> string \<Rightarrow> u32 \<Rightarrow> runtime \<Rightarrow> registered" where
  "system_chain_of kind name i relay =
     \<lparr>reg_kind = kind, reg_name = name, reg_id = i, reg_chain = name @ ''-'' @ runtime_chain relay, reg_port = None\<rparr>"

definition pop_chain :: "u32 \<Rightarrow> string \<Rightarrow> registered" where
  "pop_chain i chain = \<lparr>reg_kind = Pop, reg_name = ''pop'', reg_id = i, reg_chain = chain, reg_port = None\<rparr>"

fun registered_chains :: "runtime \<Rightarrow> registered list" where
  "registered_chains Kusama =
     [system_chain_of AssetHub ''asset-hub'' 1000 Kusama, system_chain_of BridgeHub ''bridge-hub'' 1002 Kusama,
      system_chain_of Coretime ''coretime'' 1004 Kusama, system_chain_of People ''people'' 1005 Kusama]"
| "registered_chains Paseo =
     [system_chain_of AssetHub ''asset-hub'' 1000 Paseo, system_chain_of Collectives ''collectives'' 1001 Paseo,
      system_chain_of BridgeHub ''bridge-hub'' 1002 Paseo, system_chain_of Coretime ''coretime'' 1004 Paseo,
      system_chain_of People ''people'' 1005 Paseo, system_chain_of PassetHub ''passet-hub'' 1111 Paseo,
      pop_chain 4001 ''pop-devnet-local'']"
| "registered_chains Polkadot =
     [system_chain_of AssetHub ''asset-hub'' 1000 Polkadot, system_chain_of Collectives ''collectives'' 1001 Polkadot,
      system_chain_of BridgeHub ''bridge-hub'' 1002 Polkadot, system_chain_of Coretime ''coretime'' 1004 Polkadot,
      system_chain_of People ''people'' 1005 Polkadot, pop_chain 3395 ''pop-local'']"
| "registered_chains Westend =
     [system_chain_of AssetHub ''asset-hub'' 1000 Westend, system_chain_of Collectives ''collectives'' 1001 Westend,
      system_chain_of BridgeHub ''bridge-hub'' 1002 Westend, system_chain_of Coretime ''coretime'' 1004 Westend,
      system_chain_of People ''people'' 1005 Westend]"

definition SYSTEM_BINARY :: string where
  "SYSTEM_BINARY = ''polkadot-parachain''"

definition kind_binary :: "chain_kind \<Rightarrow> string" where
  "kind_binary kind = (if kind = Pop then ''pop-node'' else SYSTEM_BINARY)"

definition kind_args :: "chain_kind \<Rightarrow> string list option" where
  "kind_args kind = Some (if kind = Pop
     then [''-lpop-api::extension=debug'', ''-lruntime::contracts=trace'', ''-lruntime::revive=trace'',
       ''-lruntime::revive::strace=trace'', ''-lxcm=trace'', ''--enable-offchain-indexing=true'']
     else [''-lxcm=trace''])"

definition system_source :: "'w chains_env \<Rightarrow> chains_error + binary_source" where
  "system_source E =
     sum_bind (target E) (\<lambda>triple.
     Inr (release_source ''r0gue-io'' ''polkadot'' (Some (pattern_from ''polkadot-{version}'')) sort_by_latest_stable_version
       ''stable2512'' (archive_name SYSTEM_BINARY triple) [required_file SYSTEM_BINARY None]))"

definition pop_source :: "'w chains_env \<Rightarrow> chains_error + binary_source" where
  "pop_source E =
     sum_bind (target E) (\<lambda>triple.
     Inr (release_source ''r0gue-io'' ''pop-node'' (Some (pattern_from ''node-{version}'')) sort_by_latest_semantic_version
       ''v0.3.0'' (archive_name (kind_binary Pop) triple) [required_file (kind_binary Pop) None]))"

definition kind_source :: "'w chains_env \<Rightarrow> chain_kind \<Rightarrow> chains_error + binary_source" where
  "kind_source E kind = (if kind = Pop then pop_source E else system_source E)"

definition OMNI_NODE :: string where
  "OMNI_NODE = ''polkadot-omni-node''"

definition omni_node_source :: "'w chains_env \<Rightarrow> chains_error + binary_source" where
  "omni_node_source E =
     sum_bind (github_parse E ''https://github.com/r0gue-io/polkadot'') (\<lambda>(owner, repository).
     sum_bind (target E) (\<lambda>triple.
     Inr (release_source owner repository (Some (pattern_from ''polkadot-{version}'')) sort_by_latest_semantic_version
       ''stable2512-1'' (archive_name OMNI_NODE triple) [required_file OMNI_NODE (Some OMNI_NODE)])))"

definition polkadot_omni_node_generator ::
  "'w chains_env \<Rightarrow> string \<Rightarrow> string option \<Rightarrow> ('w, binary) chains_prog" where
  "polkadot_omni_node_generator E cache version =
     bindE (lift_sum (omni_node_source E)) (\<lambda>src.
     bindE (resolving E OMNI_NODE version cache src) (\<lambda>src'. ret (Sourced OMNI_NODE src' cache)))"

section \<open>Requirements of a chain\<close>

definition sovereign_account :: "u32 \<Rightarrow> string \<Rightarrow> bytes" where
  "sovereign_account i prefix = bytes_of_string prefix @ to_le_bytes 4 i @ replicate 24 0"

definition sibl :: "u32 \<Rightarrow> bytes" where
  "sibl i = sovereign_account i ''sibl''"

definition para_account :: "u32 \<Rightarrow> bytes" where
  "para_account i = sovereign_account i ''para''"

text \<open>An override of genesis state: a change of a JSON object, \<open>None\<close> when it panics.\<close>

type_synonym genesis_override = "json_map \<Rightarrow> json_map option"

definition endow :: "'w chains_env \<Rightarrow> u32 \<Rightarrow> genesis_override" where
  "endow E i genesis = (let endowment = JArray [JString (ce_ss58 E (sibl i)), JNumber 1200000000000000000] in
     case map_of genesis ''balances'' of
       None \<Rightarrow> Some (alist_insert ''balances'' (JObject [(''balances'', JArray [endowment])]) genesis)
     | Some (JObject balances) \<Rightarrow> (case map_of balances ''balances'' of
         None \<Rightarrow> Some (alist_insert ''balances'' (JObject (alist_insert ''balances'' (JArray [endowment]) balances)) genesis)
       | Some (JArray bs) \<Rightarrow>
           Some (alist_insert ''balances'' (JObject (alist_insert ''balances'' (JArray (bs @ [endowment])) balances)) genesis)
       | Some _ \<Rightarrow> None)
     | Some _ \<Rightarrow> None)"

definition requires :: "'w chains_env \<Rightarrow> registered \<Rightarrow> (chain_kind \<times> genesis_override) list option" where
  "requires E c = (if reg_kind c = Pop then Some [(AssetHub, endow E (reg_id c))] else None)"

text \<open>No registered chain has overrides of its own: the default of \<^verbatim>\<open>GenesisOverrides\<close> stands.\<close>

definition own_overrides :: "registered \<Rightarrow> genesis_override option" where
  "own_overrides c = None"

section \<open>Parachains\<close>

record chain_config =
  cc_id :: u32
  cc_binary :: binary
  cc_chain :: "string option"
  cc_chain_spec_generator :: "binary option"

definition chains_system ::
  "'w chains_env \<Rightarrow> u32 \<Rightarrow> string \<Rightarrow> string option \<Rightarrow> string option \<Rightarrow> string \<Rightarrow> string option \<Rightarrow> string \<Rightarrow>
     ('w, chain_config option) chains_prog" where
  "chains_system E i command version runtime_version relay_version chain cache =
     (if command \<noteq> SYSTEM_BINARY then ret None
      else
        bindE (lift_sum (system_source E)) (\<lambda>src.
        bindE (resolving E SYSTEM_BINARY (Some (case version of Some v \<Rightarrow> v | None \<Rightarrow> relay_version)) cache src) (\<lambda>src'.
        bindE (case chain of Some c \<Rightarrow> chain_spec_generator E c runtime_version cache | None \<Rightarrow> ret None) (\<lambda>generator.
        ret (Some \<lparr>cc_id = i, cc_binary = Sourced SYSTEM_BINARY src' cache, cc_chain = chain,
          cc_chain_spec_generator = generator\<rparr>)))))"

definition chains_from ::
  "'w chains_env \<Rightarrow> runtime \<Rightarrow> u32 \<Rightarrow> string \<Rightarrow> string option \<Rightarrow> string option \<Rightarrow> string \<Rightarrow>
     ('w, chain_config option) chains_prog" where
  "chains_from E relay i command version chain cache =
     (case List.find (\<lambda>p. kind_binary (reg_kind p) = command) (registered_chains relay) of
        None \<Rightarrow> ret None
      | Some p \<Rightarrow>
          (let name = kind_binary (reg_kind p) in
           bindE (lift_sum (kind_source E (reg_kind p))) (\<lambda>src.
           bindE (resolving E name version cache src) (\<lambda>src'.
           ret (Some \<lparr>cc_id = i, cc_binary = Sourced name src' cache, cc_chain = chain, cc_chain_spec_generator = None\<rparr>)))))"

end
