(* ===== verification/Zombienet.thy ===== *)
theory Zombienet
  imports Chain_Registry
begin

text \<open>
  Local networks, \<^verbatim>\<open>crates/pop-chains/src/up/mod.rs\<close>: which binaries a network needs, the
  configuration made for a relay chain and its parachains, and the one that is launched. The
  configuration types and the builder of the zombienet crates, TOML, globs, canonical paths and
  the launch itself are arguments.
\<close>

section \<open>Configurations\<close>

record node_config =
  nc_name :: string
  nc_is_validator :: bool
  nc_is_invulnerable :: bool
  nc_is_bootnode :: bool
  nc_command :: "string option"
  nc_subcommand :: "string option"
  nc_args :: "string list"
  nc_env :: "(string \<times> string) list"
  nc_rpc_port :: "u16 option"
  nc_ws_port :: "u16 option"

record relay_config =
  lc_chain :: string
  lc_default_command :: "string option"
  lc_default_args :: "string list"
  lc_nodes :: "node_config list"
  lc_chain_spec_command :: "string option"
  lc_chain_spec_command_is_local :: bool
  lc_chain_spec_path :: "string option"
  lc_chain_spec_command_output_path :: "string option"
  lc_runtime_genesis_patch :: "json option"
  lc_wasm_override :: "string option"

record para_config =
  pc_id :: u32
  pc_chain :: "string option"
  pc_default_command :: "string option"
  pc_default_args :: "string list"
  pc_collators :: "node_config list"
  pc_chain_spec_command :: "string option"
  pc_chain_spec_command_is_local :: bool
  pc_chain_spec_path :: "string option"
  pc_chain_spec_command_output_path :: "string option"
  pc_genesis_overrides :: "json option"
  pc_wasm_override :: "string option"
  pc_is_evm_based :: bool

record hrmp_channel =
  hc_sender :: u32
  hc_recipient :: u32
  hc_max_capacity :: u32
  hc_max_message_size :: u32

record network_config =
  nw_relaychain :: relay_config
  nw_parachains :: "para_config list"
  nw_hrmp_channels :: "hrmp_channel list"

text \<open>
  What is handed to the builder: the fields set, \<open>None\<close> where the code leaves a default of the
  builder alone. A field set twice has the value set last.
\<close>

record node_plan =
  np_name :: string
  np_bootnode :: "bool option"
  np_invulnerable :: "bool option"
  np_validator :: "bool option"
  np_args :: "string list option"
  np_command :: "string option"
  np_env :: "(string \<times> string) list option"
  np_subcommand :: "string option"
  np_rpc_port :: "u16 option"
  np_ws_port :: "u16 option"

record chain_plan =
  cp_id :: "u32 option"
  cp_chain :: "string option"
  cp_default_args :: "string list option"
  cp_default_command :: "string option"
  cp_chain_spec_command :: "string option"
  cp_chain_spec_command_is_local :: bool
  cp_chain_spec_path :: "string option"
  cp_chain_spec_command_output_path :: "string option"
  cp_genesis_overrides :: "json option"
  cp_wasm_override :: "string option"
  cp_evm_based :: "bool option"
  cp_nodes :: "node_plan list"

record network_plan =
  pl_relaychain :: chain_plan
  pl_parachains :: "chain_plan list"
  pl_hrmp_channels :: "hrmp_channel list"
  pl_timeouts :: "(nat \<times> nat) option"

datatype toml = TStr string | TInt int | TArr "toml list" | TTable "(string \<times> toml) list"
  | TTables "(string \<times> toml) list list" | TOther

record 'w zombienet_env = "'w chains_env" +
  ze_build :: "network_plan \<Rightarrow> string list + network_config"
  ze_load_from_toml :: "tree \<Rightarrow> string \<Rightarrow> string + network_config"
  ze_toml :: "bytes \<Rightarrow> (string \<times> toml) list option"
  ze_glob :: "tree \<Rightarrow> string \<Rightarrow> string list"
  ze_canonical :: "tree \<Rightarrow> string \<Rightarrow> string option"
  ze_temp_dir :: string
  ze_passet_hub_spec :: bytes
  ze_spawn_native :: "network_config \<Rightarrow> 'w \<Rightarrow> (string + unit) \<times> 'w"

section \<open>Building a network for chains\<close>

definition VALIDATORS :: "string list" where
  "VALIDATORS = [''alice'', ''bob'', ''charlie'', ''dave'', ''eve'', ''ferdie'']"

definition no_node :: "string \<Rightarrow> node_plan" where
  "no_node name = \<lparr>np_name = name, np_bootnode = None, np_invulnerable = None, np_validator = None, np_args = None,
     np_command = None, np_env = None, np_subcommand = None, np_rpc_port = None, np_ws_port = None\<rparr>"

definition no_chain :: chain_plan where
  "no_chain = \<lparr>cp_id = None, cp_chain = None, cp_default_args = None, cp_default_command = None,
     cp_chain_spec_command = None, cp_chain_spec_command_is_local = False, cp_chain_spec_path = None,
     cp_chain_spec_command_output_path = None, cp_genesis_overrides = None, cp_wasm_override = None,
     cp_evm_based = None, cp_nodes = []\<rparr>"

definition validators_for :: "registered list option \<Rightarrow> string list" where
  "validators_for regs = take (max (case regs of Some cs \<Rightarrow> length cs | None \<Rightarrow> 0) 2) VALIDATORS"

definition relay_plan_for :: "runtime \<Rightarrow> u16 option \<Rightarrow> string list \<Rightarrow> chain_plan" where
  "relay_plan_for relay port validators = no_chain\<lparr>cp_chain := Some (runtime_chain relay),
     cp_nodes := (no_node (hd validators))\<lparr>np_rpc_port := port\<rparr> # map no_node (tl validators)\<rparr>"

text \<open>The overrides of a chain: its own, then what other chains require of it, in their order.\<close>

fun apply_overrides :: "genesis_override list \<Rightarrow> json_map \<Rightarrow> json_map option" where
  "apply_overrides [] g = Some g"
| "apply_overrides (f # fs) g = Option.bind (f g) (apply_overrides fs)"

definition dependencies :: "'w chains_env \<Rightarrow> registered list \<Rightarrow> (chain_kind \<times> genesis_override) list" where
  "dependencies E regs = concat (List.map_filter (requires E) regs)"

definition overrides_for :: "'w chains_env \<Rightarrow> registered list \<Rightarrow> registered \<Rightarrow> json_map option" where
  "overrides_for E regs c = apply_overrides
     ((case own_overrides c of Some f \<Rightarrow> [f] | None \<Rightarrow> []) @
      map snd (filter (\<lambda>(kind, _). kind = reg_kind c) (dependencies E regs))) []"

definition parachain_plan_for :: "registered \<Rightarrow> json_map \<Rightarrow> chain_plan" where
  "parachain_plan_for c overrides = no_chain\<lparr>cp_id := Some (reg_id c), cp_chain := Some (reg_chain c),
     cp_default_command := Some (kind_binary (reg_kind c)),
     cp_genesis_overrides := (if overrides = [] then None else Some (JObject overrides)),
     cp_nodes := [(no_node (reg_name c @ ''-collator''))
       \<lparr>np_args := Some (case kind_args (reg_kind c) of Some args \<Rightarrow> args | None \<Rightarrow> []), np_rpc_port := reg_port c\<rparr>]\<rparr>"

definition channels_between :: "u32 list \<Rightarrow> hrmp_channel list" where
  "channels_between ids = concat (map (\<lambda>s. map (\<lambda>r.
     \<lparr>hc_sender = s, hc_recipient = r, hc_max_capacity = 1000, hc_max_message_size = 8000\<rparr>) (filter (\<lambda>r. s \<noteq> r) ids)) ids)"

fun option_all :: "('a \<Rightarrow> 'b option) \<Rightarrow> 'a list \<Rightarrow> 'b list option" where
  "option_all f [] = Some []"
| "option_all f (x # xs) = Option.bind (f x) (\<lambda>y. map_option (Cons y) (option_all f xs))"

type_synonym network_configuration = "network_config \<times> u32 list"

definition network_plan_for ::
  "'w chains_env \<Rightarrow> runtime \<Rightarrow> u16 option \<Rightarrow> registered list option \<Rightarrow> network_plan option" where
  "network_plan_for E relay port regs = (let cs = (case regs of Some cs \<Rightarrow> cs | None \<Rightarrow> []) in
     map_option (\<lambda>paras.
       \<lparr>pl_relaychain = relay_plan_for relay port (validators_for regs), pl_parachains = paras,
        pl_hrmp_channels = channels_between (map reg_id cs), pl_timeouts = None\<rparr>)
       (option_all (\<lambda>c. map_option (parachain_plan_for c) (overrides_for E cs c)) cs))"

definition build_network ::
  "'w zombienet_env \<Rightarrow> runtime \<Rightarrow> u16 option \<Rightarrow> registered list option \<Rightarrow> chains_error + network_configuration" where
  "build_network E relay port regs = (case network_plan_for (chains_env.truncate E) relay port regs of
     None \<Rightarrow> Inl (Panic ''expected balances'')
   | Some plan \<Rightarrow> (case ze_build E plan of
       Inl e \<Rightarrow> Inl (NetworkConfigurationError e)
     | Inr config \<Rightarrow> Inr (config, [])))"

section \<open>Adapting a configuration\<close>

type_synonym ('w, 'a) zombienet_prog = "('w machine, chains_error, 'a) prog"

definition resolve_path :: "'w zombienet_env \<Rightarrow> string \<Rightarrow> ('w, string) zombienet_prog" where
  "resolve_path E path = bindE (gets mc_files) (\<lambda>files. case ze_canonical E files path of
     Some p \<Rightarrow> ret p
   | None \<Rightarrow> fail (ConfigError (''the canonical path of '' @ path @ '' could not be resolved'')))"

definition build_node_from_source :: "node_config \<Rightarrow> string \<Rightarrow> node_plan" where
  "build_node_from_source source bin =
     \<lparr>np_name = nc_name source, np_bootnode = Some (nc_is_bootnode source),
      np_invulnerable = Some (nc_is_invulnerable source), np_validator = Some (nc_is_validator source),
      np_args = Some (nc_args source), np_command = Some bin, np_env = Some (nc_env source),
      np_subcommand = nc_subcommand source, np_rpc_port = nc_rpc_port source, np_ws_port = nc_ws_port source\<rparr>"

definition generator_command :: "'w zombienet_env \<Rightarrow> binary option \<Rightarrow> ('w, string option) zombienet_prog" where
  "generator_command E generator = (case generator of
     None \<Rightarrow> ret None
   | Some b \<Rightarrow> bindE (resolve_path E (binary_path b)) (\<lambda>p. ret (Some (p @ '' {{chainName}}''))))"

definition later :: "'a option \<Rightarrow> 'a option \<Rightarrow> 'a option" where
  "later old new = (case new of Some x \<Rightarrow> Some x | None \<Rightarrow> old)"

definition adapt_relay :: "relay_config \<Rightarrow> string \<Rightarrow> string option \<Rightarrow> chain_plan" where
  "adapt_relay source bin generator = no_chain
     \<lparr>cp_chain := Some (lc_chain source), cp_default_args := Some (lc_default_args source),
      cp_default_command := Some bin,
      cp_chain_spec_command := later (lc_chain_spec_command source) generator,
      cp_chain_spec_command_is_local := lc_chain_spec_command_is_local source,
      cp_chain_spec_path := lc_chain_spec_path source,
      cp_chain_spec_command_output_path := lc_chain_spec_command_output_path source,
      cp_genesis_overrides := lc_runtime_genesis_patch source, cp_wasm_override := lc_wasm_override source,
      cp_nodes := map (\<lambda>n. build_node_from_source n bin) (lc_nodes source)\<rparr>"

definition is_passet_hub :: "para_config \<Rightarrow> bool" where
  "is_passet_hub source \<longleftrightarrow> (case pc_chain source of Some chain \<Rightarrow> contains chain ''passet-hub'' | None \<Rightarrow> False)"

text \<open>The specification of Passet Hub is written to the directory for temporary files.\<close>

definition passet_hub_path :: "'w zombienet_env \<Rightarrow> string" where
  "passet_hub_path E = path_join (ze_temp_dir E) ''passet-hub-spec.json''"

definition write_passet_hub_spec :: "'w zombienet_env \<Rightarrow> ('w, unit) zombienet_prog" where
  "write_passet_hub_spec E =
     bindE (map_err (\<lambda>_. Panic ''Failed to write passet-hub chain spec'') (io (ce_sourcing E) (WriteFile (passet_hub_path E)))) (\<lambda>_.
     modify (put_file (passet_hub_path E) \<lparr>file_content = ze_passet_hub_spec E, file_executable = False\<rparr>))"

definition adapt_para :: "'w zombienet_env \<Rightarrow> u32 list \<Rightarrow> para_config \<Rightarrow> string \<Rightarrow> string option \<Rightarrow> chain_plan" where
  "adapt_para E evm_based source bin generator = no_chain
     \<lparr>cp_id := Some (pc_id source), cp_chain := pc_chain source, cp_default_args := Some (pc_default_args source),
      cp_default_command := Some bin,
      cp_chain_spec_command := later (pc_chain_spec_command source) (if is_passet_hub source then None else generator),
      cp_chain_spec_command_is_local := pc_chain_spec_command_is_local source,
      cp_chain_spec_path := later (if is_passet_hub source then Some (passet_hub_path E) else None) (pc_chain_spec_path source),
      cp_chain_spec_command_output_path := pc_chain_spec_command_output_path source,
      cp_genesis_overrides := pc_genesis_overrides source, cp_wasm_override := pc_wasm_override source,
      cp_evm_based := Some (pc_id source \<in> set evm_based \<or> pc_is_evm_based source),
      cp_nodes := map (\<lambda>n. build_node_from_source n bin) (pc_collators source)\<rparr>"

definition adapt_parachain ::
  "'w zombienet_env \<Rightarrow> u32 list \<Rightarrow> (u32 \<times> chain_config) list \<Rightarrow> para_config \<Rightarrow> ('w, chain_plan) zombienet_prog" where
  "adapt_parachain E evm_based parachains source = (case map_of parachains (pc_id source) of
     None \<Rightarrow> fail (Panic ''expected parachain existence due to preprocessing'')
   | Some para \<Rightarrow>
       bindE (resolve_path E (binary_path (cc_binary para))) (\<lambda>path.
       bindE (generator_command E (cc_chain_spec_generator para)) (\<lambda>generator.
       bindE (if is_passet_hub source then write_passet_hub_spec E else ret ()) (\<lambda>_.
       if pc_collators source = [] then fail (Panic ''expected at least one collator'')
       else ret (adapt_para E evm_based source path generator)))))"

definition adapt ::
  "'w zombienet_env \<Rightarrow> network_configuration \<Rightarrow> relay_chain \<Rightarrow> (u32 \<times> chain_config) list \<Rightarrow>
     ('w, network_config) zombienet_prog" where
  "adapt E config relay parachains =
     bindE (resolve_path E (binary_path (rc_binary relay))) (\<lambda>path.
     bindE (generator_command E (rc_chain_spec_generator relay)) (\<lambda>generator.
     if lc_nodes (nw_relaychain (fst config)) = [] then fail (Panic ''expected at least one node'')
     else
       bindE (each (adapt_parachain E (snd config) parachains) (nw_parachains (fst config))) (\<lambda>paras.
       case ze_build E \<lparr>pl_relaychain = adapt_relay (nw_relaychain (fst config)) path generator, pl_parachains = paras,
           pl_hrmp_channels = nw_hrmp_channels (fst config), pl_timeouts = Some (1000, 300)\<rparr> of
         Inl e \<Rightarrow> fail (ConfigError (''could not configure network '' @ concat e))
       | Inr adapted \<Rightarrow> ret adapted)))"

section \<open>Configuration files\<close>

definition toml_str :: "toml \<Rightarrow> string option" where
  "toml_str t = (case t of TStr s \<Rightarrow> Some s | _ \<Rightarrow> None)"

text \<open>The parachains whose \<^verbatim>\<open>force_decorator\<close> is the one for EVM based chains.\<close>

definition evm_based_ids :: "(string \<times> toml) list \<Rightarrow> u32 list" where
  "evm_based_ids doc = (case map_of doc ''parachains'' of
     Some (TTables tables) \<Rightarrow> List.map_filter (\<lambda>table.
       if Option.bind (map_of table ''force_decorator'') toml_str = Some ''generic-evm''
       then (case map_of table ''id'' of Some (TInt i) \<Rightarrow> Some (of_int i) | _ \<Rightarrow> None) else None) tables
   | _ \<Rightarrow> [])"

definition read_toml :: "'w zombienet_env \<Rightarrow> string \<Rightarrow> ('w, (string \<times> toml) list) zombienet_prog" where
  "read_toml E path =
     bindE (map_err (\<lambda>_. ChainsIO) (io (ce_sourcing E) (ReadFile path))) (\<lambda>_.
     bindE (gets (\<lambda>s. map_of (mc_files s) path)) (\<lambda>f. case f of
       None \<Rightarrow> fail ChainsIO
     | Some f \<Rightarrow> (case ze_toml E (file_content f) of Some doc \<Rightarrow> ret doc | None \<Rightarrow> fail TomlError)))"

definition config_from_file :: "'w zombienet_env \<Rightarrow> string \<Rightarrow> ('w, network_configuration) zombienet_prog" where
  "config_from_file E path =
     bindE (gets (path_exists path)) (\<lambda>found.
     if \<not> found then fail (ConfigError (''The '' @ path @ '' configuration file was not found''))
     else
       bindE (read_toml E path) (\<lambda>doc.
       bindE (gets mc_files) (\<lambda>files.
       case ze_load_from_toml E files path of
         Inl e \<Rightarrow> fail (ConfigError e)
       | Inr config \<Rightarrow> ret (config, evm_based_ids doc))))"

section \<open>The manifest of a package\<close>

definition matches_package :: "string \<Rightarrow> (string \<times> toml) list \<Rightarrow> bool" where
  "matches_package package doc \<longleftrightarrow> (case map_of doc ''package'' of
     Some (TTable t) \<Rightarrow> Option.bind (map_of t ''name'') toml_str = Some package
   | _ \<Rightarrow> False)"

definition workspace_members :: "(string \<times> toml) list \<Rightarrow> string list" where
  "workspace_members doc = (case map_of doc ''workspace'' of
     Some (TTable t) \<Rightarrow> (case map_of t ''members'' of Some (TArr ms) \<Rightarrow> List.map_filter toml_str ms | _ \<Rightarrow> [])
   | _ \<Rightarrow> [])"

text \<open>Whether some directory has the manifest of the package.\<close>

fun any_manifest :: "'w zombienet_env \<Rightarrow> string \<Rightarrow> string list \<Rightarrow> ('w, bool) zombienet_prog" where
  "any_manifest E package [] = ret False"
| "any_manifest E package (entry # entries) =
     bindE (gets (path_exists (path_join entry ''Cargo.toml''))) (\<lambda>found.
     if \<not> found then any_manifest E package entries
     else
       bindE (read_toml E (path_join entry ''Cargo.toml'')) (\<lambda>doc.
       if matches_package package doc then ret True else any_manifest E package entries))"

definition member_entries :: "'w zombienet_env \<Rightarrow> string \<Rightarrow> (string \<times> toml) list \<Rightarrow> 'w machine \<Rightarrow> string list" where
  "member_entries E path doc s = concat (map (\<lambda>m. ze_glob E (mc_files s) (path_join path m)) (workspace_members doc))"

lemma path_parent_shorter: "path_parent path = Some d \<Longrightarrow> length d < length path"
proof -
  assume d: "path_parent path = Some d"
  let ?r = "dropWhile (\<lambda>c. c \<noteq> CHR ''/'') (rev path)"
  have l: "length ?r \<le> length path" using length_dropWhile_le [of _ "rev path"] by simp
  have p: "path \<noteq> []" "path \<noteq> ''/''" using d by (auto simp: path_parent_def split: if_splits)
  consider "?r = []" | c where "?r = [c]" | c e x where "?r = c # e # x" by (metis list.exhaust)
  then show "length d < length path"
  proof cases
    case 1
    with d p show ?thesis by (simp add: path_parent_def)
  next
    case (2 c)
    have "length path \<noteq> 1"
    proof
      assume "length path = 1"
      then obtain b where "path = [b]" by (auto simp: length_Suc_conv)
      with 2 p show False by (auto split: if_splits)
    qed
    moreover have "d = ''/''" using 2 d p by (simp add: path_parent_def)
    ultimately show ?thesis using p(1) by (cases path) (auto simp: less_Suc_eq_0_disj length_Suc_conv)
  next
    case (3 c e x)
    with d p l show ?thesis by (auto simp: path_parent_def)
  qed
qed

text \<open>The search goes from the path to its ancestors; a member of a workspace is found as the workspace.\<close>

function resolve_manifest :: "'w zombienet_env \<Rightarrow> string \<Rightarrow> string \<Rightarrow> ('w, string option) zombienet_prog" where
  "resolve_manifest E package path =
     bindE (gets (path_exists (path_join path ''Cargo.toml''))) (\<lambda>found.
     bindE (if found
       then bindE (read_toml E (path_join path ''Cargo.toml'')) (\<lambda>doc.
         if matches_package package doc then ret True
         else bindE (gets (member_entries E path doc)) (any_manifest E package))
       else ret False) (\<lambda>stop.
     if stop then ret (Some (path_join path ''Cargo.toml''))
     else (case path_parent path of None \<Rightarrow> ret None | Some p \<Rightarrow> resolve_manifest E package p)))"
  by pat_completeness auto
termination
  by (relation "measure (\<lambda>(_, _, path). length path)") (auto dest: path_parent_shorter)

declare resolve_manifest.simps [simp del]

section \<open>The binaries of a network\<close>

definition from_local :: "'w zombienet_env \<Rightarrow> u32 \<Rightarrow> string \<Rightarrow> string option \<Rightarrow> ('w, chain_config) zombienet_prog" where
  "from_local E i path chain = (case path_file_name path of
     None \<Rightarrow> fail (ConfigError (''unable to determine file name for '' @ path))
   | Some name \<Rightarrow>
       bindE (resolve_manifest E name path) (\<lambda>manifest.
       ret \<lparr>cc_id = i, cc_binary = Local name path manifest, cc_chain = chain, cc_chain_spec_generator = None\<rparr>))"

definition from_repository ::
  "'w zombienet_env \<Rightarrow> u32 \<Rightarrow> repository \<Rightarrow> string option \<Rightarrow> string \<Rightarrow> ('w, chain_config) zombienet_prog" where
  "from_repository E i repo chain cache =
     (let p = repo_package repo;
          config = (\<lambda>src. \<lparr>cc_id = i, cc_binary = Sourced p src cache, cc_chain = chain, cc_chain_spec_generator = None\<rparr>) in
      if map_option to_ascii_lowercase (u_host (repo_url repo)) = Some ''github.com'' then
        bindE (lift_sum (github_parse (chains_env.truncate E) (u_text (repo_url repo)))) (\<lambda>(org, name).
        ret (config (GitHubSource (SourceCodeArchive
          \<lparr>sc_owner = org, sc_repository = name, sc_reference = repo_reference repo, sc_manifest = None,
           sc_package = p, sc_artifacts = [p]\<rparr>))))
      else ret (config (Git (u_text (repo_url repo)) (repo_reference repo) None p [p])))"

definition from_omni_node :: "'w zombienet_env \<Rightarrow> u32 \<Rightarrow> string \<Rightarrow> ('w, chain_config) zombienet_prog" where
  "from_omni_node E i cache =
     bindE (lift_sum (omni_node_source (chains_env.truncate E))) (\<lambda>src.
     ret \<lparr>cc_id = i, cc_binary = Sourced OMNI_NODE src cache, cc_chain = None, cc_chain_spec_generator = None\<rparr>)"

definition profile_directories :: "string list" where
  "profile_directories = [''./target/debug'', ''./target/release'', ''./target/production'']"

definition parachain_command :: "para_config \<Rightarrow> string" where
  "parachain_command p = to_ascii_lowercase (case pc_default_command p of
     Some c \<Rightarrow> c
   | None \<Rightarrow> (case List.map_filter nc_command (pc_collators p) of c # _ \<Rightarrow> c | [] \<Rightarrow> ''polkadot-parachain''))"

text \<open>A parachain that is neither a system chain, nor known, nor from a repository given.\<close>

definition local_parachain ::
  "'w zombienet_env \<Rightarrow> u32 \<Rightarrow> string \<Rightarrow> string option \<Rightarrow> string \<Rightarrow> ('w, chain_config) zombienet_prog" where
  "local_parachain E i command chain cache =
     (if list_ex (starts_with command) [''./'', ''../'', ''/''] then from_local E i command chain
      else if command \<in> set [''parachain-template-node'', ''substrate-contracts-node''] then
        bindE (gets (\<lambda>s. List.find (\<lambda>p. path_exists p s) (map (\<lambda>d. path_join d command) profile_directories))) (\<lambda>found.
        case found of
          Some path \<Rightarrow> from_local E i path chain
        | None \<Rightarrow> fail (ChainsMissingBinary command))
      else if starts_with command OMNI_NODE then from_omni_node E i cache
      else fail (ChainsMissingBinary command))"

text \<open>The reference of the first repository of the package that has one.\<close>

definition repository_version :: "repository list option \<Rightarrow> string \<Rightarrow> string option" where
  "repository_version repos command = Option.bind repos (\<lambda>rs.
     case List.map_filter (\<lambda>r. if repo_package r = command then repo_reference r else None) rs of
       v # _ \<Rightarrow> Some v | [] \<Rightarrow> None)"

definition parachain ::
  "'w zombienet_env \<Rightarrow> relay_chain \<Rightarrow> string option \<Rightarrow> string option \<Rightarrow> repository list option \<Rightarrow> string \<Rightarrow>
     para_config \<Rightarrow> ('w, u32 \<times> chain_config) zombienet_prog" where
  "parachain E relay version runtime_version repos cache p =
     (let i = pc_id p; chain = pc_chain p; command = parachain_command p; C = chains_env.truncate E in
      case binary_version (rc_binary relay) of
        None \<Rightarrow> fail (Panic ''expected relay chain to have version'')
      | Some relay_version \<Rightarrow>
          bindE (chains_system C i command version runtime_version relay_version chain cache) (\<lambda>known.
          case known of
            Some c \<Rightarrow> ret (i, c)
          | None \<Rightarrow>
              bindE (chains_from C (rc_runtime relay) i command (repository_version repos command) chain cache) (\<lambda>known.
              case known of
                Some c \<Rightarrow> ret (i, c)
              | None \<Rightarrow>
                  bindE (case Option.bind repos (List.find (\<lambda>r. command = repo_package r)) of
                    Some repo \<Rightarrow> from_repository E i repo chain cache
                  | None \<Rightarrow> local_parachain E i command chain cache) (\<lambda>c. ret (i, c)))))"

definition parachains ::
  "'w zombienet_env \<Rightarrow> relay_chain \<Rightarrow> string option \<Rightarrow> string option \<Rightarrow> repository list option \<Rightarrow> network_config \<Rightarrow> string \<Rightarrow>
     ('w, (u32 \<times> chain_config) list) zombienet_prog" where
  "parachains E relay version runtime_version repos config cache =
     bindE (each (parachain E relay version runtime_version repos cache) (nw_parachains config)) (\<lambda>cs.
     ret (foldl (\<lambda>m (i, c). alist_insert i c m) [] cs))"

section \<open>The relay chain of a network\<close>

definition unsupported_relay :: "string \<Rightarrow> chains_error" where
  "unsupported_relay command = UnsupportedCommand (''the relay chain command is unsupported: '' @ command)"

text \<open>The first command of a node that is not that of the relay chain.\<close>

definition foreign_command :: "relay_chain \<Rightarrow> node_config list \<Rightarrow> string option" where
  "foreign_command relay nodes =
     List.find (\<lambda>c. to_ascii_lowercase c \<noteq> binary_name (rc_binary relay)) (List.map_filter nc_command nodes)"

definition init_relay_chain ::
  "'w zombienet_env \<Rightarrow> string option \<Rightarrow> string option \<Rightarrow> network_config \<Rightarrow> string \<Rightarrow> ('w, relay_chain) zombienet_prog" where
  "init_relay_chain E version runtime_version config cache =
     (let source = nw_relaychain config; chain = lc_chain source; C = chains_env.truncate E;
          checked = (\<lambda>relay nodes. case foreign_command relay nodes of
            Some c \<Rightarrow> fail (unsupported_relay c) | None \<Rightarrow> ret relay) in
      case lc_default_command source of
        Some command \<Rightarrow> bindE (relay_from C command version runtime_version chain cache) (\<lambda>relay. checked relay (lc_nodes source))
      | None \<Rightarrow> (case List.map_filter nc_command (lc_nodes source) of
          command # _ \<Rightarrow>
            bindE (relay_from C command version runtime_version chain cache) (\<lambda>relay.
            checked relay (tl (dropWhile (\<lambda>n. nc_command n = None) (lc_nodes source))))
        | [] \<Rightarrow> relay_default C version runtime_version chain cache))"

section \<open>A network\<close>

record zombienet =
  zn_network_config :: network_configuration
  zn_relay_chain :: relay_chain
  zn_parachains :: "(u32 \<times> chain_config) list"
  zn_hrmp_channels :: bool

definition zombienet_new ::
  "'w zombienet_env \<Rightarrow> string \<Rightarrow> network_configuration \<Rightarrow> string option \<Rightarrow> string option \<Rightarrow> string option \<Rightarrow> string option \<Rightarrow>
     string list option \<Rightarrow> ('w, zombienet) zombienet_prog" where
  "zombienet_new E cache config relay_version relay_runtime system_version system_runtime given =
     bindE (init_relay_chain E relay_version relay_runtime (fst config) cache) (\<lambda>relay.
     bindE (case given of
       None \<Rightarrow> ret None
     | Some ps \<Rightarrow>
         bindE (each (\<lambda>p. lift_sum (repository_parse (chains_env.truncate E) p)) (filter (\<lambda>p. contains p ''://'') ps)) (\<lambda>repos.
         ret (if repos = [] then None else Some repos))) (\<lambda>repos.
     bindE (parachains E relay system_version (case system_runtime of Some v \<Rightarrow> Some v | None \<Rightarrow> relay_runtime) repos
       (fst config) cache) (\<lambda>paras.
     ret \<lparr>zn_network_config = config, zn_relay_chain = relay, zn_parachains = paras,
       zn_hrmp_channels = (nw_hrmp_channels (fst config) \<noteq> [])\<rparr>)))"

definition zombienet_binaries :: "zombienet \<Rightarrow> binary list" where
  "zombienet_binaries z =
     rc_binary (zn_relay_chain z) # (case rc_chain_spec_generator (zn_relay_chain z) of Some b \<Rightarrow> [b] | None \<Rightarrow> []) @
     concat (map (\<lambda>(_, p). cc_binary p # (case cc_chain_spec_generator p of Some b \<Rightarrow> [b] | None \<Rightarrow> [])) (zn_parachains z))"

section \<open>Launching\<close>

text \<open>The symbolic links of the machine, beside its files: a link exists when what it leads to does.\<close>

type_synonym links = "(string \<times> string) list"

type_synonym ('w, 'a) launch = "('w machine \<times> links, chains_error, 'a) prog"

definition on_machine :: "('w, 'a) zombienet_prog \<Rightarrow> ('w, 'a) launch" where
  "on_machine m = on_field fst (\<lambda>t (_, l). (t, l)) m"

definition entry_exists :: "string \<Rightarrow> 'w machine \<times> links \<Rightarrow> bool" where
  "entry_exists p = (\<lambda>(m, l). case map_of l p of Some t \<Rightarrow> path_exists t m | None \<Rightarrow> path_exists p m)"

definition remove_symlink_file :: "'w zombienet_env \<Rightarrow> string \<Rightarrow> ('w, unit) launch" where
  "remove_symlink_file E p =
     bindE (on_machine (map_err (\<lambda>_. ChainsIO) (io (ce_sourcing E) (RemoveSymlink p)))) (\<lambda>_.
     modify (\<lambda>(m, l). if map_of l p = None then (remove_path p m, l) else (m, filter (\<lambda>(q, _). q \<noteq> p) l)))"

text \<open>A link is not made over something that has the name already, be it a link that leads nowhere.\<close>

definition symlink_file :: "'w zombienet_env \<Rightarrow> string \<Rightarrow> string \<Rightarrow> ('w, unit) launch" where
  "symlink_file E t p =
     bindE (gets (\<lambda>(m, l). map_of l p \<noteq> None \<or> path_exists p m)) (\<lambda>taken.
     if taken then fail ChainsIO
     else
       bindE (on_machine (map_err (\<lambda>_. ChainsIO) (io (ce_sourcing E) (Symlink t p)))) (\<lambda>_.
       modify (\<lambda>(m, l). (m, (p, t) # l))))"

definition link_worker :: "'w zombienet_env \<Rightarrow> string \<Rightarrow> string \<Rightarrow> string \<Rightarrow> ('w, unit) launch" where
  "link_worker E cache version worker =
     bindE (gets (entry_exists (path_join cache worker))) (\<lambda>found.
     bindE (if found then remove_symlink_file E (path_join cache worker) else ret ()) (\<lambda>_.
     symlink_file E (path_join cache (worker @ ''-'' @ version)) (path_join cache worker)))"

definition spawn :: "'w zombienet_env \<Rightarrow> zombienet \<Rightarrow> ('w, unit) launch" where
  "spawn E z = (let relay = zn_relay_chain z; b = rc_binary relay in
     bindE (gets (entry_exists (binary_path b))) (\<lambda>found.
     if \<not> found then fail (ChainsMissingBinary (binary_name b))
     else (case path_parent (binary_path b) of
       None \<Rightarrow> fail (Panic ''expected relay chain binary path to exist'')
     | Some cache \<Rightarrow> (case binary_version b of
         None \<Rightarrow> fail (ChainsMissingBinary (''Could not determine version for `'' @ binary_name b @ ''` binary''))
       | Some version \<Rightarrow>
           bindE (each (link_worker E cache version) (rc_workers relay)) (\<lambda>_.
           bindE (on_machine (adapt E (zn_network_config z) relay (zn_parachains z))) (\<lambda>config.
           on_machine (\<lambda>s. case ze_spawn_native E config (mc_world s) of
             (Inl e, w) \<Rightarrow> (Inl (OrchestratorError e), s\<lparr>mc_world := w\<rparr>)
           | (Inr x, w) \<Rightarrow> (Inr x, s\<lparr>mc_world := w\<rparr>))))))))"

end
