(* ===== verification/Sourcing_Laws.thy ===== *)
theory Sourcing_Laws
  imports Sourcing
begin

text \<open>
  Lemmas on sourcing: what the operations on files keep and make, that a call that succeeds has
  left the files it was asked for, and what the tags and versions of a binary have to do with
  one another.
\<close>

section \<open>Paths\<close>

lemma withinE:
  assumes "within dir p"
  obtains "p = dir" | r where "p = dir @ ''/'' @ r"
proof -
  have "p = (dir @ ''/'') @ drop (length (dir @ ''/'')) p" if "starts_with p (dir @ ''/'')"
    using that unfolding starts_with_def by (metis append_take_drop_id)
  then show thesis
    using assms that by (auto simp: within_def)
qed

lemma withinI [intro]: "within dir (dir @ CHR ''/'' # r)" "within dir dir"
  by (simp_all add: within_def starts_with_def)

lemma within_trans: "within a b \<Longrightarrow> within b p \<Longrightarrow> within a p"
  by (elim withinE) (auto simp: within_def starts_with_def)

lemma within_comparable:
  assumes "within a p" and "within b p"
  shows "within a b \<or> within b a"
  using assms
proof (elim withinE)
  fix x y assume "p = a @ ''/'' @ x" and "p = b @ ''/'' @ y"
  then have "a @ CHR ''/'' # x = b @ CHR ''/'' # y" by simp
  then show ?thesis
    unfolding append_eq_append_conv2
    by (auto simp: append_eq_Cons_conv Cons_eq_append_conv)
qed (auto simp: within_def starts_with_def)

text \<open>Of two paths, none leads to the other.\<close>

definition apart :: "string \<Rightarrow> string \<Rightarrow> bool" where
  "apart d q \<longleftrightarrow> \<not> within d q \<and> \<not> within q d"

lemma apart_inside: "apart d q \<Longrightarrow> within d src \<Longrightarrow> apart src q"
  unfolding apart_def using within_trans within_comparable by blast

lemma apart_entry: "apart src q \<Longrightarrow> within q p \<Longrightarrow> \<not> within src p"
  unfolding apart_def using within_comparable by blast

text \<open>What can name a directory, and what an entry of it.\<close>

definition tidy :: "string \<Rightarrow> bool" where
  "tidy d \<longleftrightarrow> d \<noteq> [] \<and> last d \<noteq> CHR ''/''"

definition relative :: "string \<Rightarrow> bool" where
  "relative n \<longleftrightarrow> take 1 n \<noteq> ''/''"

lemma within_path_join: "tidy d \<Longrightarrow> relative n \<Longrightarrow> within d (path_join d n)"
  by (auto simp: tidy_def relative_def path_join_def)

section \<open>Files\<close>

lemma path_exists_iff: "path_exists q s \<longleftrightarrow> (\<exists>p \<in> fst ` set (mc_files s). within q p)"
  by (auto simp: path_exists_def list_ex_iff case_prod_beta)

lemma path_exists_world [simp]: "path_exists q (s\<lparr>mc_world := w\<rparr>) = path_exists q s"
  by (simp add: path_exists_def)

lemma mc_files_put [simp]: "mc_files (put_file p f s) = alist_insert p f (mc_files s)"
  by (simp add: put_file_def)

lemma mc_world_put [simp]: "mc_world (put_file p f s) = mc_world s"
  by (simp add: put_file_def)

lemma path_exists_put [simp]: "path_exists q (put_file q f s)"
  by (auto simp: path_exists_iff put_file_def)

lemma path_exists_put_other: "path_exists q s \<Longrightarrow> path_exists q (put_file p f s)"
  by (auto simp: path_exists_iff put_file_def)

lemma path_exists_put_tree: "path_exists q s \<Longrightarrow> path_exists q (put_tree d t s)"
  unfolding path_exists_iff put_tree_def by auto

lemma path_exists_executable [simp]: "path_exists q (make_executable p s) = path_exists q s"
proof -
  have "fst ` set (mc_files (make_executable p s)) = fst ` set (mc_files s)"
    by (force simp: make_executable_def)
  then show ?thesis by (simp add: path_exists_iff)
qed

lemma path_exists_remove:
  assumes "path_exists q s" and "apart d q"
  shows "path_exists q (remove_path d s)"
proof -
  obtain p f where p: "(p, f) \<in> set (mc_files s)" "within q p"
    using assms(1) by (auto simp: path_exists_iff)
  then have "(p, f) \<in> set (mc_files (remove_path d s))"
    using apart_entry [OF assms(2)] by (auto simp: remove_path_def)
  with p(2) show ?thesis unfolding path_exists_iff by force
qed

lemma path_exists_move:
  assumes "path_exists src s"
  shows "path_exists dst (move_path src dst s)"
proof -
  obtain p f where p: "(p, f) \<in> set (mc_files s)" "within src p"
    using assms by (auto simp: path_exists_iff)
  then have "(dst @ drop (length src) p, f) \<in> set (mc_files (move_path src dst s))"
    by (force simp: move_path_def)
  moreover have "within dst (dst @ drop (length src) p)"
    using p(2) by (elim withinE) auto
  ultimately show ?thesis unfolding path_exists_iff by force
qed

lemma path_exists_move_other:
  assumes "path_exists q s" and "path_exists src s" and "apart src q"
  shows "path_exists q (move_path src dst s)"
proof -
  obtain p f where p: "(p, f) \<in> set (mc_files s)" "within q p"
    using assms(1) by (auto simp: path_exists_iff)
  show ?thesis
  proof (cases "p = dst")
    case True
    with p(2) path_exists_move [OF assms(2), of dst] show ?thesis
      unfolding path_exists_iff using within_trans by blast
  next
    case False
    then have "(p, f) \<in> set (mc_files (move_path src dst s))"
      using p apart_entry [OF assms(3)] by (auto simp: move_path_def)
    with p(2) show ?thesis unfolding path_exists_iff by force
  qed
qed

section \<open>What the steps keep\<close>

text \<open>A program with which a path that exists goes on existing, whether it succeeds or not.\<close>

definition keeps_path :: "string \<Rightarrow> ('w, 'a) sourcing \<Rightarrow> bool" where
  "keeps_path q m \<longleftrightarrow> (\<forall>s. path_exists q s \<longrightarrow> path_exists q (snd (m s)))"

text \<open>One after which, when it succeeds, the path exists.\<close>

definition makes_path :: "string \<Rightarrow> ('w, 'a) sourcing \<Rightarrow> bool" where
  "makes_path q m \<longleftrightarrow> (\<forall>s x s'. m s = (Inr x, s') \<longrightarrow> path_exists q s')"

named_theorems path_steps \<open>what the steps of sourcing keep\<close>

lemma keeps_bindE [path_steps]:
  "keeps_path q m \<Longrightarrow> (\<And>x. keeps_path q (f x)) \<Longrightarrow> keeps_path q (bindE m f)"
  unfolding keeps_path_def bindE_apply
  by (metis (mono_tags, lifting) old.prod.case snd_conv surj_pair sum.case sum.exhaust)

lemma keeps_ret [path_steps]: "keeps_path q (ret x)" "keeps_path q (fail e)" "keeps_path q (gets g)"
  "keeps_path q (lift_sum r)"
  by (simp_all add: keeps_path_def prog_simps)

lemma keeps_modify: "(\<And>s. path_exists q s \<Longrightarrow> path_exists q (f s)) \<Longrightarrow> keeps_path q (modify f)"
  by (simp add: keeps_path_def prog_simps)

lemma keeps_world [path_steps]: "keeps_path q (on_world m)"
  by (simp add: keeps_path_def on_world_def prog_simps split: prod.splits)

lemma keeps_io [path_steps]: "keeps_path q (io_succeeds E op)" "keeps_path q (io E op)"
proof -
  show "keeps_path q (io_succeeds E op)"
    unfolding io_succeeds_def by (rule keeps_world)
  then show "keeps_path q (io E op)"
    unfolding io_def by (rule keeps_bindE) (simp add: keeps_ret)
qed

lemma keeps_put [path_steps]: "keeps_path q (modify (put_file p f))" "keeps_path q (modify (put_tree d t))"
  "keeps_path q (modify (make_executable p))"
  by (rule keeps_modify; simp add: path_exists_put_other path_exists_put_tree)+

lemma keeps_remove: "apart d q \<Longrightarrow> keeps_path q (modify (remove_path d))"
  by (rule keeps_modify) (rule path_exists_remove)

lemma keeps_copy [path_steps]: "keeps_path q (copy_file E src dst)"
  unfolding copy_file_def by (rule keeps_bindE) (auto intro!: path_steps split: option.splits)

lemma keeps_chmod [path_steps]: "keeps_path q (set_executable_permission E p)"
  unfolding set_executable_permission_def by (intro path_steps)

lemma keeps_each: "(\<And>x. x \<in> set xs \<Longrightarrow> keeps_path q (f x)) \<Longrightarrow> keeps_path q (each f xs)"
  by (induction xs) (auto intro!: path_steps)

lemma makes_bindE: "(\<And>x. makes_path q (f x)) \<Longrightarrow> makes_path q (bindE m f)"
  by (fastforce simp: makes_path_def bindE_Inr)

lemma makes_then_keeps: "makes_path q m \<Longrightarrow> (\<And>x. keeps_path q (f x)) \<Longrightarrow> makes_path q (bindE m f)"
  unfolding makes_path_def keeps_path_def bindE_Inr by (metis snd_conv)

lemma makes_fail: "makes_path q (fail e)"
  by (simp add: makes_path_def prog_simps)

lemma makes_each:
  assumes "x \<in> set xs" and "makes_path q (f x)" and "\<And>y. y \<in> set xs \<Longrightarrow> keeps_path q (f y)"
  shows "makes_path q (each f xs)"
  using assms
proof (induction xs)
  case (Cons y ys)
  show ?case
  proof (cases "x = y")
    case True
    then have "makes_path q (f y)" using Cons.prems(2) by simp
    moreover have "keeps_path q (each f ys)"
      by (rule keeps_each) (simp add: Cons.prems(3))
    ultimately show ?thesis
      by (auto intro!: makes_then_keeps path_steps)
  next
    case False
    then have "makes_path q (each f ys)" using Cons by simp
    then show ?thesis
      by (simp, intro makes_bindE [where m = "f y"] makes_then_keeps path_steps)
  qed
qed simp

lemma makes_put: "makes_path q (modify (put_file q f))"
  by (simp add: makes_path_def prog_simps)

lemma makes_copy: "makes_path q (copy_file E src q)"
  unfolding copy_file_def
  by (rule makes_bindE) (auto intro!: makes_bindE makes_put makes_fail split: option.splits)

section \<open>What sourcing makes\<close>

text \<open>The directories given out for a while have nothing to do with a path.\<close>

definition temporary_apart :: "'w sourcing_env \<Rightarrow> string \<Rightarrow> bool" where
  "temporary_apart E q \<longleftrightarrow> (\<forall>w d w'. se_tempdir E w = (Inr d, w') \<longrightarrow> tidy d \<and> apart d q)"

lemma makes_with_tempdir:
  assumes "temporary_apart E q" and "\<And>d. tidy d \<Longrightarrow> apart d q \<Longrightarrow> makes_path q (m d)"
  shows "makes_path q (with_tempdir E m)"
  unfolding makes_path_def
proof (intro allI impI)
  fix s x s' assume "with_tempdir E m s = (Inr x, s')"
  then obtain d w t where d: "se_tempdir E (mc_world s) = (Inr d, w)"
    and t: "m d (s\<lparr>mc_world := w\<rparr>) = (Inr x, t)" "s' = remove_path d t"
    by (auto simp: with_tempdir_def on_world_def prog_simps split: prod.split_asm sum.split_asm)
  have "tidy d" "apart d q" using assms(1) d unfolding temporary_apart_def by blast+
  with assms(2) t show "path_exists q s'"
    unfolding makes_path_def by (blast intro: path_exists_remove)
qed

lemma move_or_copy_run:
  assumes "se_io E (Rename src target) (mc_world s) = (ok, w)"
  shows "move_or_copy E src target s =
     (if ok then (Inr (), move_path src target (s\<lparr>mc_world := w\<rparr>))
      else bindE (copy_file E src target) (\<lambda>_. bindE (io E (RemoveFile src)) (\<lambda>_. modify (remove_path src)))
        (s\<lparr>mc_world := w\<rparr>))"
  using assms by (simp add: move_or_copy_def io_succeeds_def on_world_def bindE_apply [of "\<lambda>_. _"] prog_simps)

lemma move_or_copy_keeps:
  assumes "apart src q" and "path_exists src s" and "path_exists q s"
  shows "path_exists q (snd (move_or_copy E src target s))"
proof -
  obtain ok w where w: "se_io E (Rename src target) (mc_world s) = (ok, w)" by (meson surj_pair)
  have "keeps_path q (bindE (copy_file E src target) (\<lambda>_. bindE (io E (RemoveFile src)) (\<lambda>_. modify (remove_path src))))"
    using assms(1) by (intro path_steps keeps_remove)
  then show ?thesis
    unfolding move_or_copy_run [OF w] keeps_path_def
    using assms path_exists_move_other [of q "s\<lparr>mc_world := w\<rparr>" src target] by simp
qed

lemma move_or_copy_makes:
  assumes "apart src q" and "path_exists src s" and "move_or_copy E src q s = (Inr x, s')"
  shows "path_exists q s'"
proof -
  obtain ok w where w: "se_io E (Rename src q) (mc_world s) = (ok, w)" by (meson surj_pair)
  have "makes_path q (bindE (copy_file E src q) (\<lambda>_. bindE (io E (RemoveFile src)) (\<lambda>_. modify (remove_path src))))"
    using assms(1) by (intro makes_then_keeps makes_copy path_steps keeps_remove)
  then show ?thesis
    using assms(2,3) path_exists_move [of src "s\<lparr>mc_world := w\<rparr>" q]
    unfolding move_or_copy_run [OF w] makes_path_def by (auto split: if_splits)
qed

lemma chmod_run:
  "set_executable_permission E p s = (r, s') \<Longrightarrow> path_exists q s' = path_exists q s"
  by (auto simp: set_executable_permission_def io_def io_succeeds_def on_world_def prog_simps
      split: prod.splits sum.splits if_splits)

lemma place_file_keeps:
  assumes "tidy d" and "apart d q" and "relative (af_name spec)"
  shows "keeps_path q (place_file E d spec)"
proof -
  let ?src = "path_join d (af_name spec)"
  have a: "apart ?src q"
    by (rule apart_inside [OF assms(2)]) (rule within_path_join [OF assms(1,3)])
  have "path_exists q (snd (place_file E d spec s))" if q: "path_exists q s" for s
  proof (cases "path_exists ?src s")
    case True
    obtain r s' where r: "set_executable_permission E ?src s = (r, s')" by (meson surj_pair)
    have "path_exists q s'" "path_exists ?src s'" using chmod_run [OF r] q True by simp_all
    then have "path_exists q (snd (move_or_copy E ?src target s'))" for target
      by (rule_tac move_or_copy_keeps [OF a])
    with True r \<open>path_exists q s'\<close> show ?thesis
      by (simp add: place_file_def prog_simps split: sum.split option.split)
  qed (use q in \<open>simp add: place_file_def prog_simps\<close>)
  then show ?thesis unfolding keeps_path_def by blast
qed

lemma place_file_makes:
  assumes "tidy d" and "apart d q" and "relative (af_name spec)"
    and "af_target spec = Some q" and "af_required spec"
  shows "makes_path q (place_file E d spec)"
proof -
  let ?src = "path_join d (af_name spec)"
  have a: "apart ?src q"
    by (rule apart_inside [OF assms(2)]) (rule within_path_join [OF assms(1,3)])
  have "path_exists q s'" if "place_file E d spec s = (Inr x, s')" for s x s'
  proof -
    from that assms(4,5) obtain y t where e: "path_exists ?src s"
      and c: "set_executable_permission E ?src s = (Inr y, t)"
      and m: "move_or_copy E ?src q t = (Inr x, s')"
      by (auto simp: place_file_def Inr_simps split: if_splits)
    show ?thesis
      by (rule move_or_copy_makes [OF a _ m]) (simp add: chmod_run [OF c] e)
  qed
  then show ?thesis unfolding makes_path_def by blast
qed

lemma from_archive_makes:
  assumes "temporary_apart E q" and "list_all (\<lambda>spec. relative (af_name spec)) contents"
    and "spec \<in> set contents" and "af_target spec = Some q" and "af_required spec"
  shows "makes_path q (from_archive E url contents)"
proof -
  have r: "relative (af_name y)" if "y \<in> set contents" for y
    using assms(2) that by (simp add: list_all_iff)
  have "makes_path q (each (place_file E d) contents)" if "tidy d" "apart d q" for d
    using that assms(3-5) r
    by (intro makes_each [OF assms(3)] place_file_makes place_file_keeps) auto
  then show ?thesis
    unfolding from_archive_def
    by (intro makes_bindE makes_with_tempdir [OF assms(1)] makes_then_keeps path_steps)
qed

lemma build_package_makes:
  "(name, q) \<in> set artifacts \<Longrightarrow> makes_path q (build_package E manifest package artifacts optimised)"
  unfolding build_package_def
  by (intro makes_bindE makes_then_keeps path_steps, rule makes_each [where x = "(name, q)"])
    (auto intro: makes_copy path_steps)

lemma from_git_makes:
  "temporary_apart E q \<Longrightarrow> (name, q) \<in> set artifacts \<Longrightarrow>
     makes_path q (from_git E url reference manifest package artifacts optimised)"
  unfolding from_git_def by (intro makes_with_tempdir makes_bindE build_package_makes)

lemma from_github_archive_makes:
  assumes "temporary_apart E q" and "(name, q) \<in> set artifacts"
  shows "makes_path q (from_github_archive E owner repository reference manifest package artifacts optimised)"
  unfolding from_github_archive_def
  by (intro makes_bindE makes_with_tempdir [OF assms(1)])
    (auto intro!: makes_fail build_package_makes [OF assms(2)] split: list.split)

lemma download_makes: "makes_path q (download E url q)"
  unfolding download_def
  by (rule makes_bindE, rule makes_bindE, rule makes_then_keeps [OF makes_put], intro path_steps)

end
