(* ===== verification/Resolve_Laws.thy ===== *)
theory Resolve_Laws
  imports Sourcing_Laws
begin

text \<open>
  Lemmas on tags and versions: what the regular expression of a tag pattern matches, that the tag
  of a version gives the version back, and what the tag chosen for a binary is.
\<close>

section \<open>What an expression matches\<close>

text \<open>The pieces of a string around a pattern, put together again.\<close>

fun separated :: "'a list \<Rightarrow> 'a list list \<Rightarrow> 'a list" where
  "separated t [] = []"
| "separated t [p] = p"
| "separated t (p # q # ps) = p @ t @ separated t (q # ps)"

lemma separated_Cons_Cons: "ps \<noteq> [] \<Longrightarrow> separated t ((c # p) # ps) = c # separated t (p # ps)"
  by (cases ps) simp_all

lemma pieces_not_Nil: "pieces f s \<noteq> []"
  by (subst pieces.simps) (auto split: list.splits)

lemma replace_all_pieces: "f \<noteq> [] \<Longrightarrow> replace_all f t s = separated t (pieces f s)"
proof (induction f s rule: pieces.induct)
  case (1 f s)
  consider "s = []" | "s \<noteq> []" "take (length f) s = f" | "s \<noteq> []" "take (length f) s \<noteq> f" by blast
  then show ?case
  proof cases
    case 1
    then show ?thesis by (simp add: pieces.simps [of f "[]"] replace_all.simps [of f t "[]"])
  next
    case 2
    obtain p ps where ps: "pieces f (drop (length f) s) = p # ps"
      using pieces_not_Nil by (metis list.exhaust)
    have "replace_all f t (drop (length f) s) = separated t (pieces f (drop (length f) s))"
      using 1(1) 2 \<open>f \<noteq> []\<close> by simp
    then show ?thesis
      using 2 \<open>f \<noteq> []\<close> ps by (simp add: pieces.simps [of f s] replace_all.simps [of f t s])
  next
    case 3
    obtain p ps where ps: "pieces f (tl s) = p # ps"
      using pieces_not_Nil by (metis list.exhaust)
    have "replace_all f t (tl s) = separated t (pieces f (tl s))"
      using 1(2) 3 \<open>f \<noteq> []\<close> by simp
    then show ?thesis
      using 3 \<open>f \<noteq> []\<close> ps by (cases ps) (simp_all add: pieces.simps [of f s] replace_all.simps [of f t s])
  qed
qed

lemma set_greedy:
  "(r, cs) \<in> set (greedy P s) \<longleftrightarrow> cs = [] \<and> (\<exists>v. v \<noteq> [] \<and> list_all P v \<and> s = v @ r)"
proof
  assume "(r, cs) \<in> set (greedy P s)"
  then obtain k where k: "1 \<le> k" "k \<le> length (takeWhile P s)" "r = drop k s" "cs = []"
    by (auto simp: greedy_def)
  have "take k s = take k (takeWhile P s)"
    using k(2) by (metis append_take_drop_id takeWhile_eq_take take_take min.absorb1)
  then have "list_all P (take k s)"
    by (metis in_set_takeD list_all_iff set_takeWhileD)
  moreover have "take k s \<noteq> []"
    using k(1,2) length_takeWhile_le [of P s] by auto
  ultimately show "cs = [] \<and> (\<exists>v. v \<noteq> [] \<and> list_all P v \<and> s = v @ r)"
    using k(3,4) append_take_drop_id by metis
next
  assume "cs = [] \<and> (\<exists>v. v \<noteq> [] \<and> list_all P v \<and> s = v @ r)"
  then obtain v where v: "cs = []" "v \<noteq> []" "list_all P v" "s = v @ r" by blast
  have "length v \<le> length (takeWhile P s)"
    using v(3,4) by (simp add: list_all_iff)
  then have "length v \<in> set (rev [1..<Suc (length (takeWhile P s))])"
    using v(2) by (auto simp: Suc_le_eq)
  then show "(r, cs) \<in> set (greedy P s)"
    using v unfolding greedy_def set_map by force
qed

text \<open>The expression of a pattern with one place for the version.\<close>

abbreviation one_version :: "string \<Rightarrow> string \<Rightarrow> rx" where
  "one_version a b \<equiv> rx_seq [Lit a, Group ''version'' Anything, Lit b]"

definition one_line :: "string \<Rightarrow> bool" where
  "one_line v \<longleftrightarrow> v \<noteq> [] \<and> list_all (\<lambda>c. c \<noteq> CHR 0x0A) v"

lemma set_one_version:
  "(r, cs) \<in> set (rx_run (one_version a b) s) \<longleftrightarrow>
     (\<exists>v. one_line v \<and> s = a @ v @ b @ r \<and> cs = [(''version'', v)])"
proof -
  have lit: "(r, cs) \<in> set (rx_run (Lit t) s) \<longleftrightarrow> s = t @ r \<and> cs = []" for t s r cs
    by (auto simp: append_eq_conv_conj) (metis append_take_drop_id)
  have seq: "(r, cs) \<in> set (rx_run (Seq e f) s) \<longleftrightarrow>
      (\<exists>r' c c'. (r', c) \<in> set (rx_run e s) \<and> (r, c') \<in> set (rx_run f r') \<and> cs = c @ c')" for e f s r cs
    by force
  have group: "(r, cs) \<in> set (rx_run (Group n e) s) \<longleftrightarrow>
      (\<exists>c. (r, c) \<in> set (rx_run e s) \<and> cs = (n, take (length s - length r) s) # c)" for n e s r cs
    by force
  have any: "(r, cs) \<in> set (rx_run Anything s) \<longleftrightarrow> cs = [] \<and> (\<exists>v. one_line v \<and> s = v @ r)" for s r cs
    by (simp add: set_greedy one_line_def conj_assoc)
  show ?thesis
    by (auto simp del: rx_run.simps simp: seq group lit any)
qed

lemma rx_full_one_version:
  "rx_full (one_version a b) s = Some cs \<longleftrightarrow> (\<exists>v. one_line v \<and> s = a @ v @ b \<and> cs = [(''version'', v)])"
proof
  assume "rx_full (one_version a b) s = Some cs"
  then obtain r where "List.find (\<lambda>(r, _). r = []) (rx_run (one_version a b) s) = Some (r, cs)"
    by (auto simp: rx_full_def simp del: rx_run.simps)
  then have "(r, cs) \<in> set (rx_run (one_version a b) s)" "r = []"
    unfolding find_Some_iff by (metis nth_mem, auto)
  then show "\<exists>v. one_line v \<and> s = a @ v @ b \<and> cs = [(''version'', v)]"
    unfolding set_one_version by simp
next
  assume "\<exists>v. one_line v \<and> s = a @ v @ b \<and> cs = [(''version'', v)]"
  then obtain v where v: "one_line v" "s = a @ v @ b" "cs = [(''version'', v)]" by blast
  then have "([], cs) \<in> set (rx_run (one_version a b) s)"
    unfolding set_one_version by simp
  then have "List.find (\<lambda>(r, _). r = []) (rx_run (one_version a b) s) \<noteq> None"
    unfolding find_None_iff by fastforce
  then obtain r cs' where f: "List.find (\<lambda>(r, _). r = []) (rx_run (one_version a b) s) = Some (r, cs')"
    by fastforce
  then have "(r, cs') \<in> set (rx_run (one_version a b) s)" "r = []"
    unfolding find_Some_iff by (metis nth_mem, auto)
  then have "cs' = cs"
    using v unfolding set_one_version by auto
  with f show "rx_full (one_version a b) s = Some cs"
    by (simp add: rx_full_def del: rx_run.simps)
qed

section \<open>Tags and versions\<close>

text \<open>A pattern with one place for the version.\<close>

definition pattern_of :: "string \<Rightarrow> string \<Rightarrow> tag_pattern \<Rightarrow> bool" where
  "pattern_of a b p \<longleftrightarrow> pieces VERSION_MARK (tp_pattern p) = [a, b] \<and> tp_regex p = one_version a b"

lemma tag_pattern_new_one:
  "tag_pattern_new pattern = Some p \<Longrightarrow> pieces VERSION_MARK pattern = [a, b] \<Longrightarrow> pattern_of a b p"
  by (auto simp: tag_pattern_new_def pattern_of_def)

lemma tag_version_iff:
  assumes "pattern_of a b p"
  shows "tag_version p s = Some v \<longleftrightarrow> one_line v \<and> s = a @ v @ b"
proof -
  have r: "tp_regex p = one_version a b" using assms unfolding pattern_of_def by blast
  show ?thesis
    unfolding tag_version_def r bind_eq_Some_conv rx_full_one_version by auto
qed

lemma tag_matches_iff:
  assumes "pattern_of a b p"
  shows "tag_matches p s \<longleftrightarrow> (\<exists>v. one_line v \<and> s = a @ v @ b)"
proof -
  have r: "tp_regex p = one_version a b" using assms unfolding pattern_of_def by blast
  show ?thesis
    unfolding tag_matches_def r using rx_full_one_version [of a b s] by blast
qed

lemma resolve_tag_new:
  "pattern_of a b p \<Longrightarrow> \<not> tag_matches p v \<Longrightarrow> resolve_tag p v = a @ v @ b"
  by (simp add: resolve_tag_def pattern_of_def replace_all_pieces VERSION_MARK_def)

text \<open>What stays a version when it is made a tag and read again.\<close>

definition is_version :: "tag_pattern option \<Rightarrow> string \<Rightarrow> bool" where
  "is_version pattern v \<longleftrightarrow> version_of_tag pattern (tag_for pattern v) = v"

lemma is_version_None [simp]: "is_version None v"
  by (simp add: is_version_def version_of_tag_def tag_for_def)

lemma is_version_new:
  "pattern_of a b p \<Longrightarrow> one_line v \<Longrightarrow> \<not> tag_matches p v \<Longrightarrow> is_version (Some p) v"
  using tag_version_iff [of a b p "a @ v @ b" v]
  by (simp add: is_version_def version_of_tag_def tag_for_def resolve_tag_new)

section \<open>What is known of the versions of a binary\<close>

text \<open>Every known version is the one its tag gives.\<close>

definition tagged :: "tag_pattern option \<Rightarrow> (string \<times> string) list \<Rightarrow> bool" where
  "tagged pattern m \<longleftrightarrow> (\<forall>v t. map_of m v = Some t \<longrightarrow> version_of_tag pattern t = v)"

lemma tagged_insert: "tagged pattern m \<Longrightarrow> version_of_tag pattern t = v \<Longrightarrow> tagged pattern (alist_insert v t m)"
  by (auto simp: tagged_def)

lemma release_binaries_tagged: "tagged pattern (release_binaries pattern rs)"
proof -
  have step: "tagged pattern m \<Longrightarrow>
      tagged pattern (foldl (\<lambda>m r. alist_insert (version_of_tag pattern (rel_tag_name r)) (rel_tag_name r) m) m xs)" for m xs
    by (induction xs arbitrary: m) (simp_all add: tagged_insert)
  show ?thesis
    unfolding release_binaries_def by (rule step) (simp add: tagged_def)
qed

definition version_in :: "string \<Rightarrow> string \<Rightarrow> string" where
  "version_in name f = replace_all (name @ ''-'') [] f"

lemma known_binaries_tagged:
  assumes "\<And>f. f \<in> set files \<Longrightarrow> is_version pattern (version_in name f)"
  shows "tagged pattern (known_binaries pattern name rs files)"
proof -
  have "tagged pattern m \<Longrightarrow> set xs \<subseteq> set files \<Longrightarrow>
      tagged pattern (foldl (add_cached pattern name) m xs)" for m xs
    using assms
    by (induction xs arbitrary: m) (simp_all add: tagged_insert is_version_def version_in_def add_cached_def Let_def)
  then show ?thesis
    unfolding known_binaries_def by (simp add: release_binaries_tagged)
qed

lemma foldl_alist_keys:
  "fst ` set (foldl (\<lambda>m x. alist_insert (k x) (v x) m) m xs) = fst ` set m \<union> k ` set xs"
  by (induction xs arbitrary: m) auto

lemma known_binaries_keys:
  "fst ` set (known_binaries pattern name rs files) =
     (\<lambda>r. version_of_tag pattern (rel_tag_name r)) `
        {r \<in> set rs. \<forall>p. pattern = Some p \<longrightarrow> tag_matches p (rel_tag_name r)} \<union> version_in name ` set files"
proof -
  have cached: "add_cached pattern name = (\<lambda>m f. alist_insert (version_in name f) (tag_for pattern (version_in name f)) m)"
    by (simp add: add_cached_def version_in_def Let_def fun_eq_iff)
  show ?thesis
    unfolding known_binaries_def release_binaries_def cached foldl_alist_keys
    by (auto split: option.splits)
qed

lemma read_dir_exists:
  assumes "f \<in> set (read_dir dir s)" and "tidy dir"
  shows "path_exists (path_join dir f) s"
proof -
  obtain e where e: "e \<in> set (mc_files s)" "starts_with (fst e) (dir @ ''/'')"
    and fe: "f = takeWhile (\<lambda>c. c \<noteq> CHR ''/'') (drop (length dir + 1) (fst e))"
    using assms(1) unfolding read_dir_def case_prod_beta by fastforce
  define p where "p = fst e"
  have p: "p \<in> fst ` set (mc_files s)" "starts_with p (dir @ ''/'')"
    and f: "f = takeWhile (\<lambda>c. c \<noteq> CHR ''/'') (drop (length dir + 1) p)"
    using e fe by (simp_all add: p_def)
  define r where "r = drop (length dir + 1) p"
  have pr: "p = dir @ ''/'' @ r"
    using p(2) unfolding starts_with_def r_def by (metis append.assoc append_take_drop_id length_append length_Cons list.size(3) One_nat_def)
  have fr: "take 1 f \<noteq> ''/''"
    unfolding f r_def [symmetric] by (cases r) auto
  then have j: "path_join dir f = dir @ ''/'' @ f"
    using assms(2) by (auto simp: path_join_def tidy_def)
  have "r = f \<or> (\<exists>x. r = f @ CHR ''/'' # x)"
  proof (cases "dropWhile (\<lambda>c. c \<noteq> CHR ''/'') r")
    case Nil
    then have "takeWhile (\<lambda>c. c \<noteq> CHR ''/'') r = r" by (simp add: dropWhile_eq_Nil_conv takeWhile_eq_all_conv)
    then show ?thesis unfolding f r_def by metis
  next
    case (Cons c x)
    then have "c = CHR ''/''" using hd_dropWhile [of "\<lambda>c. c \<noteq> CHR ''/''" r] by simp
    with Cons show ?thesis using takeWhile_dropWhile_id [of "\<lambda>c. c \<noteq> CHR ''/''" r] unfolding f r_def by metis
  qed
  then have "within (path_join dir f) p"
    unfolding j pr by (auto simp: within_def starts_with_def)
  with p(1) show ?thesis unfolding path_exists_iff by blast
qed

text \<open>With a version available that is cached, the version resolved is one, and known.\<close>

lemma resolve_version_cached:
  assumes "v \<in> set available" and "path_exists (path_join cache (name @ ''-'' @ v)) s"
  obtains v' where "resolve_version name None available cache s = Some v'" "v' \<in> set available"
    "path_exists (path_join cache (name @ ''-'' @ v')) s"
proof -
  have "List.find (\<lambda>v. path_exists (path_join cache (name @ ''-'' @ v)) s) available \<noteq> None"
    using assms by (auto simp: find_None_iff)
  then obtain v' where "List.find (\<lambda>v. path_exists (path_join cache (name @ ''-'' @ v)) s) available = Some v'"
    by blast
  with find_SomeD [OF this] that show thesis by (simp add: resolve_version_def)
qed

section \<open>What resolving gives\<close>

lemma resolve_version_world [simp]:
  "resolve_version name specified available cache (s\<lparr>mc_world := w\<rparr>) = resolve_version name specified available cache s"
  by (simp add: resolve_version_def split: option.split)

lemma read_dir_world [simp]: "read_dir dir (s\<lparr>mc_world := w\<rparr>) = read_dir dir s"
  by (simp add: read_dir_def)

text \<open>The versions to choose from, the preferred one first.\<close>

definition candidates ::
  "'w sourcing_env \<Rightarrow> string \<Rightarrow> string \<Rightarrow> (string \<Rightarrow> bool) \<Rightarrow> release_archive \<Rightarrow> release list \<Rightarrow> 'w machine \<Rightarrow> string list" where
  "candidates E name cache cache_filter a rs s =
     ra_version_comparator a (se_key_order E (map fst
       (known_binaries (ra_tag_pattern a) name rs (filter cache_filter (read_dir cache s)))))"

lemma releases_run:
  "releases E owner repository prerelease w = (Inr rs, w') \<Longrightarrow>
   fst (se_releases E (api_releases_url owner repository) w) = Inr all \<Longrightarrow>
   r \<in> set rs \<longleftrightarrow> r \<in> set all \<and> (prerelease \<or> \<not> rel_prerelease r)"
  by (auto simp: releases_def split: prod.splits sum.splits)

lemma releases_error:
  "releases E owner repository prerelease w = (Inl e, w') \<Longrightarrow>
   fst (se_releases E (api_releases_url owner repository) w) = Inl e"
  by (auto simp: releases_def split: prod.splits sum.splits)

text \<open>Resolving with no version asked for, given the releases.\<close>

definition resolves_to ::
  "'w sourcing_env \<Rightarrow> string \<Rightarrow> string \<Rightarrow> (string \<Rightarrow> bool) \<Rightarrow> release_archive \<Rightarrow> 'w machine \<Rightarrow> release list \<Rightarrow>
     release_archive \<Rightarrow> bool" where
  "resolves_to E name cache cache_filter a s rs a' \<longleftrightarrow>
     ra_tag_pattern a' = ra_tag_pattern a \<and>
     ra_tag a' = Option.bind (resolve_version name None (candidates E name cache cache_filter a rs s) cache s)
       (map_of (known_binaries (ra_tag_pattern a) name rs (filter cache_filter (read_dir cache s)))) \<and>
     ra_latest a' = (case candidates E name cache cache_filter a rs s of
       v # _ \<Rightarrow> map_of (known_binaries (ra_tag_pattern a) name rs (filter cache_filter (read_dir cache s))) v | [] \<Rightarrow> None)"

lemma github_resolve_None:
  assumes "github_resolve E name None cache cache_filter a s = (a', s')"
  obtains rs where "mc_files s' = mc_files s" "resolves_to E name cache cache_filter a s rs a'"
    "\<And>all. fst (se_releases E (api_releases_url (ra_owner a) (ra_repository a)) (mc_world s)) = Inr all \<Longrightarrow>
       set rs = {r \<in> set all. ra_prerelease a \<or> \<not> rel_prerelease r}"
proof -
  obtain answer w where answer: "releases E (ra_owner a) (ra_repository a) (ra_prerelease a) (mc_world s) = (answer, w)"
    by (meson surj_pair)
  define rs where "rs = (case answer of
      Inr rs \<Rightarrow> rs
    | Inl _ \<Rightarrow> [\<lparr>rel_tag_name = tag_for (ra_tag_pattern a) (ra_fallback a), rel_name = [],
        rel_prerelease = ra_prerelease a, rel_commit = None, rel_published_at = []\<rparr>])"
  have rs: "set rs = {r \<in> set all. ra_prerelease a \<or> \<not> rel_prerelease r}"
    if all: "fst (se_releases E (api_releases_url (ra_owner a) (ra_repository a)) (mc_world s)) = Inr all" for all
  proof (cases answer)
    case (Inl e)
    with releases_error answer all show ?thesis by (metis sum.distinct(1))
  next
    case (Inr xs)
    with releases_run [OF answer [unfolded Inr] all] show ?thesis by (auto simp: rs_def)
  qed
  have "resolves_to E name cache cache_filter a s rs a' \<and> mc_files s' = mc_files s"
    using assms answer by (cases answer) (auto simp: github_resolve_def Let_def candidates_def rs_def resolves_to_def split: list.split)
  then show thesis
    using rs by (intro that [of rs]) blast+
qed

section \<open>What the comparator puts first\<close>

lemma set_sort_by_latest_version [simp]: "set (sort_by_latest_version vs) = set vs"
  by (simp add: sort_by_latest_version_def sorted_by_key_def)

lemma sort_by_latest_version_first:
  "sort_by_latest_version vs = w # ws \<Longrightarrow> v \<in> set vs \<Longrightarrow> parse_version v \<le> parse_version w"
  using sorted_by_reverse(2) [of parse_version vs] set_sort_by_latest_version [of vs]
  by (auto simp: sort_by_latest_version_def)

end
