(* ===== verification/Sourcing_Properties.thy ===== *)
theory Sourcing_Properties
  imports Resolve_Laws
begin

text \<open>
  The properties of versions, of sourcing binaries and of resolving which one to use, with the
  machines on which they are tried.
\<close>

section \<open>Versions\<close>

text \<open>
  The latest of a list of tags is one of them; when some tag is a stable release, it is one
  and no stable release of the list is later, and when none is but some tag is a semantic version,
  the same holds of the semantic versions. With neither there is no latest tag, and a release
  candidate is never one.
\<close>

theorem latest_tag_is_greatest:
  "case parse_latest_tag tags of
     Some t \<Rightarrow> t \<in> set tags \<and> \<not> contains t ''-rc'' \<and>
       (case parse_stable_version t of
          Some v \<Rightarrow> (\<forall>t' \<in> set tags. parse_stable_version t' \<le> Some v)
        | None \<Rightarrow> (\<forall>t' \<in> set tags. parse_stable_version t' = None \<and>
            parse_semantic_version t' \<le> parse_semantic_version t) \<and> parse_semantic_version t \<noteq> None)
   | None \<Rightarrow> (\<forall>t \<in> set tags. parse_version t = None)"
proof -
  define best where "best p = map_option fst (max_last snd
     (List.map_filter (\<lambda>t. map_option (Pair t) (p t)) tags))" for p :: "string \<Rightarrow> version option"
  have stable_best: "parse_latest_stable_tag tags = best parse_stable_version"
    and semantic_best: "parse_latest_semantic_version tags = best parse_semantic_version"
    by (simp_all add: parse_latest_stable_tag_def parse_latest_semantic_version_def best_def)
  have some: "t \<in> set tags \<and> (\<exists>v. p t = Some v) \<and> (\<forall>t' \<in> set tags. p t' \<le> p t)"
    if best: "best p = Some t" for p t
  proof -
    obtain m where m: "max_last snd (List.map_filter (\<lambda>t. map_option (Pair t) (p t)) tags) = Some m" "fst m = t"
      using best unfolding best_def map_option_eq_Some by blast
    define v where "v = snd m"
    have "m = (t, v)" using m(2) by (simp add: v_def prod_eq_iff)
    note m = m(1) [unfolded this]
    from max_last_Some [OF m] have t: "t \<in> set tags" "p t = Some v"
      and le: "\<And>t' v'. t' \<in> set tags \<Longrightarrow> p t' = Some v' \<Longrightarrow> v' \<le> v"
      by (force simp: map_filter_def)+
    have "p t' \<le> p t" if "t' \<in> set tags" for t'
      using le [OF that] t(2) by (cases "p t'") simp_all
    with t show ?thesis by blast
  qed
  have none: "\<forall>t \<in> set tags. p t = None" if "best p = None" for p
  proof
    fix t assume "t \<in> set tags"
    with that show "p t = None"
      by (cases "p t") (auto simp: best_def map_filter_def filter_empty_conv)
  qed
  have rc: "\<not> contains t ''-rc''" if "parse_stable_version t \<noteq> None \<or> parse_semantic_version t \<noteq> None" for t
    using that by (auto simp: parse_stable_version_def parse_semantic_version_def split: if_splits)
  show ?thesis
  proof (cases "best parse_stable_version")
    case (Some t)
    then have "parse_latest_tag tags = Some t"
      by (simp add: parse_latest_tag_def stable_best)
    with some [OF Some] rc [of t] show ?thesis by auto
  next
    case stable: None
    show ?thesis
    proof (cases "best parse_semantic_version")
      case (Some t)
      then have "parse_latest_tag tags = Some t"
        using stable by (simp add: parse_latest_tag_def stable_best semantic_best)
      with some [OF Some] none [OF stable] rc [of t] show ?thesis by auto
    next
      case None
      then have "parse_latest_tag tags = None"
        using stable by (simp add: parse_latest_tag_def stable_best semantic_best)
      with none [OF None] none [OF stable] show ?thesis by (simp add: parse_version_def)
    qed
  qed
qed

definition sample_tags :: "string list" where
  "sample_tags = [''polkadot-stable2409'', ''polkadot-stable2409-1'', ''polkadot-stable2407-11'', ''polkadot-v1.10.0'',
     ''v1.15.1-rc2'', ''polkadot-stable2412-rc1'', ''LICENSE'']"

theorem latest_tag_is_greatest_witness:
  "parse_latest_tag sample_tags = Some ''polkadot-stable2409-1'' \<and>
   list_all (\<lambda>t. parse_stable_version t \<le> Some (24, 9, 1)) sample_tags"
proof -
  have l: "parse_latest_tag sample_tags = Some ''polkadot-stable2409-1''" by code_simp
  have v: "parse_stable_version ''polkadot-stable2409-1'' = Some (24, 9, 1)" by code_simp
  from latest_tag_is_greatest [of sample_tags, unfolded l option.case v] l show ?thesis
    unfolding list_all_iff by blast
qed

text \<open>
  A tag pattern with one place for the version is a way to write versions: the tag of a
  version (a string of one line that is not a tag already) is the pattern with the version in its
  place, the version is read back from it, and a tag made once is not made a tag again.
\<close>

theorem tag_round_trip:
  assumes "tag_pattern_new pattern = Some p" and "pieces VERSION_MARK pattern = [a, b]"
    and "one_line v" and "\<not> tag_matches p v"
  shows "resolve_tag p v = a @ v @ b \<and> tag_version p (resolve_tag p v) = Some v \<and>
     resolve_tag p (resolve_tag p v) = resolve_tag p v"
proof -
  have p: "pattern_of a b p" by (rule tag_pattern_new_one [OF assms(1,2)])
  have "tag_matches p (a @ v @ b)"
    using assms(3) tag_matches_iff [OF p] by blast
  then show ?thesis
    using resolve_tag_new [OF p assms(4)] tag_version_iff [OF p, of "a @ v @ b" v] assms(3)
    by (simp add: resolve_tag_def)
qed

definition polkadot_pattern :: tag_pattern where
  "polkadot_pattern = the (tag_pattern_new ''polkadot-{version}'')"

lemma polkadot_pattern_new: "tag_pattern_new ''polkadot-{version}'' = Some polkadot_pattern"
  by code_simp

theorem tag_round_trip_witness:
  "resolve_tag polkadot_pattern ''stable2512'' = ''polkadot-'' @ ''stable2512'' @ [] \<and>
   tag_version polkadot_pattern (resolve_tag polkadot_pattern ''stable2512'') = Some ''stable2512'' \<and>
   resolve_tag polkadot_pattern (resolve_tag polkadot_pattern ''stable2512'') = resolve_tag polkadot_pattern ''stable2512''"
proof (rule tag_round_trip [OF polkadot_pattern_new])
  show "pieces VERSION_MARK ''polkadot-{version}'' = [''polkadot-'', []]" by code_simp
  show "one_line ''stable2512''" by code_simp
  show "\<not> tag_matches polkadot_pattern ''stable2512''" by code_simp
qed

section \<open>Sourcing\<close>

text \<open>The files of a source, under the name of the binary; a local package is built where it is.\<close>

definition provides :: "string \<Rightarrow> binary_source \<Rightarrow> bool" where
  "provides name src = (case src of
     Archive url contents \<Rightarrow> name \<in> set contents \<and> list_all relative contents
   | Git url reference manifest package artifacts \<Rightarrow> name \<in> set artifacts
   | GitHubSource (ReleaseArchive a) \<Rightarrow>
       list_all (\<lambda>spec. relative (af_name spec)) (ra_contents a) \<and>
       list_ex (\<lambda>spec. af_required spec \<and> (case af_target spec of Some t \<Rightarrow> t | None \<Rightarrow> af_name spec) = name) (ra_contents a)
   | GitHubSource (SourceCodeArchive a) \<Rightarrow> name \<in> set (sc_artifacts a)
   | UrlSource url n \<Rightarrow> n = name)"

lemma source_makes:
  assumes "provides name src" and "temporary_apart E (binary_path (Sourced name src cache))"
  shows "makes_path (binary_path (Sourced name src cache)) (source_source E cache optimised src)"
proof (cases src)
  case (Archive url contents)
  then have q: "path_join cache name = binary_path (Sourced name src cache)"
    by (simp add: with_suffix_def)
  have t: "temporary_apart E (path_join cache name)" using assms(2) q by simp
  have "makes_path (path_join cache name) (source_source E cache optimised src)"
    unfolding Archive source_source_def binary_source.case
    by (rule from_archive_makes [OF t, where spec = "\<lparr>af_name = name, af_target = Some (path_join cache name), af_required = True\<rparr>"])
      (use assms(1) Archive in \<open>auto simp: provides_def list_all_iff\<close>)
  then show ?thesis by (simp add: q)
next
  case (Git url reference manifest package artifacts)
  then show ?thesis
    using assms by (auto simp: source_source_def provides_def intro!: from_git_makes)
next
  case (GitHubSource g)
  show ?thesis
  proof (cases g)
    case (ReleaseArchive a)
    from assms(1) obtain spec where spec: "spec \<in> set (ra_contents a)" "af_required spec"
      and name: "(case af_target spec of Some t \<Rightarrow> t | None \<Rightarrow> af_name spec) = name"
      and r: "list_all (\<lambda>spec. relative (af_name spec)) (ra_contents a)"
      by (auto simp: provides_def GitHubSource ReleaseArchive list_ex_iff)
    have q: "archive_target cache a spec = binary_path (Sourced name src cache)"
      by (simp add: archive_target_def name GitHubSource ReleaseArchive)
    have t: "temporary_apart E (archive_target cache a spec)" using assms(2) q by simp
    have "makes_path (archive_target cache a spec) (source_source E cache optimised src)"
      unfolding GitHubSource ReleaseArchive source_source_def source_github_def Let_def
        binary_source.case github_source.case
      by (rule from_archive_makes [OF t, where spec = "spec\<lparr>af_target := Some (archive_target cache a spec)\<rparr>"])
        (use spec r in \<open>auto simp: list_all_iff\<close>)
    then show ?thesis by (simp add: q)
  next
    case (SourceCodeArchive a)
    then show ?thesis
      using assms GitHubSource
      by (auto simp: source_source_def source_github_def provides_def intro!: from_github_archive_makes)
  qed
next
  case (UrlSource url n)
  then show ?thesis
    using assms(1) by (simp add: source_source_def provides_def with_suffix_def download_makes)
qed

text \<open>
  A machine to try it on: the archive of a release unpacks to two files, the releases are those
  given, every operation on files succeeds, and a connection breaks off after \<^verbatim>\<open>broken\<close>.
\<close>

definition a_file :: stored_file where
  "a_file = \<lparr>file_content = [1, 2, 3], file_executable = False\<rparr>"

definition sample_env :: "release list option \<Rightarrow> unit sourcing_env" where
  "sample_env rs = \<lparr>
     se_send = \<lambda>url w. (Inr (), w),
     se_body = \<lambda>url w. (if url = ''broken'' then Inl (HttpError ''connection reset'') else Inr [7], w),
     se_github = \<lambda>url w. (NotFound, w),
     se_releases = \<lambda>url w. (case rs of Some rs \<Rightarrow> Inr rs | None \<Rightarrow> Inl ''rate limit'', w),
     se_tempdir = \<lambda>w. (Inr ''/tmp/x'', w),
     se_io = \<lambda>op w. (True, w),
     se_unpack = \<lambda>b. Inr [(''polkadot'', a_file), (''LICENSE'', a_file)],
     se_clone = \<lambda>url reference w. (Inr [], w),
     se_cargo = \<lambda>args files w. (Inr (), files, w),
     se_key_order = rev\<rparr>"

definition sample_archive :: release_archive where
  "sample_archive = \<lparr>ra_owner = ''r0gue-io'', ra_repository = ''polkadot'', ra_tag = Some ''polkadot-stable2512'',
     ra_tag_pattern = Some polkadot_pattern, ra_prerelease = False, ra_version_comparator = sort_by_latest_version,
     ra_fallback = ''stable2412'', ra_archive = ''polkadot.tar.gz'',
     ra_contents = [\<lparr>af_name = ''polkadot'', af_target = None, af_required = True\<rparr>], ra_latest = None\<rparr>"

definition sample_machine :: "unit machine" where
  "sample_machine = \<lparr>mc_files = [(''/cache/polkadot-stable2503'', a_file), (''/cache/polkadot-stable2506'', a_file),
     (''/cache/polkadot-parachain-stable2512'', a_file)], mc_world = ()\<rparr>"



text \<open>
  C26: A download that breaks off after the server has answered returns the error and leaves an
  empty file behind that counts as the binary: from then on the binary exists, and is not
  executable, although it was never there before.
\<close>

theorem interrupted_download_counts_as_sourced:
  assumes "se_send E url (mc_world s) = (Inr (), w)" and "se_io E (CreateFile (path_join cache name)) w = (True, w')"
    and "se_body E url w' = (Inl e, w'')"
  shows "\<exists>s'. source_binary E optimised (Sourced name (UrlSource url name) cache) s = (Inl e, s') \<and>
     binary_exists (Sourced name (UrlSource url name) cache) s' \<and>
     map_of (mc_files s') (path_join cache name) = Some \<lparr>file_content = [], file_executable = False\<rparr>"
  using assms
  by (simp add: source_binary_def source_source_def download_def binary_exists_def with_suffix_def io_def
      io_succeeds_def on_world_def prog_simps)

theorem interrupted_download_counts_as_sourced_witness:
  "\<not> binary_exists (Sourced ''node'' (UrlSource ''broken'' ''node'') ''/cache'') sample_machine \<and>
   (\<exists>s'. source_binary (sample_env None) True (Sourced ''node'' (UrlSource ''broken'' ''node'') ''/cache'') sample_machine =
       (Inl (HttpError ''connection reset''), s') \<and>
     binary_exists (Sourced ''node'' (UrlSource ''broken'' ''node'') ''/cache'') s' \<and>
     map_of (mc_files s') (path_join ''/cache'' ''node'') = Some \<lparr>file_content = [], file_executable = False\<rparr>)"
proof
  show "\<not> binary_exists (Sourced ''node'' (UrlSource ''broken'' ''node'') ''/cache'') sample_machine"
    by code_simp
  show "\<exists>s'. source_binary (sample_env None) True (Sourced ''node'' (UrlSource ''broken'' ''node'') ''/cache'') sample_machine =
       (Inl (HttpError ''connection reset''), s') \<and>
     binary_exists (Sourced ''node'' (UrlSource ''broken'' ''node'') ''/cache'') s' \<and>
     map_of (mc_files s') (path_join ''/cache'' ''node'') = Some \<lparr>file_content = [], file_executable = False\<rparr>"
    by (rule interrupted_download_counts_as_sourced) (simp_all add: sample_env_def)
qed

section \<open>Resolving\<close>

lemma sample_cache_named:
  "list_all (\<lambda>f. prefix_filter f ''polkadot'' \<longrightarrow>
     is_version (ra_tag_pattern sample_archive) (version_in ''polkadot'' f)) (read_dir ''/cache'' sample_machine)"
proof -
  have "read_dir ''/cache'' sample_machine = [''polkadot-stable2503'', ''polkadot-stable2506'', ''polkadot-parachain-stable2512'']"
    by code_simp
  moreover have "is_version (ra_tag_pattern sample_archive) (version_in ''polkadot'' ''polkadot-stable2503'')"
    "is_version (ra_tag_pattern sample_archive) (version_in ''polkadot'' ''polkadot-stable2506'')"
    "\<not> prefix_filter ''polkadot-parachain-stable2512'' ''polkadot''"
    by code_simp+
  ultimately show ?thesis by simp
qed

text \<open>
  With no version asked for and one in the cache, a binary that is there is used, whatever
  the releases of the repository are and also when they cannot be had: when a file that the
  filter accepts is named after a version of the binary, the source that comes out of resolving
  is one whose binary exists already. The orders of the hash map and of the comparator keep the
  versions, and the files that the filter accepts are named after versions.
\<close>

theorem cached_version_resolved:
  assumes "github_resolve E name None cache cache_filter a s = (a', s')"
    and "\<And>vs. set (se_key_order E vs) = set vs" and "\<And>vs. set (ra_version_comparator a vs) = set vs"
    and "tidy cache" and "f \<in> set (read_dir cache s)" and "cache_filter f"
    and "f = name @ ''-'' @ version_in name f"
    and "list_all (\<lambda>f. cache_filter f \<longrightarrow> is_version (ra_tag_pattern a) (version_in name f)) (read_dir cache s)"
  shows "binary_exists (Sourced name (GitHubSource (ReleaseArchive a')) cache) s'"
proof -
  obtain rs where files: "mc_files s' = mc_files s" and to: "resolves_to E name cache cache_filter a s rs a'"
    by (rule github_resolve_None [OF assms(1)])
  let ?B = "known_binaries (ra_tag_pattern a) name rs (filter cache_filter (read_dir cache s))"
  have keys: "set (candidates E name cache cache_filter a rs s) = fst ` set ?B"
    by (simp add: candidates_def assms(2,3))
  have "version_in name f \<in> set (candidates E name cache cache_filter a rs s)"
    using assms(5,6) unfolding keys known_binaries_keys by auto
  moreover have "path_exists (path_join cache (name @ ''-'' @ version_in name f)) s"
    using read_dir_exists [OF assms(5,4)] assms(7) by metis
  ultimately obtain v where v: "resolve_version name None (candidates E name cache cache_filter a rs s) cache s = Some v"
    "v \<in> fst ` set ?B" "path_exists (path_join cache (name @ ''-'' @ v)) s"
    unfolding keys [symmetric] by (rule resolve_version_cached)
  then obtain t where t: "map_of ?B v = Some t"
    by (metis domD dom_map_of_conv_image_fst)
  have "tagged (ra_tag_pattern a) ?B"
    by (rule known_binaries_tagged) (use assms(8) in \<open>auto simp: list_all_iff\<close>)
  then have "version_of_tag (ra_tag_pattern a) t = v"
    using t unfolding tagged_def by blast
  then show ?thesis
    using v(1,3) t files to by (simp add: resolves_to_def binary_exists_def with_suffix_def path_exists_def)
qed

theorem cached_version_resolved_witness:
  "\<exists>a' s'. github_resolve (sample_env None) ''polkadot'' None ''/cache'' (\<lambda>f. prefix_filter f ''polkadot'') sample_archive
       sample_machine = (a', s') \<and>
     binary_exists (Sourced ''polkadot'' (GitHubSource (ReleaseArchive a')) ''/cache'') s'"
proof -
  let ?r = "github_resolve (sample_env None) ''polkadot'' None ''/cache'' (\<lambda>f. prefix_filter f ''polkadot'') sample_archive
       sample_machine"
  have "binary_exists (Sourced ''polkadot'' (GitHubSource (ReleaseArchive (fst ?r))) ''/cache'') (snd ?r)"
  proof (rule cached_version_resolved [where f = "''polkadot-stable2503''"])
    show "?r = (fst ?r, snd ?r)" by simp
    show "set (se_key_order (sample_env None) vs) = set vs" for vs by (simp add: sample_env_def)
    show "set (ra_version_comparator sample_archive vs) = set vs" for vs by (simp add: sample_archive_def)
    show "tidy ''/cache''" by code_simp
    show "''polkadot-stable2503'' \<in> set (read_dir ''/cache'' sample_machine)" by code_simp
    show "prefix_filter ''polkadot-stable2503'' ''polkadot''" by code_simp
    show "''polkadot-stable2503'' = ''polkadot'' @ ''-'' @ version_in ''polkadot'' ''polkadot-stable2503''" by code_simp
    show "list_all (\<lambda>f. prefix_filter f ''polkadot'' \<longrightarrow>
        is_version (ra_tag_pattern sample_archive) (version_in ''polkadot'' f)) (read_dir ''/cache'' sample_machine)"
      by (rule sample_cache_named)
  qed
  then show ?thesis by (intro exI [of _ "fst ?r"] exI [of _ "snd ?r"] conjI) (rule surjective_pairing)
qed


definition sample_releases :: "release list" where
  "sample_releases = map (\<lambda>t. \<lparr>rel_tag_name = t, rel_name = t, rel_prerelease = False, rel_commit = None,
     rel_published_at = ''2025''\<rparr>) [''polkadot-stable2506'', ''polkadot-stable2509'', ''v1.0.0'']"


end
