(* ===== verification/Zombienet_Properties.thy ===== *)
theory Zombienet_Properties
  imports Zombienet Sourcing_Properties
begin

text \<open>
  The properties of local networks: what is built for chains, which binaries are needed and that
  they can be sourced, how a configuration is adapted, and the ways it fails.
\<close>

section \<open>Building\<close>

lemma option_all_Some: "option_all f xs = Some ys \<longleftrightarrow> list_all2 (\<lambda>x y. f x = Some y) xs ys"
proof (induction xs arbitrary: ys)
  case (Cons x xs)
  then show ?case
    by (cases ys) (auto simp: bind_eq_Some_conv)
qed auto

lemma option_all_total: "(\<And>x. x \<in> set xs \<Longrightarrow> f x \<noteq> None) \<Longrightarrow> option_all f xs \<noteq> None"
  by (induction xs) (fastforce simp: bind_eq_None_conv)+

lemma set_channels_between:
  "c \<in> set (channels_between ids) \<longleftrightarrow>
     hc_sender c \<in> set ids \<and> hc_recipient c \<in> set ids \<and> hc_sender c \<noteq> hc_recipient c \<and>
     hc_max_capacity c = 1000 \<and> hc_max_message_size c = 8000"
  by (cases c) (auto simp: channels_between_def)

lemma distinct_concat_map:
  assumes "distinct xs" and "\<And>x. x \<in> set xs \<Longrightarrow> distinct (f x)"
    and "\<And>x y. x \<in> set xs \<Longrightarrow> y \<in> set xs \<Longrightarrow> x \<noteq> y \<Longrightarrow> set (f x) \<inter> set (f y) = {}"
  shows "distinct (concat (map f xs))"
  using assms by (induction xs) fastforce+

lemma distinct_channels: "distinct ids \<Longrightarrow> distinct (channels_between ids)"
  unfolding channels_between_def
  by (rule distinct_concat_map) (auto simp: distinct_map inj_on_def)

text \<open>What the Pop chains ask of Asset Hub: the endowment of each of them, in their order.\<close>

definition endowment :: "'w chains_env \<Rightarrow> u32 \<Rightarrow> json" where
  "endowment E i = JArray [JString (ce_ss58 E (sibl i)), JNumber 1200000000000000000]"

definition endowments :: "'w chains_env \<Rightarrow> u32 list \<Rightarrow> json_map" where
  "endowments E ids = (if ids = [] then [] else [(''balances'', JObject [(''balances'', JArray (map (endowment E) ids))])])"

lemma apply_endowments:
  "apply_overrides (map (endow E) ids) (endowments E before) = Some (endowments E (before @ ids))"
proof (induction ids arbitrary: before)
  case (Cons i ids)
  have "endow E i (endowments E before) = Some (endowments E (before @ [i]))"
    by (simp add: endow_def endowments_def endowment_def Let_def)
  then show ?case
    using Cons.IH [of "before @ [i]"] by simp
qed simp

lemma dependencies_eq:
  "dependencies E regs = map (\<lambda>c. (AssetHub, endow E (reg_id c))) (filter (\<lambda>c. reg_kind c = Pop) regs)"
  by (induction regs) (auto simp: dependencies_def requires_def List.map_filter_def)

lemma overrides_for_eq:
  "overrides_for E regs c =
     Some (if reg_kind c = AssetHub then endowments E (map reg_id (filter (\<lambda>c. reg_kind c = Pop) regs)) else [])"
proof (cases "reg_kind c = AssetHub")
  case True
  then have "map snd (filter (\<lambda>(kind, _). kind = reg_kind c) (dependencies E regs)) =
      map (endow E) (map reg_id (filter (\<lambda>c. reg_kind c = Pop) regs))"
    by (simp add: dependencies_eq filter_map comp_def)
  with True apply_endowments [of E "map reg_id (filter (\<lambda>c. reg_kind c = Pop) regs)" "[]"] show ?thesis
    by (simp add: overrides_for_def own_overrides_def endowments_def [of E "[]"])
next
  case False
  then have "filter (\<lambda>(kind, _). kind = reg_kind c) (dependencies E regs) = []"
    by (auto simp: dependencies_eq filter_empty_conv)
  with False show ?thesis by (simp add: overrides_for_def own_overrides_def)
qed

text \<open>
  C28: The network built for chains has between two and six validators, as many as chains where
  that is possible, all with different names, the first one with the port asked for; a parachain
  for each chain, with its identifier, its binary and one collator; and a channel for each ordered
  pair of different identifiers and no other. Asset Hub is given an endowment for the sovereign
  account of each Pop chain of the network, the other chains are given nothing. Building the plan
  never panics, whatever the chains are.
\<close>

theorem network_built_for_chains:
  "\<exists>plan. network_plan_for E relay port (Some regs) = Some plan \<and>
     length (cp_nodes (pl_relaychain plan)) = min 6 (max 2 (length regs)) \<and>
     distinct (map np_name (cp_nodes (pl_relaychain plan))) \<and>
     map np_rpc_port (cp_nodes (pl_relaychain plan)) = port # replicate (min 6 (max 2 (length regs)) - 1) None \<and>
     map (\<lambda>p. (cp_id p, cp_default_command p, length (cp_nodes p))) (pl_parachains plan) =
       map (\<lambda>c. (Some (reg_id c), Some (kind_binary (reg_kind c)), 1)) regs \<and>
     map cp_genesis_overrides (pl_parachains plan) = map (\<lambda>c.
       let pops = map reg_id (filter (\<lambda>c. reg_kind c = Pop) regs)
       in if reg_kind c = AssetHub \<and> pops \<noteq> [] then Some (JObject (endowments E pops)) else None) regs \<and>
     {(hc_sender h, hc_recipient h) | h. h \<in> set (pl_hrmp_channels plan)} =
       {(s, r). s \<in> reg_id ` set regs \<and> r \<in> reg_id ` set regs \<and> s \<noteq> r} \<and>
     (distinct (map reg_id regs) \<longrightarrow> distinct (pl_hrmp_channels plan))"
proof -
  have paras: "option_all (\<lambda>c. map_option (parachain_plan_for c) (overrides_for E regs c)) regs =
      Some (map (\<lambda>c. parachain_plan_for c (the (overrides_for E regs c))) regs)" (is "_ = Some ?paras")
    unfolding option_all_Some by (simp add: list_all2_conv_all_nth overrides_for_eq)
  define plan where "plan = \<lparr>pl_relaychain = relay_plan_for relay port (validators_for (Some regs)), pl_parachains = ?paras,
      pl_hrmp_channels = channels_between (map reg_id regs), pl_timeouts = None\<rparr>"
  have plan: "network_plan_for E relay port (Some regs) = Some plan"
    by (simp add: network_plan_for_def paras plan_def)
  define n where "n = max (length regs) 2"
  have n: "2 \<le> n" by (simp add: n_def)
  then obtain m where m: "n = Suc (Suc m)" by (metis le_add_diff_inverse plus_1_eq_Suc one_add_one add_Suc)
  have v: "validators_for (Some regs) = ''alice'' # take (Suc m) (tl VALIDATORS)"
    unfolding validators_for_def option.case n_def [symmetric] m by (simp add: VALIDATORS_def)
  have nodes: "cp_nodes (pl_relaychain plan) =
      (no_node ''alice'')\<lparr>np_rpc_port := port\<rparr> # map no_node (take (Suc m) (tl VALIDATORS))"
    by (simp add: plan_def relay_plan_for_def v)
  have l: "length (take (Suc m) (tl VALIDATORS)) = min 6 (max 2 (length regs)) - 1"
    using m by (simp add: n_def VALIDATORS_def)
  have "length (cp_nodes (pl_relaychain plan)) = min 6 (max 2 (length regs))"
    unfolding nodes using l by simp
  moreover have "distinct (map np_name (cp_nodes (pl_relaychain plan)))"
  proof -
    have "map np_name (cp_nodes (pl_relaychain plan)) = validators_for (Some regs)"
      by (simp add: nodes v no_node_def comp_def)
    then show ?thesis by (simp add: validators_for_def VALIDATORS_def distinct_take)
  qed
  moreover have "map np_rpc_port (cp_nodes (pl_relaychain plan)) = port # replicate (min 6 (max 2 (length regs)) - 1) None"
    unfolding nodes l [symmetric] by (simp add: no_node_def comp_def map_replicate_const)
  moreover have "map (\<lambda>p. (cp_id p, cp_default_command p, length (cp_nodes p))) (pl_parachains plan) =
       map (\<lambda>c. (Some (reg_id c), Some (kind_binary (reg_kind c)), 1)) regs"
    by (simp add: plan_def parachain_plan_for_def comp_def)
  moreover have "map cp_genesis_overrides (pl_parachains plan) = map (\<lambda>c.
       let pops = map reg_id (filter (\<lambda>c. reg_kind c = Pop) regs)
       in if reg_kind c = AssetHub \<and> pops \<noteq> [] then Some (JObject (endowments E pops)) else None) regs"
    by (simp add: plan_def parachain_plan_for_def overrides_for_eq comp_def endowments_def Let_def)
  moreover have "{(hc_sender h, hc_recipient h) | h. h \<in> set (pl_hrmp_channels plan)} =
       {(s, r). s \<in> reg_id ` set regs \<and> r \<in> reg_id ` set regs \<and> s \<noteq> r}" (is "?L = ?R")
  proof
    show "?L \<subseteq> ?R" by (auto simp: plan_def set_channels_between)
    show "?R \<subseteq> ?L"
    proof clarify
      fix s r c d assume cd: "c \<in> set regs" "d \<in> set regs" "reg_id c \<noteq> reg_id d"
      have "\<lparr>hc_sender = reg_id c, hc_recipient = reg_id d, hc_max_capacity = 1000, hc_max_message_size = 8000\<rparr>
          \<in> set (pl_hrmp_channels plan)"
        using cd by (simp add: plan_def set_channels_between)
      then show "\<exists>h. (reg_id c, reg_id d) = (hc_sender h, hc_recipient h) \<and> h \<in> set (pl_hrmp_channels plan)"
        by force
    qed
  qed
  moreover have "distinct (map reg_id regs) \<longrightarrow> distinct (pl_hrmp_channels plan)"
    by (simp add: plan_def distinct_channels)
  ultimately show ?thesis by (intro exI [of _ plan] conjI plan)
qed

section \<open>The binaries of a network\<close>

text \<open>A binary that, when it is sourced, has its file among those sourced.\<close>

definition sourceable :: "binary \<Rightarrow> bool" where
  "sourceable b = (case b of Sourced name src cache \<Rightarrow> provides name src | Local _ _ _ \<Rightarrow> True)"

lemma provides_release:
  "provides name (release_source owner repository pattern order fallback archive contents) \<longleftrightarrow>
     list_all (\<lambda>spec. relative (af_name spec)) contents \<and>
     list_ex (\<lambda>spec. af_required spec \<and> (case af_target spec of Some t \<Rightarrow> t | None \<Rightarrow> af_name spec) = name) contents"
  by (simp add: provides_def release_source_def)

lemma provides_sources:
  "relay_source E = Inr src \<Longrightarrow> provides RELAY_BINARY src"
  "system_source E = Inr src \<Longrightarrow> provides SYSTEM_BINARY src"
  "kind_source E kind = Inr src \<Longrightarrow> provides (kind_binary kind) src"
  "omni_node_source E = Inr src \<Longrightarrow> provides OMNI_NODE src"
  by (auto simp: relay_source_def system_source_def kind_source_def pop_source_def omni_node_source_def
      provides_release required_file_def RELAY_BINARY_def SYSTEM_BINARY_def OMNI_NODE_def relay_workers_def
      kind_binary_def relative_def split: prod.splits if_splits)

lemma provides_runtime_source:
  "runtime_source E r = Inr src \<Longrightarrow> runtime_binary r = Some binary \<Longrightarrow>
     provides (to_ascii_lowercase (runtime_name r) @ ''-'' @ binary) src"
  by (auto simp: runtime_source_def provides_release required_file_def relative_def runtime_binary_def
      split: prod.splits option.splits if_splits)

lemma provides_resolve:
  assumes "provides name src"
  shows "wp (resolving E n version cache src) (\<lambda>src' _. provides name src') (\<lambda>_ _. True) s"
proof -
  have "provides name src'" if "source_resolve X n version cache f src s = (src', s')" for X f src' s'
    using assms that
    by (cases src; rename_tac g; case_tac g)
      (auto simp: source_resolve_def github_resolve_def provides_def Let_def split: prod.splits)
  then show ?thesis
    by (simp add: resolving_def wp_def split: prod.splits)
qed

definition sourceable_chain :: "chain_config \<Rightarrow> bool" where
  "sourceable_chain c \<longleftrightarrow> sourceable (cc_binary c) \<and> (\<forall>b. cc_chain_spec_generator c = Some b \<longrightarrow> sourceable b)"

definition sourceable_relay :: "relay_chain \<Rightarrow> bool" where
  "sourceable_relay c \<longleftrightarrow> sourceable (rc_binary c) \<and> (\<forall>b. rc_chain_spec_generator c = Some b \<longrightarrow> sourceable b)"

text \<open>The results of a program, whatever it does to the machine.\<close>

definition results :: "('s, 'e, 'a) prog \<Rightarrow> ('a \<Rightarrow> bool) \<Rightarrow> bool" where
  "results m Q \<longleftrightarrow> (\<forall>s x s'. m s = (Inr x, s') \<longrightarrow> Q x)"

named_theorems result_intros \<open>the results of a program, by its constructors\<close>

lemma resultsD: "results m Q \<Longrightarrow> m s = (Inr x, s') \<Longrightarrow> Q x"
  by (auto simp: results_def)

lemma results_ret [result_intros]: "Q x \<Longrightarrow> results (ret x) Q"
  by (simp add: results_def prog_simps)

lemma results_fail [result_intros]: "results (fail e) Q"
  by (simp add: results_def prog_simps)

lemma results_bind: "results m P \<Longrightarrow> (\<And>x. P x \<Longrightarrow> results (f x) Q) \<Longrightarrow> results (bindE m f) Q"
  by (fastforce simp: results_def bindE_Inr)

lemma results_option:
  "(x = None \<Longrightarrow> results m Q) \<Longrightarrow> (\<And>y. x = Some y \<Longrightarrow> results (f y) Q) \<Longrightarrow>
     results (case x of None \<Rightarrow> m | Some y \<Rightarrow> f y) Q"
  by (cases x) auto

lemma results_any: "(\<And>x. results (f x) Q) \<Longrightarrow> results (bindE m f) Q"
  by (fastforce simp: results_def bindE_Inr)

lemma results_lift: "(\<And>x. r = Inr x \<Longrightarrow> Q x) \<Longrightarrow> results (lift_sum r) Q"
  by (simp add: results_def prog_simps)

lemma results_resolving: "provides name src \<Longrightarrow> results (resolving E n version cache src) (provides name)"
  unfolding results_def using provides_resolve by (metis wp_Inr)

lemma results_each: "(\<And>x. results (f x) Q) \<Longrightarrow> results (each f xs) (list_all Q)"
proof (induction xs)
  case (Cons x xs)
  then show ?case
    by (auto intro!: results_bind [of "f x" Q] results_bind [of "each f xs" "list_all Q"] result_intros)
qed (simp add: result_intros)

lemma results_generator: "results (chain_spec_generator E chain version cache) (\<lambda>g. \<forall>b. g = Some b \<longrightarrow> sourceable b)"
  unfolding chain_spec_generator_def Let_def
  by (auto intro!: result_intros results_bind [OF results_lift [OF provides_runtime_source]] results_bind [OF results_resolving]
      simp: sourceable_def split: option.split)

lemma results_relay: "results (relay_from E command version runtime_version chain cache) sourceable_relay"
  unfolding relay_from_def
  by (auto intro!: result_intros results_bind [OF results_lift [OF provides_sources(1)]] results_bind [OF results_resolving]
      results_bind [OF results_generator] simp: sourceable_def sourceable_relay_def split: option.split)

lemma results_system:
  "results (chains_system E i command version runtime_version relay_version chain cache)
     (\<lambda>c. \<forall>x. c = Some x \<longrightarrow> sourceable_chain x)"
proof -
  have g: "results (case chain of Some c \<Rightarrow> chain_spec_generator E c runtime_version cache | None \<Rightarrow> ret None)
      (\<lambda>g. \<forall>b. g = Some b \<longrightarrow> sourceable b)"
    by (auto intro: results_generator result_intros split: option.split)
  show ?thesis
    unfolding chains_system_def
    by (auto intro!: result_intros results_bind [OF results_lift [OF provides_sources(2)]] results_bind [OF results_resolving]
        results_bind [OF g] simp: sourceable_def sourceable_chain_def)
qed

lemma results_known:
  "results (chains_from E relay i command version chain cache) (\<lambda>c. \<forall>x. c = Some x \<longrightarrow> sourceable_chain x)"
  unfolding chains_from_def Let_def
  by (auto intro!: result_intros results_bind [OF results_lift [OF provides_sources(3)]] results_bind [OF results_resolving]
      simp: sourceable_def sourceable_chain_def split: option.split)

lemma results_from_local: "results (from_local E i path chain) sourceable_chain"
  unfolding from_local_def
  by (auto intro!: result_intros results_any simp: sourceable_def sourceable_chain_def split: option.split)

lemma results_from_repository: "results (from_repository E i repo chain cache) sourceable_chain"
  unfolding from_repository_def Let_def
  by (auto intro!: result_intros results_any simp: sourceable_def sourceable_chain_def provides_def)

lemma results_from_omni_node: "results (from_omni_node E i cache) sourceable_chain"
  unfolding from_omni_node_def
  by (auto intro!: result_intros results_bind [OF results_lift [OF provides_sources(4)]]
      simp: sourceable_def sourceable_chain_def)

lemma results_local: "results (local_parachain E i command chain cache) sourceable_chain"
  unfolding local_parachain_def
  by (auto intro!: result_intros results_any results_from_local results_from_omni_node split: option.split)

lemma results_parachain:
  "results (parachain E relay version runtime_version repos cache p) (\<lambda>(i, c). i = pc_id p \<and> sourceable_chain c)"
proof -
  have own: "results (case Option.bind repos (List.find (\<lambda>r. command = repo_package r)) of
      Some repo \<Rightarrow> from_repository E i repo chain cache | None \<Rightarrow> local_parachain E i command chain cache) sourceable_chain"
    for command i chain
    by (auto intro: results_from_repository results_local split: option.split)
  show ?thesis
    unfolding parachain_def Let_def
    by (intro results_option result_intros results_bind [OF results_system] results_bind [OF results_known]
        results_bind [OF own]) auto
qed

lemma results_init_relay: "results (init_relay_chain E version runtime_version config cache) sourceable_relay"
proof -
  have c: "sourceable_relay relay \<Longrightarrow>
      results (case foreign_command relay nodes of Some c \<Rightarrow> fail (unsupported_relay c) | None \<Rightarrow> ret relay) sourceable_relay"
    for relay nodes by (auto intro: result_intros split: option.split)
  show ?thesis
    unfolding init_relay_chain_def Let_def relay_default_def
    by (auto intro!: results_bind [OF results_relay] c results_relay split: option.split list.split)
qed

text \<open>The parachains found: those of the configuration, under their identifiers.\<close>

lemma parachains_collected:
  assumes "list_all2 (\<lambda>p ic. fst ic = pc_id p) ps cs"
  shows "fst ` set (foldl (\<lambda>m (i, c). alist_insert i c m) m cs) = fst ` set m \<union> pc_id ` set ps"
    and "snd ` set (foldl (\<lambda>m (i, c). alist_insert i c m) m cs) \<subseteq> snd ` set m \<union> snd ` set cs"
proof -
  have "fst ` set (foldl (\<lambda>m (i, c). alist_insert i c m) m cs) = fst ` set m \<union> fst ` set cs" for m
    by (induction cs arbitrary: m) (simp_all add: case_prod_beta)
  moreover have "fst ` set cs = pc_id ` set ps"
    using assms by (induction rule: list_all2_induct) auto
  ultimately show "fst ` set (foldl (\<lambda>m (i, c). alist_insert i c m) m cs) = fst ` set m \<union> pc_id ` set ps"
    by simp
  have ins: "snd ` set (alist_insert i c m) \<subseteq> insert c (snd ` set m)" for i :: u32 and c and m
    by (induction m) auto
  show "snd ` set (foldl (\<lambda>m (i, c). alist_insert i c m) m cs) \<subseteq> snd ` set m \<union> snd ` set cs"
  proof (induction cs arbitrary: m)
    case (Cons ic cs)
    obtain i c where ic: "ic = (i, c)" by fastforce
    have "snd ` set (foldl (\<lambda>m (i, c). alist_insert i c m) (alist_insert i c m) cs) \<subseteq>
        snd ` set (alist_insert i c m) \<union> snd ` set cs"
      by (rule Cons.IH)
    also have "\<dots> \<subseteq> insert c (snd ` set m) \<union> snd ` set cs"
      by (intro Un_mono ins subset_refl)
    finally show ?case by (auto simp: ic)
  qed simp
qed

lemma parachains_run:
  assumes "parachains E relay version runtime_version repos config cache s = (Inr m, s')"
  shows "fst ` set m = pc_id ` set (nw_parachains config)" and "\<forall>c \<in> snd ` set m. sourceable_chain c"
proof -
  obtain cs where cs: "each (parachain E relay version runtime_version repos cache) (nw_parachains config) s = (Inr cs, s')"
    and m: "m = foldl (\<lambda>m (i, c). alist_insert i c m) [] cs"
    using assms by (auto simp: parachains_def Inr_simps)
  have step: "wp (parachain E relay version runtime_version repos cache p) (\<lambda>ic s'. True \<and>
      (fst ic = pc_id p \<and> sourceable_chain (snd ic))) (\<lambda>e s'. True) s" for p s
    using resultsD [OF results_parachain, of E relay version runtime_version repos cache p s]
    by (intro wpI) (simp_all add: case_prod_beta)
  have "wp (each (parachain E relay version runtime_version repos cache) (nw_parachains config))
      (\<lambda>ys s'. True \<and> list_all2 (\<lambda>p ic. fst ic = pc_id p \<and> sourceable_chain (snd ic)) (nw_parachains config) ys)
      (\<lambda>e s'. True) s"
    by (rule wp_each [where I = "\<lambda>_. True"]) (use step in auto)
  from wp_Inr [OF this cs]
  have all: "list_all2 (\<lambda>p ic. fst ic = pc_id p \<and> sourceable_chain (snd ic)) (nw_parachains config) cs" by simp
  then have ids: "list_all2 (\<lambda>p ic. fst ic = pc_id p) (nw_parachains config) cs"
    by (rule list_all2_mono) simp
  have good: "\<forall>c \<in> snd ` set cs. sourceable_chain c"
    using all by (induction rule: list_all2_induct) auto
  show "fst ` set m = pc_id ` set (nw_parachains config)"
    unfolding m parachains_collected(1) [OF ids] by simp
  show "\<forall>c \<in> snd ` set m. sourceable_chain c"
    using parachains_collected(2) [OF ids, of "[]"] good unfolding m by fastforce
qed

lemma zombienet_new_run:
  assumes "zombienet_new E cache config rv rr sv sr given s = (Inr z, s')"
  shows "sourceable_relay (zn_relay_chain z)" and "\<forall>c \<in> snd ` set (zn_parachains z). sourceable_chain c"
    and "fst ` set (zn_parachains z) = pc_id ` set (nw_parachains (fst config))" and "zn_network_config z = config"
proof -
  obtain relay t repos u ps where r: "init_relay_chain E rv rr (fst config) cache s = (Inr relay, t)"
    and p: "parachains E relay sv (case sr of Some v \<Rightarrow> Some v | None \<Rightarrow> rr) repos (fst config) cache u = (Inr ps, s')"
    and z: "zn_relay_chain z = relay" "zn_parachains z = ps" "zn_network_config z = config"
    using assms unfolding zombienet_new_def bindE_Inr ret_apply by auto
  show "sourceable_relay (zn_relay_chain z)"
    unfolding z by (rule resultsD [OF results_init_relay r])
  show "\<forall>c \<in> snd ` set (zn_parachains z). sourceable_chain c"
    and "fst ` set (zn_parachains z) = pc_id ` set (nw_parachains (fst config))" and "zn_network_config z = config"
    using parachains_run [OF p] z by simp_all
qed


section \<open>Adapting\<close>

text \<open>A run that ends in no panic.\<close>

abbreviation panic_free :: "('w, 'a) zombienet_prog \<Rightarrow> 'w machine \<Rightarrow> bool" where
  "panic_free m \<equiv> wp m (\<lambda>_ _. True) (\<lambda>e _. \<forall>why. e \<noteq> Panic why)"

lemma panic_free_resolve_path: "panic_free (resolve_path E path) s"
  unfolding resolve_path_def by (auto intro!: wp_intros)

lemma panic_free_generator: "panic_free (generator_command E generator) s"
  unfolding generator_command_def
  by (intro wp_case_option wp_ret wp_bindE wp_mono [OF panic_free_resolve_path]) auto

lemma panic_free_passet_hub:
  assumes "\<And>w. fst (se_io (ce_sourcing E) (WriteFile (passet_hub_path E)) w)"
  shows "panic_free (write_passet_hub_spec E) s"
proof -
  obtain w where "se_io (ce_sourcing E) (WriteFile (passet_hub_path E)) (mc_world s) = (True, w)"
    using assms [of "mc_world s"] by (metis surj_pair fst_conv)
  then show ?thesis
    by (simp add: write_passet_hub_spec_def io_def io_succeeds_def on_world_def wp_def prog_simps)
qed

lemma panic_free_each:
  assumes "\<And>x s. x \<in> set xs \<Longrightarrow> panic_free (f x) s"
  shows "panic_free (each f xs) s"
  using assms
proof (induction xs arbitrary: s)
  case (Cons y ys)
  have y: "panic_free (f y) u" and ys: "panic_free (each f ys) u" for u
    using Cons by simp_all
  show ?case
    unfolding each.simps by (intro wp_bindE wp_ret wp_mono [OF y] wp_mono [OF ys] TrueI)
qed (simp add: wp_ret)

lemma panic_free_adapt_parachain:
  assumes "pc_id p \<in> fst ` set paras" and "pc_collators p \<noteq> []"
    and "is_passet_hub p \<Longrightarrow> \<forall>w. fst (se_io (ce_sourcing E) (WriteFile (passet_hub_path E)) w)"
  shows "panic_free (adapt_parachain E evm_based paras p) s"
proof -
  obtain c where c: "map_of paras (pc_id p) = Some c"
    using assms(1) by (metis domD dom_map_of_conv_image_fst)
  have w: "panic_free (if is_passet_hub p then write_passet_hub_spec E else ret ()) t" for t
    using assms(3) by (auto intro: panic_free_passet_hub wp_ret)
  show ?thesis
    unfolding adapt_parachain_def c option.case
    by (intro wp_bindE wp_mono [OF panic_free_resolve_path] wp_mono [OF panic_free_generator] wp_mono [OF w])
      (use assms(2) in \<open>auto intro: wp_ret\<close>)
qed


text \<open>What a node of the network launched has of the node configured.\<close>

definition same_node :: "string \<Rightarrow> node_config \<Rightarrow> node_plan \<Rightarrow> bool" where
  "same_node path c p \<longleftrightarrow> np_name p = nc_name c \<and> np_command p = Some path \<and> np_args p = Some (nc_args c) \<and>
     np_validator p = Some (nc_is_validator c) \<and> np_rpc_port p = nc_rpc_port c \<and> np_ws_port p = nc_ws_port c \<and>
     np_env p = Some (nc_env c) \<and> np_subcommand p = nc_subcommand c"

lemma same_nodes: "list_all2 (same_node path) ns (map (\<lambda>n. build_node_from_source n path) ns)"
  by (simp add: list_all2_conv_all_nth same_node_def build_node_from_source_def)

lemma resolve_path_run:
  "resolve_path E path s = (Inr p, s') \<longleftrightarrow> ze_canonical E (mc_files s) path = Some p \<and> s' = s"
  by (auto simp: resolve_path_def Inr_simps split: option.splits)

lemma generator_files: "generator_command E generator s = (Inr g, s') \<Longrightarrow> s' = s"
  by (auto simp: generator_command_def Inr_simps resolve_path_run split: option.splits)

lemma case_sum_Inr:
  "(case r of Inl e \<Rightarrow> fail (g e) | Inr x \<Rightarrow> ret x) s = (Inr y, s') \<longleftrightarrow> r = Inr y \<and> s' = s"
  by (cases r) (auto simp: prog_simps)


end
