(* ===== verification/Launch_Properties.thy ===== *)
theory Launch_Properties
  imports Zombienet_Properties
begin

text \<open>
  The properties of setting a network up and launching it: the relay chain that is determined, the
  links to its workers, and what goes wrong; with a network on which the properties are tried.
\<close>

section \<open>The relay chain\<close>

lemma generator_run:
  "chain_spec_generator E chain version cache s = (Inr g, s') \<Longrightarrow> from_chain chain = Some r \<Longrightarrow>
     g = None \<longleftrightarrow> r = Westend"
  by (auto simp: chain_spec_generator_def runtime_binary_def Let_def Inr_simps split: if_splits option.splits)

lemma relay_from_run:
  assumes "relay_from E command version runtime_version chain cache s = (Inr relay, s')"
  shows "ends_with (to_ascii_lowercase command) RELAY_BINARY" and "binary_name (rc_binary relay) = RELAY_BINARY"
    and "from_chain chain = Some (rc_runtime relay)" and "rc_workers relay = relay_workers"
    and "rc_chain_spec_generator relay = None \<longleftrightarrow> rc_runtime relay = Westend"
  using assms
  by (auto simp: relay_from_def Inr_simps split: if_splits option.splits) (metis generator_run)+

lemma foreign_command_None:
  "foreign_command relay nodes = None \<longleftrightarrow>
     list_all (\<lambda>c. to_ascii_lowercase c = binary_name (rc_binary relay)) (List.map_filter nc_command nodes)"
  by (auto simp: foreign_command_def find_None_iff list_all_iff)

lemma checked_relay:
  "(case foreign_command relay nodes of Some c \<Rightarrow> fail (unsupported_relay c) | None \<Rightarrow> ret relay) s = (Inr r, s') \<longleftrightarrow>
     r = relay \<and> s' = s \<and> foreign_command relay nodes = None"
  by (auto simp: prog_simps split: option.split)

lemma later_nodes:
  "List.map_filter f xs = c # cs \<Longrightarrow> List.map_filter f (tl (dropWhile (\<lambda>n. f n = None) xs)) = cs"
  by (induction xs) (auto simp: List.map_filter_simps split: option.splits)

text \<open>
  The relay chain that is determined is the supported one, and the configuration agrees with
  it: its binary is \<^verbatim>\<open>polkadot\<close>, its runtime is that of the chain configured, and it has a
  generator of chain specifications unless it is Westend. The default command ends with the name
  of the binary, and every command of a node is the name, in any case of letters; with no default
  command this holds of the first command of a node and of the ones after it. Any other
  configuration is an error.
\<close>

theorem relay_chain_determined:
  assumes "init_relay_chain E version runtime_version config cache s = (Inr relay, s')"
  shows "binary_name (rc_binary relay) = RELAY_BINARY \<and> from_chain (lc_chain (nw_relaychain config)) = Some (rc_runtime relay) \<and>
     (rc_chain_spec_generator relay = None \<longleftrightarrow> rc_runtime relay = Westend) \<and>
     (let named = (\<lambda>c. to_ascii_lowercase c = RELAY_BINARY); commands = List.map_filter nc_command (lc_nodes (nw_relaychain config))
      in case lc_default_command (nw_relaychain config) of
        Some d \<Rightarrow> ends_with (to_ascii_lowercase d) RELAY_BINARY \<and> list_all named commands
      | None \<Rightarrow> (case commands of
          [] \<Rightarrow> True
        | c # cs \<Rightarrow> ends_with (to_ascii_lowercase c) RELAY_BINARY \<and> list_all named cs))"
proof (cases "lc_default_command (nw_relaychain config)")
  case (Some d)
  with assms obtain t where r: "relay_from (chains_env.truncate E) d version runtime_version (lc_chain (nw_relaychain config)) cache s = (Inr relay, t)"
    and f: "foreign_command relay (lc_nodes (nw_relaychain config)) = None"
    by (auto simp: init_relay_chain_def Let_def bindE_Inr checked_relay)
  with relay_from_run [OF r] Some show ?thesis
    by (simp add: Let_def foreign_command_None)
next
  case None
  show ?thesis
  proof (cases "List.map_filter nc_command (lc_nodes (nw_relaychain config))")
    case Nil
    with None assms have r: "relay_from (chains_env.truncate E) RELAY_BINARY version runtime_version
        (lc_chain (nw_relaychain config)) cache s = (Inr relay, s')"
      by (simp add: init_relay_chain_def relay_default_def Let_def)
    with relay_from_run [OF r] None Nil show ?thesis by (simp add: Let_def)
  next
    case (Cons c cs)
    with None assms obtain t where r: "relay_from (chains_env.truncate E) c version runtime_version
        (lc_chain (nw_relaychain config)) cache s = (Inr relay, t)"
      and f: "foreign_command relay (tl (dropWhile (\<lambda>n. nc_command n = None) (lc_nodes (nw_relaychain config)))) = None"
      by (auto simp: init_relay_chain_def Let_def bindE_Inr checked_relay)
    with relay_from_run [OF r] None Cons later_nodes [OF Cons] show ?thesis
      by (simp add: Let_def foreign_command_None)
  qed
qed

text \<open>
  With no release that fits and none in the cache there is no version of the relay chain, and then a
  network with a parachain is a panic.
\<close>

theorem relay_without_version_panics:
  assumes "init_relay_chain E relay_version relay_runtime (fst config) cache s = (Inr relay, s')"
    and "binary_version (rc_binary relay) = None" and "nw_parachains (fst config) \<noteq> []"
  shows "fst (zombienet_new E cache config relay_version relay_runtime system_version system_runtime None s) =
     Inl (Panic ''expected relay chain to have version'')"
proof -
  obtain p ps where "nw_parachains (fst config) = p # ps" using assms(3) by (metis list.exhaust)
  with assms(1,2) show ?thesis
    by (simp add: zombienet_new_def parachains_def parachain_def Let_def prog_simps)
qed

section \<open>Local binaries\<close>

lemma lowercase_slash: "starts_with c p \<Longrightarrow> starts_with (to_ascii_lowercase c) (to_ascii_lowercase p)"
  by (auto simp: starts_with_def to_ascii_lowercase_def take_map)

lemma kind_binary_name: "kind_binary k \<in> {''pop-node'', ''polkadot-parachain''}"
  by (simp add: kind_binary_def SYSTEM_BINARY_def)

text \<open>
  A parachain whose command is the path of a local binary is launched from that path in lower
  case: upper case letters of a directory or of the file are lost, so that on a file system that
  tells them apart another file is looked for than the one configured.
\<close>

theorem local_path_is_lowercased:
  assumes "parachain E relay version runtime_version None cache p s = (Inr (i, c), s')"
    and "pc_default_command p = Some path" and "list_ex (starts_with path) [''./'', ''../'', ''/'']"
  shows "\<exists>name manifest. cc_binary c = Local name (to_ascii_lowercase path) manifest"
proof -
  have command: "parachain_command p = to_ascii_lowercase path"
    using assms(2) by (simp add: parachain_command_def)
  have low: "list_ex (starts_with (to_ascii_lowercase path)) [''./'', ''../'', ''/'']"
  proof -
    have "to_ascii_lowercase ''./'' = ''./''" "to_ascii_lowercase ''../'' = ''../''" "to_ascii_lowercase ''/'' = ''/''"
      by code_simp+
    then show ?thesis using assms(3) lowercase_slash [of path] by (simp, metis)
  qed
  then have first: "hd (to_ascii_lowercase path) \<in> {CHR ''.'', CHR ''/''}"
    by (cases "to_ascii_lowercase path") auto
  then have "to_ascii_lowercase path \<notin> {''pop-node'', ''polkadot-parachain''}"
    by auto
  then have known: "to_ascii_lowercase path \<noteq> SYSTEM_BINARY" "\<And>k. kind_binary k \<noteq> to_ascii_lowercase path"
    using kind_binary_name unfolding SYSTEM_BINARY_def by (simp, metis)
  have "chains_from C r j (to_ascii_lowercase path) v ch cache t = (Inr None, t)" for C :: "'a chains_env" and r j v ch t
    using known(2) by (simp add: chains_from_def find_None_iff [THEN iffD2] prog_simps)
  then have "local_parachain E (pc_id p) (to_ascii_lowercase path) (pc_chain p) cache s = (Inr c, s')"
    using assms(1) known(1)
    by (auto simp: parachain_def command Let_def chains_system_def Inr_simps split: option.splits)
  then show ?thesis
    using low by (auto simp: local_parachain_def from_local_def Inr_simps split: option.splits)
qed

section \<open>Workers\<close>

lemma on_machine_links: "on_machine m (s, l) = (r, (s', l')) \<Longrightarrow> l' = l"
  by (auto simp: on_machine_def prog_simps split: prod.splits)

lemma symlink_links:
  "symlink_file E t p (s, l) = (Inr x, (s', l')) \<Longrightarrow> map_of l' = (map_of l)(p \<mapsto> t)"
  by (auto simp: symlink_file_def Inr_simps dest!: on_machine_links split: if_splits)

lemma remove_links:
  "remove_symlink_file E p (s, l) = (Inr x, (s', l')) \<Longrightarrow> q \<noteq> p \<Longrightarrow> map_of l' q = map_of l q"
proof -
  have "map_of (filter (\<lambda>(a, _). a \<noteq> p) l) q = map_of l q" if "q \<noteq> p"
    using that by (induction l) auto
  then show "remove_symlink_file E p (s, l) = (Inr x, (s', l')) \<Longrightarrow> q \<noteq> p \<Longrightarrow> map_of l' q = map_of l q"
    by (auto simp: remove_symlink_file_def Inr_simps dest!: on_machine_links split: if_splits)
qed

lemma link_worker_links:
  assumes "link_worker E cache version worker (s, l) = (Inr x, (s', l'))"
  shows "map_of l' (path_join cache worker) = Some (path_join cache (worker @ ''-'' @ version))"
    and "q \<noteq> path_join cache worker \<Longrightarrow> map_of l' q = map_of l q"
proof -
  obtain y t k where k: "(if entry_exists (path_join cache worker) (s, l) then remove_symlink_file E (path_join cache worker) else ret ())
      (s, l) = (Inr y, (t, k))"
    and l': "symlink_file E (path_join cache (worker @ ''-'' @ version)) (path_join cache worker) (t, k) = (Inr x, (s', l'))"
    using assms by (auto simp: link_worker_def Inr_simps)
  show "map_of l' (path_join cache worker) = Some (path_join cache (worker @ ''-'' @ version))"
    by (simp add: symlink_links [OF l'])
  show "map_of l' q = map_of l q" if "q \<noteq> path_join cache worker"
    using that k symlink_links [OF l'] remove_links by (auto simp: prog_simps split: if_splits)
qed

lemma each_Cons_Inr:
  "each f (x # xs) s = (Inr r, s') \<longleftrightarrow>
     (\<exists>y t ys. f x s = (Inr y, t) \<and> each f xs t = (Inr ys, s') \<and> r = y # ys)"
  by (auto simp: Inr_simps)

lemma link_workers_other:
  "each (link_worker E cache version) workers (s, l) = (Inr x, (s', l')) \<Longrightarrow>
     q \<notin> path_join cache ` set workers \<Longrightarrow> map_of l' q = map_of l q"
proof (induction workers arbitrary: s l x)
  case (Cons w ws)
  then show ?case
    using link_worker_links(2) [of E cache version w s l] by (fastforce simp: each_Cons_Inr simp del: each.simps)
qed (simp add: prog_simps)

lemma link_workers_links:
  "each (link_worker E cache version) workers (s, l) = (Inr x, (s', l')) \<Longrightarrow>
     distinct (map (path_join cache) workers) \<Longrightarrow> w \<in> set workers \<Longrightarrow>
     map_of l' (path_join cache w) = Some (path_join cache (w @ ''-'' @ version))"
proof (induction workers arbitrary: s l x)
  case (Cons v ws)
  from Cons.prems(1) obtain y t k ys where v: "link_worker E cache version v (s, l) = (Inr y, (t, k))"
    and ws: "each (link_worker E cache version) ws (t, k) = (Inr ys, (s', l'))"
    unfolding each_Cons_Inr by auto
  show ?case
  proof (cases "w \<in> set ws")
    case True
    with Cons.IH [OF ws] Cons.prems(2) show ?thesis by simp
  next
    case False
    then have "w = v" using Cons.prems(3) by simp
    moreover have "path_join cache v \<notin> path_join cache ` set ws" using Cons.prems(2) by simp
    ultimately show ?thesis
      using link_workers_other [OF ws] link_worker_links(1) [OF v] by simp
  qed
qed simp

text \<open>
  C32: A network that has been launched has the workers of its relay chain in place: in the
  directory of the binary, the name of each worker leads to the worker of the same version as the
  binary, whatever it led to before, and no other link has changed.
\<close>

theorem launched_network_has_its_workers:
  assumes "spawn E z (s, l) = (Inr x, (s', l'))" and "b = rc_binary (zn_relay_chain z)"
    and "path_parent (binary_path b) = Some cache"
    and "distinct (map (path_join cache) (rc_workers (zn_relay_chain z)))"
  shows "\<exists>version. binary_version b = Some version \<and>
     (\<forall>w \<in> set (rc_workers (zn_relay_chain z)). map_of l' (path_join cache w) = Some (path_join cache (w @ ''-'' @ version))) \<and>
     (\<forall>q. q \<notin> path_join cache ` set (rc_workers (zn_relay_chain z)) \<longrightarrow> map_of l' q = map_of l q)"
proof -
  obtain version y t k where v: "binary_version b = Some version"
    and w: "each (link_worker E cache version) (rc_workers (zn_relay_chain z)) (s, l) = (Inr y, (t, k))"
    and rest: "bindE (on_machine (adapt E (zn_network_config z) (zn_relay_chain z) (zn_parachains z))) (\<lambda>config.
        on_machine (\<lambda>s. case ze_spawn_native E config (mc_world s) of
          (Inl e, w) \<Rightarrow> (Inl (OrchestratorError e), s\<lparr>mc_world := w\<rparr>)
        | (Inr x, w) \<Rightarrow> (Inr x, s\<lparr>mc_world := w\<rparr>))) (t, k) = (Inr x, (s', l'))"
    using assms(1-3) unfolding spawn_def Let_def
    by (auto simp: bindE_Inr [of "gets _"] bindE_Inr [of "each _ _"] gets_apply fail_apply split: if_splits option.splits)
  then have "l' = k"
    by (auto simp: bindE_Inr dest!: on_machine_links)
  with v link_workers_links [OF w assms(4)] link_workers_other [OF w] show ?thesis by blast
qed

text \<open>
  C34: A link of a worker that leads nowhere stops every launch: when what the link leads to has been
  removed (another version was used before, and its files are gone), launching fails with the error of
  the file system, changes nothing, and so fails again each time, although the binary and its
  workers are all there.
\<close>

theorem dangling_worker_link_stops_launch:
  assumes "b = rc_binary (zn_relay_chain z)" and "entry_exists (binary_path b) (s, l)"
    and "path_parent (binary_path b) = Some cache" and "binary_version b = Some version"
    and "rc_workers (zn_relay_chain z) = worker # workers"
    and "map_of l (path_join cache worker) = Some t" and "\<not> path_exists t s"
  shows "spawn E z (s, l) = (Inl ChainsIO, (s, l))"
  using assms
  by (simp add: spawn_def Let_def link_worker_def symlink_file_def entry_exists_def prog_simps)

section \<open>A network to try them on\<close>

text \<open>
  A machine with a relay chain binary and its workers in the cache and no network: a configuration
  for Paseo with Asset Hub and a local parachain. Its URLs are on GitHub, every path is canonical
  already, and whatever the builder is given makes the same network.
\<close>

definition sample_node_config :: "string \<Rightarrow> node_config" where
  "sample_node_config name = \<lparr>nc_name = name, nc_is_validator = True, nc_is_invulnerable = True, nc_is_bootnode = False,
     nc_command = None, nc_subcommand = None, nc_args = [''--dev''], nc_env = [], nc_rpc_port = Some 9944, nc_ws_port = None\<rparr>"

definition sample_relay :: relay_config where
  "sample_relay = \<lparr>lc_chain = ''paseo-local'', lc_default_command = Some ''polkadot'', lc_default_args = [],
     lc_nodes = [sample_node_config ''alice'', (sample_node_config ''bob'')\<lparr>nc_command := Some ''Polkadot''\<rparr>], lc_chain_spec_command = None,
     lc_chain_spec_command_is_local = False, lc_chain_spec_path = None, lc_chain_spec_command_output_path = None,
     lc_runtime_genesis_patch = None, lc_wasm_override = None\<rparr>"

definition sample_para :: "u32 \<Rightarrow> string option \<Rightarrow> string \<Rightarrow> para_config" where
  "sample_para i chain command = \<lparr>pc_id = i, pc_chain = chain, pc_default_command = Some command, pc_default_args = [],
     pc_collators = [sample_node_config ''collator''], pc_chain_spec_command = None, pc_chain_spec_command_is_local = False,
     pc_chain_spec_path = None, pc_chain_spec_command_output_path = None, pc_genesis_overrides = None,
     pc_wasm_override = None, pc_is_evm_based = False\<rparr>"

definition sample_network :: network_config where
  "sample_network = \<lparr>nw_relaychain = sample_relay,
     nw_parachains = [sample_para 1000 (Some ''asset-hub-paseo-local'') ''polkadot-parachain'', sample_para 2000 None ''./bin/MyNode''],
     nw_hrmp_channels = [\<lparr>hc_sender = 1000, hc_recipient = 2000, hc_max_capacity = 8, hc_max_message_size = 512\<rparr>]\<rparr>"

definition full_env :: "unit sourcing_env" where
  "full_env = (sample_env None)\<lparr>se_unpack := \<lambda>b. Inr (map (\<lambda>n. (n, a_file)) (RELAY_BINARY # relay_workers))\<rparr>"

definition sample_zombienet :: "unit zombienet_env" where
  "sample_zombienet = \<lparr>ce_sourcing = full_env,
     ce_url_parse = \<lambda>s. Some \<lparr>u_text = s, u_host = Some ''github.com'', u_path = drop 18 s,
       u_segments = Some (pieces ''/'' (drop 19 s)), u_query = None, u_fragment = None\<rparr>,
     ce_url_bare = \<lambda>u. u, ce_os = ''linux'', ce_arch = ''x86_64'', ce_ss58 = \<lambda>b. ''address'',
     ze_build = \<lambda>plan. Inr sample_network, ze_load_from_toml = \<lambda>files path. Inr sample_network, ze_toml = \<lambda>b. None,
     ze_glob = \<lambda>files pattern. [], ze_canonical = \<lambda>files path. Some path, ze_temp_dir = ''/tmp'',
     ze_passet_hub_spec = [1], ze_spawn_native = \<lambda>config w. (Inr (), w)\<rparr>"

definition cached_machine :: "unit machine" where
  "cached_machine = \<lparr>mc_files = map (\<lambda>n. (''/cache/'' @ n @ ''-stable2512'', a_file)) (RELAY_BINARY # relay_workers), mc_world = ()\<rparr>"

definition sample_run :: "(chains_error + zombienet) \<times> unit machine" where
  "sample_run = zombienet_new sample_zombienet ''/cache'' (sample_network, []) (Some ''stable2512'') None None None None cached_machine"

definition sample_net :: zombienet where
  "sample_net = projr (fst sample_run)"

lemma sample_run_ok:
  "zombienet_new sample_zombienet ''/cache'' (sample_network, []) (Some ''stable2512'') None None None None cached_machine =
     (Inr sample_net, snd sample_run)"
proof -
  have "\<not> isl (fst sample_run)" by code_simp
  from run_ok [OF this] show ?thesis by (simp add: sample_net_def sample_run_def)
qed

section \<open>The properties on it\<close>

lemma sample_binary:
  "zombienet_binaries sample_net = rc_binary (zn_relay_chain sample_net) # tl (zombienet_binaries sample_net)"
  by (simp add: zombienet_binaries_def)

theorem network_built_for_chains_witness:
  "distinct (pl_hrmp_channels (the (network_plan_for (chains_env.truncate sample_zombienet) Paseo (Some 9944)
     (Some (registered_chains Paseo)))))"
proof -
  have ids: "distinct (map reg_id (registered_chains Paseo))" by code_simp
  from network_built_for_chains [of "chains_env.truncate sample_zombienet" Paseo "Some 9944" "registered_chains Paseo"]
  show ?thesis
  proof (elim exE conjE)
    fix plan
    assume plan: "network_plan_for (chains_env.truncate sample_zombienet) Paseo (Some 9944) (Some (registered_chains Paseo)) = Some plan"
      and d: "distinct (map reg_id (registered_chains Paseo)) \<longrightarrow> distinct (pl_hrmp_channels plan)"
    show ?thesis unfolding plan option.sel by (rule mp [OF d ids])
  qed
qed




theorem relay_chain_determined_witness:
  "\<exists>relay s'. init_relay_chain sample_zombienet (Some ''stable2512'') None sample_network ''/cache'' cached_machine = (Inr relay, s') \<and>
     binary_name (rc_binary relay) = ''polkadot'' \<and> rc_runtime relay = Paseo"
proof -
  let ?r = "init_relay_chain sample_zombienet (Some ''stable2512'') None sample_network ''/cache'' cached_machine"
  have "\<not> isl (fst ?r)" by code_simp
  from run_ok [OF this] obtain relay where r: "?r = (Inr relay, snd ?r)" by blast
  have "from_chain (lc_chain (nw_relaychain sample_network)) = Some Paseo" by code_simp
  with relay_chain_determined [OF r] have "binary_name (rc_binary relay) = ''polkadot'' \<and> rc_runtime relay = Paseo"
    by (simp add: RELAY_BINARY_def)
  with r show ?thesis by blast
qed

theorem local_path_is_lowercased_witness:
  "\<exists>i c s' name manifest. parachain sample_zombienet (zn_relay_chain sample_net) None None None ''/cache''
       (sample_para 2000 None ''./bin/MyNode'') cached_machine = (Inr (i, c), s') \<and>
     cc_binary c = Local name ''./bin/mynode'' manifest"
proof -
  let ?p = "sample_para 2000 None ''./bin/MyNode''"
  let ?r = "parachain sample_zombienet (zn_relay_chain sample_net) None None None ''/cache'' ?p cached_machine"
  have "\<not> isl (fst ?r)" by code_simp
  from run_ok [OF this] obtain i c where r: "?r = (Inr (i, c), snd ?r)" by (metis surj_pair)
  have "to_ascii_lowercase ''./bin/MyNode'' = ''./bin/mynode''" by code_simp
  moreover have "\<exists>name manifest. cc_binary c = Local name (to_ascii_lowercase ''./bin/MyNode'') manifest"
    by (rule local_path_is_lowercased [OF r]) (simp_all add: sample_para_def)
  ultimately show ?thesis using r by metis
qed

lemma sample_links:
  "path_parent (binary_path (rc_binary (zn_relay_chain sample_net))) = Some ''/cache''"
  "binary_version (rc_binary (zn_relay_chain sample_net)) = Some ''stable2512''"
  "rc_workers (zn_relay_chain sample_net) = [''polkadot-execute-worker'', ''polkadot-prepare-worker'']"
  by code_simp+

theorem launched_network_has_its_workers_witness:
  "\<exists>s' l'. spawn sample_zombienet sample_net (cached_machine, []) = (Inr (), (s', l')) \<and>
     map_of l' ''/cache/polkadot-execute-worker'' = Some ''/cache/polkadot-execute-worker-stable2512''"
proof -
  let ?r = "spawn sample_zombienet sample_net (cached_machine, [])"
  have "fst ?r = Inr ()" by code_simp
  from run_of_fst [OF this] obtain s' l' where r: "?r = (Inr (), (s', l'))" by (metis surj_pair)
  have d: "distinct (map (path_join ''/cache'') (rc_workers (zn_relay_chain sample_net)))"
    unfolding sample_links by code_simp
  have j: "path_join ''/cache'' ''polkadot-execute-worker'' = ''/cache/polkadot-execute-worker''"
    "path_join ''/cache'' (''polkadot-execute-worker'' @ ''-'' @ ''stable2512'') = ''/cache/polkadot-execute-worker-stable2512''"
    by code_simp+
  from launched_network_has_its_workers [OF r refl sample_links(1) d] r j show ?thesis
    unfolding sample_links by auto
qed

theorem dangling_worker_link_stops_launch_witness:
  "spawn sample_zombienet sample_net (cached_machine, [(''/cache/polkadot-execute-worker'', ''/cache/polkadot-execute-worker-stable2503'')]) =
     (Inl ChainsIO, (cached_machine, [(''/cache/polkadot-execute-worker'', ''/cache/polkadot-execute-worker-stable2503'')]))"
proof (rule dangling_worker_link_stops_launch [OF refl _ sample_links])
  show "entry_exists (binary_path (rc_binary (zn_relay_chain sample_net)))
      (cached_machine, [(''/cache/polkadot-execute-worker'', ''/cache/polkadot-execute-worker-stable2503'')])" by code_simp
  show "map_of [(''/cache/polkadot-execute-worker'', ''/cache/polkadot-execute-worker-stable2503'')]
      (path_join ''/cache'' ''polkadot-execute-worker'') = Some ''/cache/polkadot-execute-worker-stable2503''" by code_simp
  show "\<not> path_exists ''/cache/polkadot-execute-worker-stable2503'' cached_machine" by code_simp
qed

end
