(* ===== verification/Chain_Spec.thy ===== *)
theory Chain_Spec
  imports Chain_Registry
begin

text \<open>
  Chain specifications, \<open>ChainSpec\<close> of \<^verbatim>\<open>crates/pop-chains/src/build/mod.rs\<close> with the accounts of
  \<^verbatim>\<open>crates/pop-common/src/account_id.rs\<close>: a value of JSON, what is read from it and what is replaced
  in it. The members of an object keep the order they were inserted in, as \<^verbatim>\<open>serde_json\<close> does with
  \<^verbatim>\<open>preserve_order\<close>. The SS58 decoder, the hash and the printers of hexadecimals are arguments.
\<close>

section \<open>Errors\<close>

text \<open>The errors a specification is built with; the last constructor stands for a panic.\<close>

datatype spec_error =
    SpecConfig string
  | SpecJson string
  | SpecIO string
  | SpecBuild string
  | SpecMissingBinary string
  | SpecMissingChainSpec string
  | SpecMissingCommand string string
  | SpecManifest string
  | SpecAccount string
  | SpecAnyhow string
  | SpecChains chains_error
  | SpecSourcing source_error
  | PromptRequired string
  | BuildCommandFailed string "spec_error option"
  | SpecPanic string

text \<open>The texts an error is printed with, the fixed words around them left out.\<close>

fun error_texts :: "spec_error \<Rightarrow> string list" where
  "error_texts (SpecConfig m) = [m]"
| "error_texts (SpecJson m) = [m]"
| "error_texts (SpecIO m) = [m]"
| "error_texts (SpecBuild m) = [m]"
| "error_texts (SpecMissingBinary m) = [m]"
| "error_texts (SpecMissingChainSpec m) = [m]"
| "error_texts (SpecMissingCommand m n) = [m, n]"
| "error_texts (SpecManifest m) = [m]"
| "error_texts (SpecAccount m) = [m]"
| "error_texts (SpecAnyhow m) = [m]"
| "error_texts _ = []"

type_synonym 'a spec_result = "spec_error + 'a"

section \<open>Values of JSON\<close>

definition member_of :: "string \<Rightarrow> json \<Rightarrow> json option" where
  "member_of k j = (case j of JObject m \<Rightarrow> map_of m k | _ \<Rightarrow> None)"

fun as_str :: "json \<Rightarrow> string option" where
  "as_str (JString s) = Some s"
| "as_str _ = None"

fun as_bool :: "json \<Rightarrow> bool option" where
  "as_bool (JBool b) = Some b"
| "as_bool _ = None"

fun as_u64 :: "json \<Rightarrow> u64 option" where
  "as_u64 (JNumber n) = (if 0 \<le> n \<and> n < 2 ^ 64 then Some (of_int n) else None)"
| "as_u64 _ = None"

text \<open>A value by the keys that lead to it, and the value put in its place when there is one.\<close>

fun at_path :: "string list \<Rightarrow> json \<Rightarrow> json option" where
  "at_path [] j = Some j"
| "at_path (k # ks) j = Option.bind (member_of k j) (at_path ks)"

fun put_path :: "string list \<Rightarrow> json \<Rightarrow> json \<Rightarrow> json" where
  "put_path [] v j = v"
| "put_path (k # ks) v j = (case j of
     JObject m \<Rightarrow> (case map_of m k of Some x \<Rightarrow> JObject (alist_insert k (put_path ks v x) m) | None \<Rightarrow> j)
   | _ \<Rightarrow> j)"

text \<open>A chain of \<^verbatim>\<open>get_mut(..).ok_or_else(..)?\<close>: the keys, each with the name used in its error.\<close>

fun expect_path :: "(string \<times> string) list \<Rightarrow> json \<Rightarrow> unit spec_result" where
  "expect_path [] j = Inr ()"
| "expect_path ((k, name) # ks) j = (case member_of k j of
     None \<Rightarrow> Inl (SpecConfig (''expected '' @ CHR 0x60 # name @ [CHR 0x60]))
   | Some x \<Rightarrow> expect_path ks x)"

definition replace_at :: "(string \<times> string) list \<Rightarrow> json \<Rightarrow> json \<Rightarrow> json spec_result" where
  "replace_at ks v j = sum_bind (expect_path ks j) (\<lambda>_. Inr (put_path (map fst ks) v j))"

section \<open>What is read from a specification\<close>

definition get_chain_type :: "json \<Rightarrow> string option" where
  "get_chain_type j = Option.bind (member_of ''chainType'' j) as_str"

definition get_name :: "json \<Rightarrow> string option" where
  "get_name j = Option.bind (member_of ''name'' j) as_str"

definition get_chain_id :: "json \<Rightarrow> u64 option" where
  "get_chain_id j = Option.bind (member_of ''para_id'' j) as_u64"

definition get_property_based_on :: "json \<Rightarrow> string option" where
  "get_property_based_on j = Option.bind (Option.bind (member_of ''properties'' j) (member_of ''basedOn'')) as_str"

definition get_protocol_id :: "json \<Rightarrow> string option" where
  "get_protocol_id j = Option.bind (member_of ''protocolId'' j) as_str"

definition get_relay_chain :: "json \<Rightarrow> string option" where
  "get_relay_chain j = Option.bind (member_of ''relay_chain'' j) as_str"

definition get_sudo_key :: "json \<Rightarrow> string option" where
  "get_sudo_key j = Option.bind (at_path [''genesis'', ''runtimeGenesis'', ''patch'', ''sudo'', ''key''] j) as_str"

section \<open>What is replaced in it\<close>

definition insert_root :: "string \<Rightarrow> json \<Rightarrow> json \<Rightarrow> json spec_result" where
  "insert_root k v j = (case j of
     JObject m \<Rightarrow> Inr (JObject (alist_insert k v m))
   | _ \<Rightarrow> Inl (SpecConfig ''expected root object''))"

definition PARACHAIN_ID_PATH :: "string list" where
  "PARACHAIN_ID_PATH = [''genesis'', ''runtimeGenesis'', ''patch'', ''parachainInfo'', ''parachainId'']"

text \<open>The identifier in the genesis is there in a specification that is not raw.\<close>

definition replace_para_id :: "u32 \<Rightarrow> json \<Rightarrow> json spec_result" where
  "replace_para_id para_id j =
     sum_bind (insert_root ''para_id'' (JNumber (uint para_id)) j) (\<lambda>j'.
     Inr (put_path PARACHAIN_ID_PATH (JNumber (uint para_id)) j'))"

definition replace_relay_chain :: "string \<Rightarrow> json \<Rightarrow> json spec_result" where
  "replace_relay_chain relay_name j = insert_root ''relay_chain'' (JString relay_name) j"

definition replace_chain_type :: "string \<Rightarrow> json \<Rightarrow> json spec_result" where
  "replace_chain_type chain_type j = replace_at [(''chainType'', ''chainType'')] (JString chain_type) j"

definition replace_protocol_id :: "string \<Rightarrow> json \<Rightarrow> json spec_result" where
  "replace_protocol_id protocol_id j = replace_at [(''protocolId'', ''protocolId'')] (JString protocol_id) j"

text \<open>\<^verbatim>\<open>str::trim\<close> for ASCII.\<close>

definition is_space :: "char \<Rightarrow> bool" where
  "is_space c \<longleftrightarrow> (let n = (of_char c :: nat) in n = 32 \<or> 9 \<le> n \<and> n \<le> 13)"

definition trim :: "string \<Rightarrow> string" where
  "trim s = rev (dropWhile is_space (rev (dropWhile is_space s)))"

text \<open>
  Properties as text: the pieces between commas and equality signs, two by two, are the keys and
  their values. The code expects a value after every key and panics without one.
\<close>

definition property_pieces :: "string \<Rightarrow> string list" where
  "property_pieces raw = concat (map (\<lambda>s. map trim (pieces ''='' s)) (pieces '','' raw))"

fun collect_pairs :: "string list \<Rightarrow> json_map \<Rightarrow> json_map spec_result" where
  "collect_pairs [] m = Inr m"
| "collect_pairs [k] m = Inl (SpecPanic ''Property value expected but not found'')"
| "collect_pairs (k # v # ps) m = collect_pairs ps (alist_insert k (JString v) m)"

definition replace_properties :: "string \<Rightarrow> json \<Rightarrow> json spec_result" where
  "replace_properties raw j =
     sum_bind (expect_path [(''properties'', ''properties'')] j) (\<lambda>_.
     sum_bind (collect_pairs (property_pieces raw) []) (\<lambda>m.
     Inr (put_path [''properties''] (JObject m) j)))"

text \<open>Accounts of 32 bytes as Ethereum accounts; one that ends in twelve times \<open>0xEE\<close> was one before.\<close>

record account_codec =
  ac_parse :: "string \<Rightarrow> string + bytes"
  ac_keccak_256 :: "bytes \<Rightarrow> bytes"
  ac_hex :: "bytes \<Rightarrow> string"

definition is_eth_derived :: "bytes \<Rightarrow> bool" where
  "is_eth_derived account \<longleftrightarrow> drop 20 account = replicate 12 0xEE"

definition to_address :: "account_codec \<Rightarrow> bytes \<Rightarrow> bytes" where
  "to_address C account = (if is_eth_derived account then take 20 account else drop 12 (ac_keccak_256 C account))"

fun convert_to_evm_accounts :: "account_codec \<Rightarrow> string list \<Rightarrow> string list spec_result" where
  "convert_to_evm_accounts C [] = Inr []"
| "convert_to_evm_accounts C (a # as) = (case ac_parse C a of
     Inl e \<Rightarrow> Inl (SpecAccount e)
   | Inr account \<Rightarrow> sum_bind (convert_to_evm_accounts C as) (\<lambda>rest. Inr (ac_hex C (to_address C account) # rest)))"

definition uses_evm_keys :: "json \<Rightarrow> bool" where
  "uses_evm_keys j \<longleftrightarrow> at_path [''properties'', ''isEthereum''] j = Some (JBool True)"

definition INVULNERABLES_PATH :: "(string \<times> string) list" where
  "INVULNERABLES_PATH = [(''genesis'', ''genesis''), (''runtimeGenesis'', ''runtimeGenesis''), (''patch'', ''patch''),
     (''collatorSelection'', ''collatorSelection''), (''invulnerables'', ''invulnerables'')]"

definition SESSION_KEYS_PATH :: "(string \<times> string) list" where
  "SESSION_KEYS_PATH = [(''genesis'', ''genesis''), (''runtimeGenesis'', ''runtimeGenesis''), (''patch'', ''patch''),
     (''session'', ''session''), (''keys'', ''session.keys'')]"

definition session_key :: "string \<Rightarrow> string \<Rightarrow> json" where
  "session_key address original = JArray [JString address, JString address, JObject [(''aura'', JString original)]]"

text \<open>A call that fails may have replaced the invulnerables; the second value is what is left.\<close>

definition replace_collator_keys :: "account_codec \<Rightarrow> string list \<Rightarrow> json \<Rightarrow> unit spec_result \<times> json" where
  "replace_collator_keys C collator_keys j =
     (case (if uses_evm_keys j then convert_to_evm_accounts C collator_keys else Inr collator_keys) of
       Inl e \<Rightarrow> (Inl e, j)
     | Inr keys \<Rightarrow> (case replace_at INVULNERABLES_PATH (JArray (map JString keys)) j of
         Inl e \<Rightarrow> (Inl e, j)
       | Inr j' \<Rightarrow> (case replace_at SESSION_KEYS_PATH (JArray (map2 session_key keys collator_keys)) j' of
           Inl e \<Rightarrow> (Inl e, j')
         | Inr j'' \<Rightarrow> (Inr (), j''))))"

text \<open>\<open>sp_core::bytes::to_hex(bytes, true)\<close> is an argument.\<close>

definition update_runtime_code :: "(bytes \<Rightarrow> bool \<Rightarrow> string) \<Rightarrow> bytes \<Rightarrow> json \<Rightarrow> json spec_result" where
  "update_runtime_code to_hex code j = replace_at
     [(''genesis'', ''genesis''), (''runtimeGenesis'', ''runtimeGenesis''), (''code'', ''runtimeGenesis.code'')]
     (JString (to_hex code True)) j"

section \<open>Lemmas\<close>

lemma member_put_path:
  "member_of k' (put_path (k # ks) v j) =
     (if k' = k then map_option (put_path ks v) (member_of k j) else member_of k' j)"
  by (cases j) (auto simp: member_of_def split: option.splits)

declare put_path.simps(2) [simp del]

lemma at_path_put_path: "at_path ks j \<noteq> None \<Longrightarrow> at_path ks (put_path ks v j) = Some v"
proof (induction ks arbitrary: j)
  case (Cons k ks)
  then obtain x where "member_of k j = Some x" and "at_path ks x \<noteq> None"
    by (auto simp: bind_eq_None_conv split: option.splits)
  with Cons.IH show ?case by (simp add: member_put_path)
qed simp

lemma expect_path_Inr: "expect_path ks j = Inr u \<longleftrightarrow> at_path (map fst ks) j \<noteq> None"
  by (induction ks j rule: expect_path.induct) (auto split: option.splits)

lemma insert_root_Inr:
  "insert_root k v j = Inr j' \<longleftrightarrow> (\<exists>m. j = JObject m \<and> j' = JObject (alist_insert k v m))"
  by (auto simp: insert_root_def split: json.splits)

lemma replace_at_Inr:
  "replace_at ks v j = Inr j' \<longleftrightarrow> at_path (map fst ks) j \<noteq> None \<and> j' = put_path (map fst ks) v j"
  by (auto simp: replace_at_def sum_bind_Inr expect_path_Inr)

lemma member_insert_root [simp]:
  "member_of k' (JObject (alist_insert k v m)) = (if k' = k then Some v else member_of k' (JObject m))"
  by (simp add: member_of_def)

text \<open>The pieces are paired off: an even number of them makes a map, an odd number a panic.\<close>

lemma collect_pairs_even: "even (length ps) \<longleftrightarrow> (\<exists>m'. collect_pairs ps m = Inr m')"
  by (induction ps m rule: collect_pairs.induct) auto

lemma collect_pairs_odd:
  "odd (length ps) \<Longrightarrow> collect_pairs ps m = Inl (SpecPanic ''Property value expected but not found'')"
  by (induction ps m rule: collect_pairs.induct) auto

end
