(* ===== verification/Spec_Builder.thy ===== *)
theory Spec_Builder
  imports Chain_Spec
begin

text \<open>
  Building chains and generating their specifications: \<open>ChainSpecBuilder\<close> and the functions on a node
  or a runtime of \<^verbatim>\<open>crates/pop-chains/src/build/mod.rs\<close>, the deterministic builds of
  \<^verbatim>\<open>build/runtime.rs\<close>, and from \<^verbatim>\<open>pop-common\<close> the profiles (\<^verbatim>\<open>build.rs\<close>) and the search for manifests
  (\<^verbatim>\<open>manifest.rs\<close>). Commands that are run, TOML, JSON as text, the specifications of the Substrate
  crates, canonical paths and Docker are arguments.
\<close>

section \<open>The environment\<close>

record workspace_table =
  wt_members :: "string list"
  wt_dependencies :: "string list"

record manifest =
  mf_package :: "string option"
  mf_workspace :: "workspace_table option"
  mf_dependencies :: "string list"
  mf_features :: "string list"

text \<open>What became of a command: it could not be started, or whether it succeeded and what it wrote.\<close>

datatype outcome = NotStarted | Exited bool bytes string

text \<open>
  \<open>sp_run\<close> runs a program with arguments in a directory; it may do anything to the files.
  \<open>sp_raw\<close>, \<open>sp_plain\<close> and \<open>sp_wasm\<close> are what \<^verbatim>\<open>GenericChainSpec\<close> makes of the text of a specification or
  of a runtime, its preset, name and identifier. \<open>sp_manifest_at\<close> is whether \<^verbatim>\<open>cargo_toml\<close> reads a manifest
  at a path. The texts of errors of libraries are left out.
\<close>

record 'w spec_env = "'w chains_env" +
  sp_parse :: "bytes \<Rightarrow> string + json"
  sp_pretty :: "json \<Rightarrow> bytes"
  sp_to_hex :: "bytes \<Rightarrow> bool \<Rightarrow> string"
  sp_lossy :: "bytes \<Rightarrow> string"
  sp_manifest :: "bytes \<Rightarrow> manifest option"
  sp_find_workspace :: "tree \<Rightarrow> string \<Rightarrow> string option"
  sp_canonical :: "tree \<Rightarrow> string \<Rightarrow> string option"
  sp_manifest_at :: "tree \<Rightarrow> string \<Rightarrow> bool"
  sp_glob :: "tree \<Rightarrow> string \<Rightarrow> string list option"
  sp_run :: "string \<Rightarrow> string list \<Rightarrow> string option \<Rightarrow> tree \<Rightarrow> 'w \<Rightarrow> outcome \<times> tree \<times> 'w"
  sp_raw :: "bytes \<Rightarrow> string + bytes"
  sp_plain :: "bytes \<Rightarrow> string \<Rightarrow> string option \<Rightarrow> string option \<Rightarrow> string + bytes"
  sp_wasm :: "bytes \<Rightarrow> string + bytes"
  sp_presets :: "bytes \<Rightarrow> string + string list"
  sp_tempfile :: "'w \<Rightarrow> (string + string) \<times> 'w"
  sp_image_tag :: "string \<Rightarrow> 'w \<Rightarrow> (string + string) \<times> 'w"
  sp_image_digest :: "string \<Rightarrow> string \<Rightarrow> 'w \<Rightarrow> (string + string) \<times> 'w"
  sp_temp_dir :: string
  sp_current_dir :: "string option"
  sp_cache :: "string + string"

type_synonym ('w, 'a) spec_prog = "('w machine, spec_error, 'a) prog"

definition os_error :: string where
  "os_error = ''os error''"

definition spec_io :: "'w spec_env \<Rightarrow> io_op \<Rightarrow> ('w, unit) spec_prog" where
  "spec_io E op = map_err (\<lambda>_. SpecIO os_error) (io (ce_sourcing E) op)"

definition ask_world :: "('w \<Rightarrow> (string + 'a) \<times> 'w) \<Rightarrow> (string \<Rightarrow> spec_error) \<Rightarrow> ('w, 'a) spec_prog" where
  "ask_world m e = map_err e (on_field mc_world (\<lambda>w s. s\<lparr>mc_world := w\<rparr>) m)"

text \<open>A panic is not an error that the code can handle.\<close>

definition unless_panic :: "spec_error \<Rightarrow> spec_error \<Rightarrow> spec_error" where
  "unless_panic e' e = (case e of SpecPanic why \<Rightarrow> SpecPanic why | _ \<Rightarrow> e')"

definition succeeds :: "('w, 'a) spec_prog \<Rightarrow> ('w, bool) spec_prog" where
  "succeeds m = matchE m (\<lambda>e. case e of SpecPanic why \<Rightarrow> fail (SpecPanic why) | _ \<Rightarrow> ret False) (\<lambda>_. ret True)"

definition read_file :: "'w spec_env \<Rightarrow> string \<Rightarrow> ('w, bytes) spec_prog" where
  "read_file E path =
     bindE (spec_io E (ReadFile path)) (\<lambda>_.
     bindE (gets (\<lambda>s. map_of (mc_files s) path)) (\<lambda>f. case f of
       None \<Rightarrow> fail (SpecIO os_error)
     | Some f \<Rightarrow> ret (file_content f)))"

definition put_content :: "string \<Rightarrow> bytes \<Rightarrow> 'w machine \<Rightarrow> 'w machine" where
  "put_content path b s = put_file path \<lparr>file_content = b, file_executable =
     (case map_of (mc_files s) path of Some f \<Rightarrow> file_executable f | None \<Rightarrow> False)\<rparr> s"

definition write_file :: "'w spec_env \<Rightarrow> string \<Rightarrow> bytes \<Rightarrow> ('w, unit) spec_prog" where
  "write_file E path b = bindE (spec_io E (WriteFile path)) (\<lambda>_. modify (put_content path b))"

definition is_file :: "string \<Rightarrow> 'w machine \<Rightarrow> bool" where
  "is_file path s \<longleftrightarrow> map_of (mc_files s) path \<noteq> None"

definition is_dir :: "string \<Rightarrow> 'w machine \<Rightarrow> bool" where
  "is_dir path s \<longleftrightarrow> path_exists path s \<and> \<not> is_file path s"

definition canonical_path :: "'w spec_env \<Rightarrow> string \<Rightarrow> ('w, string) spec_prog" where
  "canonical_path E path = bindE (gets mc_files) (\<lambda>files. case sp_canonical E files path of
     Some p \<Rightarrow> ret p | None \<Rightarrow> fail (SpecIO os_error))"

definition with_file_name :: "string \<Rightarrow> string \<Rightarrow> string" where
  "with_file_name path name = (case path_file_name path of
     None \<Rightarrow> path_join path name
   | Some _ \<Rightarrow> path_join (case path_parent path of Some d \<Rightarrow> d | None \<Rightarrow> []) name)"

definition beside :: "string \<Rightarrow> string \<Rightarrow> string" where
  "beside path name = path_join (case path_parent path of Some d \<Rightarrow> d | None \<Rightarrow> ''./'') name"

section \<open>Commands\<close>

definition run_command :: "'w spec_env \<Rightarrow> string \<Rightarrow> string list \<Rightarrow> string option \<Rightarrow> ('w, outcome) spec_prog" where
  "run_command E program args dir = (\<lambda>s. case sp_run E program args dir (mc_files s) (mc_world s) of
     (out, files, w) \<Rightarrow> (Inr out, s\<lparr>mc_files := files, mc_world := w\<rparr>))"

text \<open>\<open>duct\<close>: a command that fails is an error, with \<^verbatim>\<open>unchecked\<close> only one that does not start.\<close>

definition run_checked :: "'w spec_env \<Rightarrow> string \<Rightarrow> string list \<Rightarrow> string option \<Rightarrow> ('w, unit) spec_prog" where
  "run_checked E program args dir = bindE (run_command E program args dir) (\<lambda>out. case out of
     Exited True _ _ \<Rightarrow> ret () | _ \<Rightarrow> fail (SpecIO os_error))"

definition run_unchecked ::
  "'w spec_env \<Rightarrow> string \<Rightarrow> string list \<Rightarrow> string option \<Rightarrow> ('w, bool \<times> bytes \<times> string) spec_prog" where
  "run_unchecked E program args dir = bindE (run_command E program args dir) (\<lambda>out. case out of
     Exited ok stdout stderr \<Rightarrow> ret (ok, stdout, stderr) | NotStarted \<Rightarrow> fail (SpecIO os_error))"

text \<open>With the output sent to a file, which is emptied first.\<close>

definition run_to_file ::
  "'w spec_env \<Rightarrow> string \<Rightarrow> string list \<Rightarrow> string \<Rightarrow> ('w, bool \<times> string) spec_prog" where
  "run_to_file E program args path =
     bindE (spec_io E (CreateFile path)) (\<lambda>_.
     bindE (modify (put_content path [])) (\<lambda>_.
     bindE (run_unchecked E program args None) (\<lambda>(ok, stdout, stderr).
     bindE (modify (put_content path stdout)) (\<lambda>_. ret (ok, stderr)))))"

definition handle_command_error :: "bool \<times> string \<Rightarrow> (string \<Rightarrow> spec_error) \<Rightarrow> ('w, unit) spec_prog" where
  "handle_command_error output custom_error = (if fst output then ret () else fail (custom_error (snd output)))"

definition check_command_exists :: "'w spec_env \<Rightarrow> string \<Rightarrow> string \<Rightarrow> ('w, unit) spec_prog" where
  "check_command_exists E binary command =
     map_err (\<lambda>_. SpecMissingCommand command binary) (run_checked E binary [command, ''--help''] None)"

section \<open>Manifests and profiles\<close>

definition manifest_path :: "string \<Rightarrow> string" where
  "manifest_path path = (if path_file_name path = Some ''Cargo.toml'' then path else path_join path ''Cargo.toml'')"

definition from_path :: "'w spec_env \<Rightarrow> string \<Rightarrow> ('w, manifest) spec_prog" where
  "from_path E path = (let file = manifest_path path in
     bindE (gets (is_file file)) (\<lambda>found.
     if \<not> found then fail (SpecManifest file)
     else
       bindE (canonical_path E file) (\<lambda>p.
       bindE (read_file E p) (\<lambda>text. case sp_manifest E text of
         Some m \<Rightarrow> ret m | None \<Rightarrow> fail (SpecManifest p)))))"

text \<open>\<^verbatim>\<open>Manifest::package\<close> panics where there is no package.\<close>

definition package_name :: "manifest \<Rightarrow> ('w, string) spec_prog" where
  "package_name m = (case mf_package m of Some n \<Rightarrow> ret n | None \<Rightarrow> fail (SpecPanic ''not a package''))"

definition member_package :: "'w spec_env \<Rightarrow> string \<Rightarrow> ('w, (string \<times> string) list) spec_prog" where
  "member_package E entry =
     bindE (gets (is_file (path_join entry ''Cargo.toml''))) (\<lambda>found.
     if \<not> found then ret []
     else matchE (from_path E (path_join entry ''Cargo.toml'')) (\<lambda>_. ret [])
       (\<lambda>m. ret (case mf_package m of Some n \<Rightarrow> [(n, entry)] | None \<Rightarrow> [])))"

definition get_workspace_project_names :: "'w spec_env \<Rightarrow> string \<Rightarrow> ('w, (string \<times> string) list) spec_prog" where
  "get_workspace_project_names E project_path =
     bindE (from_path E project_path) (\<lambda>m. case mf_workspace m of
       None \<Rightarrow> fail (SpecConfig ''Manifest is not a workspace manifest'')
     | Some w \<Rightarrow>
         bindE (each (\<lambda>member.
           bindE (gets mc_files) (\<lambda>files. case sp_glob E files (path_join project_path member) of
             None \<Rightarrow> fail (SpecConfig (''Invalid glob pattern'' @ member))
           | Some entries \<Rightarrow> bindE (each (member_package E) entries) (\<lambda>xs. ret (concat xs)))) (wt_members w)) (\<lambda>xs.
         ret (concat xs)))"

datatype profile = Debug | Release | Production

fun profile_name :: "profile \<Rightarrow> string" where
  "profile_name Debug = ''debug''"
| "profile_name Release = ''release''"
| "profile_name Production = ''production''"

definition target_directory :: "profile \<Rightarrow> string \<Rightarrow> string" where
  "target_directory p path = path_join path (''target/'' @ profile_name p)"

definition depends_on :: "manifest \<Rightarrow> string \<Rightarrow> bool" where
  "depends_on m d \<longleftrightarrow> d \<in> set (mf_dependencies m) \<or>
     (case mf_workspace m of Some w \<Rightarrow> d \<in> set (wt_dependencies w) | None \<Rightarrow> False)"

definition is_supported :: "'w spec_env \<Rightarrow> string \<Rightarrow> 'w machine \<Rightarrow> bool" where
  "is_supported E path s = (case fst (from_path E path s) of
     Inl _ \<Rightarrow> False
   | Inr m \<Rightarrow> list_ex (depends_on m)
       [''cumulus-client-collator'', ''cumulus-primitives-core'', ''parachains-common'', ''polkadot-sdk''])"

definition runtime_is_supported :: "'w spec_env \<Rightarrow> string \<Rightarrow> 'w machine \<Rightarrow> bool" where
  "runtime_is_supported E path s = (case fst (from_path E path s) of
     Inl _ \<Rightarrow> False
   | Inr m \<Rightarrow> list_ex (depends_on m) [''frame-system'', ''frame-support'', ''substrate-wasm-builder''] \<and>
       (''runtime-benchmarks'' \<in> set (mf_features m) \<or> ''try-runtime'' \<in> set (mf_features m)))"

section \<open>Building a project\<close>

fun join_with :: "string \<Rightarrow> string list \<Rightarrow> string" where
  "join_with sep [] = []"
| "join_with sep [x] = x"
| "join_with sep (x # xs) = x @ sep @ join_with sep xs"

definition build_project_args :: "string option \<Rightarrow> profile \<Rightarrow> string list \<Rightarrow> string option \<Rightarrow> string list" where
  "build_project_args package p features tgt =
     [''build''] @
     (case package of Some n \<Rightarrow> [''--package'', n] | None \<Rightarrow> []) @
     (case p of Release \<Rightarrow> [''--release''] | Production \<Rightarrow> [''--profile=production''] | Debug \<Rightarrow> []) @
     (if features = [] then [] else [''--features'', join_with '','' features]) @
     (case tgt of Some t \<Rightarrow> [''--target'', t] | None \<Rightarrow> [])"

definition fetch_dependencies :: "'w spec_env \<Rightarrow> string \<Rightarrow> ('w, unit) spec_prog" where
  "fetch_dependencies E path = run_checked E ''cargo'' [''fetch''] (Some path)"

definition build_project ::
  "'w spec_env \<Rightarrow> string \<Rightarrow> string option \<Rightarrow> profile \<Rightarrow> string list \<Rightarrow> string option \<Rightarrow> bool \<Rightarrow> ('w, unit) spec_prog" where
  "build_project E path package p features tgt redirect_output_to_stderr =
     bindE (fetch_dependencies E path) (\<lambda>_. let args = build_project_args package p features tgt in
     if redirect_output_to_stderr then
       bindE (run_unchecked E ''cargo'' args (Some path)) (\<lambda>(ok, stdout, stderr).
       if ok then ret ()
       else let combined = sp_lossy E stdout @ stderr in
         fail (SpecAnyhow (''cargo build failed:'' @ CHR 0x0A # (if combined = [] then ''cargo build failed'' else combined))))
     else run_checked E ''cargo'' args (Some path))"

definition build_binary_path :: "'w spec_env \<Rightarrow> string \<Rightarrow> (string \<Rightarrow> string) \<Rightarrow> ('w, string) spec_prog" where
  "build_binary_path E project_path path_builder =
     bindE (from_path E project_path) (\<lambda>m.
     bindE (package_name m) (\<lambda>name.
     bindE (gets (path_exists (path_builder name))) (\<lambda>found.
     if found then ret (path_builder name) else fail (SpecMissingBinary name))))"

definition node_binary_path :: "'w spec_env \<Rightarrow> string \<Rightarrow> string \<Rightarrow> ('w, string) spec_prog" where
  "node_binary_path E target_path node_path = build_binary_path E node_path (path_join target_path)"

definition runtime_binary_path :: "'w spec_env \<Rightarrow> string \<Rightarrow> string \<Rightarrow> ('w, string) spec_prog" where
  "runtime_binary_path E target_path runtime_path = build_binary_path E runtime_path
     (\<lambda>name. path_join target_path (name @ ''/'' @ replace_all ''-'' ''_'' name @ ''.wasm''))"

definition build_chain ::
  "'w spec_env \<Rightarrow> string \<Rightarrow> string option \<Rightarrow> profile \<Rightarrow> string option \<Rightarrow> string list \<Rightarrow> bool \<Rightarrow> ('w, string) spec_prog" where
  "build_chain E path package p node_path features redirect_output_to_stderr =
     bindE (build_project E path package p features None redirect_output_to_stderr) (\<lambda>_.
     node_binary_path E (target_directory p path) (case node_path of Some n \<Rightarrow> n | None \<Rightarrow> path_join path ''node''))"

section \<open>Specifications as files\<close>

definition chain_spec_from :: "'w spec_env \<Rightarrow> string \<Rightarrow> ('w, json) spec_prog" where
  "chain_spec_from E path = bindE (read_file E path) (\<lambda>text. map_err SpecJson (lift_sum (sp_parse E text)))"

definition chain_spec_to_file :: "'w spec_env \<Rightarrow> json \<Rightarrow> string \<Rightarrow> ('w, unit) spec_prog" where
  "chain_spec_to_file E spec path = write_file E path (sp_pretty E spec)"

definition generate_raw_chain_spec_with_runtime :: "'w spec_env \<Rightarrow> string \<Rightarrow> string \<Rightarrow> ('w, string) spec_prog" where
  "generate_raw_chain_spec_with_runtime E plain_chain_spec raw_chain_spec_name =
     bindE (read_file E plain_chain_spec) (\<lambda>text.
     bindE (map_err SpecAnyhow (lift_sum (sp_raw E text))) (\<lambda>raw.
     let file = with_file_name plain_chain_spec raw_chain_spec_name in
     bindE (write_file E file raw) (\<lambda>_. ret file)))"

definition generate_plain_chain_spec_with_runtime ::
  "'w spec_env \<Rightarrow> bytes \<Rightarrow> string \<Rightarrow> string \<Rightarrow> string option \<Rightarrow> string option \<Rightarrow> ('w, unit) spec_prog" where
  "generate_plain_chain_spec_with_runtime E wasm plain_chain_spec preset name ident =
     bindE (map_err SpecAnyhow (lift_sum (sp_plain E wasm (trim preset) name ident))) (\<lambda>spec.
     write_file E plain_chain_spec spec)"

definition export_wasm_file_with_runtime :: "'w spec_env \<Rightarrow> string \<Rightarrow> string \<Rightarrow> ('w, string) spec_prog" where
  "export_wasm_file_with_runtime E raw_chain_spec wasm_file_name =
     bindE (read_file E raw_chain_spec) (\<lambda>text.
     bindE (map_err SpecAnyhow (lift_sum (sp_wasm E text))) (\<lambda>blob.
     let file = beside raw_chain_spec wasm_file_name in
     bindE (write_file E file blob) (\<lambda>_. ret file)))"

text \<open>The output of the node goes to a temporary file that takes the place of the specification.\<close>

definition generate_plain_chain_spec_with_node ::
  "'w spec_env \<Rightarrow> string \<Rightarrow> string \<Rightarrow> bool \<Rightarrow> string \<Rightarrow> ('w, unit) spec_prog" where
  "generate_plain_chain_spec_with_node E binary plain_chain_spec default_bootnode chain =
     bindE (check_command_exists E binary ''build-spec'') (\<lambda>_.
     bindE (ask_world (sp_tempfile E) SpecIO) (\<lambda>temp s.
       let (r, s') = bindE (run_to_file E binary
             ([''build-spec'', ''--chain'', chain] @ (if default_bootnode then [] else [''--disable-default-bootnode''])) temp)
           (\<lambda>output.
           bindE (handle_command_error output SpecBuild) (\<lambda>_.
           bindE (map_err (\<lambda>_. SpecAnyhow ''Failed to replace the chain spec file with the temporary file'')
             (spec_io E (Rename temp plain_chain_spec))) (\<lambda>_.
           modify (move_path temp plain_chain_spec)))) s
       in (r, remove_path temp s')))"

definition generate_raw_chain_spec_with_node :: "'w spec_env \<Rightarrow> string \<Rightarrow> string \<Rightarrow> string \<Rightarrow> ('w, string) spec_prog" where
  "generate_raw_chain_spec_with_node E binary plain_chain_spec chain_spec_file_name =
     bindE (gets (path_exists plain_chain_spec)) (\<lambda>found.
     if \<not> found then fail (SpecMissingChainSpec plain_chain_spec)
     else
       bindE (check_command_exists E binary ''build-spec'') (\<lambda>_.
       let raw = with_file_name plain_chain_spec chain_spec_file_name in
       bindE (run_to_file E binary [''build-spec'', ''--chain'', plain_chain_spec, ''--disable-default-bootnode'', ''--raw''] raw) (\<lambda>output.
       bindE (handle_command_error output SpecBuild) (\<lambda>_. ret raw))))"

text \<open>\<^verbatim>\<open>export-genesis-wasm\<close> and \<^verbatim>\<open>export-genesis-state\<close>, which write the file they are given.\<close>

definition export_with_node :: "'w spec_env \<Rightarrow> string \<Rightarrow> string \<Rightarrow> string \<Rightarrow> string \<Rightarrow> ('w, string) spec_prog" where
  "export_with_node E command binary raw_chain_spec name =
     bindE (gets (path_exists raw_chain_spec)) (\<lambda>found.
     if \<not> found then fail (SpecMissingChainSpec raw_chain_spec)
     else
       bindE (check_command_exists E binary command) (\<lambda>_.
       let file = beside raw_chain_spec name in
       bindE (run_unchecked E binary [command, ''--chain'', raw_chain_spec, file] None) (\<lambda>(ok, _, stderr).
       bindE (handle_command_error (ok, stderr) SpecBuild) (\<lambda>_. ret file))))"

definition export_wasm_file_with_node :: "'w spec_env \<Rightarrow> string \<Rightarrow> string \<Rightarrow> string \<Rightarrow> ('w, string) spec_prog" where
  "export_wasm_file_with_node E = export_with_node E ''export-genesis-wasm''"

definition generate_genesis_state_file_with_node :: "'w spec_env \<Rightarrow> string \<Rightarrow> string \<Rightarrow> string \<Rightarrow> ('w, string) spec_prog" where
  "generate_genesis_state_file_with_node E = export_with_node E ''export-genesis-state''"

section \<open>The builder of specifications\<close>

datatype chain_spec_builder =
    NodeBuilder string bool profile
  | RuntimeBuilder string profile

fun builder_path :: "chain_spec_builder \<Rightarrow> string" where
  "builder_path (NodeBuilder path _ _) = path"
| "builder_path (RuntimeBuilder path _) = path"

fun builder_profile :: "chain_spec_builder \<Rightarrow> profile" where
  "builder_profile (NodeBuilder _ _ p) = p"
| "builder_profile (RuntimeBuilder _ p) = p"

definition workspace_root :: "'w spec_env \<Rightarrow> string \<Rightarrow> ('w, string) spec_prog" where
  "workspace_root E path = bindE (gets mc_files) (\<lambda>files. case sp_find_workspace E files path of
     None \<Rightarrow> fail (SpecAnyhow ''Not inside a workspace'')
   | Some m \<Rightarrow> (case path_parent m of
       Some d \<Rightarrow> ret d
     | None \<Rightarrow> fail (SpecPanic ''Path to Cargo.toml workspace root folder must exist'')))"

definition wasm_artifact :: "string \<Rightarrow> string \<Rightarrow> ('w, string) spec_prog" where
  "wasm_artifact base package =
     (let file = replace_all ''-'' ''_'' package;
          compact = path_join base (file @ ''.compact.compressed.wasm'');
          raw = path_join base (file @ ''.wasm'')
      in bindE (gets (is_file compact)) (\<lambda>found. if found then ret compact
         else bindE (gets (is_file raw)) (\<lambda>found. if found then ret raw else fail (SpecAnyhow ''No runtime found''))))"

definition artifact_path :: "'w spec_env \<Rightarrow> chain_spec_builder \<Rightarrow> ('w, string) spec_prog" where
  "artifact_path E b =
     bindE (from_path E (builder_path b)) (\<lambda>m.
     bindE (package_name m) (\<lambda>package.
     bindE (workspace_root E (builder_path b)) (\<lambda>root.
     bindE (case b of
       NodeBuilder _ _ p \<Rightarrow> ret (path_join (target_directory p root) package)
     | RuntimeBuilder _ p \<Rightarrow> wasm_artifact (path_join (path_join (target_directory p root) ''wbuild'') package) package)
     (canonical_path E))))"

definition builder_build :: "'w spec_env \<Rightarrow> chain_spec_builder \<Rightarrow> string list \<Rightarrow> bool \<Rightarrow> ('w, string) spec_prog" where
  "builder_build E b features redirect_output_to_stderr =
     bindE (build_project E (builder_path b) None (builder_profile b) features None redirect_output_to_stderr) (\<lambda>_.
     artifact_path E b)"

definition generate_plain_chain_spec ::
  "'w spec_env \<Rightarrow> chain_spec_builder \<Rightarrow> string \<Rightarrow> string \<Rightarrow> string option \<Rightarrow> string option \<Rightarrow> ('w, unit) spec_prog" where
  "generate_plain_chain_spec E b chain_or_preset output_file name ident = (case b of
     NodeBuilder _ default_bootnode _ \<Rightarrow>
       bindE (artifact_path E b) (\<lambda>binary.
       generate_plain_chain_spec_with_node E binary output_file default_bootnode chain_or_preset)
   | RuntimeBuilder _ _ \<Rightarrow>
       bindE (artifact_path E b) (\<lambda>file.
       bindE (read_file E file) (\<lambda>wasm.
       generate_plain_chain_spec_with_runtime E wasm output_file chain_or_preset name ident)))"

definition generate_raw_chain_spec :: "'w spec_env \<Rightarrow> chain_spec_builder \<Rightarrow> string \<Rightarrow> string \<Rightarrow> ('w, string) spec_prog" where
  "generate_raw_chain_spec E b plain_chain_spec raw_chain_spec_name = (case b of
     NodeBuilder _ _ _ \<Rightarrow> bindE (artifact_path E b) (\<lambda>binary.
       generate_raw_chain_spec_with_node E binary plain_chain_spec raw_chain_spec_name)
   | RuntimeBuilder _ _ \<Rightarrow> generate_raw_chain_spec_with_runtime E plain_chain_spec raw_chain_spec_name)"

definition export_wasm_file :: "'w spec_env \<Rightarrow> chain_spec_builder \<Rightarrow> string \<Rightarrow> string \<Rightarrow> ('w, string) spec_prog" where
  "export_wasm_file E b raw_chain_spec wasm_file_name = (case b of
     NodeBuilder _ _ _ \<Rightarrow> bindE (artifact_path E b) (\<lambda>binary.
       export_wasm_file_with_node E binary raw_chain_spec wasm_file_name)
   | RuntimeBuilder _ _ \<Rightarrow> export_wasm_file_with_runtime E raw_chain_spec wasm_file_name)"

definition get_preset_names :: "'w spec_env \<Rightarrow> string \<Rightarrow> ('w, string list) spec_prog" where
  "get_preset_names E binary =
     bindE (read_file E binary) (\<lambda>wasm. map_err SpecAnyhow (lift_sum (sp_presets E wasm)))"

section \<open>Deterministic builds\<close>

definition DEFAULT_IMAGE :: string where
  "DEFAULT_IMAGE = ''docker.io/paritytech/srtool''"

definition SRTOOL_TAG_URL :: string where
  "SRTOOL_TAG_URL = ''https://raw.githubusercontent.com/paritytech/srtool/master/RUSTC_VERSION''"

record deterministic_builder =
  db_cache_mount :: string
  db_default_features :: string
  db_digest :: string
  db_image :: string
  db_package :: string
  db_path :: string
  db_profile :: profile
  db_runtime_dir :: string
  db_tag :: string

definition deterministic_new ::
  "'w spec_env \<Rightarrow> string option \<Rightarrow> string \<Rightarrow> profile \<Rightarrow> string \<Rightarrow> string option \<Rightarrow> ('w, deterministic_builder) spec_prog" where
  "deterministic_new E path package p runtime_dir tag =
     bindE (case tag of Some t \<Rightarrow> ret t | None \<Rightarrow> ask_world (sp_image_tag E SRTOOL_TAG_URL) SpecAnyhow) (\<lambda>t.
     bindE (ask_world (sp_image_digest E DEFAULT_IMAGE t) SpecAnyhow) (\<lambda>digest.
     bindE (canonical_path E (case path of Some q \<Rightarrow> q | None \<Rightarrow> ''./'')) (\<lambda>dir.
     ret \<lparr>db_cache_mount = path_join (sp_temp_dir E) ''cargo'' @ '':/cargo-home'', db_default_features = [],
       db_digest = digest, db_image = DEFAULT_IMAGE, db_package = package, db_path = dir, db_profile = p,
       db_runtime_dir = runtime_dir, db_tag = t\<rparr>)))"

definition strip_prefix :: "string \<Rightarrow> string \<Rightarrow> string" where
  "strip_prefix dir path = (if path = dir then [] else if starts_with path (dir @ ''/'') then drop (length dir + 1) path else path)"

definition deterministic_args :: "'w spec_env \<Rightarrow> deterministic_builder \<Rightarrow> ('w, string list) spec_prog" where
  "deterministic_args E d =
     bindE (case sp_current_dir E of Some c \<Rightarrow> ret c | None \<Rightarrow> fail (SpecIO os_error)) (\<lambda>current.
     bindE (gets mc_files) (\<lambda>files. case sp_find_workspace E files current of
       None \<Rightarrow> fail (SpecAnyhow ''Pop cannot determine your workspace path'')
     | Some m \<Rightarrow>
       bindE (case path_parent m of Some w \<Rightarrow> canonical_path E w
         | None \<Rightarrow> fail (SpecPanic ''A workspace manifest is a file and hence always has a parent'')) (\<lambda>root.
       ret [''run'', ''--name'', ''srtool'', ''--rm'',
         ''-e'', ''PACKAGE='' @ db_package d,
         ''-e'', ''RUNTIME_DIR='' @ strip_prefix root (db_runtime_dir d),
         ''-e'', ''DEFAULT_FEATURES='' @ db_default_features d,
         ''-e'', ''PROFILE='' @ (case db_profile d of Debug \<Rightarrow> ''dev'' | p \<Rightarrow> profile_name p),
         ''-e'', ''IMAGE='' @ db_digest d,
         ''-v'', db_path d @ '':/build'',
         ''-v'', db_cache_mount d,
         db_image d @ '':'' @ db_tag d, ''build'', ''--app'', ''--json''])))"

definition deterministic_output_path :: "deterministic_builder \<Rightarrow> string" where
  "deterministic_output_path d = foldl path_join (db_runtime_dir d)
     [''target'', ''srtool'', profile_name (db_profile d), ''wbuild'', db_package d,
      replace_all ''-'' ''_'' (db_package d) @ (case db_profile d of Debug \<Rightarrow> ''.wasm'' | _ \<Rightarrow> ''.compact.compressed.wasm'')]"

definition deterministic_build :: "'w spec_env \<Rightarrow> deterministic_builder \<Rightarrow> ('w, string) spec_prog" where
  "deterministic_build E d =
     bindE (deterministic_args E d) (\<lambda>args.
     bindE (run_checked E ''docker'' args None) (\<lambda>_. ret (deterministic_output_path d)))"

text \<open>From \<^verbatim>\<open>crates/pop-cli/src/common/runtime.rs\<close>: the file that was built, and its contents.\<close>

definition build_deterministic_runtime ::
  "'w spec_env \<Rightarrow> string \<Rightarrow> profile \<Rightarrow> string \<Rightarrow> string option \<Rightarrow> ('w, string \<times> bytes) spec_prog" where
  "build_deterministic_runtime E package p runtime_dir tag =
     bindE (map_err (unless_panic (SpecAnyhow ''Failed to build the deterministic runtime''))
       (bindE (deterministic_new E None package p runtime_dir tag) (\<lambda>d.
        bindE (deterministic_build E d) (\<lambda>wasm.
        bindE (gets (path_exists wasm)) (\<lambda>found.
        if found then ret wasm else fail (SpecAnyhow ''Can't find the generated runtime'')))))) (\<lambda>file.
     bindE (read_file E file) (\<lambda>code. ret (file, code)))"

end
