(* ===== verification/Build_Spec.thy ===== *)
theory Build_Spec
  imports Spec_Builder
begin

text \<open>
  \<^verbatim>\<open>pop build spec\<close>, \<^verbatim>\<open>crates/pop-cli/src/commands/build/spec.rs\<close>: the options of the command, what it
  asks for, and building the specification; with the choice of a builder (\<^verbatim>\<open>common/builds.rs\<close>) and the
  check of a binary (\<^verbatim>\<open>common/binary.rs\<close>). The answers to prompts are arguments; messages are left out.
\<close>

section \<open>Prompts\<close>

text \<open>
  A confirmation, a line of text with a default, the index of an item, the indices of some. An answer is an error when
  the prompt is interrupted; \<open>json_cli\<close> is \<open>JsonCli\<close>, which asks nothing.
\<close>

record 'w cli =
  cli_confirm :: "string \<Rightarrow> bool \<Rightarrow> 'w \<Rightarrow> (string + bool) \<times> 'w"
  cli_input :: "string \<Rightarrow> string \<Rightarrow> 'w \<Rightarrow> (string + string) \<times> 'w"
  cli_select :: "string \<Rightarrow> string list \<Rightarrow> 'w \<Rightarrow> (string + nat) \<times> 'w"
  cli_multiselect :: "string \<Rightarrow> string list \<Rightarrow> 'w \<Rightarrow> (string + nat list) \<times> 'w"

definition JSON_PROMPT_ERR :: string where
  "JSON_PROMPT_ERR = ''interactive prompt required but --json mode is active''"

definition json_cli :: "'w cli" where
  "json_cli = \<lparr>cli_confirm = \<lambda>_ _ w. (Inl JSON_PROMPT_ERR, w), cli_input = \<lambda>_ _ w. (Inl JSON_PROMPT_ERR, w),
     cli_select = \<lambda>_ _ w. (Inl JSON_PROMPT_ERR, w), cli_multiselect = \<lambda>_ _ w. (Inl JSON_PROMPT_ERR, w)\<rparr>"

definition confirm :: "'w cli \<Rightarrow> string \<Rightarrow> bool \<Rightarrow> ('w, bool) spec_prog" where
  "confirm C prompt initial_value = ask_world (cli_confirm C prompt initial_value) SpecIO"

definition input :: "'w cli \<Rightarrow> string \<Rightarrow> string \<Rightarrow> ('w, string) spec_prog" where
  "input C prompt default_input = ask_world (cli_input C prompt default_input) SpecIO"

definition select :: "'w cli \<Rightarrow> string \<Rightarrow> (string \<times> 'a) list \<Rightarrow> ('w, 'a) spec_prog" where
  "select C prompt items = bindE (ask_world (cli_select C prompt (map fst items)) SpecIO) (\<lambda>i.
     if i < length items then ret (snd (items ! i)) else fail (SpecIO ''no such item''))"

text \<open>\<^verbatim>\<open>unwrap_or\<close> and \<^verbatim>\<open>unwrap_or_else\<close>.\<close>

definition or_else :: "('w, 'a) spec_prog \<Rightarrow> 'a \<Rightarrow> ('w, 'a) spec_prog" where
  "or_else m x = matchE m (\<lambda>_. ret x) ret"

definition given_or :: "'a option \<Rightarrow> ('w, 'a) spec_prog \<Rightarrow> ('w, 'a) spec_prog" where
  "given_or x m = (case x of Some y \<Rightarrow> ret y | None \<Rightarrow> m)"

section \<open>Checking a binary\<close>

text \<open>The binary that a generator resolves, sourced when it does not exist and when it is stale.\<close>

definition source_and_permit :: "'w spec_env \<Rightarrow> binary \<Rightarrow> ('w, string) spec_prog" where
  "source_and_permit E b =
     bindE (map_err SpecSourcing (source_binary (ce_sourcing E) False b)) (\<lambda>_.
     bindE (map_err SpecSourcing (set_executable_permission (ce_sourcing E) (binary_path b))) (\<lambda>_.
     ret (binary_path b)))"

definition check_and_prompt ::
  "'w spec_env \<Rightarrow> 'w cli \<Rightarrow> (string \<Rightarrow> string option \<Rightarrow> ('w, binary) chains_prog) \<Rightarrow> string \<Rightarrow> bool \<Rightarrow> ('w, string) spec_prog" where
  "check_and_prompt E C generate cache_path skip_confirm =
     bindE (map_err SpecChains (generate cache_path None)) (\<lambda>b.
     bindE (gets (binary_exists b)) (\<lambda>found.
     bindE (if found then ret (binary_path b)
       else bindE (if skip_confirm then ret True
           else confirm C ''Would you like to source it automatically now?'' True) (\<lambda>latest.
         if latest then source_and_permit E b else ret (binary_path b))) (\<lambda>path.
     if binary_stale b then
       bindE (if skip_confirm then ret True
           else confirm C ''Would you like to source it automatically now? It may take some time...'' True) (\<lambda>latest.
         if latest then
           bindE (map_err SpecAnyhow (lift_sum (sp_cache E))) (\<lambda>cache.
           bindE (map_err SpecChains (generate cache (binary_latest b))) (source_and_permit E))
         else ret path)
     else ret path)))"

definition source_polkadot_omni_node_binary :: "'w spec_env \<Rightarrow> 'w cli \<Rightarrow> string \<Rightarrow> bool \<Rightarrow> ('w, string) spec_prog" where
  "source_polkadot_omni_node_binary E C cache_path skip_confirm =
     check_and_prompt E C (polkadot_omni_node_generator (chains_env.truncate E)) cache_path skip_confirm"

section \<open>Choosing a builder\<close>

datatype chain_path = Base string | Exact string

definition find_runtime_dir :: "'w spec_env \<Rightarrow> 'w cli \<Rightarrow> string \<Rightarrow> ('w, string) spec_prog" where
  "find_runtime_dir E C project_path =
     bindE (gets (\<lambda>s. is_dir (path_join project_path ''runtime'') s \<and>
       sp_manifest_at E (mc_files s) (path_join project_path ''runtime''))) (\<lambda>default.
     bindE (if default then ret (path_join project_path ''runtime'')
       else
         bindE (get_workspace_project_names E project_path) (\<lambda>all.
         case filter (\<lambda>(name, path). contains name ''runtime'' \<or> contains path ''runtime'') all of
           [] \<Rightarrow> fail (SpecAnyhow ''No runtime project found in the workspace'')
         | [(_, path)] \<Rightarrow> ret path
         | projects \<Rightarrow>
             bindE (select C ''Choose the runtime project:'' (map (\<lambda>(name, _). (name, name)) projects)) (\<lambda>selected.
             case map_of projects selected of
               Some path \<Rightarrow> ret path
             | None \<Rightarrow> fail (SpecPanic ''Selected path must exist''))))
     (canonical_path E))"

definition create_chain_spec_builder ::
  "'w spec_env \<Rightarrow> 'w cli \<Rightarrow> chain_path \<Rightarrow> profile \<Rightarrow> bool \<Rightarrow> ('w, chain_spec_builder) spec_prog" where
  "create_chain_spec_builder E C path p default_bootnode = (case path of
     Base path \<Rightarrow>
       bindE (gets (is_dir (path_join path ''node''))) (\<lambda>node.
       if node then bindE (canonical_path E (path_join path ''node'')) (\<lambda>n. ret (NodeBuilder n default_bootnode p))
       else bindE (find_runtime_dir E C path) (\<lambda>r. ret (RuntimeBuilder r p)))
   | Exact runtime_path \<Rightarrow> bindE (canonical_path E runtime_path) (\<lambda>r. ret (RuntimeBuilder r p)))"

definition guide_user_to_select_profile :: "'w cli \<Rightarrow> ('w, profile) spec_prog" where
  "guide_user_to_select_profile C = select C ''Choose the build profile of the binary that should be used: ''
     [(''Debug'', Debug), (''Release'', Release), (''Production'', Production)]"

section \<open>Options\<close>

datatype spec_chain_type = Development | LocalType | LiveType

fun chain_type_name :: "spec_chain_type \<Rightarrow> string" where
  "chain_type_name Development = ''Development''"
| "chain_type_name LocalType = ''Local''"
| "chain_type_name LiveType = ''Live''"

datatype spec_relay = PaseoRelay | PaseoLocal | WestendRelay | WestendLocal | KusamaRelay | KusamaLocal
  | PolkadotRelay | PolkadotLocal

fun spec_relay_name :: "spec_relay \<Rightarrow> string" where
  "spec_relay_name PaseoRelay = ''paseo''"
| "spec_relay_name PaseoLocal = ''paseo-local''"
| "spec_relay_name WestendRelay = ''westend''"
| "spec_relay_name WestendLocal = ''westend-local''"
| "spec_relay_name KusamaRelay = ''kusama''"
| "spec_relay_name KusamaLocal = ''kusama-local''"
| "spec_relay_name PolkadotRelay = ''polkadot''"
| "spec_relay_name PolkadotLocal = ''polkadot-local''"

definition chain_types :: "(string \<times> spec_chain_type) list" where
  "chain_types = map (\<lambda>t. (chain_type_name t, t)) [Development, LocalType, LiveType]"

definition spec_relays :: "(string \<times> spec_relay) list" where
  "spec_relays = map (\<lambda>r. (spec_relay_name r, r))
     [PaseoRelay, PaseoLocal, WestendRelay, WestendLocal, KusamaRelay, KusamaLocal, PolkadotRelay, PolkadotLocal]"

text \<open>\<^verbatim>\<open>ValueEnum::from_str\<close>, without regard to the case of ASCII letters.\<close>

definition named :: "(string \<times> 'a) list \<Rightarrow> string \<Rightarrow> 'a option" where
  "named items s = map_option snd (List.find (\<lambda>(n, _). to_ascii_lowercase n = to_ascii_lowercase s) items)"

record build_spec_command =
  cmd_path :: string
  cmd_output_file :: "string option"
  cmd_profile :: "profile option"
  cmd_para_id :: "u32 option"
  cmd_default_bootnode :: "bool option"
  cmd_chain_type :: "spec_chain_type option"
  cmd_features :: string
  cmd_skip_build :: bool
  cmd_chain :: "string option"
  cmd_is_relay :: bool
  cmd_relay :: "spec_relay option"
  cmd_name :: "string option"
  cmd_id :: "string option"
  cmd_protocol_id :: "string option"
  cmd_properties :: "string option"
  cmd_genesis_state :: "bool option"
  cmd_genesis_code :: "bool option"
  cmd_deterministic :: "bool option"
  cmd_tag :: "string option"
  cmd_runtime_dir :: "string option"
  cmd_package :: "string option"
  cmd_raw :: bool

record build_spec =
  bs_path :: string
  bs_output_file :: string
  bs_profile :: profile
  bs_is_relay :: bool
  bs_para_id :: "u32 option"
  bs_default_bootnode :: bool
  bs_chain_type :: spec_chain_type
  bs_chain :: "string option"
  bs_relay :: "spec_relay option"
  bs_protocol_id :: string
  bs_name :: "string option"
  bs_id :: "string option"
  bs_properties :: "string option"
  bs_features :: "string list"
  bs_skip_build :: bool
  bs_genesis_state :: bool
  bs_genesis_code :: bool
  bs_deterministic :: bool
  bs_tag :: "string option"
  bs_package :: string
  bs_runtime_dir :: "string option"
  bs_use_existing_plain_spec :: bool
  bs_raw :: bool

definition DEFAULT_CHAIN :: string where "DEFAULT_CHAIN = ''dev''"
definition DEFAULT_PACKAGE :: string where "DEFAULT_PACKAGE = ''parachain-template-runtime''"
definition DEFAULT_PARA_ID :: u32 where "DEFAULT_PARA_ID = 2000"
definition DEFAULT_PROTOCOL_ID :: string where "DEFAULT_PROTOCOL_ID = ''my-protocol''"
definition DEFAULT_RUNTIME_DIR :: string where "DEFAULT_RUNTIME_DIR = ''./runtime''"
definition DEFAULT_SPEC_NAME :: string where "DEFAULT_SPEC_NAME = ''chain-spec.json''"

text \<open>The command as it would be typed.\<close>

definition flag :: "string \<Rightarrow> ('a \<Rightarrow> string) \<Rightarrow> 'a option \<Rightarrow> string" where
  "flag name show_value value = (case value of Some x \<Rightarrow> '' --'' @ name @ '' '' @ show_value x | None \<Rightarrow> [])"

definition quoted :: "string \<Rightarrow> string" where
  "quoted s = CHR 0x22 # s @ [CHR 0x22]"

definition bool_text :: "bool \<Rightarrow> string" where
  "bool_text b = (if b then ''true'' else ''false'')"

definition build_spec_display :: "build_spec_command \<Rightarrow> string" where
  "build_spec_display c = ''pop build spec'' @ '' --path '' @ cmd_path c @
     flag ''output'' id (cmd_output_file c) @
     flag ''profile'' profile_name (cmd_profile c) @
     flag ''para-id'' (\<lambda>i. digits (unat i)) (cmd_para_id c) @
     flag ''default-bootnode'' bool_text (cmd_default_bootnode c) @
     flag ''type'' chain_type_name (cmd_chain_type c) @
     (if cmd_features c \<noteq> [] then '' --features '' @ quoted (cmd_features c) else []) @
     (if cmd_skip_build c then '' --skip-build'' else []) @
     flag ''chain'' id (cmd_chain c) @
     (if cmd_is_relay c then '' --is-relay'' else []) @
     flag ''relay'' spec_relay_name (cmd_relay c) @
     flag ''name'' quoted (cmd_name c) @
     flag ''id'' id (cmd_id c) @
     flag ''protocol-id'' id (cmd_protocol_id c) @
     flag ''properties'' quoted (cmd_properties c) @
     flag ''genesis-state'' bool_text (cmd_genesis_state c) @
     flag ''genesis-code'' bool_text (cmd_genesis_code c) @
     flag ''deterministic'' bool_text (cmd_deterministic c) @
     flag ''tag'' id (cmd_tag c) @
     flag ''runtime-dir'' id (cmd_runtime_dir c) @
     flag ''package'' id (cmd_package c) @
     (if cmd_raw c then '' --raw'' else [])"

section \<open>Configuring\<close>

text \<open>\<^verbatim>\<open>Path::extension\<close>\<close>

definition path_extension :: "string \<Rightarrow> string option" where
  "path_extension path = Option.bind (path_file_name path) (\<lambda>n.
     case dropWhile (\<lambda>c. c \<noteq> CHR ''.'') (rev n) of
       [] \<Rightarrow> None | [_] \<Rightarrow> None | _ \<Rightarrow> Some (rev (takeWhile (\<lambda>c. c \<noteq> CHR ''.'') (rev n))))"

definition create_dir_all :: "'w spec_env \<Rightarrow> string \<Rightarrow> ('w, unit) spec_prog" where
  "create_dir_all E path = (if path = [] then ret () else spec_io E (CreateDir path))"

definition prepare_output_path :: "'w spec_env \<Rightarrow> string \<Rightarrow> ('w, string) spec_prog" where
  "prepare_output_path E output_path =
     (let is_json = (case path_extension output_path of Some e \<Rightarrow> to_ascii_lowercase e = ''json'' | None \<Rightarrow> False) in
     bindE (gets (is_dir output_path)) (\<lambda>dir.
     bindE (gets (path_exists output_path)) (\<lambda>found.
     if dir \<or> (\<not> found \<and> \<not> is_json) then
       bindE (if found then ret () else create_dir_all E output_path) (\<lambda>_. ret (path_join output_path DEFAULT_SPEC_NAME))
     else
       bindE (case path_parent output_path of
         Some d \<Rightarrow> bindE (gets (path_exists d)) (\<lambda>there. if there then ret () else create_dir_all E d)
       | None \<Rightarrow> ret ()) (\<lambda>_. ret output_path))))"

definition required :: "'a option \<Rightarrow> string \<Rightarrow> ('w, 'a) spec_prog" where
  "required x what = given_or x (fail (PromptRequired (what @ '' is required with --json'')))"

definition configure_build_spec_json :: "'w spec_env \<Rightarrow> build_spec_command \<Rightarrow> ('w, build_spec) spec_prog" where
  "configure_build_spec_json E c =
     bindE (required (cmd_output_file c) ''--output'') (\<lambda>output_file.
     bindE (required (cmd_profile c) ''--profile'') (\<lambda>p.
     bindE (required (cmd_chain_type c) ''--type'') (\<lambda>chain_type.
     bindE (required (cmd_chain c) ''--chain'') (\<lambda>chain.
     bindE (required (cmd_protocol_id c) ''--protocol-id'') (\<lambda>protocol_id.
     bindE (required (cmd_default_bootnode c) ''--default-bootnode'') (\<lambda>default_bootnode.
     bindE (required (cmd_genesis_state c) ''--genesis-state'') (\<lambda>genesis_state.
     bindE (required (cmd_genesis_code c) ''--genesis-code'') (\<lambda>genesis_code.
     bindE (required (cmd_deterministic c) ''--deterministic'') (\<lambda>deterministic.
     bindE (if cmd_is_relay c then ret (None, None)
       else bindE (required (cmd_para_id c) ''--para-id'') (\<lambda>para_id.
         bindE (required (cmd_relay c) ''--relay'') (\<lambda>relay. ret (Some para_id, Some relay)))) (\<lambda>(para_id, relay).
     bindE (if deterministic then
         bindE (given_or (cmd_runtime_dir c)
           (fail (PromptRequired ''--runtime-dir is required with --json when --deterministic is true''))) (\<lambda>d. ret (Some d))
       else ret (cmd_runtime_dir c)) (\<lambda>runtime_dir.
     bindE (if deterministic then given_or (cmd_package c)
           (fail (PromptRequired ''--package is required with --json when --deterministic is true''))
       else ret DEFAULT_PACKAGE) (\<lambda>package.
     bindE (prepare_output_path E output_file) (\<lambda>output_path.
     ret \<lparr>bs_path = cmd_path c, bs_output_file = output_path, bs_profile = p, bs_is_relay = cmd_is_relay c,
       bs_para_id = para_id, bs_default_bootnode = default_bootnode, bs_chain_type = chain_type, bs_chain = Some chain,
       bs_relay = relay, bs_protocol_id = protocol_id, bs_name = cmd_name c, bs_id = cmd_id c,
       bs_properties = cmd_properties c,
       bs_features = filter (\<lambda>f. f \<noteq> []) (map trim (pieces '','' (cmd_features c))),
       bs_skip_build = cmd_skip_build c, bs_genesis_state = genesis_state, bs_genesis_code = genesis_code,
       bs_deterministic = deterministic, bs_tag = cmd_tag c, bs_package = package, bs_runtime_dir = runtime_dir,
       bs_use_existing_plain_spec = False, bs_raw = cmd_raw c\<rparr>)))))))))))))"

text \<open>
  With prompts: what is not given is asked for, with a default from the specification when there
  is one at the output path. \<open>configure_output\<close> gives that path and whether to ask.
\<close>

definition configure_output :: "'w spec_env \<Rightarrow> 'w cli \<Rightarrow> build_spec_command \<Rightarrow> ('w, string \<times> bool) spec_prog" where
  "configure_output E C c =
     bindE (gets (\<lambda>s. case cmd_chain c of Some chain \<Rightarrow> is_file chain s | None \<Rightarrow> False)) (\<lambda>existing.
     if existing then
       bindE (confirm C ''An existing chain spec file is provided. Do you want to make additional changes to it?'' False) (\<lambda>prompt.
       ret (the (cmd_chain c), prompt))
     else
       bindE (given_or (cmd_output_file c) (input C ''Name or path for the plain chain spec file:'' (''./'' @ DEFAULT_SPEC_NAME))) (\<lambda>output.
       bindE (prepare_output_path E output) (\<lambda>output_path. ret (output_path, True))))"

text \<open>\<^verbatim>\<open>parse::<u32>\<close>, which takes a sign.\<close>

definition parse_signed_u32 :: "string \<Rightarrow> u32 option" where
  "parse_signed_u32 s = parse_u32 (if take 1 s = ''+'' then tl s else s)"

definition configure_para_id :: "'w cli \<Rightarrow> bool \<Rightarrow> json option \<Rightarrow> u32 option \<Rightarrow> ('w, u32) spec_prog" where
  "configure_para_id C prompt chain_spec para_id = given_or para_id
     (let default = (case Option.bind chain_spec get_chain_id of Some i \<Rightarrow> ucast i | None \<Rightarrow> DEFAULT_PARA_ID) in
      if prompt then
        bindE (input C ''What parachain ID should be used?'' (digits (unat default))) (\<lambda>text.
        ret (case parse_signed_u32 text of Some i \<Rightarrow> i | None \<Rightarrow> DEFAULT_PARA_ID))
      else ret default)"

definition configure_relay :: "'w cli \<Rightarrow> bool \<Rightarrow> json option \<Rightarrow> spec_relay option \<Rightarrow> ('w, spec_relay) spec_prog" where
  "configure_relay C prompt chain_spec relay = given_or relay
     (if prompt then select C ''Choose the relay your chain will be connecting to: '' spec_relays
      else ret (case Option.bind (Option.bind chain_spec get_relay_chain) (named spec_relays) of
        Some r \<Rightarrow> r | None \<Rightarrow> PaseoLocal))"

definition configure_chain_type :: "'w cli \<Rightarrow> bool \<Rightarrow> json option \<Rightarrow> spec_chain_type option \<Rightarrow> ('w, spec_chain_type) spec_prog" where
  "configure_chain_type C prompt chain_spec chain_type = given_or chain_type
     (if prompt then select C ''Choose the chain type: '' chain_types
      else ret (case Option.bind (Option.bind chain_spec get_chain_type) (named chain_types) of
        Some t \<Rightarrow> t | None \<Rightarrow> Development))"

definition configure_protocol_id :: "'w cli \<Rightarrow> bool \<Rightarrow> json option \<Rightarrow> string option \<Rightarrow> ('w, string) spec_prog" where
  "configure_protocol_id C prompt chain_spec protocol_id = given_or protocol_id
     (let default = (case Option.bind chain_spec get_protocol_id of Some p \<Rightarrow> p | None \<Rightarrow> DEFAULT_PROTOCOL_ID) in
      if prompt then input C ''Enter the protocol ID that will identify your network: '' default else ret default)"

definition configure_package :: "'w spec_env \<Rightarrow> 'w cli \<Rightarrow> string option \<Rightarrow> string \<Rightarrow> ('w, string) spec_prog" where
  "configure_package E C package runtime_dir = given_or package
     (bindE (matchE (from_path E runtime_dir) (\<lambda>_. ret None) (\<lambda>m. ret (mf_package m))) (\<lambda>name.
      given_or name (or_else (input C ''Enter the runtime package name:'' DEFAULT_PACKAGE) DEFAULT_PACKAGE)))"

definition configure_build_spec :: "'w spec_env \<Rightarrow> 'w cli \<Rightarrow> build_spec_command \<Rightarrow> ('w, build_spec) spec_prog" where
  "configure_build_spec E C c =
     bindE (configure_output E C c) (\<lambda>(output_file, prompt).
     bindE (matchE (chain_spec_from E output_file) (\<lambda>_. ret None) (\<lambda>j. ret (Some j))) (\<lambda>chain_spec.
     bindE (if cmd_is_relay c then ret (None, None)
       else bindE (configure_para_id C prompt chain_spec (cmd_para_id c)) (\<lambda>para_id.
         bindE (configure_relay C prompt chain_spec (cmd_relay c)) (\<lambda>relay. ret (Some para_id, Some relay)))) (\<lambda>(para_id, relay).
     bindE (configure_chain_type C prompt chain_spec (cmd_chain_type c)) (\<lambda>chain_type.
     bindE (given_or (cmd_profile c) (if prompt then guide_user_to_select_profile C else ret Release)) (\<lambda>p.
     bindE (configure_protocol_id C prompt chain_spec (cmd_protocol_id c)) (\<lambda>protocol_id.
     bindE (if \<not> prompt then ret False
       else given_or (cmd_default_bootnode c) (case chain_type of
           Development \<Rightarrow> ret True
         | _ \<Rightarrow> or_else (confirm C ''Would you like to use local host as a bootnode ?'' True) True)) (\<lambda>default_bootnode.
     bindE (given_or (cmd_genesis_state c)
       (or_else (confirm C ''Should the genesis state file be generated ?'' True) True)) (\<lambda>genesis_state.
     bindE (given_or (cmd_genesis_code c)
       (or_else (confirm C ''Should the genesis code file be generated ?'' True) True)) (\<lambda>genesis_code.
     bindE (if \<not> prompt then ret False
       else given_or (cmd_deterministic c)
         (or_else (confirm C ''Would you like to build the runtime deterministically?'' (p = Production)) False)) (\<lambda>deterministic.
     bindE (if deterministic then
         bindE (given_or (cmd_runtime_dir c)
           (or_else (input C ''Enter the directory path where the runtime is located:'' DEFAULT_RUNTIME_DIR) DEFAULT_RUNTIME_DIR))
         (\<lambda>d. ret (Some d))
       else ret (cmd_runtime_dir c)) (\<lambda>runtime_dir.
     bindE (if deterministic then configure_package E C (cmd_package c) (the runtime_dir)
       else ret DEFAULT_PACKAGE) (\<lambda>package.
     ret \<lparr>bs_path = cmd_path c, bs_output_file = output_file, bs_profile = p, bs_is_relay = cmd_is_relay c,
       bs_para_id = para_id, bs_default_bootnode = default_bootnode, bs_chain_type = chain_type, bs_chain = cmd_chain c,
       bs_relay = relay, bs_protocol_id = protocol_id, bs_name = cmd_name c, bs_id = cmd_id c,
       bs_properties = cmd_properties c, bs_features = map trim (pieces '','' (cmd_features c)),
       bs_skip_build = cmd_skip_build c, bs_genesis_state = genesis_state, bs_genesis_code = genesis_code,
       bs_deterministic = deterministic, bs_tag = cmd_tag c, bs_package = package, bs_runtime_dir = runtime_dir,
       bs_use_existing_plain_spec = \<not> prompt, bs_raw = cmd_raw c\<rparr>))))))))))))"

section \<open>Building\<close>

definition customized :: "build_spec \<Rightarrow> json \<Rightarrow> json spec_result" where
  "customized b j =
     sum_bind (if bs_is_relay b then Inr j
       else (case bs_para_id b of
         None \<Rightarrow> Inl (SpecAnyhow ''Missing para_id for chain spec'')
       | Some i \<Rightarrow> sum_bind (replace_para_id i j) (\<lambda>j'. case bs_relay b of
           None \<Rightarrow> Inl (SpecAnyhow ''Missing relay chain for chain spec'')
         | Some r \<Rightarrow> replace_relay_chain (spec_relay_name r) j'))) (\<lambda>j1.
     sum_bind (replace_chain_type (chain_type_name (bs_chain_type b)) j1) (\<lambda>j2.
     sum_bind (replace_protocol_id (bs_protocol_id b) j2) (\<lambda>j3.
     case bs_properties b of None \<Rightarrow> Inr j3 | Some raw \<Rightarrow> replace_properties raw j3)))"

definition customize :: "'w spec_env \<Rightarrow> build_spec \<Rightarrow> string \<Rightarrow> ('w, unit) spec_prog" where
  "customize E b path =
     bindE (chain_spec_from E path) (\<lambda>j.
     bindE (lift_sum (customized b j)) (\<lambda>j'. chain_spec_to_file E j' path))"

definition update_code :: "'w spec_env \<Rightarrow> build_spec \<Rightarrow> bytes \<Rightarrow> ('w, unit) spec_prog" where
  "update_code E b code =
     bindE (chain_spec_from E (bs_output_file b)) (\<lambda>j.
     bindE (lift_sum (update_runtime_code (sp_to_hex E) code j)) (\<lambda>j'. chain_spec_to_file E j' (bs_output_file b)))"

definition choose_chain ::
  "'w spec_env \<Rightarrow> 'w cli \<Rightarrow> build_spec \<Rightarrow> chain_spec_builder \<Rightarrow> ('w, string) spec_prog" where
  "choose_chain E C b builder = given_or (bs_chain b) (case builder of
     RuntimeBuilder _ _ \<Rightarrow>
       bindE (artifact_path E builder) (\<lambda>file.
       bindE (get_preset_names E file) (\<lambda>names. select C ''Select the preset'' (map (\<lambda>n. (n, n)) names)))
   | NodeBuilder _ _ _ \<Rightarrow>
       input C ''Provide the chain specification to use (e.g. dev, local, custom or a path to an existing file)'' DEFAULT_CHAIN)"

definition build_plain_spec :: "'w spec_env \<Rightarrow> 'w cli \<Rightarrow> build_spec \<Rightarrow> chain_spec_builder \<Rightarrow> ('w, unit) spec_prog" where
  "build_plain_spec E C b builder =
     bindE (choose_chain E C b builder) (\<lambda>chain.
     bindE (generate_plain_chain_spec E builder chain (bs_output_file b) (bs_name b) (bs_id b)) (\<lambda>_.
     bindE (customize E b (bs_output_file b)) (\<lambda>_.
     if bs_deterministic b then (case bs_runtime_dir b of
         None \<Rightarrow> fail (SpecPanic ''Deterministic builds always contains runtime_dir'')
       | Some d \<Rightarrow>
           bindE (map_err (unless_panic (SpecAnyhow ''Failed to build the deterministic runtime''))
             (build_deterministic_runtime E (bs_package b) (bs_profile b) d (bs_tag b))) (\<lambda>(_, code). update_code E b code))
     else ret ())))"

text \<open>\<^verbatim>\<open>trim_end_matches\<close> takes the suffix away as often as it is there.\<close>

function trim_end_matches :: "string \<Rightarrow> string \<Rightarrow> string" where
  "trim_end_matches suffix s =
     (if suffix \<noteq> [] \<and> ends_with s suffix then trim_end_matches suffix (take (length s - length suffix) s) else s)"
  by pat_completeness auto
termination by (relation "measure (\<lambda>(_, s). length s)") (auto simp: ends_with_def intro!: diff_less)

declare trim_end_matches.simps [simp del]

definition raw_spec_name :: "string \<Rightarrow> string" where
  "raw_spec_name output_file =
     trim_end_matches ''.json'' (case path_file_name output_file of Some n \<Rightarrow> n | None \<Rightarrow> DEFAULT_SPEC_NAME) @ ''-raw.json''"

record genesis_artifacts =
  ga_chain_spec :: string
  ga_raw_chain_spec :: "string option"
  ga_genesis_state_file :: "string option"
  ga_genesis_code_file :: "string option"

definition is_runtime_build :: "chain_spec_builder \<Rightarrow> bool" where
  "is_runtime_build b = (case b of RuntimeBuilder _ _ \<Rightarrow> True | NodeBuilder _ _ _ \<Rightarrow> False)"

definition build_genesis_state :: "'w spec_env \<Rightarrow> 'w cli \<Rightarrow> chain_spec_builder \<Rightarrow> string \<Rightarrow> ('w, string) spec_prog" where
  "build_genesis_state E C builder raw =
     bindE (case builder of
       RuntimeBuilder _ _ \<Rightarrow> bindE (map_err SpecAnyhow (lift_sum (sp_cache E))) (\<lambda>cache.
         source_polkadot_omni_node_binary E C cache True)
     | NodeBuilder _ _ _ \<Rightarrow> artifact_path E builder) (\<lambda>binary.
     generate_genesis_state_file_with_node E binary raw ''genesis-state'')"

definition build_raw_spec ::
  "'w spec_env \<Rightarrow> 'w cli \<Rightarrow> build_spec \<Rightarrow> chain_spec_builder \<Rightarrow> ('w, string \<times> string option \<times> string option) spec_prog" where
  "build_raw_spec E C b builder =
     bindE (generate_raw_chain_spec E builder (bs_output_file b) (raw_spec_name (bs_output_file b))) (\<lambda>raw.
     bindE (if is_runtime_build builder then customize E b raw else ret ()) (\<lambda>_.
     bindE (if bs_genesis_code b then bindE (export_wasm_file E builder raw ''genesis-code.wasm'') (\<lambda>f. ret (Some f))
       else ret None) (\<lambda>code.
     bindE (if bs_genesis_state b then bindE (build_genesis_state E C builder raw) (\<lambda>f. ret (Some f))
       else ret None) (\<lambda>state. ret (raw, code, state)))))"

definition build_artifacts :: "'w spec_env \<Rightarrow> build_spec \<Rightarrow> bool \<Rightarrow> chain_spec_builder \<Rightarrow> ('w, unit) spec_prog" where
  "build_artifacts E b redirect_output_to_stderr builder =
     bindE (succeeds (artifact_path E builder)) (\<lambda>artifact_exists.
     if \<not> bs_skip_build b \<or> \<not> artifact_exists
     then bindE (builder_build E builder (bs_features b) redirect_output_to_stderr) (\<lambda>_. ret ()) else ret ())"

definition build_spec_builder :: "'w spec_env \<Rightarrow> 'w cli \<Rightarrow> build_spec \<Rightarrow> ('w, chain_spec_builder) spec_prog" where
  "build_spec_builder E C b = create_chain_spec_builder E C
     (case bs_runtime_dir b of Some d \<Rightarrow> Exact d | None \<Rightarrow> Base (bs_path b)) (bs_profile b) (bs_default_bootnode b)"

definition build_spec_build :: "'w spec_env \<Rightarrow> 'w cli \<Rightarrow> build_spec \<Rightarrow> bool \<Rightarrow> ('w, genesis_artifacts) spec_prog" where
  "build_spec_build E C b redirect_output_to_stderr =
     bindE (build_spec_builder E C b) (\<lambda>builder.
     bindE (build_artifacts E b redirect_output_to_stderr builder) (\<lambda>_.
     bindE (if bs_use_existing_plain_spec b then ret () else build_plain_spec E C b builder) (\<lambda>_.
     bindE (if bs_raw b \<or> bs_genesis_code b \<or> bs_genesis_state b
       then bindE (build_raw_spec E C b builder) (\<lambda>(raw, code, state). ret (Some raw, code, state))
       else ret (None, None, None)) (\<lambda>(raw, code, state).
     ret \<lparr>ga_chain_spec = bs_output_file b, ga_raw_chain_spec = raw, ga_genesis_state_file = state,
       ga_genesis_code_file = code\<rparr>))))"

definition read_genesis_state :: "'w spec_env \<Rightarrow> genesis_artifacts \<Rightarrow> ('w, bytes) spec_prog" where
  "read_genesis_state E a = bindE (given_or (ga_genesis_state_file a) (fail (SpecAnyhow ''Missing genesis state file path''))) (\<lambda>f.
     map_err (\<lambda>_. SpecAnyhow ''Failed to read genesis state file'') (read_file E f))"

definition read_genesis_code :: "'w spec_env \<Rightarrow> genesis_artifacts \<Rightarrow> ('w, bytes) spec_prog" where
  "read_genesis_code E a = bindE (given_or (ga_genesis_code_file a) (fail (SpecAnyhow ''Missing genesis code file path''))) (\<lambda>f.
     map_err (\<lambda>_. SpecAnyhow ''Failed to read genesis code file'') (read_file E f))"

section \<open>The command\<close>

text \<open>Whether the text of an error says that a prompt was needed.\<close>

definition says_prompt_required :: "spec_error \<Rightarrow> bool" where
  "says_prompt_required e \<longleftrightarrow> list_ex (\<lambda>m. contains m JSON_PROMPT_ERR) (error_texts e)"

definition map_json_build_spec_error :: "spec_error \<Rightarrow> spec_error" where
  "map_json_build_spec_error e = (case e of
     PromptRequired _ \<Rightarrow> e
   | BuildCommandFailed _ _ \<Rightarrow> e
   | SpecPanic _ \<Rightarrow> e
   | _ \<Rightarrow> if says_prompt_required e
       then PromptRequired ''`build spec --json` requires explicit runtime selection when multiple runtimes are available''
       else BuildCommandFailed ''Build spec failed'' (Some e))"

record build_spec_output =
  so_chain_spec_path :: string
  so_genesis_state_path :: "string option"
  so_genesis_code_path :: "string option"
  so_relay_chain :: "string option"
  so_para_id :: "u32 option"

definition execute_json :: "'w spec_env \<Rightarrow> build_spec_command \<Rightarrow> ('w, build_spec_output) spec_prog" where
  "execute_json E c =
     bindE (gets (is_supported E (cmd_path c))) (\<lambda>supported.
     if \<not> supported then fail (BuildCommandFailed ''Can't build a specification for target. Maybe not a chain project?'' None)
     else
       bindE (configure_build_spec_json E c) (\<lambda>b.
       bindE (map_err map_json_build_spec_error (build_spec_build E json_cli b True)) (\<lambda>a.
       ret \<lparr>so_chain_spec_path = ga_chain_spec a, so_genesis_state_path = ga_genesis_state_file a,
         so_genesis_code_path = ga_genesis_code_file a, so_relay_chain = map_option spec_relay_name (bs_relay b),
         so_para_id = bs_para_id b\<rparr>)))"

text \<open>With prompts an error of the build is only printed.\<close>

definition execute_human :: "'w spec_env \<Rightarrow> 'w cli \<Rightarrow> build_spec_command \<Rightarrow> ('w, unit) spec_prog" where
  "execute_human E C c =
     bindE (gets (is_supported E (cmd_path c))) (\<lambda>supported.
     if supported then
       bindE (configure_build_spec E C c) (\<lambda>b.
       matchE (build_spec_build E C b False)
         (\<lambda>e. case e of SpecPanic why \<Rightarrow> fail (SpecPanic why) | _ \<Rightarrow> ret ()) (\<lambda>_. ret ()))
     else ret ())"

end
