(* ===== verification/Spec_Laws.thy ===== *)
theory Spec_Laws
  imports Build_Spec Keeps
begin

text \<open>
  Lemmas on chain specifications: what is read after something was replaced, what the files of
  the specification, the raw specification and the runtime are called, and which operations leave
  the contents of a file alone, as an interpretation of the locale of frames.
\<close>

section \<open>Customizing a specification\<close>

text \<open>What a specification has of the configuration it was built from.\<close>

definition configured :: "build_spec \<Rightarrow> json \<Rightarrow> bool" where
  "configured b j \<longleftrightarrow>
     get_chain_type j = Some (chain_type_name (bs_chain_type b)) \<and>
     get_protocol_id j = Some (bs_protocol_id b) \<and>
     (\<not> bs_is_relay b \<longrightarrow>
       (\<exists>i r. bs_para_id b = Some i \<and> bs_relay b = Some r \<and>
          get_chain_id j = Some (ucast i) \<and> get_relay_chain j = Some (spec_relay_name r)))"

text \<open>The members at the root that customizing may change.\<close>

definition customized_members :: "string set" where
  "customized_members = {''para_id'', ''relay_chain'', ''chainType'', ''protocolId'', ''properties'', ''genesis''}"

lemma as_u64_u32: "as_u64 (JNumber (uint (i :: u32))) = Some (ucast i)"
proof -
  have "uint i < 2 ^ LENGTH(32)" by (rule uint_lt2p)
  then have "uint i < 2 ^ 64" by simp
  then show ?thesis by (simp only: as_u64.simps uint_ge_0 ucast_eq) simp
qed

lemma member_put_path_other: "k' \<noteq> k \<Longrightarrow> member_of k' (put_path (k # ks) v j) = member_of k' j"
  by (simp add: member_put_path)

lemma member_put_root: "member_of k j \<noteq> None \<Longrightarrow> member_of k (put_path [k] v j) = Some v"
  by (auto simp: member_put_path)

lemma replace_para_id_Inr:
  assumes "replace_para_id i j = Inr j'"
  shows "get_chain_id j' = Some (ucast i)" and "k \<noteq> ''para_id'' \<Longrightarrow> k \<noteq> ''genesis'' \<Longrightarrow> member_of k j' = member_of k j"
    and "at_path PARACHAIN_ID_PATH j \<noteq> None \<Longrightarrow> at_path PARACHAIN_ID_PATH j' = Some (JNumber (uint i))"
proof -
  obtain m where j: "j = JObject m"
    and j': "j' = put_path PARACHAIN_ID_PATH (JNumber (uint i)) (JObject (alist_insert ''para_id'' (JNumber (uint i)) m))"
    using assms by (auto simp: replace_para_id_def sum_bind_Inr insert_root_Inr)
  show "get_chain_id j' = Some (ucast i)"
    by (simp add: j' get_chain_id_def PARACHAIN_ID_PATH_def member_put_path as_u64_u32 del: as_u64.simps)
  show "member_of k j' = member_of k j" if "k \<noteq> ''para_id''" "k \<noteq> ''genesis''"
    using that by (simp add: j j' PARACHAIN_ID_PATH_def member_put_path)
  assume "at_path PARACHAIN_ID_PATH j \<noteq> None"
  then have "at_path PARACHAIN_ID_PATH (JObject (alist_insert ''para_id'' (JNumber (uint i)) m)) \<noteq> None"
    by (simp add: j PARACHAIN_ID_PATH_def)
  then show "at_path PARACHAIN_ID_PATH j' = Some (JNumber (uint i))"
    unfolding j' by (rule at_path_put_path)
qed

lemma replace_root_Inr:
  assumes "replace_at [(k, n)] v j = Inr j'"
  shows "member_of k j' = Some v" and "k' \<noteq> k \<Longrightarrow> member_of k' j' = member_of k' j"
  using assms by (auto simp: replace_at_Inr member_put_path bind_eq_None_conv split: option.splits)

lemma replace_relay_chain_Inr:
  assumes "replace_relay_chain r j = Inr j'"
  shows "member_of ''relay_chain'' j' = Some (JString r)" and "k \<noteq> ''relay_chain'' \<Longrightarrow> member_of k j' = member_of k j"
  using assms by (auto simp: replace_relay_chain_def insert_root_Inr)

lemma replace_properties_Inr:
  assumes "replace_properties raw j = Inr j'"
  shows "\<exists>m. collect_pairs (property_pieces raw) [] = Inr m \<and> member_of ''properties'' j' = Some (JObject m)"
    and "k \<noteq> ''properties'' \<Longrightarrow> member_of k j' = member_of k j"
  using assms by (auto simp: replace_properties_def sum_bind_Inr expect_path_Inr member_put_path
      bind_eq_None_conv split: option.splits)

text \<open>What customizing does, in one lemma.\<close>

lemma customized_Inr:
  assumes "customized b j = Inr j'"
  shows "configured b j'" and "k \<notin> customized_members \<Longrightarrow> member_of k j' = member_of k j"
    and "\<not> bs_is_relay b \<Longrightarrow> bs_para_id b = Some i \<Longrightarrow> at_path PARACHAIN_ID_PATH j \<noteq> None \<Longrightarrow>
       at_path PARACHAIN_ID_PATH j' = Some (JNumber (uint i))"
    and "bs_is_relay b \<Longrightarrow> k \<in> {''para_id'', ''relay_chain'', ''genesis''} \<Longrightarrow> member_of k j' = member_of k j"
    and "case bs_properties b of
       None \<Rightarrow> member_of ''properties'' j' = member_of ''properties'' j
     | Some raw \<Rightarrow> \<exists>m. collect_pairs (property_pieces raw) [] = Inr m \<and> member_of ''properties'' j' = Some (JObject m)"
proof -
  obtain j1 j2 j3 where
    j1: "if bs_is_relay b then j1 = j
       else \<exists>i r j0. bs_para_id b = Some i \<and> bs_relay b = Some r \<and> replace_para_id i j = Inr j0 \<and>
         replace_relay_chain (spec_relay_name r) j0 = Inr j1"
    and j2: "replace_chain_type (chain_type_name (bs_chain_type b)) j1 = Inr j2"
    and j3: "replace_protocol_id (bs_protocol_id b) j2 = Inr j3"
    and j': "case bs_properties b of None \<Rightarrow> j' = j3 | Some raw \<Rightarrow> replace_properties raw j3 = Inr j'"
    using assms unfolding customized_def
    by (auto simp: sum_bind_Inr split: if_splits option.splits)
  note r2 = replace_root_Inr [OF j2 [unfolded replace_chain_type_def]]
  note r3 = replace_root_Inr [OF j3 [unfolded replace_protocol_id_def]]
  have p: "member_of k j' = member_of k j3" if "k \<noteq> ''properties''" for k
    using j' replace_properties_Inr(2) [of _ j3 j'] that by (auto split: option.splits)
  have step: "member_of k j' = member_of k j1" if "k \<notin> {''chainType'', ''protocolId'', ''properties''}" for k
    using that p r2(2) r3(2) by auto
  have one: "member_of k j1 = member_of k j" if "k \<notin> {''para_id'', ''relay_chain'', ''genesis''} \<or> bs_is_relay b" for k
    using j1 that by (auto simp: replace_para_id_Inr(2) replace_relay_chain_Inr(2) split: if_splits)
  have "get_chain_type j' = Some (chain_type_name (bs_chain_type b))" "get_protocol_id j' = Some (bs_protocol_id b)"
    using p r2(1) r3 by (auto simp: get_chain_type_def get_protocol_id_def)
  moreover have "\<exists>i r. bs_para_id b = Some i \<and> bs_relay b = Some r \<and>
      get_chain_id j' = Some (ucast i) \<and> get_relay_chain j' = Some (spec_relay_name r)" if nr: "\<not> bs_is_relay b"
  proof -
    obtain i r j0 where i: "bs_para_id b = Some i" "bs_relay b = Some r" "replace_para_id i j = Inr j0"
      "replace_relay_chain (spec_relay_name r) j0 = Inr j1"
      using j1 nr by auto
    have "get_chain_id j' = get_chain_id j0"
      using step [of "''para_id''"] replace_relay_chain_Inr(2) [OF i(4), of "''para_id''"] by (simp add: get_chain_id_def)
    moreover have "get_relay_chain j' = Some (spec_relay_name r)"
      using step [of "''relay_chain''"] replace_relay_chain_Inr(1) [OF i(4)] by (simp add: get_relay_chain_def)
    ultimately show ?thesis using i replace_para_id_Inr(1) [OF i(3)] by auto
  qed
  ultimately show "configured b j'" by (simp add: configured_def)
  show "member_of k j' = member_of k j" if "k \<notin> customized_members"
    using that step one by (simp add: customized_members_def)
  show "member_of k j' = member_of k j" if "bs_is_relay b" "k \<in> {''para_id'', ''relay_chain'', ''genesis''}"
    using that step [of k] one [of k] by auto
  show "case bs_properties b of
       None \<Rightarrow> member_of ''properties'' j' = member_of ''properties'' j
     | Some raw \<Rightarrow> \<exists>m. collect_pairs (property_pieces raw) [] = Inr m \<and> member_of ''properties'' j' = Some (JObject m)"
    using j' replace_properties_Inr(1) one r2(2) r3(2) by (auto split: option.splits)
  assume nr: "\<not> bs_is_relay b" and i: "bs_para_id b = Some i" and a: "at_path PARACHAIN_ID_PATH j \<noteq> None"
  obtain j0 r where j0: "replace_para_id i j = Inr j0" "replace_relay_chain r j0 = Inr j1"
    using j1 nr i by auto
  have "member_of ''genesis'' j' = member_of ''genesis'' j0"
    using step [of "''genesis''"] replace_relay_chain_Inr(2) [OF j0(2), of "''genesis''"] by simp
  then show "at_path PARACHAIN_ID_PATH j' = Some (JNumber (uint i))"
    using replace_para_id_Inr(3) [OF j0(1) a] by (simp add: PARACHAIN_ID_PATH_def)
qed

lemma update_runtime_code_configured:
  assumes "update_runtime_code h code j = Inr j'" and "configured b j"
  shows "configured b j'" and "at_path [''genesis'', ''runtimeGenesis'', ''code''] j' = Some (JString (h code True))"
proof -
  have j': "at_path [''genesis'', ''runtimeGenesis'', ''code''] j \<noteq> None"
    "j' = put_path [''genesis'', ''runtimeGenesis'', ''code''] (JString (h code True)) j"
    using assms(1) by (auto simp: update_runtime_code_def replace_at_Inr simp del: at_path.simps)
  then show "at_path [''genesis'', ''runtimeGenesis'', ''code''] j' = Some (JString (h code True))"
    by (simp add: at_path_put_path del: at_path.simps)
  show "configured b j'"
    using assms(2) unfolding j'(2) configured_def get_chain_type_def get_protocol_id_def get_chain_id_def get_relay_chain_def
    by (simp add: member_put_path)
qed

section \<open>Names of the files\<close>

lemma last_component:
  assumes "CHR ''/'' \<notin> set n"
  shows "takeWhile (\<lambda>c. c \<noteq> CHR ''/'') (rev n) = rev n"
    and "takeWhile (\<lambda>c. c \<noteq> CHR ''/'') (rev n @ CHR ''/'' # d) = rev n"
proof -
  have all: "\<forall>c \<in> set (rev n). c \<noteq> CHR ''/''" using assms by auto
  then show "takeWhile (\<lambda>c. c \<noteq> CHR ''/'') (rev n) = rev n"
    by (simp only: takeWhile_eq_all_conv)
  show "takeWhile (\<lambda>c. c \<noteq> CHR ''/'') (rev n @ CHR ''/'' # d) = rev n"
    using all by (subst takeWhile_append2) auto
qed

lemma path_file_name_join:
  assumes "n \<notin> {[], ''.'', ''..''}" and "CHR ''/'' \<notin> set n"
  shows "path_file_name (path_join d n) = Some n"
proof -
  have one: "take 1 n \<noteq> ''/''"
    using assms by (cases n) auto
  consider "path_join d n = n" | e where "path_join d n = e @ CHR ''/'' # n"
  proof (cases "d = []")
    case False
    then obtain e c where d: "d = e @ [c]" by (metis append_butlast_last_id)
    show ?thesis
      by (cases "c = CHR ''/''") (use that(2) [of e] that(2) [of d] one d in \<open>simp_all add: path_join_def\<close>)
  qed (auto simp: path_join_def one)
  then have "takeWhile (\<lambda>c. c \<noteq> CHR ''/'') (rev (path_join d n)) = rev n"
    by cases (simp_all only: last_component [OF assms(2)] rev_append rev.simps append_assoc append.simps)
  then show ?thesis
    using assms(1) by (simp only: path_file_name_def Let_def rev_rev_ident if_False)
qed

lemma path_file_name_beside:
  "n \<notin> {[], ''.'', ''..''} \<Longrightarrow> CHR ''/'' \<notin> set n \<Longrightarrow> path_file_name (beside p n) = Some n"
  "n \<notin> {[], ''.'', ''..''} \<Longrightarrow> CHR ''/'' \<notin> set n \<Longrightarrow> path_file_name (with_file_name p n) = Some n"
  unfolding beside_def with_file_name_def
  by (auto simp: path_file_name_join split: option.split)

lemma set_trim_end_matches: "set (trim_end_matches x s) \<subseteq> set s"
proof (induction x s rule: trim_end_matches.induct)
  case (1 x s)
  then show ?case
    by (subst trim_end_matches.simps) (auto dest: in_set_takeD)
qed

lemma ends_with_append: "ends_with (s @ x) x"
  by (simp add: ends_with_def)

lemma path_file_name_no_slash: "path_file_name p = Some n \<Longrightarrow> CHR ''/'' \<notin> set n"
  by (auto simp: path_file_name_def Let_def split: if_splits dest: set_takeWhileD)

lemma raw_spec_name_no_slash: "CHR ''/'' \<notin> set (raw_spec_name p)"
proof -
  let ?n = "case path_file_name p of Some n \<Rightarrow> n | None \<Rightarrow> DEFAULT_SPEC_NAME"
  have "CHR ''/'' \<notin> set ?n"
    using path_file_name_no_slash [of p] by (auto simp: DEFAULT_SPEC_NAME_def split: option.split)
  then have "CHR ''/'' \<notin> set (trim_end_matches ''.json'' ?n)"
    using set_trim_end_matches by blast
  then show ?thesis by (simp add: raw_spec_name_def)
qed

lemma raw_spec_name_proper: "raw_spec_name p \<notin> {[], ''.'', ''..''}"
proof -
  have "length ''-raw.json'' \<le> length (raw_spec_name p)" by (simp add: raw_spec_name_def)
  then show ?thesis by auto
qed

lemma raw_spec_name_other: "path_file_name p = Some n \<Longrightarrow> raw_spec_name p \<noteq> n"
proof
  assume n: "path_file_name p = Some n" and r: "raw_spec_name p = n"
  let ?t = "trim_end_matches ''.json''"
  have eq: "?t n @ ''-raw.json'' = n" using n r by (simp add: raw_spec_name_def)
  have "?t (?t n @ ''-raw.json'') = ?t (?t n @ ''-raw'')"
    by (subst trim_end_matches.simps) (simp add: ends_with_def)
  also have "\<dots> = ?t n @ ''-raw''"
    by (subst trim_end_matches.simps) (auto simp: ends_with_def drop_append nth_append Cons_eq_append_conv
        append_eq_Cons_conv split: if_splits dest!: arg_cong [where f = last])
  finally show False using eq by simp
qed

lemma raw_spec_name_not_wasm: "raw_spec_name p \<noteq> ''genesis-code.wasm''"
proof
  assume "raw_spec_name p = ''genesis-code.wasm''"
  then have "last (raw_spec_name p) = last ''genesis-code.wasm''" by simp
  then show False by (simp add: raw_spec_name_def)
qed

section \<open>What is left alone\<close>

definition content :: "string \<Rightarrow> 'w machine \<Rightarrow> bytes option" where
  "content p s = map_option file_content (map_of (mc_files s) p)"

definition same_content :: "string \<Rightarrow> 'w machine \<Rightarrow> 'w machine \<Rightarrow> bool" where
  "same_content p s s' \<longleftrightarrow> content p s' = content p s"

text \<open>The commands that are run do not touch a file.\<close>

definition leave_alone :: "'w spec_env \<Rightarrow> string \<Rightarrow> bool" where
  "leave_alone E p \<longleftrightarrow> (\<forall>program args dir files w. map_of (fst (snd (sp_run E program args dir files w))) p = map_of files p)"

interpretation contents: frame "same_content p" for p
  by unfold_locales (simp_all add: same_content_def)

lemma content_put [simp]: "content p (put_content q b s) = (if p = q then Some b else content p s)"
  by (simp add: content_def put_content_def put_file_def)

lemma content_world [simp]: "content p (s\<lparr>mc_world := w\<rparr>) = content p s"
  by (simp add: content_def)

lemma keeps_content_modify:
  "(\<And>s. content p (f s) = content p s) \<Longrightarrow> keeps (same_content p) (returns (modify f))"
  by (rule keeps_returns) (simp add: prog_simps same_content_def)

lemma keeps_ask_world [frame_intros]: "keeps (same_content p) (returns (ask_world m e))"
  unfolding ask_world_def
  by (rule contents.map_err, rule keeps_returns) (simp add: prog_simps same_content_def split: prod.split)

lemma keeps_spec_io [frame_intros]: "keeps (same_content p) (returns (spec_io E op))"
  unfolding spec_io_def io_def io_succeeds_def on_world_def
  by (intro contents.map_err contents.bindE keeps_if_returns contents.pure, rule keeps_returns)
    (simp add: prog_simps same_content_def split: prod.split)

lemma keeps_read_file [frame_intros]: "keeps (same_content p) (returns (read_file E q))"
  unfolding read_file_def by (intro frame_intros)

lemma keeps_write_file: "p \<noteq> q \<Longrightarrow> keeps (same_content p) (returns (write_file E q b))"
  unfolding write_file_def by (intro frame_intros keeps_content_modify) simp

lemma keeps_canonical [frame_intros]: "keeps (same_content p) (returns (canonical_path E q))"
  unfolding canonical_path_def by (intro frame_intros)

lemma keeps_from_path [frame_intros]: "keeps (same_content p) (returns (from_path E q))"
  unfolding from_path_def Let_def by (intro frame_intros)

lemma keeps_package_name [frame_intros]: "keeps (same_content p) (returns (package_name m))"
  unfolding package_name_def by (intro frame_intros)

lemma keeps_workspace_root [frame_intros]: "keeps (same_content p) (returns (workspace_root E q))"
  unfolding workspace_root_def by (intro frame_intros)

lemma keeps_artifact_path [frame_intros]: "keeps (same_content p) (returns (artifact_path E b))"
proof -
  have "keeps (same_content p) (returns (wasm_artifact base package))" for base package
    unfolding wasm_artifact_def Let_def by (intro frame_intros)
  then show ?thesis
    unfolding artifact_path_def by (cases b) (auto intro!: frame_intros)
qed

lemma keeps_run:
  assumes "leave_alone E p"
  shows "keeps (same_content p) (returns (run_command E program args dir))"
  by (rule keeps_returns)
    (use assms in \<open>simp add: run_command_def same_content_def content_def leave_alone_def case_prod_beta\<close>)

lemma keeps_run_checked: "leave_alone E p \<Longrightarrow> keeps (same_content p) (returns (run_checked E program args dir))"
  unfolding run_checked_def
  by (rule contents.bindE [OF keeps_run]) (auto intro!: frame_intros split: outcome.split bool.split)

lemma keeps_run_unchecked: "leave_alone E p \<Longrightarrow> keeps (same_content p) (returns (run_unchecked E program args dir))"
  unfolding run_unchecked_def
  by (rule contents.bindE [OF keeps_run]) (auto intro!: frame_intros split: outcome.split)

lemma keeps_run_to_file:
  assumes "leave_alone E p" and "p \<noteq> q"
  shows "keeps (same_content p) (returns (run_to_file E program args q))"
  unfolding run_to_file_def
  by (intro frame_intros keeps_content_modify keeps_run_unchecked assms(1)) (simp_all add: assms(2))

lemma keeps_handle_error [frame_intros]: "keeps (same_content p) (returns (handle_command_error out e))"
  unfolding handle_command_error_def by (intro frame_intros)

lemma keeps_check_command: "leave_alone E p \<Longrightarrow> keeps (same_content p) (returns (check_command_exists E binary command))"
  unfolding check_command_exists_def by (intro frame_intros keeps_run_checked)

lemma keeps_build_project:
  "leave_alone E p \<Longrightarrow> keeps (same_content p) (returns (build_project E path package pr features tgt redirect))"
  unfolding build_project_def fetch_dependencies_def Let_def
  by (intro frame_intros keeps_run_checked keeps_run_unchecked)

lemma keeps_build_artifacts:
  "leave_alone E p \<Longrightarrow> keeps (same_content p) (returns (build_artifacts E b redirect builder))"
  unfolding build_artifacts_def succeeds_def builder_build_def
  by (intro frame_intros contents.matchE keeps_build_project) (auto intro!: frame_intros split: spec_error.split)

lemma keeps_deterministic:
  "leave_alone E p \<Longrightarrow> keeps (same_content p) (returns (build_deterministic_runtime E package pr d tag))"
  unfolding build_deterministic_runtime_def deterministic_new_def deterministic_build_def deterministic_args_def Let_def
  by (intro frame_intros keeps_run_checked)

lemma keeps_generate_raw:
  assumes "leave_alone E p" and "p \<noteq> with_file_name plain name"
  shows "keeps (same_content p) (returns (generate_raw_chain_spec E b plain name))"
  unfolding generate_raw_chain_spec_def generate_raw_chain_spec_with_node_def
    generate_raw_chain_spec_with_runtime_def Let_def
  by (cases b) (use assms in \<open>auto intro!: frame_intros keeps_check_command keeps_run_to_file keeps_write_file\<close>)

lemma keeps_export_wasm:
  assumes "leave_alone E p" and "p \<noteq> beside raw name"
  shows "keeps (same_content p) (returns (export_wasm_file E b raw name))"
  unfolding export_wasm_file_def export_wasm_file_with_node_def export_with_node_def
    export_wasm_file_with_runtime_def Let_def
  by (cases b) (use assms in \<open>auto intro!: frame_intros keeps_check_command keeps_run_unchecked keeps_write_file\<close>)

lemma keeps_chain_spec_from [frame_intros]: "keeps (same_content p) (returns (chain_spec_from E q))"
  unfolding chain_spec_from_def by (intro frame_intros)

lemma keeps_customize: "p \<noteq> q \<Longrightarrow> keeps (same_content p) (returns (customize E b q))"
  unfolding customize_def chain_spec_to_file_def by (intro frame_intros keeps_write_file)

end
