(* ===== verification/Spec_Properties.thy ===== *)
theory Spec_Properties
  imports Spec_Laws Zombienet_Properties
begin

text \<open>
  The properties of \<^verbatim>\<open>pop build spec\<close>: what the files built have of the configuration, that the
  two ways of configuring agree, what happens to an existing specification, and the check of a
  binary; with a project on which they are tried.
\<close>

section \<open>Customizing\<close>

lemma read_file_Inr:
  "read_file E p s = (Inr b, s') \<Longrightarrow> content p s = Some b \<and> mc_files s' = mc_files s"
  by (auto simp: read_file_def spec_io_def io_def io_succeeds_def on_world_def content_def Inr_simps
      split: prod.splits if_splits option.splits)

lemma chain_spec_from_Inr:
  "chain_spec_from E p s = (Inr j, s') \<Longrightarrow> (\<exists>b. content p s = Some b \<and> sp_parse E b = Inr j) \<and> mc_files s' = mc_files s"
  by (auto simp: chain_spec_from_def Inr_simps dest: read_file_Inr)

lemma write_file_Inr:
  "write_file E p b s = (Inr (), s') \<Longrightarrow>
     content p s' = Some b \<and> (\<forall>q. q \<noteq> p \<longrightarrow> map_of (mc_files s') q = map_of (mc_files s) q)"
  by (auto simp: write_file_def spec_io_def io_def io_succeeds_def on_world_def content_def put_content_def Inr_simps
      split: prod.splits if_splits)

lemma customize_Inr:
  assumes "customize E b path s = (Inr (), s')"
  obtains j j' t where "content path s = Some t" and "sp_parse E t = Inr j" and "customized b j = Inr j'"
    and "content path s' = Some (sp_pretty E j')" and "\<forall>q. q \<noteq> path \<longrightarrow> map_of (mc_files s') q = map_of (mc_files s) q"
  using assms unfolding customize_def chain_spec_to_file_def
  by (auto simp: bindE_Inr lift_sum_apply dest!: chain_spec_from_Inr write_file_Inr)


text \<open>
  C39: Properties are read two by two. The text of the properties is taken apart at commas and
  equality signs alike; an even number of pieces makes the new properties, an odd one a panic of
  the code, and that is the only way it panics. So a property without a value, or an empty text,
  ends \<^verbatim>\<open>pop build spec\<close> after the specification has been generated.
\<close>

theorem properties_without_value_panic:
  "replace_properties raw j = Inl (SpecPanic why) \<longleftrightarrow>
     member_of ''properties'' j \<noteq> None \<and> odd (length (property_pieces raw)) \<and>
     why = ''Property value expected but not found''"
proof -
  have e: "expect_path [(''properties'', n)] j = Inl (SpecPanic why) \<longleftrightarrow> False" for n
    by (simp split: option.split)
  show ?thesis
  proof (cases "even (length (property_pieces raw))")
    case True
    then obtain m where "collect_pairs (property_pieces raw) [] = Inr m"
      using collect_pairs_even by blast
    with True e show ?thesis by (auto simp: replace_properties_def sum_bind_def split: sum.splits option.splits)
  next
    case False
    then have "collect_pairs (property_pieces raw) [] = Inl (SpecPanic ''Property value expected but not found'')"
      by (rule collect_pairs_odd)
    with False show ?thesis by (auto simp: replace_properties_def sum_bind_def split: sum.splits option.splits)
  qed
qed

section \<open>Building\<close>

text \<open>What is known of a file that holds a specification with the configuration.\<close>

definition holds_configured :: "'w spec_env \<Rightarrow> build_spec \<Rightarrow> string \<Rightarrow> 'w machine \<Rightarrow> bool" where
  "holds_configured E b p s \<longleftrightarrow> (\<exists>j. content p s = Some (sp_pretty E j) \<and> configured b j)"

lemma holds_same: "same_content p s s' \<Longrightarrow> holds_configured E b p s \<Longrightarrow> holds_configured E b p s'"
  by (simp only: holds_configured_def same_content_def)

lemma kept_Inr: "keeps (same_content p) (returns m) \<Longrightarrow> m s = (r, s') \<Longrightarrow> holds_configured E b p s \<Longrightarrow> holds_configured E b p s'"
  by (erule holds_same [rotated]) (erule (1) keeps_returnsD)

lemma customize_holds: "customize E b p s = (Inr (), s') \<Longrightarrow> holds_configured E b p s'"
  using customized_Inr(1) unfolding holds_configured_def by (metis customize_Inr)

lemma update_code_holds:
  assumes "update_code E b code s = (Inr (), s')" and "holds_configured E b (bs_output_file b) s"
    and "\<And>j. sp_parse E (sp_pretty E j) = Inr j"
  shows "holds_configured E b (bs_output_file b) s'"
proof -
  obtain j j' s1 where j: "content (bs_output_file b) s = Some (sp_pretty E j)" "configured b j"
    and j': "update_runtime_code (sp_to_hex E) code j = Inr j'" and w: "write_file E (bs_output_file b) (sp_pretty E j') s1 = (Inr (), s')"
    using assms unfolding update_code_def chain_spec_to_file_def holds_configured_def
    by (fastforce simp: bindE_Inr lift_sum_apply dest!: chain_spec_from_Inr)
  then show ?thesis
    using update_runtime_code_configured(1) [OF j' j(2)] write_file_Inr [OF w] unfolding holds_configured_def by blast
qed

lemma build_plain_holds:
  assumes "build_plain_spec E C b builder s = (Inr (), s')" and "leave_alone E (bs_output_file b)"
    and "bs_deterministic b \<longrightarrow> (\<forall>j. sp_parse E (sp_pretty E j) = Inr j)"
  shows "holds_configured E b (bs_output_file b) s'"
proof -
  obtain s1 s2 where c: "customize E b (bs_output_file b) s1 = (Inr (), s2)"
    and d: "if bs_deterministic b then \<exists>d f code s3. bs_runtime_dir b = Some d \<and>
        build_deterministic_runtime E (bs_package b) (bs_profile b) d (bs_tag b) s2 = (Inr (f, code), s3) \<and>
        update_code E b code s3 = (Inr (), s')
      else s' = s2"
    using assms(1) unfolding build_plain_spec_def
    by (auto simp: bindE_Inr ret_apply fail_apply split: if_splits option.splits prod.splits)
  show ?thesis
  proof (cases "bs_deterministic b")
    case True
    then obtain d f code s3 where s3: "build_deterministic_runtime E (bs_package b) (bs_profile b) d (bs_tag b) s2 = (Inr (f, code), s3)"
      "update_code E b code s3 = (Inr (), s')"
      using d by auto
    have "holds_configured E b (bs_output_file b) s3"
      by (rule kept_Inr [OF keeps_deterministic [OF assms(2)] s3(1) customize_holds [OF c]])
    then show ?thesis
      using update_code_holds [OF s3(2)] assms(3) True by blast
  next
    case False
    then show ?thesis using d customize_holds [OF c] by simp
  qed
qed

lemma raw_file_apart:
  assumes "path_file_name out = Some n"
  shows "with_file_name out (raw_spec_name out) \<noteq> out"
proof
  assume eq: "with_file_name out (raw_spec_name out) = out"
  have "path_file_name (with_file_name out (raw_spec_name out)) = Some (raw_spec_name out)"
    by (rule path_file_name_beside(2) [OF raw_spec_name_proper raw_spec_name_no_slash])
  with eq assms raw_spec_name_other [OF assms] show False by simp
qed

lemma wasm_file_apart:
  assumes "path_file_name p \<noteq> Some ''genesis-code.wasm''"
  shows "p \<noteq> beside raw ''genesis-code.wasm''"
proof
  assume "p = beside raw ''genesis-code.wasm''"
  moreover have "path_file_name (beside raw ''genesis-code.wasm'') = Some ''genesis-code.wasm''"
    by (rule path_file_name_beside(1)) simp_all
  ultimately show False using assms by simp
qed

lemma generate_raw_Inr: "generate_raw_chain_spec E b plain name s = (Inr raw, s') \<Longrightarrow> raw = with_file_name plain name"
  by (auto simp: generate_raw_chain_spec_def generate_raw_chain_spec_with_node_def
      generate_raw_chain_spec_with_runtime_def Let_def Inr_simps handle_command_error_def
      split: chain_spec_builder.splits if_splits prod.splits)

text \<open>Whether a runtime or a node is built.\<close>

definition builds_runtime :: "build_spec \<Rightarrow> 'w machine \<Rightarrow> bool" where
  "builds_runtime b s \<longleftrightarrow> bs_runtime_dir b \<noteq> None \<or> \<not> is_dir (path_join (bs_path b) ''node'') s"

lemma builder_kind:
  "build_spec_builder E C b s = (Inr builder, s') \<Longrightarrow> is_runtime_build builder \<longleftrightarrow> builds_runtime b s"
  by (auto simp: build_spec_builder_def create_chain_spec_builder_def builds_runtime_def is_runtime_build_def Inr_simps
      split: option.splits if_splits)

text \<open>The parts of a build that went well.\<close>

lemma build_spec_build_Inr:
  assumes "build_spec_build E C b redirect s = (Inr a, s')"
  obtains builder s1 s2 s3 where "build_spec_builder E C b s = (Inr builder, s1)"
    and "build_artifacts E b redirect builder s1 = (Inr (), s2)"
    and "if bs_use_existing_plain_spec b then s3 = s2 else build_plain_spec E C b builder s2 = (Inr (), s3)"
    and "ga_chain_spec a = bs_output_file b"
    and "case ga_raw_chain_spec a of
       None \<Rightarrow> s' = s3
     | Some raw \<Rightarrow> \<exists>code state. build_raw_spec E C b builder s3 = (Inr (raw, code, state), s')"
proof -
  obtain builder s1 s2 s3 r where b: "build_spec_builder E C b s = (Inr builder, s1)"
    "build_artifacts E b redirect builder s1 = (Inr (), s2)"
    and p: "(if bs_use_existing_plain_spec b then ret () else build_plain_spec E C b builder) s2 = (Inr (), s3)"
    and r: "(if bs_raw b \<or> bs_genesis_code b \<or> bs_genesis_state b
        then bindE (build_raw_spec E C b builder) (\<lambda>(raw, code, state). ret (Some raw, code, state))
        else ret (None, None, None)) s3 = (Inr r, s')"
    and a: "a = (case r of (raw, code, state) \<Rightarrow> \<lparr>ga_chain_spec = bs_output_file b, ga_raw_chain_spec = raw,
        ga_genesis_state_file = state, ga_genesis_code_file = code\<rparr>)"
    using assms unfolding build_spec_build_def
    by (fastforce simp: bindE_Inr ret_apply split: prod.splits)
  show thesis
  proof (rule that [OF b])
    show "if bs_use_existing_plain_spec b then s3 = s2 else build_plain_spec E C b builder s2 = (Inr (), s3)"
      using p by (auto simp: ret_apply split: if_splits)
    show "ga_chain_spec a = bs_output_file b" by (simp add: a split: prod.split)
    show "case ga_raw_chain_spec a of
       None \<Rightarrow> s' = s3
     | Some raw \<Rightarrow> \<exists>code state. build_raw_spec E C b builder s3 = (Inr (raw, code, state), s')"
      using r a by (auto simp: bindE_Inr ret_apply split: if_splits prod.splits)
  qed
qed

lemma build_raw_Inr:
  assumes "build_raw_spec E C b builder s = (Inr (raw, code, state), s')" and "\<not> bs_genesis_state b"
  obtains s1 s2 where "generate_raw_chain_spec E builder (bs_output_file b) (raw_spec_name (bs_output_file b)) s = (Inr raw, s1)"
    and "if is_runtime_build builder then customize E b raw s1 = (Inr (), s2) else s2 = s1"
    and "if bs_genesis_code b then \<exists>f. export_wasm_file E builder raw ''genesis-code.wasm'' s2 = (Inr f, s') else s' = s2"
  using assms unfolding build_raw_spec_def
  by (fastforce simp: bindE_Inr ret_apply split: if_splits)

lemma keeps_existing:
  assumes "leave_alone E p" and "p \<noteq> with_file_name (bs_output_file b) (raw_spec_name (bs_output_file b))"
    and "path_file_name p \<noteq> Some ''genesis-code.wasm''"
    and "build_raw_spec E C b builder s = (Inr (raw, code, state), s')" and "\<not> bs_genesis_state b"
  shows "same_content p s s'"
proof -
  obtain s1 s2 where s1: "generate_raw_chain_spec E builder (bs_output_file b) (raw_spec_name (bs_output_file b)) s = (Inr raw, s1)"
    and s2: "if is_runtime_build builder then customize E b raw s1 = (Inr (), s2) else s2 = s1"
    and w: "if bs_genesis_code b then \<exists>f. export_wasm_file E builder raw ''genesis-code.wasm'' s2 = (Inr f, s') else s' = s2"
    by (rule build_raw_Inr [OF assms(4,5)])
  have raw: "raw = with_file_name (bs_output_file b) (raw_spec_name (bs_output_file b))"
    by (rule generate_raw_Inr [OF s1])
  have "same_content p s s1"
    by (rule keeps_returnsD [OF keeps_generate_raw [OF assms(1,2)] s1])
  moreover have "same_content p s1 s2"
    using s2 keeps_returnsD [OF keeps_customize [of p raw]] assms(2) raw contents.refl by (auto split: if_splits)
  moreover have "same_content p s2 s'"
    using w keeps_returnsD [OF keeps_export_wasm [OF assms(1) wasm_file_apart [OF assms(3)]]] contents.refl
    by (auto split: if_splits)
  ultimately show ?thesis by (simp add: same_content_def)
qed


section \<open>An existing specification\<close>

lemma bindE_ret [simp]: "bindE (ret x) f = f x"
  by (rule ext) (simp add: prog_simps)

lemma bindE_cong:
  assumes "m s = m' s" and "\<And>x s'. m s = (Inr x, s') \<Longrightarrow> f x s' = f' x s'"
  shows "bindE m f s = bindE m' f' s"
  using assms by (simp add: prog_simps split: prod.split sum.split)

text \<open>The options that a specification is customized with.\<close>

definition with_options ::
  "u32 option \<Rightarrow> spec_relay option \<Rightarrow> spec_chain_type \<Rightarrow> string \<Rightarrow> string option \<Rightarrow> build_spec \<Rightarrow> build_spec" where
  "with_options i r t p ps b = b\<lparr>bs_para_id := i, bs_relay := r, bs_chain_type := t, bs_protocol_id := p, bs_properties := ps\<rparr>"

lemma with_options_same [simp]:
  "bs_path (with_options i r t p ps b) = bs_path b" "bs_output_file (with_options i r t p ps b) = bs_output_file b"
  "bs_profile (with_options i r t p ps b) = bs_profile b" "bs_runtime_dir (with_options i r t p ps b) = bs_runtime_dir b"
  "bs_default_bootnode (with_options i r t p ps b) = bs_default_bootnode b"
  "bs_features (with_options i r t p ps b) = bs_features b" "bs_skip_build (with_options i r t p ps b) = bs_skip_build b"
  "bs_genesis_state (with_options i r t p ps b) = bs_genesis_state b"
  "bs_genesis_code (with_options i r t p ps b) = bs_genesis_code b" "bs_raw (with_options i r t p ps b) = bs_raw b"
  "bs_use_existing_plain_spec (with_options i r t p ps b) = bs_use_existing_plain_spec b"
  by (simp_all add: with_options_def)

lemma builder_ignores_options [simp]: "build_spec_builder E C (with_options i r t p ps b) = build_spec_builder E C b"
  by (simp add: build_spec_builder_def split: option.split)

lemma build_ignores_options:
  assumes "bs_use_existing_plain_spec b" and "\<not> builds_runtime b s"
  shows "build_spec_build E C (with_options i r t p ps b) redirect s = build_spec_build E C b redirect s"
  unfolding build_spec_build_def builder_ignores_options
proof (rule bindE_cong [OF HOL.refl])
  fix builder s' assume "build_spec_builder E C b s = (Inr builder, s')"
  then have "\<not> is_runtime_build builder" using builder_kind assms(2) by blast
  then have "build_raw_spec E C (with_options i r t p ps b) builder = build_raw_spec E C b builder"
    by (simp add: build_raw_spec_def)
  then show "(\<lambda>builder. bindE (build_artifacts E (with_options i r t p ps b) redirect builder) (\<lambda>_.
      bindE (if bs_use_existing_plain_spec (with_options i r t p ps b) then ret ()
        else build_plain_spec E C (with_options i r t p ps b) builder) (\<lambda>_.
      bindE (if bs_raw (with_options i r t p ps b) \<or> bs_genesis_code (with_options i r t p ps b) \<or>
          bs_genesis_state (with_options i r t p ps b)
        then bindE (build_raw_spec E C (with_options i r t p ps b) builder) (\<lambda>(raw, code, state). ret (Some raw, code, state))
        else ret (None, None, None)) (\<lambda>(raw, code, state).
      ret \<lparr>ga_chain_spec = bs_output_file (with_options i r t p ps b), ga_raw_chain_spec = raw,
        ga_genesis_state_file = state, ga_genesis_code_file = code\<rparr>)))) builder s' =
    (\<lambda>builder. bindE (build_artifacts E b redirect builder) (\<lambda>_.
      bindE (if bs_use_existing_plain_spec b then ret () else build_plain_spec E C b builder) (\<lambda>_.
      bindE (if bs_raw b \<or> bs_genesis_code b \<or> bs_genesis_state b
        then bindE (build_raw_spec E C b builder) (\<lambda>(raw, code, state). ret (Some raw, code, state))
        else ret (None, None, None)) (\<lambda>(raw, code, state).
      ret \<lparr>ga_chain_spec = bs_output_file b, ga_raw_chain_spec = raw,
        ga_genesis_state_file = state, ga_genesis_code_file = code\<rparr>)))) builder s'"
    using assms(1) by (simp add: build_artifacts_def cong: if_cong)
qed

text \<open>
  What an existing specification that is not to be changed is built with: every option is the
  one given or a default, and only what to export may be asked for.
\<close>

definition unprompted_spec :: "build_spec_command \<Rightarrow> string \<Rightarrow> json option \<Rightarrow> bool \<Rightarrow> bool \<Rightarrow> build_spec" where
  "unprompted_spec c output spec genesis_state genesis_code = \<lparr>bs_path = cmd_path c, bs_output_file = output,
     bs_profile = (case cmd_profile c of Some p \<Rightarrow> p | None \<Rightarrow> Release), bs_is_relay = cmd_is_relay c,
     bs_para_id = (if cmd_is_relay c then None else Some (case cmd_para_id c of Some i \<Rightarrow> i
       | None \<Rightarrow> (case Option.bind spec get_chain_id of Some i \<Rightarrow> ucast i | None \<Rightarrow> DEFAULT_PARA_ID))),
     bs_default_bootnode = False,
     bs_chain_type = (case cmd_chain_type c of Some t \<Rightarrow> t
       | None \<Rightarrow> (case Option.bind (Option.bind spec get_chain_type) (named chain_types) of Some t \<Rightarrow> t | None \<Rightarrow> Development)),
     bs_chain = cmd_chain c,
     bs_relay = (if cmd_is_relay c then None else Some (case cmd_relay c of Some r \<Rightarrow> r
       | None \<Rightarrow> (case Option.bind (Option.bind spec get_relay_chain) (named spec_relays) of Some r \<Rightarrow> r | None \<Rightarrow> PaseoLocal))),
     bs_protocol_id = (case cmd_protocol_id c of Some p \<Rightarrow> p
       | None \<Rightarrow> (case Option.bind spec get_protocol_id of Some p \<Rightarrow> p | None \<Rightarrow> DEFAULT_PROTOCOL_ID)),
     bs_name = cmd_name c, bs_id = cmd_id c, bs_properties = cmd_properties c,
     bs_features = map trim (pieces '','' (cmd_features c)), bs_skip_build = cmd_skip_build c,
     bs_genesis_state = genesis_state, bs_genesis_code = genesis_code, bs_deterministic = False, bs_tag = cmd_tag c,
     bs_package = DEFAULT_PACKAGE, bs_runtime_dir = cmd_runtime_dir c, bs_use_existing_plain_spec = True, bs_raw = cmd_raw c\<rparr>"

lemma given_or_ret [simp]: "given_or x (ret y) = ret (case x of Some z \<Rightarrow> z | None \<Rightarrow> y)"
  by (simp add: given_or_def split: option.split)

lemma bindE_run: "m s = (Inr x, s') \<Longrightarrow> bindE m f s = f x s'"
  by (simp add: prog_simps)

lemma configure_unprompted:
  assumes "configure_output E C c s = (Inr (output, False), s1)"
    and "chain_spec_from E output s1 = (spec, s2)"
  shows "configure_build_spec E C c s =
     bindE (given_or (cmd_genesis_state c) (or_else (confirm C ''Should the genesis state file be generated ?'' True) True)) (\<lambda>genesis_state.
     bindE (given_or (cmd_genesis_code c) (or_else (confirm C ''Should the genesis code file be generated ?'' True) True)) (\<lambda>genesis_code.
     ret (unprompted_spec c output (case spec of Inr j \<Rightarrow> Some j | Inl _ \<Rightarrow> None) genesis_state genesis_code))) s2"
proof -
  have cs: "matchE (chain_spec_from E output) (\<lambda>_. ret None) (\<lambda>j. ret (Some j)) s1 =
      (Inr (case spec of Inr j \<Rightarrow> Some j | Inl _ \<Rightarrow> None), s2)"
    using assms(2) by (simp add: prog_simps split: sum.split)
  show ?thesis
    unfolding configure_build_spec_def bindE_run [of "configure_output E C c" s, OF assms(1)] prod.case bindE_run [of "matchE _ _ _", OF cs]
      configure_para_id_def configure_relay_def configure_chain_type_def configure_protocol_id_def Let_def
      if_False simp_thms given_or_ret if_True not_False_eq_True
    by (cases "cmd_is_relay c") (simp_all only: if_True if_False bindE_ret given_or_ret prod.case unprompted_spec_def simp_thms)
qed

lemma bindE_assoc: "bindE (bindE m f) g = bindE m (\<lambda>x. bindE (f x) g)"
  by (rule ext) (simp add: prog_simps split: prod.split sum.split)

lemma confirmed_files:
  "given_or x (or_else (confirm C text_shown init) y) s = (r, s') \<Longrightarrow> mc_files s' = mc_files s"
  by (auto simp: given_or_def or_else_def confirm_def ask_world_def prog_simps split: option.splits prod.splits sum.splits)

lemma unprompted_options:
  "unprompted_spec (c\<lparr>cmd_para_id := i, cmd_relay := r, cmd_chain_type := t, cmd_protocol_id := p, cmd_properties := ps\<rparr>)
     output spec gs gc =
   with_options
     (bs_para_id (unprompted_spec (c\<lparr>cmd_para_id := i\<rparr>) output spec gs gc))
     (bs_relay (unprompted_spec (c\<lparr>cmd_relay := r\<rparr>) output spec gs gc))
     (bs_chain_type (unprompted_spec (c\<lparr>cmd_chain_type := t\<rparr>) output spec gs gc))
     (bs_protocol_id (unprompted_spec (c\<lparr>cmd_protocol_id := p\<rparr>) output spec gs gc)) ps
     (unprompted_spec c output spec gs gc)"
  by (simp add: unprompted_spec_def with_options_def)

lemma configure_existing:
  assumes "cmd_chain c = Some chain" and "is_file chain s"
    and "cli_confirm C ''An existing chain spec file is provided. Do you want to make additional changes to it?'' False (mc_world s) =
       (Inr False, w)"
  shows "configure_output E C c s = (Inr (chain, False), s\<lparr>mc_world := w\<rparr>)"
  using assms by (simp add: configure_output_def confirm_def ask_world_def prog_simps)

text \<open>
  C36: For an existing specification of a node that is not to be changed, the options to
  customize it with are lost. When the chain given is a file and no changes are wanted, the
  identifier, the relay chain, the type, the protocol identifier and the properties given on the
  command line make no difference at all to what \<^verbatim>\<open>pop build spec\<close> does, the raw specification
  included.
\<close>

theorem options_lost_on_existing_specification:
  assumes "cmd_chain c = Some chain" and "is_file chain s"
    and "cli_confirm C ''An existing chain spec file is provided. Do you want to make additional changes to it?'' False (mc_world s) =
       (Inr False, w)"
    and "cmd_runtime_dir c = None" and "is_dir (path_join (cmd_path c) ''node'') s"
  shows "execute_human E C
       (c\<lparr>cmd_para_id := i, cmd_relay := r, cmd_chain_type := t, cmd_protocol_id := p, cmd_properties := ps\<rparr>) s =
     execute_human E C c s"
proof -
  let ?c = "c\<lparr>cmd_para_id := i, cmd_relay := r, cmd_chain_type := t, cmd_protocol_id := p, cmd_properties := ps\<rparr>"
  obtain spec s2 where s2: "chain_spec_from E chain (s\<lparr>mc_world := w\<rparr>) = (spec, s2)" by fastforce
  have o: "configure_output E C c s = (Inr (chain, False), s\<lparr>mc_world := w\<rparr>)"
    and o': "configure_output E C ?c s = (Inr (chain, False), s\<lparr>mc_world := w\<rparr>)"
    using assms(1-3) by (simp_all add: configure_existing)
  have files: "mc_files s2 = mc_files s"
    using s2 by (auto simp: chain_spec_from_def read_file_def spec_io_def io_def io_succeeds_def on_world_def prog_simps
        split: prod.splits sum.splits if_splits option.splits)
  have step: "matchE (build_spec_build E C (unprompted_spec ?c chain sp gs gc) False) h k s4 =
      matchE (build_spec_build E C (unprompted_spec c chain sp gs gc) False) h k s4"
    if "mc_files s4 = mc_files s" for sp gs gc h k and s4 :: "'a machine"
  proof -
    have "\<not> builds_runtime (unprompted_spec c chain sp gs gc) s4"
      using assms(4,5) that by (simp add: builds_runtime_def unprompted_spec_def is_dir_def is_file_def path_exists_def)
    then have "build_spec_build E C (unprompted_spec ?c chain sp gs gc) False s4 =
        build_spec_build E C (unprompted_spec c chain sp gs gc) False s4"
      unfolding unprompted_options by (rule build_ignores_options [rotated]) (simp add: unprompted_spec_def)
    then show ?thesis by (simp add: matchE_apply)
  qed
  have "bindE (configure_build_spec E C ?c) k s = bindE (configure_build_spec E C c) k s"
    if k: "k = (\<lambda>b. matchE (build_spec_build E C b False)
        (\<lambda>e. case e of SpecPanic why \<Rightarrow> fail (SpecPanic why) | _ \<Rightarrow> ret ()) (\<lambda>_. ret ()))" for k :: "build_spec \<Rightarrow> ('a, unit) spec_prog"
  proof -
    let ?gs = "given_or (cmd_genesis_state c) (or_else (confirm C ''Should the genesis state file be generated ?'' True) True)"
    let ?gc = "given_or (cmd_genesis_code c) (or_else (confirm C ''Should the genesis code file be generated ?'' True) True)"
    let ?j = "case spec of Inr j \<Rightarrow> Some j | Inl _ \<Rightarrow> None"
    have "bindE ?gs (\<lambda>gs. bindE ?gc (\<lambda>gc. k (unprompted_spec ?c chain ?j gs gc))) s2 =
        bindE ?gs (\<lambda>gs. bindE ?gc (\<lambda>gc. k (unprompted_spec c chain ?j gs gc))) s2"
    proof (intro bindE_cong HOL.refl)
      fix gs gc s3 s4 assume "?gs s2 = (Inr gs, s3)" and "?gc s3 = (Inr gc, s4)"
      then have "mc_files s4 = mc_files s" using confirmed_files files by metis
      then show "k (unprompted_spec ?c chain ?j gs gc) s4 = k (unprompted_spec c chain ?j gs gc) s4"
        unfolding k by (rule step)
    qed
    then show ?thesis
      using configure_unprompted [OF o s2] configure_unprompted [OF o' s2]
      by (simp add: bindE_apply [of "configure_build_spec E C x" for x]) (simp add: bindE_apply [symmetric] bindE_assoc)
  qed
  then show ?thesis
    unfolding execute_human_def by (simp add: prog_simps is_supported_def)
qed

section \<open>The two ways of configuring\<close>

text \<open>Every option that may be asked for is given.\<close>

definition all_given :: "build_spec_command \<Rightarrow> bool" where
  "all_given c \<longleftrightarrow> cmd_output_file c \<noteq> None \<and> cmd_profile c \<noteq> None \<and> cmd_chain_type c \<noteq> None \<and> cmd_chain c \<noteq> None \<and>
     cmd_protocol_id c \<noteq> None \<and> cmd_default_bootnode c \<noteq> None \<and> cmd_genesis_state c \<noteq> None \<and> cmd_genesis_code c \<noteq> None \<and>
     cmd_deterministic c \<noteq> None \<and>
     (cmd_is_relay c \<or> cmd_para_id c \<noteq> None \<and> cmd_relay c \<noteq> None) \<and>
     (cmd_deterministic c = Some True \<longrightarrow> cmd_runtime_dir c \<noteq> None \<and> cmd_package c \<noteq> None)"

lemma given_or_Some [simp]: "given_or (Some x) m = ret x"
  by (simp add: given_or_def)

lemma required_Some [simp]: "required (Some x) what = ret x"
  by (simp add: required_def)

text \<open>What both configure when everything is given, but for the features.\<close>

definition given_spec :: "build_spec_command \<Rightarrow> string list \<Rightarrow> string \<Rightarrow> build_spec" where
  "given_spec c features output = \<lparr>bs_path = cmd_path c, bs_output_file = output, bs_profile = the (cmd_profile c),
     bs_is_relay = cmd_is_relay c, bs_para_id = (if cmd_is_relay c then None else cmd_para_id c),
     bs_default_bootnode = the (cmd_default_bootnode c), bs_chain_type = the (cmd_chain_type c), bs_chain = cmd_chain c,
     bs_relay = (if cmd_is_relay c then None else cmd_relay c), bs_protocol_id = the (cmd_protocol_id c),
     bs_name = cmd_name c, bs_id = cmd_id c, bs_properties = cmd_properties c, bs_features = features,
     bs_skip_build = cmd_skip_build c, bs_genesis_state = the (cmd_genesis_state c),
     bs_genesis_code = the (cmd_genesis_code c), bs_deterministic = the (cmd_deterministic c), bs_tag = cmd_tag c,
     bs_package = (if cmd_deterministic c = Some True then the (cmd_package c) else DEFAULT_PACKAGE),
     bs_runtime_dir = cmd_runtime_dir c, bs_use_existing_plain_spec = False, bs_raw = cmd_raw c\<rparr>"

lemma configure_json_given:
  assumes "all_given c"
  shows "configure_build_spec_json E c =
     bindE (prepare_output_path E (the (cmd_output_file c))) (\<lambda>output.
     ret (given_spec c (filter (\<lambda>f. f \<noteq> []) (map trim (pieces '','' (cmd_features c)))) output))"
proof -
  obtain out p t ch pr bn gs gc d where given: "cmd_output_file c = Some out" "cmd_profile c = Some p" "cmd_chain_type c = Some t"
    "cmd_chain c = Some ch" "cmd_protocol_id c = Some pr" "cmd_default_bootnode c = Some bn" "cmd_genesis_state c = Some gs"
    "cmd_genesis_code c = Some gc" "cmd_deterministic c = Some d"
    using assms unfolding all_given_def by blast
  have ids: "(if cmd_is_relay c then ret (None, None)
       else bindE (required (cmd_para_id c) ''--para-id'') (\<lambda>para_id.
         bindE (required (cmd_relay c) ''--relay'') (\<lambda>relay. ret (Some para_id, Some relay)))) =
     ret (if cmd_is_relay c then None else cmd_para_id c, if cmd_is_relay c then None else cmd_relay c)"
    using assms by (auto simp: all_given_def)
  have det: "(if d then bindE (given_or (cmd_runtime_dir c) m) (\<lambda>x. ret (Some x)) else ret (cmd_runtime_dir c)) = ret (cmd_runtime_dir c)"
    "(if d then given_or (cmd_package c) m' else ret DEFAULT_PACKAGE) = ret (if d then the (cmd_package c) else DEFAULT_PACKAGE)" for m m'
    using assms given(9) by (auto simp: all_given_def)
  show ?thesis
    unfolding configure_build_spec_json_def ids given required_Some bindE_ret prod.case det given_spec_def option.sel
    by simp
qed

lemma configure_given:
  assumes "all_given c" and "configure_output E C c s = (Inr (output, True), s1)"
    and "chain_spec_from E output s1 = (spec, s2)"
  shows "configure_build_spec E C c s = (Inr (given_spec c (map trim (pieces '','' (cmd_features c))) output), s2)"
proof -
  obtain out p t ch pr bn gs gc d where given: "cmd_output_file c = Some out" "cmd_profile c = Some p" "cmd_chain_type c = Some t"
    "cmd_chain c = Some ch" "cmd_protocol_id c = Some pr" "cmd_default_bootnode c = Some bn" "cmd_genesis_state c = Some gs"
    "cmd_genesis_code c = Some gc" "cmd_deterministic c = Some d"
    using assms(1) unfolding all_given_def by blast
  have cs: "matchE (chain_spec_from E output) (\<lambda>_. ret None) (\<lambda>j. ret (Some j)) s1 =
      (Inr (case spec of Inr j \<Rightarrow> Some j | Inl _ \<Rightarrow> None), s2)"
    using assms(3) by (simp add: prog_simps split: sum.split)
  have ids: "(if cmd_is_relay c then ret (None, None)
       else bindE (configure_para_id C True sp (cmd_para_id c)) (\<lambda>para_id.
         bindE (configure_relay C True sp (cmd_relay c)) (\<lambda>relay. ret (Some para_id, Some relay)))) =
     ret (if cmd_is_relay c then None else cmd_para_id c, if cmd_is_relay c then None else cmd_relay c)" for sp
    using assms by (auto simp: all_given_def configure_para_id_def configure_relay_def)
  have det: "(if d then bindE (given_or (cmd_runtime_dir c) m) (\<lambda>x. ret (Some x)) else ret (cmd_runtime_dir c)) = ret (cmd_runtime_dir c)"
    "(if d then configure_package E C (cmd_package c) x else ret DEFAULT_PACKAGE) =
      ret (if d then the (cmd_package c) else DEFAULT_PACKAGE)" for m x
    using assms(1) given(9) by (auto simp: all_given_def configure_package_def)
  show ?thesis
    unfolding configure_build_spec_def bindE_run [of "configure_output E C c" s, OF assms(2)] prod.case
      bindE_run [of "matchE _ _ _", OF cs] ids given configure_chain_type_def configure_protocol_id_def
      given_or_Some bindE_ret not_True_eq_False if_False det given_spec_def option.sel
    by (simp add: ret_apply)
qed


section \<open>Checking a binary\<close>

lemma results_omni_generator:
  "results (polkadot_omni_node_generator E cache v) (\<lambda>b. \<exists>src. b = Sourced OMNI_NODE src cache \<and> provides OMNI_NODE src)"
  unfolding polkadot_omni_node_generator_def
  by (auto intro!: result_intros results_bind [OF results_lift [OF provides_sources(4)]] results_bind [OF results_resolving])

lemma source_and_permit_exists:
  assumes "source_and_permit E (Sourced name src cache) s = (Inr path, s')" and "provides name src"
    and "temporary_apart (ce_sourcing E) (binary_path (Sourced name src cache))"
  shows "path_exists path s'"
proof -
  obtain s1 where "source_source (ce_sourcing E) cache False src s = (Inr (), s1)"
    and c: "set_executable_permission (ce_sourcing E) path s1 = (Inr (), s')" and p: "path = binary_path (Sourced name src cache)"
    using assms(1) by (auto simp: source_and_permit_def source_binary_def Inr_simps)
  then have "path_exists path s1"
    using source_makes [OF assms(2,3)] by (auto simp: makes_path_def)
  then show ?thesis using chmod_run [OF c] by simp
qed

text \<open>
  C40: The omni node that is looked for is there. When the check of the binary succeeds without
  asking, the path it returns exists, whether the binary was in the cache, was fetched because it
  was missing or because it was stale, provided the temporary directories are not in the way of
  the two caches.
\<close>

theorem checked_omni_node_exists:
  assumes "source_polkadot_omni_node_binary E C cache True s = (Inr path, s')"
    and "\<And>v. temporary_apart (ce_sourcing E) (path_join cache (with_suffix OMNI_NODE v))"
    and "\<And>v cache'. sp_cache E = Inr cache' \<Longrightarrow> temporary_apart (ce_sourcing E) (path_join cache' (with_suffix OMNI_NODE v))"
  shows "path_exists path s'"
proof -
  let ?gen = "polkadot_omni_node_generator (chains_env.truncate E)"
  obtain b s1 where g: "?gen cache None s = (Inr b, s1)"
    and rest: "bindE (if binary_exists b s1 then ret (binary_path b) else source_and_permit E b) (\<lambda>path.
       if binary_stale b then
         bindE (map_err SpecAnyhow (lift_sum (sp_cache E))) (\<lambda>cache.
         bindE (map_err SpecChains (?gen cache (binary_latest b))) (source_and_permit E))
       else ret path) s1 = (Inr path, s')"
    using assms(1) unfolding source_polkadot_omni_node_binary_def check_and_prompt_def
    by (auto simp: bindE_Inr gets_apply split: if_splits)
  obtain src where b: "b = Sourced OMNI_NODE src cache" "provides OMNI_NODE src"
    using resultsD [OF results_omni_generator g] by blast
  obtain q s2 where q: "(if binary_exists b s1 then ret (binary_path b) else source_and_permit E b) s1 = (Inr q, s2)"
    and after: "(if binary_stale b then
         bindE (map_err SpecAnyhow (lift_sum (sp_cache E))) (\<lambda>cache.
         bindE (map_err SpecChains (?gen cache (binary_latest b))) (source_and_permit E))
       else ret q) s2 = (Inr path, s')"
    using rest by (auto simp: bindE_Inr)
  have "path_exists q s2"
    using q b source_and_permit_exists [of E OMNI_NODE src cache s1 q s2] assms(2)
    by (auto simp: binary_exists_def ret_apply split: if_splits)
  moreover have "path_exists path s'" if stale: "binary_stale b"
  proof -
    obtain cache' b' s3 where c: "sp_cache E = Inr cache'" "?gen cache' (binary_latest b) s2 = (Inr b', s3)"
      "source_and_permit E b' s3 = (Inr path, s')"
      using after stale by (auto simp: Inr_simps)
    obtain src' where "b' = Sourced OMNI_NODE src' cache'" "provides OMNI_NODE src'"
      using resultsD [OF results_omni_generator c(2)] by blast
    then show ?thesis using source_and_permit_exists [of E OMNI_NODE src' cache' s3 path s'] c(3) assms(3) [OF c(1)] by simp
  qed
  ultimately show ?thesis using after by (cases "binary_stale b") (auto simp: ret_apply)
qed

end
