(* ===== verification/Spec_Runs.thy ===== *)
theory Spec_Runs
  imports Spec_Properties
begin

text \<open>
  A project on which the properties of specifications are tried: a workspace with a runtime that
  has been built already, a specification file beside it, and a node directory in another project.
\<close>

definition sample_spec :: json where
  "sample_spec = JObject [(''name'', JString ''Sample''), (''chainType'', JString ''Live''), (''protocolId'', JString ''old''),
     (''properties'', JObject [(''basedOn'', JString ''standard'')]), (''para_id'', JNumber 1), (''relay_chain'', JString ''kusama''),
     (''genesis'', JObject [(''runtimeGenesis'', JObject [(''code'', JString ''0x''),
        (''patch'', JObject [(''parachainInfo'', JObject [(''parachainId'', JNumber 1)])])])])]"

definition sample_raw :: json where
  "sample_raw = JObject [(''chainType'', JString ''Live''), (''protocolId'', JString ''old''), (''properties'', JObject []),
     (''genesis'', JObject [(''raw'', JObject [])])]"

definition sample_se :: "unit sourcing_env" where
  "sample_se = (sample_env None)\<lparr>se_unpack := \<lambda>b. Inr [(OMNI_NODE, a_file)]\<rparr>"

definition sample_spec_env :: "unit spec_env" where
  "sample_spec_env = \<lparr>ce_sourcing = sample_se,
     ce_url_parse = \<lambda>s. Some \<lparr>u_text = s, u_host = Some ''github.com'', u_path = drop 18 s,
       u_segments = Some (pieces ''/'' (drop 19 s)), u_query = None, u_fragment = None\<rparr>,
     ce_url_bare = \<lambda>u. u, ce_os = ''linux'', ce_arch = ''x86_64'', ce_ss58 = \<lambda>b. ''address'',
     sp_parse = \<lambda>b. if b = [1] then Inr sample_spec else if b = [2] then Inr sample_raw else Inl ''not JSON'',
     sp_pretty = \<lambda>j. [3], sp_to_hex = \<lambda>b skip. ''0x52'', sp_lossy = \<lambda>b. [],
     sp_manifest = \<lambda>b. Some \<lparr>mf_package = Some ''my-runtime'', mf_workspace = None, mf_dependencies = [''polkadot-sdk''],
       mf_features = []\<rparr>,
     sp_find_workspace = \<lambda>files path. Some ''/p/Cargo.toml'', sp_canonical = \<lambda>files path. Some path,
     sp_manifest_at = \<lambda>files path. False, sp_glob = \<lambda>files pattern. Some [],
     sp_run = \<lambda>program args dir files w. (Exited True [2] [], files, w),
     sp_raw = \<lambda>b. Inr [2], sp_plain = \<lambda>wasm preset name ident. Inr [1], sp_wasm = \<lambda>b. Inr [0x52],
     sp_presets = \<lambda>b. Inr [''dev''], sp_tempfile = \<lambda>w. (Inr ''/tmp/spec'', w), sp_image_tag = \<lambda>url w. (Inr ''1.88'', w),
     sp_image_digest = \<lambda>image tag w. (Inr ''sha256'', w), sp_temp_dir = ''/tmp'', sp_current_dir = Some ''/p'',
     sp_cache = Inr ''/cache''\<rparr>"

definition sample_project :: "unit machine" where
  "sample_project = \<lparr>mc_files = [(''/p/runtime/Cargo.toml'', a_file),
     (''/p/target/release/wbuild/my-runtime/my_runtime.wasm'', a_file),
     (''/p/spec.json'', \<lparr>file_content = [1], file_executable = False\<rparr>),
     (''/q/Cargo.toml'', a_file), (''/q/node/Cargo.toml'', a_file), (''/p/target/release/my-runtime'', a_file)], mc_world = ()\<rparr>"

definition no_answers :: "unit cli" where
  "no_answers = \<lparr>cli_confirm = \<lambda>prompt initial w. (Inr False, w), cli_input = \<lambda>prompt default w. (Inl ''interrupted'', w),
     cli_select = \<lambda>prompt items w. (Inl ''interrupted'', w), cli_multiselect = \<lambda>prompt items w. (Inl ''interrupted'', w)\<rparr>"

definition sample_command :: build_spec_command where
  "sample_command = \<lparr>cmd_path = ''/p'', cmd_output_file = Some ''/p/out.json'', cmd_profile = Some Release,
     cmd_para_id = Some 2001, cmd_default_bootnode = Some False, cmd_chain_type = Some LocalType, cmd_features = '''',
     cmd_skip_build = True, cmd_chain = Some ''dev'', cmd_is_relay = False, cmd_relay = Some PaseoLocal, cmd_name = None,
     cmd_id = None, cmd_protocol_id = Some ''mine'', cmd_properties = Some ''tokenSymbol=UNIT,decimals=12'',
     cmd_genesis_state = Some False, cmd_genesis_code = Some True, cmd_deterministic = Some False, cmd_tag = None,
     cmd_runtime_dir = Some ''/p/runtime'', cmd_package = None, cmd_raw = True\<rparr>"

definition sample_build :: build_spec where
  "sample_build = given_spec sample_command [] ''/p/out.json''"

section \<open>The properties on it\<close>

lemma commands_leave_files: "leave_alone sample_spec_env p"
  by (simp add: leave_alone_def sample_spec_env_def)



text \<open>The project with a node, and the specification of the other one.\<close>

definition node_command :: build_spec_command where
  "node_command = sample_command\<lparr>cmd_path := ''/q'', cmd_chain := Some ''/p/spec.json'', cmd_runtime_dir := None\<rparr>"

theorem options_lost_on_existing_specification_witness:
  "\<not> isl (fst (execute_human sample_spec_env no_answers node_command sample_project)) \<and>
   execute_human sample_spec_env no_answers (node_command\<lparr>cmd_para_id := Some 1000, cmd_relay := Some KusamaLocal,
     cmd_chain_type := Some LiveType, cmd_protocol_id := None, cmd_properties := Some ''a''\<rparr>) sample_project =
   execute_human sample_spec_env no_answers node_command sample_project"
proof
  show "\<not> isl (fst (execute_human sample_spec_env no_answers node_command sample_project))" by code_simp
  show "execute_human sample_spec_env no_answers (node_command\<lparr>cmd_para_id := Some 1000, cmd_relay := Some KusamaLocal,
     cmd_chain_type := Some LiveType, cmd_protocol_id := None, cmd_properties := Some ''a''\<rparr>) sample_project =
   execute_human sample_spec_env no_answers node_command sample_project"
  proof (rule options_lost_on_existing_specification)
    show "cmd_chain node_command = Some ''/p/spec.json''" by code_simp
    show "is_file ''/p/spec.json'' sample_project" by code_simp
    show "cli_confirm no_answers ''An existing chain spec file is provided. Do you want to make additional changes to it?'' False
        (mc_world sample_project) = (Inr False, ())"
      by (simp add: no_answers_def)
    show "cmd_runtime_dir node_command = None" by code_simp
    show "is_dir (path_join (cmd_path node_command) ''node'') sample_project" by code_simp
  qed
qed


theorem checked_omni_node_exists_witness:
  "\<not> path_exists ''/cache/polkadot-omni-node-stable2512-1'' sample_project \<and>
   (\<exists>path s'. source_polkadot_omni_node_binary sample_spec_env no_answers ''/cache'' True sample_project = (Inr path, s') \<and>
     path_exists path s')"
proof
  show "\<not> path_exists ''/cache/polkadot-omni-node-stable2512-1'' sample_project" by code_simp
  let ?r = "source_polkadot_omni_node_binary sample_spec_env no_answers ''/cache'' True sample_project"
  have "\<not> isl (fst ?r)" by code_simp
  then have r: "?r = (Inr (projr (fst ?r)), snd ?r)" by (rule run_ok)
  have cache: "sp_cache sample_spec_env = Inr c \<Longrightarrow> c = ''/cache''" for c by (simp add: sample_spec_env_def)
  have t: "tidy ''/tmp/x''" by code_simp
  have "temporary_apart (ce_sourcing sample_spec_env) (path_join ''/cache'' (with_suffix OMNI_NODE v))" for v
  proof -
    have "apart ''/tmp/x'' (path_join ''/cache'' (with_suffix OMNI_NODE v))"
      by (auto simp: apart_def within_def starts_with_def path_join_def with_suffix_def OMNI_NODE_def split: option.split)
    with t show ?thesis by (simp add: temporary_apart_def sample_spec_env_def sample_se_def sample_env_def)
  qed
  then have "path_exists (projr (fst ?r)) (snd ?r)"
    using cache by (intro checked_omni_node_exists [OF r]) auto
  with r show "\<exists>path s'. ?r = (Inr path, s') \<and> path_exists path s'" by blast
qed

end
