(* ===== verification/Clean.thy ===== *)
theory Clean
  imports Build_Spec "HOL-Library.Char_ord"
begin

text \<open>
  \<^verbatim>\<open>pop clean\<close>, \<^verbatim>\<open>crates/pop-cli/src/commands/clean.rs\<close>: removing cached artifacts, killing nodes,
  stopping local networks; with prompts and with \<^verbatim>\<open>--json\<close>. The programs it runs (\<^verbatim>\<open>pgrep\<close>, \<^verbatim>\<open>lsof\<close>,
  \<^verbatim>\<open>kill\<close>) and the shutdown of a network by the zombienet SDK are arguments. Messages are left out; what
  \<^verbatim>\<open>--json\<close> prints is the value returned.
\<close>

declare digits.simps [simp del]

section \<open>The environment\<close>

text \<open>
  \<open>cl_destroy\<close> attaches to a network by its \<^verbatim>\<open>zombie.json\<close> and destroys it; an error is the text it is
  printed with. \<open>cl_modified\<close> is the time a file was modified, \<open>cl_dir_len\<close> the length that the
  metadata of a directory gives, \<open>cl_left\<close> what is left of a directory when its removal breaks off,
  \<open>cl_terminal\<close> whether the standard input is a terminal, \<open>cl_initial\<close> the answer that a confirmation
  suggests when the code sets none.
\<close>

record 'w clean_env =
  cl_spec :: "'w spec_env"
  cl_destroy :: "string \<Rightarrow> tree \<Rightarrow> 'w \<Rightarrow> (string + unit) \<times> tree \<times> 'w"
  cl_modified :: "string \<Rightarrow> 'w \<Rightarrow> int option"
  cl_dir_len :: "string \<Rightarrow> u64"
  cl_left :: "string \<Rightarrow> 'w \<Rightarrow> string \<Rightarrow> bool"
  cl_terminal :: bool
  cl_initial :: bool

definition multiselect :: "'w cli \<Rightarrow> string \<Rightarrow> (string \<times> 'a) list \<Rightarrow> ('w, 'a list) spec_prog" where
  "multiselect C prompt items = bindE (ask_world (cli_multiselect C prompt (map fst items)) SpecIO) (\<lambda>is.
     if list_all (\<lambda>i. i < length items) is then ret (map (\<lambda>i. snd (items ! i)) is)
     else fail (SpecIO ''no such item''))"

definition metadata :: "'w clean_env \<Rightarrow> string \<Rightarrow> ('w, bool) spec_prog" where
  "metadata E path = succeeds (spec_io (cl_spec E) (Metadata path))"

definition remove_file :: "'w clean_env \<Rightarrow> string \<Rightarrow> ('w, unit) spec_prog" where
  "remove_file E path = bindE (gets (is_file path)) (\<lambda>found.
     if found then bindE (spec_io (cl_spec E) (RemoveFile path)) (\<lambda>_. modify (remove_path path))
     else fail (SpecIO os_error))"

definition remove_dir_all :: "'w clean_env \<Rightarrow> string \<Rightarrow> ('w, unit) spec_prog" where
  "remove_dir_all E path = bindE (gets (is_dir path)) (\<lambda>found.
     if \<not> found then fail (SpecIO os_error)
     else matchE (spec_io (cl_spec E) (RemoveDirAll path))
       (\<lambda>e. bindE (modify (\<lambda>s. s\<lparr>mc_files := filter (\<lambda>(p, _). within path p \<longrightarrow> cl_left E path (mc_world s) p) (mc_files s)\<rparr>))
         (\<lambda>_. fail e))
       (\<lambda>_. modify (remove_path path)))"

definition read_dir_entries :: "'w clean_env \<Rightarrow> string \<Rightarrow> ('w, string list) spec_prog" where
  "read_dir_entries E path = bindE (gets (is_dir path)) (\<lambda>found.
     if \<not> found then fail (SpecIO os_error)
     else bindE (spec_io (cl_spec E) (ReadDir path)) (\<lambda>_. gets (read_dir path)))"

section \<open>Text\<close>

text \<open>\<^verbatim>\<open>str::lines\<close> and \<^verbatim>\<open>str::split_whitespace\<close>, the latter for ASCII.\<close>

definition strip_cr :: "string \<Rightarrow> string" where
  "strip_cr l = (if l \<noteq> [] \<and> last l = CHR 0x0D then butlast l else l)"

definition text_lines :: "string \<Rightarrow> string list" where
  "text_lines s = (let ps = pieces [CHR 0x0A] s
     in map strip_cr (butlast ps) @ (if last ps = [] then [] else [last ps]))"

fun split_space :: "string \<Rightarrow> string list" where
  "split_space [] = [[]]"
| "split_space (c # s) = (case split_space s of
     w # ws \<Rightarrow> if is_space c then [] # w # ws else (c # w) # ws | [] \<Rightarrow> [[c]])"

definition split_whitespace :: "string \<Rightarrow> string list" where
  "split_whitespace s = filter (\<lambda>w. w \<noteq> []) (split_space s)"

text \<open>\<^verbatim>\<open>str::parse::<u32>\<close>, which takes a plus sign.\<close>

definition parses_u32 :: "string \<Rightarrow> bool" where
  "parses_u32 s \<longleftrightarrow> parse_u32 (case s of c # t \<Rightarrow> if c = CHR ''+'' then t else s | [] \<Rightarrow> s) \<noteq> None"

text \<open>\<^verbatim>\<open>sort_by\<close>, stable: \<open>le a b\<close> where the comparison of \<open>a\<close> with \<open>b\<close> is not \<^verbatim>\<open>Greater\<close>.\<close>

fun insert_by :: "('a \<Rightarrow> 'a \<Rightarrow> bool) \<Rightarrow> 'a \<Rightarrow> 'a list \<Rightarrow> 'a list" where
  "insert_by le x [] = [x]"
| "insert_by le x (y # ys) = (if le x y then x # y # ys else y # insert_by le x ys)"

definition sort_by :: "('a \<Rightarrow> 'a \<Rightarrow> bool) \<Rightarrow> 'a list \<Rightarrow> 'a list" where
  "sort_by le xs = foldr (insert_by le) xs []"

section \<open>Cached artifacts\<close>

type_synonym artifact = "string \<times> string \<times> u64"

definition artifact_len :: "'w clean_env \<Rightarrow> string \<Rightarrow> 'w machine \<Rightarrow> u64" where
  "artifact_len E path s = (case map_of (mc_files s) path of
     Some f \<Rightarrow> of_nat (length (file_content f)) | None \<Rightarrow> cl_dir_len E path)"

definition contents :: "'w clean_env \<Rightarrow> string \<Rightarrow> ('w, artifact list) spec_prog" where
  "contents E path =
     bindE (read_dir_entries E path) (\<lambda>names.
     bindE (each (\<lambda>name. bindE (metadata E (path_join path name)) (\<lambda>ok.
       if ok then gets (\<lambda>s. [(name, path_join path name, artifact_len E (path_join path name) s)]) else ret [])) names) (\<lambda>found.
     ret (sort_by (\<lambda>(a, _) (b, _). a \<le> b) (filter (\<lambda>(name, _). \<not> starts_with name ''.'') (concat found)))))"

definition execute_cache_json :: "'w clean_env \<Rightarrow> string \<Rightarrow> bool \<Rightarrow> ('w, (string \<times> u64) list) spec_prog" where
  "execute_cache_json E cache remove_all =
     (if \<not> remove_all then fail (PromptRequired ''--all is required with --json'')
      else bindE (gets (path_exists cache)) (\<lambda>found.
        if \<not> found then ret []
        else bindE (contents E cache) (\<lambda>items.
          if items = [] then ret []
          else each (\<lambda>(name, file, size). bindE (remove_file E file) (\<lambda>_. ret (name, size))) items)))"

definition remove_selected :: "'w clean_env \<Rightarrow> 'w cli \<Rightarrow> (string \<times> string) list \<Rightarrow> ('w, unit) spec_prog" where
  "remove_selected E C items =
     bindE (multiselect C ''Select the artifacts you wish to remove:'' items) (\<lambda>selected.
     if selected = [] then ret ()
     else
       bindE (confirm C (if length selected = 1 then ''Are you sure you want to remove the selected artifact?''
         else ''Are you sure you want to remove the '' @ digits (length selected) @ '' selected artifacts?'') (cl_initial E)) (\<lambda>yes.
       if \<not> yes then ret () else bindE (each (remove_file E) selected) (\<lambda>_. ret ())))"

definition clean_cache :: "'w clean_env \<Rightarrow> 'w cli \<Rightarrow> string \<Rightarrow> bool \<Rightarrow> ('w, unit) spec_prog" where
  "clean_cache E C cache remove_all =
     bindE (gets (path_exists cache)) (\<lambda>found.
     if \<not> found then ret ()
     else bindE (contents E cache) (\<lambda>items.
       if items = [] then ret ()
       else if remove_all then bindE (each (\<lambda>(_, file, _). remove_file E file) items) (\<lambda>_. ret ())
       else remove_selected E C (map (\<lambda>(name, path, _). (name, path)) items)))"

section \<open>Nodes\<close>

type_synonym node_process = "string \<times> string \<times> string"

text \<open>\<^verbatim>\<open>Command::output\<close>: whether the program succeeded, and what it wrote.\<close>

definition command_output :: "'w clean_env \<Rightarrow> string \<Rightarrow> string list \<Rightarrow> ('w, bool \<times> string \<times> string) spec_prog" where
  "command_output E program args = bindE (run_unchecked (cl_spec E) program args None) (\<lambda>(ok, stdout, stderr).
     ret (ok, sp_lossy (cl_spec E) stdout, stderr))"

definition is_already_stopped_error :: "string \<Rightarrow> bool" where
  "is_already_stopped_error message \<longleftrightarrow> contains message ''ProcessIdRetrievalFailed'' \<or>
     contains message ''no process was attached'' \<or> contains message ''ESRCH'' \<or> contains message ''No such process''"

definition kill_process :: "'w clean_env \<Rightarrow> string \<Rightarrow> ('w, unit) spec_prog" where
  "kill_process E pid =
     bindE (command_output E ''kill'' [''-9'', pid]) (\<lambda>(ok, stdout, stderr).
     if ok then ret ()
     else let message = if stderr = [] then stdout else stderr in
       if is_already_stopped_error (trim message) then ret ()
       else fail (SpecAnyhow (''failed to kill process '' @ pid @ '': '' @ message)))"

definition listening_port :: "string \<Rightarrow> string list" where
  "listening_port line = (let parts = split_whitespace line in
     if contains line ''127.0.0.1'' \<and> 8 < length parts then [last (pieces '':'' (parts ! 8))] else [])"

definition parse_lsof_ports :: "string \<Rightarrow> string option" where
  "parse_lsof_ports out = (let ports = concat (map listening_port (drop 1 (text_lines out)))
     in if ports = [] then None else Some (join_with '', '' ports))"

definition lsof :: "'w clean_env \<Rightarrow> string \<Rightarrow> ('w, bool \<times> string \<times> string) spec_prog" where
  "lsof E pid = command_output E ''lsof'' [''-Pan'', ''-p'', pid, ''-i'', ''TCP'', ''-s'', ''TCP:LISTEN'']"

definition pgrep :: "'w clean_env \<Rightarrow> string list \<Rightarrow> ('w, string list) spec_prog" where
  "pgrep E args = bindE (command_output E ''pgrep'' args) (\<lambda>(ok, stdout, _).
     ret (if ok then filter (\<lambda>l. l \<noteq> []) (text_lines stdout) else []))"

definition get_fork_processes :: "'w clean_env \<Rightarrow> ('w, node_process list) spec_prog" where
  "get_fork_processes E =
     bindE (pgrep E [''-f'', ''[f]ork.*--serve'']) (\<lambda>pids.
     each (\<lambda>pid. bindE (lsof E pid) (\<lambda>(ok, out, _).
       ret (''pop-fork'', pid, case if ok then parse_lsof_ports out else None of Some ports \<Rightarrow> ports | None \<Rightarrow> ''N/A''))) pids)"

definition get_node_processes :: "'w clean_env \<Rightarrow> ('w, node_process list) spec_prog" where
  "get_node_processes E =
     bindE (each (\<lambda>name. bindE (pgrep E [name]) (\<lambda>pids.
       bindE (each (\<lambda>pid. bindE (lsof E pid) (\<lambda>(ok, out, _).
         ret (case if ok then parse_lsof_ports out else None of Some ports \<Rightarrow> [(name, pid, ports)] | None \<Rightarrow> []))) pids) (\<lambda>xs.
       ret (concat xs)))) [''ink-node'', ''eth-rpc'']) (\<lambda>nodes.
     bindE (get_fork_processes E) (\<lambda>forks. ret (concat nodes @ forks)))"

definition invalid_pids :: "node_process list \<Rightarrow> string list \<Rightarrow> string list" where
  "invalid_pids processes pids = filter (\<lambda>pid. pid \<notin> set (map (\<lambda>(_, p, _). p) processes)) pids"

definition execute_node_json :: "'w clean_env \<Rightarrow> bool \<Rightarrow> string list option \<Rightarrow> ('w, node_process list) spec_prog" where
  "execute_node_json E kill_all pid =
     (if \<not> kill_all \<and> pid = None then fail (PromptRequired ''--all or --pid is required with --json'')
      else bindE (get_node_processes E) (\<lambda>processes.
        if processes = [] then ret []
        else
          bindE (if kill_all then ret (map (\<lambda>(_, p, _). p) processes)
            else case pid of
              Some pids \<Rightarrow> if invalid_pids processes pids \<noteq> []
                then fail (SpecAnyhow (''Invalid PID(s): '' @ join_with '', '' (invalid_pids processes pids))) else ret pids
            | None \<Rightarrow> ret []) (\<lambda>pids_to_kill.
          bindE (each (\<lambda>p. bindE (kill_process E p) (\<lambda>_.
            ret (case List.find (\<lambda>(_, q, _). q = p) processes of
              Some (name, _, ports) \<Rightarrow> [(name, p, ports)] | None \<Rightarrow> []))) pids_to_kill) (\<lambda>killed.
          ret (concat killed)))))"

definition kill_selected :: "'w clean_env \<Rightarrow> 'w cli \<Rightarrow> node_process list \<Rightarrow> ('w, unit) spec_prog" where
  "kill_selected E C processes =
     bindE (multiselect C ''Select the processes you wish to kill:''
       (map (\<lambda>(name, p, _). (name @ '' (PID '' @ p @ '')'', p)) processes)) (\<lambda>selected.
     if selected = [] then ret ()
     else
       bindE (confirm C (if length selected = 1 then ''Are you sure you want to kill the selected process?''
         else ''Are you sure you want to kill the '' @ digits (length selected) @ '' selected processes?'') (cl_initial E)) (\<lambda>yes.
       if \<not> yes then ret () else bindE (each (kill_process E) selected) (\<lambda>_. ret ())))"

definition clean_nodes :: "'w clean_env \<Rightarrow> 'w cli \<Rightarrow> bool \<Rightarrow> string list option \<Rightarrow> ('w, unit) spec_prog" where
  "clean_nodes E C kill_all pid =
     bindE (get_node_processes E) (\<lambda>processes.
     if processes = [] then ret ()
     else
       let kill = \<lambda>pids. bindE (each (kill_process E) pids) (\<lambda>_. ret ()) in
       if kill_all then kill (map (\<lambda>(_, p, _). p) processes)
       else case pid of
         Some pids \<Rightarrow> if invalid_pids processes pids \<noteq> [] then ret () else kill pids
       | None \<Rightarrow> kill_selected E C processes)"

section \<open>Networks\<close>

definition zombie_json_at :: "string \<Rightarrow> string" where
  "zombie_json_at dir = path_join dir ''zombie.json''"

definition resolve_zombie_json_path :: "string \<Rightarrow> ('w, string) spec_prog" where
  "resolve_zombie_json_path path =
     bindE (gets (is_file path)) (\<lambda>file.
     if file then
       if path_file_name path = Some ''zombie.json'' then ret path
       else fail (SpecAnyhow (''Expected a zombie.json file at '' @ path))
     else bindE (gets (is_dir path)) (\<lambda>dir.
       if dir then bindE (gets (path_exists (zombie_json_at path))) (\<lambda>found.
         if found then ret (zombie_json_at path) else fail (SpecAnyhow (''No zombie.json found in '' @ path)))
       else fail (SpecAnyhow (''Invalid path: '' @ path))))"

definition mark_cleared :: "'w clean_env \<Rightarrow> string \<Rightarrow> ('w, unit) spec_prog" where
  "mark_cleared E base_dir = write_file (cl_spec E) (path_join base_dir ''.CLEARED'') []"

definition should_fallback_to_process_cleanup :: "string \<Rightarrow> bool" where
  "should_fallback_to_process_cleanup message \<longleftrightarrow> contains message ''Cannot abort a recreated/attached node'' \<or>
     contains message ''not connected'' \<or> contains message ''Provider error''"

text \<open>A number with a fraction or an exponent is never one of 32 bits; others are printed in decimals.\<close>

definition push_pid :: "string \<Rightarrow> string list" where
  "push_pid pid = (if parses_u32 pid then [pid] else [])"

fun pid_of :: "json \<Rightarrow> string list" where
  "pid_of (JNumber n) = (if n < 0 then push_pid (CHR ''-'' # digits (nat (- n))) else push_pid (digits (nat n)))"
| "pid_of (JString s) = push_pid s"
| "pid_of _ = []"

fun collect_pids :: "json \<Rightarrow> string list" where
  "collect_pids (JObject m) = concat (map (\<lambda>(k, v).
     (if k = ''pid'' \<or> k = ''process'' then pid_of v else []) @ collect_pids v) m)"
| "collect_pids (JArray items) = concat (map collect_pids items)"
| "collect_pids _ = []"

definition read_pids_from_zombie_json :: "'w clean_env \<Rightarrow> string \<Rightarrow> ('w, string list) spec_prog" where
  "read_pids_from_zombie_json E path =
     bindE (read_file (cl_spec E) path) (\<lambda>text.
     bindE (map_err SpecJson (lift_sum (sp_parse (cl_spec E) text))) (\<lambda>j.
     ret (remdups_adj (sort_by (\<le>) (collect_pids j)))))"

text \<open>\<^verbatim>\<open>^zombie-\<close> and the groups of a UUID in hexadecimals, up to the end.\<close>

definition is_hex :: "char \<Rightarrow> bool" where
  "is_hex c \<longleftrightarrow> (let n = (of_char c :: nat) in 48 \<le> n \<and> n \<le> 57 \<or> 65 \<le> n \<and> n \<le> 70 \<or> 97 \<le> n \<and> n \<le> 102)"

definition is_zombie_dir_name :: "string \<Rightarrow> bool" where
  "is_zombie_dir_name name \<longleftrightarrow> starts_with name ''zombie-'' \<and>
     (let groups = pieces ''-'' (drop 7 name)
      in map length groups = [8, 4, 4, 4, 12] \<and> list_all (list_all is_hex) groups)"

type_synonym zombie_candidate = "string \<times> int option"

fun newer_first :: "zombie_candidate \<Rightarrow> zombie_candidate \<Rightarrow> bool" where
  "newer_first (_, Some a) (_, Some b) = (b \<le> a)"
| "newer_first (_, Some _) (_, None) = True"
| "newer_first (_, None) (_, Some _) = False"
| "newer_first (p, None) (q, None) = (q \<le> p)"

definition zombie_candidate_at :: "'w clean_env \<Rightarrow> string \<Rightarrow> string \<Rightarrow> 'w machine \<Rightarrow> zombie_candidate list" where
  "zombie_candidate_at E dir name s = (let path = path_join dir name in
     if is_dir path s \<and> is_zombie_dir_name name \<and> \<not> path_exists (path_join path ''.CLEARED'') s \<and>
        path_exists (zombie_json_at path) s
     then [(zombie_json_at path, cl_modified E (zombie_json_at path) (mc_world s))] else [])"

definition find_zombie_jsons :: "'w clean_env \<Rightarrow> ('w, zombie_candidate list) spec_prog" where
  "find_zombie_jsons E = (let dir = sp_temp_dir (cl_spec E) in
     bindE (read_dir_entries E dir) (\<lambda>names.
     bindE (each (\<lambda>name. bindE (metadata E (path_join dir name)) (\<lambda>ok.
       if ok then gets (zombie_candidate_at E dir name) else ret [])) names) (\<lambda>found.
     ret (sort_by newer_first (concat found)))))"

definition destroy_network :: "'w clean_env \<Rightarrow> string \<Rightarrow> ('w machine, string, unit) prog" where
  "destroy_network E zombie_json = (\<lambda>s. case cl_destroy E zombie_json (mc_files s) (mc_world s) of
     (r, files, w) \<Rightarrow> (r, s\<lparr>mc_files := files, mc_world := w\<rparr>))"

definition base_dir_of :: "string \<Rightarrow> ('w, string) spec_prog" where
  "base_dir_of zombie_json = (case path_parent zombie_json of
     Some dir \<Rightarrow> ret dir | None \<Rightarrow> fail (SpecAnyhow ''invalid zombie.json path''))"

text \<open>The loop of \<^verbatim>\<open>--json\<close>: the directories of the networks stopped, and the number of failures.\<close>

fun stop_networks_json ::
  "'w clean_env \<Rightarrow> bool \<Rightarrow> string list \<Rightarrow> string list \<Rightarrow> nat \<Rightarrow> ('w, string list \<times> nat) spec_prog" where
  "stop_networks_json E keep_state [] stopped failures = ret (stopped, failures)"
| "stop_networks_json E keep_state (z # zs) stopped failures =
     bindE (base_dir_of z) (\<lambda>base_dir.
     bindE (matchE (destroy_network E z)
       (\<lambda>message. if should_fallback_to_process_cleanup message then
            bindE (read_pids_from_zombie_json E z) (\<lambda>pids.
            bindE (each (kill_process E) pids) (\<lambda>_. ret True))
          else ret (is_already_stopped_error message))
       (\<lambda>_. ret True)) (\<lambda>down.
     if \<not> down then stop_networks_json E keep_state zs stopped (failures + 1)
     else
       bindE (if keep_state then matchE (mark_cleared E base_dir) (\<lambda>_. ret True) (\<lambda>_. ret True)
         else matchE (remove_dir_all E base_dir) (\<lambda>_. ret False) (\<lambda>_. ret True)) (\<lambda>done.
       if done then stop_networks_json E keep_state zs (stopped @ [base_dir]) failures
       else stop_networks_json E keep_state zs stopped (failures + 1))))"

definition execute_network_json ::
  "'w clean_env \<Rightarrow> bool \<Rightarrow> string option \<Rightarrow> bool \<Rightarrow> ('w, string list \<times> nat) spec_prog" where
  "execute_network_json E stop_all path keep_state =
     (if \<not> stop_all \<and> path = None then fail (PromptRequired ''--all or PATH is required with --json'')
      else if stop_all then
        bindE (find_zombie_jsons E) (\<lambda>candidates.
        if candidates = [] then ret ([], 0) else stop_networks_json E keep_state (map fst candidates) [] 0)
      else
        bindE (resolve_zombie_json_path (the path)) (\<lambda>z. stop_networks_json E keep_state [z] [] 0))"

text \<open>The loop with messages: the number of failures.\<close>

fun stop_networks :: "'w clean_env \<Rightarrow> bool \<Rightarrow> string list \<Rightarrow> nat \<Rightarrow> ('w, nat) spec_prog" where
  "stop_networks E keep_state [] failures = ret failures"
| "stop_networks E keep_state (z # zs) failures =
     bindE (base_dir_of z) (\<lambda>base_dir.
     bindE (matchE (destroy_network E z)
       (\<lambda>message. if should_fallback_to_process_cleanup message then
            bindE (read_pids_from_zombie_json E z) (\<lambda>pids.
            if pids = [] then ret True else bindE (each (kill_process E) pids) (\<lambda>_. ret True))
          else if is_already_stopped_error message then ret True
          else ret False)
       (\<lambda>_. ret True)) (\<lambda>down.
     if \<not> down then stop_networks E keep_state zs (failures + 1)
     else if keep_state then
       bindE (matchE (mark_cleared E base_dir) (\<lambda>_. ret ()) ret) (\<lambda>_. stop_networks E keep_state zs failures)
     else
       bindE (matchE (remove_dir_all E base_dir) (\<lambda>_. ret (failures + 1)) (\<lambda>_. ret failures)) (\<lambda>n.
       stop_networks E keep_state zs n)))"

datatype network_selection = AutoSingle | SelectedNetworks | Specified

definition network_label :: "string \<Rightarrow> string" where
  "network_label path = (case path_file_name (case path_parent path of Some d \<Rightarrow> d | None \<Rightarrow> path) of
     Some n \<Rightarrow> n | None \<Rightarrow> ''network'')"

definition stop_prompt :: "string list \<Rightarrow> network_selection \<Rightarrow> string" where
  "stop_prompt zs kind = (case zs of
     [z] \<Rightarrow> (let location = (case path_parent z of Some d \<Rightarrow> d | None \<Rightarrow> z) in case kind of
       AutoSingle \<Rightarrow> ''Stop the network at '' @ location @ ''?''
     | Specified \<Rightarrow> ''Stop the specified network at '' @ location @ ''?''
     | SelectedNetworks \<Rightarrow> ''Stop the selected network?'')
   | _ \<Rightarrow> ''Stop the '' @ digits (length zs) @ '' selected networks?'')"

text \<open>The networks to be stopped; none when there are none or none was selected.\<close>

definition networks_to_stop ::
  "'w clean_env \<Rightarrow> 'w cli \<Rightarrow> bool \<Rightarrow> string option \<Rightarrow> ('w, (string list \<times> network_selection) option) spec_prog" where
  "networks_to_stop E C stop_all path =
     (if stop_all then bindE (find_zombie_jsons E) (\<lambda>candidates.
        ret (if candidates = [] then None else Some (map fst candidates, SelectedNetworks)))
      else case path of
        Some p \<Rightarrow> bindE (resolve_zombie_json_path p) (\<lambda>z. ret (Some ([z], Specified)))
      | None \<Rightarrow> bindE (find_zombie_jsons E) (\<lambda>candidates. case candidates of
            [] \<Rightarrow> ret None
          | [c] \<Rightarrow> ret (Some ([fst c], AutoSingle))
          | _ \<Rightarrow> bindE (multiselect C ''Select the networks to stop (type to filter):''
                (map (\<lambda>c. (network_label (fst c), fst c)) candidates)) (\<lambda>selection.
              ret (if selection = [] then None else Some (selection, SelectedNetworks)))))"

definition clean_network ::
  "'w clean_env \<Rightarrow> 'w cli \<Rightarrow> bool \<Rightarrow> string option \<Rightarrow> bool \<Rightarrow> ('w, unit) spec_prog" where
  "clean_network E C stop_all path keep_state =
     bindE (networks_to_stop E C stop_all path) (\<lambda>chosen. case chosen of
       None \<Rightarrow> ret ()
     | Some (zs, kind) \<Rightarrow>
         bindE (if \<not> stop_all \<and> path = None \<and> cl_terminal E then confirm C (stop_prompt zs kind) True else ret True) (\<lambda>go.
         if \<not> go then ret () else bindE (stop_networks E keep_state zs 0) (\<lambda>_. ret ())))"

end
