(* ===== verification/Clean_Laws.thy ===== *)
theory Clean_Laws
  imports Clean Spec_Properties "HOL-Library.Sublist"
begin

text \<open>
  Lemmas on \<^verbatim>\<open>pop clean\<close>: a command with prompts and with \<^verbatim>\<open>--json\<close> as equations of programs, what
  going through the entries of a directory and sorting them gives, the files a run leaves alone, the
  processes it ends and the networks it stops, as interpretations of the locale of frames.
\<close>

section \<open>Running a command with prompts and with \<^verbatim>\<open>--json\<close>\<close>

text \<open>A program without its result.\<close>

definition discard :: "('s, 'e, 'a) prog \<Rightarrow> ('s, 'e, unit) prog" where
  "discard m = bindE m (\<lambda>_. ret ())"

lemma discard_simps:
  "discard (ret x) = ret ()" "discard (fail e) = fail e" "discard (bindE m f) = bindE m (\<lambda>x. discard (f x))"
  "discard (if b then m else n) = (if b then discard m else discard n)"
  by (auto simp: discard_def bindE_assoc) (simp add: fun_eq_iff bindE_def fail_def)

lemma bindE_matchE: "bindE (matchE m h f) g = matchE m (\<lambda>e. bindE (h e) g) (\<lambda>x. bindE (f x) g)"
  by (auto simp: fun_eq_iff bindE_def matchE_def split: prod.splits sum.splits)

lemma bindE_fail: "bindE (fail e) f = fail e"
  by (simp add: fun_eq_iff bindE_def fail_def)

lemma snd_run: "snd (ret x s) = s" "snd (fail e s) = s" "snd (bindE m (\<lambda>x. ret (h x)) s) = snd (m s)"
  by (simp_all add: ret_def fail_def bindE_def split: prod.split sum.split)

lemma snd_bindE_cong: "(\<And>x s. snd (f x s) = snd (g x s)) \<Longrightarrow> snd (bindE m f s) = snd (bindE m g s)"
  by (simp add: bindE_apply split: prod.split sum.split)

lemma bindE_arg_cong: "m = m' \<Longrightarrow> (\<And>x. f x = g x) \<Longrightarrow> bindE m f = bindE m' g"
  by presburger

lemma each_with_result:
  "each (\<lambda>x. bindE (f x) (\<lambda>_. ret (h x))) xs = bindE (each f xs) (\<lambda>_. ret (map h xs))"
  by (induction xs) (simp_all add: bindE_assoc)

lemma cache_modes: "discard (execute_cache_json E cache True) = clean_cache E C cache True"
proof -
  have j: "each (\<lambda>(name, file, size). bindE (remove_file E file) (\<lambda>_. ret (name, size))) items =
      bindE (each (\<lambda>(_, file, _). remove_file E file) items) (\<lambda>_. ret (map (\<lambda>(name, file, size). (name, size)) items))" for items
    using each_with_result [of "\<lambda>(_, file, _). remove_file E file" "\<lambda>(name, file, size). (name, size)" items]
    by (simp add: case_prod_unfold)
  show ?thesis
    unfolding execute_cache_json_def clean_cache_def j
    by (auto simp: discard_simps simp del: digits.simps intro!: bindE_arg_cong)
qed

lemma nodes_modes:
  assumes "kill_all \<or> pid \<noteq> None"
  shows "snd (execute_node_json E kill_all pid s) = snd (clean_nodes E C kill_all pid s)"
proof -
  let ?info = "\<lambda>processes p. case List.find (\<lambda>(_, q, _). q = p) processes of Some (name, _, ports) \<Rightarrow> [(name, p, ports)] | None \<Rightarrow> []"
  have j: "each (\<lambda>p. bindE (kill_process E p) (\<lambda>_. ret (?info ps p))) pids =
      bindE (each (kill_process E) pids) (\<lambda>_. ret (map (?info ps) pids))" for ps pids
    by (rule each_with_result)
  from assms consider "kill_all" | pids where "\<not> kill_all" "pid = Some pids" by blast
  then show ?thesis
  proof cases
    case 1
    then show ?thesis
      unfolding execute_node_json_def clean_nodes_def j Let_def bindE_assoc
      by (simp add: bindE_assoc) (rule snd_bindE_cong, simp add: snd_run)
  next
    case 2
    then show ?thesis
      unfolding execute_node_json_def clean_nodes_def j Let_def bindE_assoc
      by (simp add: bindE_assoc) (rule snd_bindE_cong, simp add: snd_run bindE_fail)
  qed
qed

lemma stop_networks_json_count:
  "bindE (stop_networks_json E keep zs st n) (\<lambda>(_, k). ret k) = stop_networks E keep zs n"
proof (induction zs arbitrary: st n)
  case (Cons z zs)
  have e: "(if pids = [] then ret True else bindE (each (kill_process E) pids) (\<lambda>_. ret True)) =
      bindE (each (kill_process E) pids) (\<lambda>_. ret True)" for pids
    by simp
  have b: "(if b then ret True else ret False) = ret b" for b by simp
  show ?case
    unfolding stop_networks.simps stop_networks_json.simps e b bindE_assoc
    by (intro bindE_arg_cong refl; cases keep) (use Cons.IH in \<open>simp_all add: bindE_assoc bindE_matchE\<close>)
qed simp

lemma network_modes:
  assumes "stop_all \<or> path \<noteq> None"
  shows "discard (execute_network_json E stop_all path keep) = clean_network E C stop_all path keep"
proof -
  have loop: "discard (stop_networks_json E keep zs [] 0) = bindE (stop_networks E keep zs 0) (\<lambda>_. ret ())" for zs
    unfolding stop_networks_json_count [of E keep zs "[]" 0, symmetric] discard_def
    by (simp add: bindE_assoc case_prod_unfold)
  have all: "discard (if cs = [] then ret ([], 0) else stop_networks_json E keep (map fst cs) [] 0) =
     bindE (ret (if cs = [] then None else Some (map fst cs, SelectedNetworks))) (\<lambda>chosen. case chosen of None \<Rightarrow> ret ()
       | Some (zs, kind) \<Rightarrow> bindE (ret True) (\<lambda>go. if \<not> go then ret () else bindE (stop_networks E keep zs 0) (\<lambda>_. ret ())))" for cs
    by (simp add: loop discard_simps)
  show ?thesis
  proof (cases stop_all)
    case True
    then have "discard (execute_network_json E stop_all path keep) = bindE (find_zombie_jsons E)
        (\<lambda>cs. discard (if cs = [] then ret ([], 0) else stop_networks_json E keep (map fst cs) [] 0))"
      by (simp only: execute_network_json_def not_True_eq_False simp_thms if_False if_True discard_simps(3))
    with True show ?thesis
      by (simp only: all clean_network_def networks_to_stop_def bindE_assoc if_True not_True_eq_False simp_thms if_False)
  next
    case False
    with assms obtain p where p: "path = Some p" by blast
    show ?thesis
      unfolding execute_network_json_def clean_network_def networks_to_stop_def p
      using False by (simp only: simp_thms if_False if_True option.simps discard_simps(3) bindE_assoc loop bindE_ret
          option.sel option.case prod.case not_False_eq_True)
  qed
qed

section \<open>What is removed\<close>

text \<open>The files of a machine without some paths and what is below them.\<close>

definition without :: "string list \<Rightarrow> tree \<Rightarrow> tree" where
  "without gs t = filter (\<lambda>(p, _). list_all (\<lambda>g. \<not> within g p) gs) t"

lemma without_append: "without (gs @ hs) t = without hs (without gs t)"
  by (auto simp: without_def intro!: filter_cong)

lemma without_Nil [simp]: "without [] t = t"
  by (simp add: without_def)

lemma files_remove_path: "mc_files (remove_path g s) = without [g] (mc_files s)"
  by (simp add: remove_path_def without_def)

definition keeps_files :: "'w machine \<Rightarrow> 'w machine \<Rightarrow> bool" where
  "keeps_files s s' \<longleftrightarrow> mc_files s' = mc_files s"

interpretation files: frame keeps_files
  by unfold_locales (simp_all add: keeps_files_def)

lemma keeps_files_world [frame_intros]:
  "keeps keeps_files (returns (ask_world m e))" "keeps keeps_files (returns (spec_io E op))"
  by (auto simp: keeps_def returns_def keeps_files_def ask_world_def spec_io_def io_def io_succeeds_def on_world_def prog_simps
      split: prod.splits sum.splits)

lemma keeps_files_cli [frame_intros]:
  "keeps keeps_files (returns (multiselect C p items))" "keeps keeps_files (returns (confirm C p i))"
  unfolding multiselect_def confirm_def by (intro frame_intros files.bindE files.pure)+

lemma keeps_files_metadata [frame_intros]: "keeps keeps_files (returns (metadata E path))"
  unfolding metadata_def succeeds_def
  by (intro files.matchE frame_intros files.pure) (auto intro!: files.pure split: spec_error.split)

lemma keeps_files_entries [frame_intros]: "keeps keeps_files (returns (read_dir_entries E path))"
  unfolding read_dir_entries_def by (intro frame_intros files.bindE files.pure)

lemma files_of_run: "keeps keeps_files (returns m) \<Longrightarrow> m s = (r, s') \<Longrightarrow> mc_files s' = mc_files s"
  using keeps_returnsD [of keeps_files m s r s'] by (simp add: keeps_files_def)

text \<open>What a directory is read as: a condition on the entries of which the metadata can be read.\<close>

definition reads_metadata :: "'w clean_env \<Rightarrow> bool" where
  "reads_metadata E \<longleftrightarrow> (\<forall>p w. fst (se_io (ce_sourcing (cl_spec E)) (Metadata p) w))"

lemma metadata_True: "reads_metadata E \<Longrightarrow> metadata E path s = (r, s') \<Longrightarrow> r = Inr True"
  by (auto simp: reads_metadata_def metadata_def succeeds_def spec_io_def io_def io_succeeds_def on_world_def prog_simps
      split: prod.splits if_splits) (metis fst_conv)

text \<open>
  Going through the entries of a directory: every result is that of an entry, on the same files,
  and with metadata that can be read no entry is left out.
\<close>

lemma each_entry:
  assumes run: "each (\<lambda>name. bindE (metadata E (f name)) (\<lambda>ok. if ok then gets (g name) else ret [])) names s = (Inr xs, s')"
    and g: "\<And>name s s'. mc_files s' = mc_files s \<Longrightarrow> set (map h (g name s')) = set (map h (g name s))"
  shows "mc_files s' = mc_files s \<and> h ` set (concat xs) \<subseteq> (\<Union>n \<in> set names. h ` set (g n s)) \<and>
     (reads_metadata E \<longrightarrow> h ` set (concat xs) = (\<Union>n \<in> set names. h ` set (g n s)))"
  using run
proof (induction names arbitrary: s xs)
  case (Cons n names)
  obtain ok s1 ys where m: "metadata E (f n) s = (Inr ok, s1)"
    and rest: "each (\<lambda>name. bindE (metadata E (f name)) (\<lambda>ok. if ok then gets (g name) else ret [])) names s1 = (Inr ys, s')"
    and xs: "xs = (if ok then g n s1 else []) # ys"
    using Cons.prems by (auto simp: bindE_Inr Inr_simps split: if_splits)
  have f1: "mc_files s1 = mc_files s" by (rule files_of_run [OF keeps_files_metadata m])
  then have gs: "h ` set (g x s1) = h ` set (g x s)" for x using g [of s1 s x] by simp
  have "h ` set (concat xs) = (if ok then h ` set (g n s) else {}) \<union> h ` set (concat ys)"
    by (simp add: xs gs image_Un)
  with Cons.IH [OF rest] f1 gs metadata_True [OF _ m] show ?case
    by (auto simp del: set_concat)
qed (simp add: ret_apply)

section \<open>Sorting\<close>

lemma set_insert_by [simp]: "set (insert_by le x ys) = insert x (set ys)"
  by (induction ys) auto

lemma set_sort_by [simp]: "set (sort_by le xs) = set xs"
  by (induction xs) (simp_all add: sort_by_def)

lemma sorted_insert_by:
  assumes "\<And>a b c. le a b \<Longrightarrow> le b c \<Longrightarrow> le a c" and "\<And>a b. le a b \<or> le b a"
  shows "sorted_wrt le ys \<Longrightarrow> sorted_wrt le (insert_by le x ys)"
  by (induction ys) (use assms in auto, blast+)

lemma sorted_sort_by:
  assumes "\<And>a b c. le a b \<Longrightarrow> le b c \<Longrightarrow> le a c" and "\<And>a b. le a b \<or> le b a"
  shows "sorted_wrt le (sort_by le xs)"
  by (induction xs) (simp_all add: sort_by_def sorted_insert_by [OF assms])

lemma newer_first_order: "newer_first a b \<Longrightarrow> newer_first b c \<Longrightarrow> newer_first a c" "newer_first a b \<or> newer_first b a"
  by (cases "(a, b)" rule: newer_first.cases; cases "(b, c)" rule: newer_first.cases; auto)
    (cases "(a, b)" rule: newer_first.cases; auto)

lemma strict_remdups_adj: "sorted xs \<Longrightarrow> sorted_wrt (<) (remdups_adj xs)"
  by (induction xs rule: remdups_adj.induct) (auto simp: less_le)

text \<open>The identifiers of processes that a \<^verbatim>\<open>zombie.json\<close> is read for, each once and in order.\<close>

lemma read_pids_Inr:
  assumes "read_pids_from_zombie_json E path s = (Inr pids, s')"
  shows "sorted_wrt (<) pids" and "\<exists>j. set pids = set (collect_pids j)"
proof -
  obtain j where p: "pids = remdups_adj (sort_by (\<le>) (collect_pids j))"
    using assms by (auto simp: read_pids_from_zombie_json_def bindE_Inr Inr_simps)
  have "sorted (sort_by (\<le>) (collect_pids j))"
    by (rule sorted_sort_by) auto
  then show "sorted_wrt (<) pids" unfolding p by (rule strict_remdups_adj)
  show "\<exists>j. set pids = set (collect_pids j)" unfolding p by auto
qed

section \<open>Cached artifacts\<close>

definition visible :: "string \<Rightarrow> 'w machine \<Rightarrow> string set" where
  "visible dir s = {name \<in> set (read_dir dir s). \<not> starts_with name ''.''}"

lemma contents_Inr:
  assumes "contents E dir s = (Inr items, s')"
  shows "mc_files s' = mc_files s"
    and "\<forall>(name, file, _) \<in> set items. name \<in> visible dir s \<and> file = path_join dir name"
    and "reads_metadata E \<Longrightarrow> fst ` set items = visible dir s"
    and "sorted_wrt (\<lambda>(a, _) (b, _). a \<le> b) items"
proof -
  obtain names xs s1 where names: "read_dir_entries E dir s = (Inr names, s1)"
    and xs: "each (\<lambda>name. bindE (metadata E (path_join dir name)) (\<lambda>ok.
       if ok then gets (\<lambda>s. [(name, path_join dir name, artifact_len E (path_join dir name) s)]) else ret [])) names s1 = (Inr xs, s')"
    and items: "items = sort_by (\<lambda>(a, _) (b, _). a \<le> b) (filter (\<lambda>(name, _). \<not> starts_with name ''.'') (concat xs))"
    using assms by (auto simp: contents_def bindE_Inr Inr_simps)
  have f1: "mc_files s1 = mc_files s" by (rule files_of_run [OF keeps_files_entries names])
  have n: "set names = set (read_dir dir s)"
    using names f1 by (auto simp: read_dir_entries_def bindE_Inr Inr_simps read_dir_def split: if_splits)
  let ?h = "\<lambda>(name, file, _ :: u64). (name, file)"
  have e: "mc_files s' = mc_files s1" "?h ` set (concat xs) \<subseteq> {(n, path_join dir n) |n. n \<in> set names}"
    "reads_metadata E \<longrightarrow> ?h ` set (concat xs) = {(n, path_join dir n) |n. n \<in> set names}"
    using each_entry [where h = ?h, OF xs] by (auto simp del: set_concat)
  show "mc_files s' = mc_files s" using e(1) f1 by simp
  show "\<forall>(name, file, _) \<in> set items. name \<in> visible dir s \<and> file = path_join dir name"
  proof (clarify, goal_cases)
    case (1 n p len)
    then have "(n, p, len) \<in> set (concat xs)" and h: "\<not> starts_with n ''.''" by (auto simp: items)
    then have "(n, p) \<in> ?h ` set (concat xs)" by force
    with e(2) h show ?case by (auto simp: visible_def n simp del: set_concat)
  qed
  show "fst ` set items = visible dir s" if "reads_metadata E"
  proof -
    have "fst ` ?h ` set (concat xs) = set names"
      unfolding e(3) [rule_format, OF that] by (auto simp: image_iff)
    then have "fst ` set (concat xs) = set names" by (simp add: image_image case_prod_unfold del: set_concat)
    moreover have "fst ` set items = {name \<in> fst ` set (concat xs). \<not> starts_with name ''.''}"
      unfolding items set_sort_by set_filter by (auto simp del: set_concat)
    ultimately show ?thesis by (simp add: visible_def n)
  qed
  show "sorted_wrt (\<lambda>(a, _) (b, _). a \<le> b) items"
    unfolding items by (rule sorted_sort_by) auto
qed

text \<open>A loop that stops at the first error has done what it does to some first elements.\<close>

lemma each_prefix:
  assumes step: "\<And>x s r s'. f x s = (r, s') \<Longrightarrow> R (if isl r then [] else [x]) s s'"
    and refl: "\<And>s. R [] s s" and comp: "\<And>x gs s t u. R [x] s t \<Longrightarrow> R gs t u \<Longrightarrow> R (x # gs) s u"
  shows "each f xs s = (r, s') \<Longrightarrow> \<exists>gs hs. xs = gs @ hs \<and> R gs s s' \<and> (\<not> isl r \<longrightarrow> hs = [])"
proof (induction xs arbitrary: s r)
  case (Cons x xs)
  obtain q s1 where x: "f x s = (q, s1)" by fastforce
  show ?case
  proof (cases q)
    case (Inl e)
    with Cons.prems x have "r = Inl e" "s' = s1" by (simp_all add: bindE_apply)
    with step [OF x] Inl show ?thesis by (intro exI [of _ "[]"] exI [of _ "x # xs"]) simp
  next
    case (Inr y)
    obtain r' where rest: "each f xs s1 = (r', s')" and r: "isl r = isl r'"
      using Cons.prems x Inr by (auto simp: bindE_apply ret_apply split: prod.splits sum.splits)
    from Cons.IH [OF rest] obtain gs hs where "xs = gs @ hs" "R gs s1 s'" "\<not> isl r' \<longrightarrow> hs = []" by blast
    with comp [OF step [OF x, unfolded Inr, simplified]] r show ?thesis
      by (intro exI [of _ "x # gs"] exI [of _ hs]) simp
  qed
qed (auto simp: ret_apply refl)

lemma remove_file_run:
  assumes "remove_file E f s = (r, s')"
  shows "mc_files s' = without (if isl r then [] else [f]) (mc_files s)"
  using assms files_of_run [OF keeps_files_world(2), where s = s]
  by (fastforce simp: remove_file_def prog_simps files_remove_path split: if_splits prod.splits sum.splits)

text \<open>Of the files to be removed, those up to one that cannot be are.\<close>

lemma each_remove_file:
  assumes "each (remove_file E) fs s = (r, s')"
  shows "\<exists>gs hs. fs = gs @ hs \<and> mc_files s' = without gs (mc_files s) \<and> (\<not> isl r \<longrightarrow> hs = [])"
proof (rule each_prefix [where R = "\<lambda>gs s s'. mc_files s' = without gs (mc_files s)", OF _ _ _ assms])
  fix x gs and s t u :: "'a machine"
  assume "mc_files t = without [x] (mc_files s)" and "mc_files u = without gs (mc_files t)"
  then show "mc_files u = without (x # gs) (mc_files s)"
    using without_append [of "[x]" gs "mc_files s"] by simp
qed (erule remove_file_run, simp)

lemma multiselect_Inr:
  assumes "multiselect C p items s = (Inr ys, s')"
  shows "mc_files s' = mc_files s" and "set ys \<subseteq> snd ` set items"
  using assms files_of_run [OF keeps_files_cli(1) assms]
  by (auto simp: multiselect_def bindE_Inr Inr_simps list_all_iff split: if_splits)

text \<open>Of the artifacts to choose from, nothing else is removed.\<close>

lemma remove_selected_run:
  assumes run: "remove_selected E C items s = (r, s')"
  shows "\<exists>gs. mc_files s' = without gs (mc_files s) \<and> set gs \<subseteq> snd ` set items"
proof -
  have none: ?thesis if "mc_files s' = mc_files s" using that by (intro exI [of _ "[]"]) simp
  obtain a s1 where m: "multiselect C ''Select the artifacts you wish to remove:'' items s = (a, s1)" by fastforce
  have f1: "mc_files s1 = mc_files s" by (rule files_of_run [OF keeps_files_cli(1) m])
  show ?thesis
  proof (cases a)
    case (Inl e)
    with run m have "s' = s1" by (simp add: remove_selected_def bindE_apply)
    with f1 show ?thesis by (intro none) simp
  next
    case (Inr selected)
    let ?c = "confirm C (if length selected = 1 then ''Are you sure you want to remove the selected artifact?''
         else ''Are you sure you want to remove the '' @ digits (length selected) @ '' selected artifacts?'') (cl_initial E)"
    obtain b s2 where c: "?c s1 = (b, s2)" by fastforce
    have f2: "mc_files s2 = mc_files s1" by (rule files_of_run [OF keeps_files_cli(2) c])
    have step: "(if selected = [] then ret () else bindE ?c (\<lambda>yes. if \<not> yes then ret ()
        else bindE (each (remove_file E) selected) (\<lambda>_. ret ()))) s1 = (r, s')"
      using run unfolding remove_selected_def bindE_apply [of "multiselect C p q" for p q] m Inr by simp
    show ?thesis
    proof (cases "selected = [] \<or> b \<noteq> Inr True")
      case True
      then consider "selected = []" | "selected \<noteq> []" "isl b" | "selected \<noteq> []" "b = Inr False" by (cases b) auto
      then have "s' = s1 \<or> s' = s2"
        using step c by cases (auto simp: bindE_apply [of "confirm C p i" for p i] ret_apply isl_def)
      with f1 f2 show ?thesis by (intro none) auto
    next
      case False
      with step c obtain r1 where "each (remove_file E) selected s2 = (r1, s')"
        by (auto simp: bindE_apply ret_apply split: prod.splits sum.splits)
      from each_remove_file [OF this] obtain gs hs where "selected = gs @ hs" "mc_files s' = without gs (mc_files s2)" by blast
      with multiselect_Inr(2) [OF m [unfolded Inr]] f1 f2 show ?thesis by auto
    qed
  qed
qed

section \<open>Nodes\<close>

text \<open>
  What is known of the programs that are run: \<open>procs\<close> are the identifiers of the processes there
  are. \<^verbatim>\<open>pgrep\<close>, \<^verbatim>\<open>lsof\<close> and the prompts leave them alone; \<^verbatim>\<open>kill -9\<close> ends the process named when
  it succeeds, changes nothing when it fails, and says that there is none only when there is none.
\<close>

definition ordinary_processes :: "'w clean_env \<Rightarrow> 'w cli \<Rightarrow> ('w \<Rightarrow> string set) \<Rightarrow> bool" where
  "ordinary_processes E C procs \<longleftrightarrow>
     (\<forall>program args files w. program = ''pgrep'' \<or> program = ''lsof'' \<longrightarrow>
        procs (snd (snd (sp_run (cl_spec E) program args None files w))) = procs w) \<and>
     (\<forall>pid files w. case sp_run (cl_spec E) ''kill'' [''-9'', pid] None files w of
        (Exited True _ _, _, w') \<Rightarrow> procs w' = procs w - {pid}
      | (Exited False stdout stderr, _, w') \<Rightarrow> procs w' = procs w \<and>
          (is_already_stopped_error (trim (if stderr = [] then sp_lossy (cl_spec E) stdout else stderr)) \<longrightarrow> pid \<notin> procs w)
      | (NotStarted, _, w') \<Rightarrow> procs w' = procs w) \<and>
     (\<forall>p items w. procs (snd (cli_multiselect C p items w)) = procs w) \<and>
     (\<forall>p i w. procs (snd (cli_confirm C p i w)) = procs w)"

definition keeps_procs :: "('w \<Rightarrow> string set) \<Rightarrow> 'w machine \<Rightarrow> 'w machine \<Rightarrow> bool" where
  "keeps_procs procs s s' \<longleftrightarrow> procs (mc_world s') = procs (mc_world s)"

interpretation processes: frame "keeps_procs procs" for procs
  by unfold_locales (simp_all add: keeps_procs_def)

lemma keeps_procs_command:
  assumes "ordinary_processes E C (procs :: 'w \<Rightarrow> string set)" and "program = ''pgrep'' \<or> program = ''lsof''"
  shows "keeps (keeps_procs procs) (returns (command_output E program args))"
proof (rule keeps_returns)
  fix s :: "'w machine"
  obtain out files w where run: "sp_run (cl_spec E) program args None (mc_files s) (mc_world s) = (out, files, w)"
    using prod_cases3 by blast
  have "procs (snd (snd (sp_run (cl_spec E) program args None (mc_files s) (mc_world s)))) = procs (mc_world s)"
    using assms unfolding ordinary_processes_def by blast
  with run show "keeps_procs procs s (snd (command_output E program args s))"
    by (auto simp: command_output_def run_unchecked_def run_command_def keeps_procs_def prog_simps split: outcome.split)
qed

lemma keeps_procs_listing:
  assumes "ordinary_processes E C procs"
  shows "keeps (keeps_procs procs) (returns (get_node_processes E))"
  unfolding get_node_processes_def get_fork_processes_def pgrep_def lsof_def
  by (intro frame_intros processes.bindE processes.each processes.pure keeps_procs_command [OF assms]) auto

lemma keeps_procs_cli:
  assumes "ordinary_processes E C procs"
  shows "keeps (keeps_procs procs) (returns (multiselect C p items))" "keeps (keeps_procs procs) (returns (confirm C p i))"
proof -
  have k: "keeps (keeps_procs procs) (returns (ask_world (cli_multiselect C p xs) e))"
    "keeps (keeps_procs procs) (returns (ask_world (cli_confirm C p i) e))" for xs e
    using assms by (auto intro!: keeps_returns simp: ordinary_processes_def ask_world_def keeps_procs_def prog_simps
      split: prod.split sum.split) (metis snd_conv)+
  show "keeps (keeps_procs procs) (returns (multiselect C p items))" "keeps (keeps_procs procs) (returns (confirm C p i))"
    unfolding multiselect_def confirm_def by (intro k frame_intros processes.bindE processes.pure)+
qed

lemma pass_or_fail: "(if b then ret () else fail e) t = (r, s') \<Longrightarrow> s' = t \<and> (isl r \<longleftrightarrow> \<not> b)"
  by (cases b) (auto simp: ret_apply fail_apply)

lemma kill_process_run:
  assumes ord: "ordinary_processes E C procs" and run: "kill_process E pid s = (r, s')"
  shows "procs (mc_world s') = procs (mc_world s) - set (if isl r then [] else [pid])"
proof -
  obtain out files w where k: "sp_run (cl_spec E) ''kill'' [''-9'', pid] None (mc_files s) (mc_world s) = (out, files, w)"
    using prod_cases3 by blast
  have law: "case sp_run (cl_spec E) ''kill'' [''-9'', pid] None (mc_files s) (mc_world s) of
        (Exited True _ _, _, w') \<Rightarrow> procs w' = procs (mc_world s) - {pid}
      | (Exited False stdout stderr, _, w') \<Rightarrow> procs w' = procs (mc_world s) \<and>
          (is_already_stopped_error (trim (if stderr = [] then sp_lossy (cl_spec E) stdout else stderr)) \<longrightarrow> pid \<notin> procs (mc_world s))
      | (NotStarted, _, w') \<Rightarrow> procs w' = procs (mc_world s)"
    by (rule ord [unfolded ordinary_processes_def, THEN conjunct2, THEN conjunct1, THEN spec, THEN spec, THEN spec])
  have out: "command_output E ''kill'' [''-9'', pid] s = (case out of
      Exited ok stdout stderr \<Rightarrow> (Inr (ok, sp_lossy (cl_spec E) stdout, stderr), s\<lparr>mc_files := files, mc_world := w\<rparr>)
    | NotStarted \<Rightarrow> (Inl (SpecIO os_error), s\<lparr>mc_files := files, mc_world := w\<rparr>))"
    unfolding command_output_def run_unchecked_def run_command_def bindE_apply prod.case k sum.case
    by (cases out; simp add: prog_simps)
  show ?thesis
  proof (cases out)
    case NotStarted
    have "procs w = procs (mc_world s)" using law unfolding k NotStarted by simp
    moreover have "r = Inl (SpecIO os_error)" "s' = s\<lparr>mc_files := files, mc_world := w\<rparr>"
      using run unfolding kill_process_def bindE_apply out NotStarted by simp_all
    ultimately show ?thesis by simp
  next
    case (Exited ok stdout stderr)
    show ?thesis
    proof (cases ok)
      case True
      have "procs w = procs (mc_world s) - {pid}" using law True unfolding k Exited by simp
      moreover have "r = Inr ()" "s' = s\<lparr>mc_files := files, mc_world := w\<rparr>"
        using run True unfolding kill_process_def bindE_apply out Exited by (simp_all add: ret_apply)
      ultimately show ?thesis by simp
    next
      case False
      let ?m = "if stderr = [] then sp_lossy (cl_spec E) stdout else stderr"
      have k': "(if is_already_stopped_error (trim ?m) then ret () else fail (SpecAnyhow (''failed to kill process '' @ pid @ '': '' @ ?m)))
          (s\<lparr>mc_files := files, mc_world := w\<rparr>) = (r, s')"
        using run False unfolding kill_process_def bindE_apply out Exited Let_def by simp
      note p = pass_or_fail [OF k']
      have l: "procs w = procs (mc_world s)" "is_already_stopped_error (trim ?m) \<Longrightarrow> pid \<notin> procs (mc_world s)"
        using law False unfolding k Exited by simp_all
      show ?thesis
      proof (cases "isl r")
        case True
        with p l(1) show ?thesis by simp
      next
        case False
        with p l(2) have "pid \<notin> procs (mc_world s)" by blast
        with False p l(1) show ?thesis by simp
      qed
    qed
  qed
qed

lemma each_kill_process:
  assumes "ordinary_processes E C procs" and "each (kill_process E) pids s = (r, s')"
  shows "\<exists>gs hs. pids = gs @ hs \<and> procs (mc_world s') = procs (mc_world s) - set gs \<and> (\<not> isl r \<longrightarrow> hs = [])"
proof (rule each_prefix [where R = "\<lambda>gs s s'. procs (mc_world s') = procs (mc_world s) - set gs", OF _ _ _ assms(2)])
  fix x s r s' assume "kill_process E x s = (r, s')"
  then show "procs (mc_world s') = procs (mc_world s) - set (if isl r then [] else [x])"
    by (rule kill_process_run [OF assms(1)])
qed auto

text \<open>The processes that \<^verbatim>\<open>pop clean node\<close> lists.\<close>

definition listed :: "'w clean_env \<Rightarrow> 'w machine \<Rightarrow> string set" where
  "listed E s = (case fst (get_node_processes E s) of Inr ps \<Rightarrow> (\<lambda>(_, p, _). p) ` set ps | Inl _ \<Rightarrow> {})"

lemma kill_selected_run:
  assumes ord: "ordinary_processes E C procs" and run: "kill_selected E C ps s = (r, s')"
  shows "\<exists>gs. procs (mc_world s') = procs (mc_world s) - set gs \<and> set gs \<subseteq> (\<lambda>(_, p, _). p) ` set ps"
proof -
  have none: ?thesis if "procs (mc_world s') = procs (mc_world s)" using that by (intro exI [of _ "[]"]) simp
  let ?items = "map (\<lambda>(name, p, _). (name @ '' (PID '' @ p @ '')'', p)) ps"
  obtain a s1 where m: "multiselect C ''Select the processes you wish to kill:'' ?items s = (a, s1)" by fastforce
  have f1: "procs (mc_world s1) = procs (mc_world s)"
    using keeps_returnsD [OF keeps_procs_cli(1) [OF ord] m] by (simp add: keeps_procs_def)
  show ?thesis
  proof (cases a)
    case (Inl e)
    with run m have "s' = s1" by (simp add: kill_selected_def bindE_apply)
    with f1 show ?thesis by (intro none) simp
  next
    case (Inr selected)
    let ?c = "confirm C (if length selected = 1 then ''Are you sure you want to kill the selected process?''
         else ''Are you sure you want to kill the '' @ digits (length selected) @ '' selected processes?'') (cl_initial E)"
    obtain b s2 where c: "?c s1 = (b, s2)" by fastforce
    have f2: "procs (mc_world s2) = procs (mc_world s1)"
      using keeps_returnsD [OF keeps_procs_cli(2) [OF ord] c] by (simp add: keeps_procs_def)
    have step: "(if selected = [] then ret () else bindE ?c (\<lambda>yes. if \<not> yes then ret ()
        else bindE (each (kill_process E) selected) (\<lambda>_. ret ()))) s1 = (r, s')"
      using run unfolding kill_selected_def bindE_apply [of "multiselect C p q" for p q] m Inr by simp
    show ?thesis
    proof (cases "selected = [] \<or> b \<noteq> Inr True")
      case True
      then consider "selected = []" | "selected \<noteq> []" "isl b" | "selected \<noteq> []" "b = Inr False" by (cases b) auto
      then have "s' = s1 \<or> s' = s2"
        using step c by cases (auto simp: bindE_apply [of "confirm C p i" for p i] ret_apply isl_def)
      with f1 f2 show ?thesis by (intro none) auto
    next
      case False
      with step c obtain r1 where "each (kill_process E) selected s2 = (r1, s')"
        by (auto simp: bindE_apply ret_apply split: prod.splits sum.splits)
      from each_kill_process [OF ord this] obtain gs hs where "selected = gs @ hs"
        "procs (mc_world s') = procs (mc_world s2) - set gs" by blast
      moreover have "set selected \<subseteq> (\<lambda>(_, p, _). p) ` set ps"
        using multiselect_Inr(2) [OF m [unfolded Inr]] by (force simp: image_image)
      ultimately show ?thesis using f1 f2 by auto
    qed
  qed
qed

section \<open>Networks\<close>

text \<open>A network that could be stopped is one of these: its directory, not cleared, with a \<^verbatim>\<open>zombie.json\<close>.\<close>

definition uncleared :: "string \<Rightarrow> 'w machine \<Rightarrow> string set" where
  "uncleared dir s = {zombie_json_at (path_join dir n) |n. n \<in> set (read_dir dir s) \<and> is_zombie_dir_name n \<and>
     is_dir (path_join dir n) s \<and> \<not> path_exists (path_join (path_join dir n) ''.CLEARED'') s \<and>
     path_exists (zombie_json_at (path_join dir n)) s}"

lemma find_zombie_jsons_Inr:
  assumes "find_zombie_jsons E s = (Inr cs, s')"
  shows "mc_files s' = mc_files s" and "fst ` set cs \<subseteq> uncleared (sp_temp_dir (cl_spec E)) s"
    and "reads_metadata E \<Longrightarrow> fst ` set cs = uncleared (sp_temp_dir (cl_spec E)) s"
    and "sorted_wrt newer_first cs"
proof -
  let ?dir = "sp_temp_dir (cl_spec E)"
  obtain names xs s1 where names: "read_dir_entries E ?dir s = (Inr names, s1)"
    and xs: "each (\<lambda>name. bindE (metadata E (path_join ?dir name)) (\<lambda>ok.
       if ok then gets (zombie_candidate_at E ?dir name) else ret [])) names s1 = (Inr xs, s')"
    and cs: "cs = sort_by newer_first (concat xs)"
    using assms by (auto simp: find_zombie_jsons_def Let_def bindE_Inr Inr_simps)
  have f1: "mc_files s1 = mc_files s" by (rule files_of_run [OF keeps_files_entries names])
  have n: "set names = set (read_dir ?dir s)"
    using names f1 by (auto simp: read_dir_entries_def bindE_Inr Inr_simps read_dir_def split: if_splits)
  have files: "is_dir p t = is_dir p u" "path_exists p t = path_exists p u" if "mc_files t = mc_files u" for p and t u :: "'a machine"
    using that by (simp_all add: is_dir_def path_exists_def is_file_def)
  have u: "uncleared ?dir s = (\<Union>n \<in> set names. fst ` set (zombie_candidate_at E ?dir n s1))"
    unfolding uncleared_def zombie_candidate_at_def Let_def files [OF f1] n by auto
  have g: "set (map fst (zombie_candidate_at E ?dir n t')) = set (map fst (zombie_candidate_at E ?dir n t))"
    if "mc_files t' = mc_files t" for n and t t' :: "'a machine"
    unfolding zombie_candidate_at_def Let_def files [OF that] if_distrib [of "\<lambda>xs. set (map fst xs)"] by simp
  have e: "mc_files s' = mc_files s1" "fst ` set (concat xs) \<subseteq> uncleared ?dir s"
    "reads_metadata E \<longrightarrow> fst ` set (concat xs) = uncleared ?dir s"
    using each_entry [where h = fst, OF xs g] unfolding u by blast+
  show "mc_files s' = mc_files s" using e(1) f1 by simp
  show "fst ` set cs \<subseteq> uncleared ?dir s" using e(2) by (simp add: cs)
  show "reads_metadata E \<Longrightarrow> fst ` set cs = uncleared ?dir s" using e(3) by (simp add: cs)
  show "sorted_wrt newer_first cs" unfolding cs by (rule sorted_sort_by) (use newer_first_order in blast)+
qed

text \<open>
  What is known of a shutdown: destroying a network changes nothing outside the directory of its
  \<^verbatim>\<open>zombie.json\<close> and makes no new files, and \<^verbatim>\<open>kill\<close> leaves the files alone.
\<close>

definition tidy_shutdown :: "'w clean_env \<Rightarrow> bool" where
  "tidy_shutdown E \<longleftrightarrow>
     (\<forall>z base files w. path_parent z = Some base \<longrightarrow> (let files' = fst (snd (cl_destroy E z files w)) in
        (\<forall>p. map_of files p = None \<longrightarrow> map_of files' p = None) \<and>
        (\<forall>p. \<not> within base p \<longrightarrow> map_of files' p = map_of files p))) \<and>
     (\<forall>args files w. fst (snd (sp_run (cl_spec E) ''kill'' args None files w)) = files)"

text \<open>Leaving some paths alone, and making no new files unless the state is kept.\<close>

definition spares :: "(string \<Rightarrow> bool) \<Rightarrow> bool \<Rightarrow> 'w machine \<Rightarrow> 'w machine \<Rightarrow> bool" where
  "spares P keep s s' \<longleftrightarrow> (\<forall>p. P p \<longrightarrow> map_of (mc_files s') p = map_of (mc_files s) p) \<and>
     (\<not> keep \<longrightarrow> (\<forall>p. map_of (mc_files s) p = None \<longrightarrow> map_of (mc_files s') p = None))"

interpretation spares: frame "spares P keep" for P keep
  by unfold_locales (auto simp: spares_def)

lemma spares_of_files: "keeps keeps_files m \<Longrightarrow> keeps (spares P keep) m"
  by (auto simp: keeps_def keeps_files_def spares_def)

lemma keeps_files_kill:
  assumes "tidy_shutdown E" shows "keeps keeps_files (returns (kill_process E pid))"
proof -
  have "keeps keeps_files (returns (run_command (cl_spec E) ''kill'' args None))" for args
    using assms by (auto intro!: keeps_returns simp: tidy_shutdown_def run_command_def keeps_files_def split: prod.split)
      (metis fst_conv snd_conv)
  then show ?thesis
    unfolding kill_process_def command_output_def run_unchecked_def Let_def
    by (intro frame_intros files.bindE files.pure) (auto intro!: files.pure split: outcome.split)
qed

lemma keeps_files_read_pids [frame_intros]: "keeps keeps_files (returns (read_pids_from_zombie_json E path))"
  unfolding read_pids_from_zombie_json_def read_file_def
  by (intro frame_intros files.bindE files.map_err files.pure)

definition avoids :: "(string \<Rightarrow> bool) \<Rightarrow> string \<Rightarrow> bool" where
  "avoids P base \<longleftrightarrow> (\<forall>p. P p \<longrightarrow> \<not> within base p \<and> p \<noteq> path_join base ''.CLEARED'')"

lemma map_of_without: "map_of (without gs t) p = (if list_all (\<lambda>g. \<not> within g p) gs then map_of t p else None)"
  unfolding without_def by (induction t) auto

lemma map_of_filter_key: "map_of (filter (\<lambda>(p, _). Q p) t) p = (if Q p then map_of t p else None)"
  by (induction t) auto

lemma spares_remove_dir_all:
  assumes "avoids P base" shows "keeps (spares P keep) (returns (remove_dir_all E base))"
proof (rule keeps_returns)
  fix s :: "'a machine"
  obtain q t where io: "spec_io (cl_spec E) (RemoveDirAll base) s = (q, t)" by fastforce
  have t: "mc_files t = mc_files s" by (rule files_of_run [OF keeps_files_world(2) io])
  show "spares P keep s (snd (remove_dir_all E base s))"
    using assms by (cases q) (auto simp: remove_dir_all_def prog_simps io spares_def avoids_def t map_of_filter_key
        files_remove_path map_of_without)
qed

lemma spares_mark_cleared:
  assumes "avoids P base" shows "keeps (spares P True) (returns (mark_cleared E base))"
proof (rule keeps_returns)
  fix s :: "'a machine"
  obtain q t where io: "spec_io (cl_spec E) (WriteFile (path_join base ''.CLEARED'')) s = (q, t)" by fastforce
  have t: "mc_files t = mc_files s" by (rule files_of_run [OF keeps_files_world(2) io])
  show "spares P True s (snd (mark_cleared E base s))"
    using assms by (cases q) (auto simp: mark_cleared_def write_file_def prog_simps io spares_def avoids_def t
        put_content_def put_file_def)
qed

lemma spares_destroy:
  assumes "tidy_shutdown E" and "path_parent z = Some base" and "avoids P base"
  shows "keeps (spares P keep) (returns (destroy_network E z))"
proof (rule keeps_returns)
  fix s :: "'a machine"
  have "let files' = fst (snd (cl_destroy E z (mc_files s) (mc_world s))) in
        (\<forall>p. map_of (mc_files s) p = None \<longrightarrow> map_of files' p = None) \<and>
        (\<forall>p. \<not> within base p \<longrightarrow> map_of files' p = map_of (mc_files s) p)"
    using assms(1,2) unfolding tidy_shutdown_def by blast
  with assms(3) show "spares P keep s (snd (destroy_network E z s))"
    by (auto simp: destroy_network_def spares_def avoids_def Let_def split: prod.split)
qed

text \<open>Taking down a network, and the loop over the networks.\<close>

lemma spares_stop:
  assumes "tidy_shutdown E" and "\<And>z base. z \<in> set zs \<Longrightarrow> path_parent z = Some base \<Longrightarrow> avoids P base"
  shows "keeps (spares P keep) (returns (stop_networks_json E keep zs st n))"
  using assms(2)
proof (induction zs arbitrary: st n)
  case (Cons z zs)
  have IH: "keeps (spares P keep) (returns (stop_networks_json E keep zs st n))" for st n
    by (rule Cons.IH) (use Cons.prems in auto)
  show ?case
  proof (cases "path_parent z")
    case (Some base)
    have a: "avoids P base" by (rule Cons.prems [OF _ Some]) simp
    have down: "keeps (spares P keep) (returns (matchE (destroy_network E z)
       (\<lambda>message. if should_fallback_to_process_cleanup message then
            bindE (read_pids_from_zombie_json E z) (\<lambda>pids. bindE (each (kill_process E) pids) (\<lambda>_. ret True))
          else ret (is_already_stopped_error message)) (\<lambda>_. ret True)))"
      by (intro spares.matchE spares.bindE spares.pure frame_intros spares_destroy [OF assms(1) Some a]
          spares_of_files [OF keeps_files_read_pids] spares.each spares_of_files [OF keeps_files_kill [OF assms(1)]])
    have clear: "keeps (spares P keep) (returns (if keep then matchE (mark_cleared E base) (\<lambda>_. ret True) (\<lambda>_. ret True)
         else matchE (remove_dir_all E base) (\<lambda>_. ret False) (\<lambda>_. ret True)))"
      by (cases keep) (auto intro!: spares.matchE spares.pure spares_remove_dir_all [OF a] spares_mark_cleared [OF a])
    show ?thesis
      unfolding stop_networks_json.simps base_dir_of_def Some option.case bindE_ret
      by (intro spares.bindE frame_intros down clear IH)
  qed (simp add: base_dir_of_def bindE_fail spares.pure)
qed (simp add: spares.pure)

lemma path_exists_map_of: "path_exists b s \<longleftrightarrow> (\<exists>p. within b p \<and> map_of (mc_files s) p \<noteq> None)"
  by (auto simp: path_exists_def list_ex_iff map_of_eq_None_iff image_iff) force

lemma gone_after_removal:
  assumes "remove_dir_all E b s = (Inr (), s')"
  shows "\<not> path_exists b s'"
proof -
  obtain t where io: "spec_io (cl_spec E) (RemoveDirAll b) s = (Inr (), t)" and s': "s' = remove_path b t"
    using assms by (auto simp: remove_dir_all_def bindE_Inr matchE_Inr gets_apply fail_apply modify_apply split: if_splits)
  show ?thesis
    by (simp add: path_exists_map_of s' files_remove_path map_of_without)
qed

lemma stays_gone: "spares P False s s' \<Longrightarrow> \<not> path_exists b s \<Longrightarrow> \<not> path_exists b s'"
  by (metis spares_def path_exists_map_of)

lemma stop_networks_count:
  assumes tidy: "tidy_shutdown E" and run: "stop_networks_json E keep zs st n s = (Inr (st', n'), s')"
  shows "\<exists>bs. st' = st @ bs \<and> subseq (map Some bs) (map path_parent zs) \<and> n' + length bs = n + length zs \<and>
     (\<not> keep \<longrightarrow> (\<forall>b \<in> set bs. \<not> path_exists b s'))"
  using run
proof (induction zs arbitrary: st n s)
  case (Cons z zs)
  obtain base s1 down s2 where base: "path_parent z = Some base"
    and rest: "(if \<not> down then stop_networks_json E keep zs st (n + 1)
     else
       bindE (if keep then matchE (mark_cleared E base) (\<lambda>_. ret True) (\<lambda>_. ret True)
         else matchE (remove_dir_all E base) (\<lambda>_. ret False) (\<lambda>_. ret True)) (\<lambda>done.
       if done then stop_networks_json E keep zs (st @ [base]) n
       else stop_networks_json E keep zs st (n + 1))) s2 = (Inr (st', n'), s')"
    using Cons.prems unfolding stop_networks_json.simps base_dir_of_def
    by (cases "path_parent z") (simp add: bindE_fail fail_apply, simp only: option.case bindE_ret bindE_Inr, blast)
  have failed: ?case if "stop_networks_json E keep zs st (n + 1) t = (Inr (st', n'), s')" for t
    using Cons.IH [OF that] by (auto intro: list_emb_Cons)
  have stopped: ?case if r: "stop_networks_json E keep zs (st @ [base]) n t = (Inr (st', n'), s')"
    and g: "\<not> keep \<Longrightarrow> \<not> path_exists base t" for t
  proof -
    have "\<not> path_exists base s'" if "\<not> keep"
    proof (rule stays_gone)
      have r': "stop_networks_json E False zs (st @ [base]) n t = (Inr (st', n'), s')" using r that by simp
      show "spares (\<lambda>_. False) False t s'"
        by (rule keeps_returnsD [OF spares_stop [OF tidy] r']) (simp add: avoids_def)
    qed (rule g [OF that])
    with Cons.IH [OF r] base show ?thesis by auto
  qed
  show ?case
  proof (cases down)
    case False
    with rest have "stop_networks_json E keep zs st (n + 1) s2 = (Inr (st', n'), s')" by simp
    then show ?thesis by (rule failed)
  next
    case True
    show ?thesis
    proof (cases keep)
      case True
      with rest \<open>down\<close> obtain t where "stop_networks_json E keep zs (st @ [base]) n t = (Inr (st', n'), s')"
        by (auto simp: bindE_Inr matchE_Inr ret_apply)
      then show ?thesis by (rule stopped) (use True in simp)
    next
      case False
      obtain q t where q: "remove_dir_all E base s2 = (q, t)" by fastforce
      show ?thesis
      proof (cases q)
        case (Inl e)
        with rest \<open>down\<close> False q have "stop_networks_json E keep zs st (n + 1) t = (Inr (st', n'), s')"
          by (simp add: bindE_apply matchE_apply ret_apply)
        then show ?thesis by (rule failed)
      next
        case (Inr u)
        with rest \<open>down\<close> False q have "stop_networks_json E keep zs (st @ [base]) n t = (Inr (st', n'), s')"
          by (simp add: bindE_apply matchE_apply ret_apply)
        then show ?thesis by (rule stopped) (use gone_after_removal q Inr in auto)
      qed
    qed
  qed
qed (auto simp: ret_apply)

text \<open>The networks that a command with \<^verbatim>\<open>--json\<close> is to stop.\<close>

definition requested :: "'w clean_env \<Rightarrow> bool \<Rightarrow> string option \<Rightarrow> 'w machine \<Rightarrow> string list" where
  "requested E stop_all path s =
     (if stop_all then (case fst (find_zombie_jsons E s) of Inr cs \<Rightarrow> map fst cs | Inl _ \<Rightarrow> [])
      else case path of Some p \<Rightarrow> (case fst (resolve_zombie_json_path p s) of Inr z \<Rightarrow> [z] | Inl _ \<Rightarrow> []) | None \<Rightarrow> [])"

lemma execute_network_json_Inr:
  assumes "execute_network_json E stop_all path keep s = (Inr (stopped, failures), s')"
  shows "\<exists>t. mc_files t = mc_files s \<and>
     stop_networks_json E keep (requested E stop_all path s) [] 0 t = (Inr (stopped, failures), s')"
proof (cases stop_all)
  case True
  with assms obtain cs t where f: "find_zombie_jsons E s = (Inr cs, t)"
    and r: "(if cs = [] then ret ([], 0) else stop_networks_json E keep (map fst cs) [] 0) t = (Inr (stopped, failures), s')"
    by (auto simp: execute_network_json_def bindE_Inr)
  have "stop_networks_json E keep (map fst cs) [] 0 t = (Inr (stopped, failures), s')" using r by (cases cs) simp_all
  with f True find_zombie_jsons_Inr(1) [OF f] show ?thesis by (auto simp: requested_def)
next
  case False
  with assms obtain p where p: "path = Some p" by (cases path) (auto simp: execute_network_json_def fail_apply)
  have "bindE (resolve_zombie_json_path p) (\<lambda>z. stop_networks_json E keep [z] [] 0) s = (Inr (stopped, failures), s')"
    using assms False unfolding execute_network_json_def p by (simp del: stop_networks_json.simps)
  then obtain z t where f: "resolve_zombie_json_path p s = (Inr z, t)"
    and r: "stop_networks_json E keep [z] [] 0 t = (Inr (stopped, failures), s')"
    unfolding bindE_Inr by blast
  have "t = s" using f by (auto simp: resolve_zombie_json_path_def bindE_Inr Inr_simps split: if_splits)
  with f r False p show ?thesis by (auto simp: requested_def simp del: stop_networks_json.simps)
qed

text \<open>
  The networks that \<^verbatim>\<open>pop clean network\<close> finds are the directories of the temporary directory
  named after zombienet and a UUID that hold a \<^verbatim>\<open>zombie.json\<close> and are not marked as cleared, those
  modified last first; finding them changes no file. (The metadata of every entry can be read.)
\<close>

theorem networks_found:
  assumes "reads_metadata E" and "find_zombie_jsons E s = (Inr cs, s')"
  shows "fst ` set cs = uncleared (sp_temp_dir (cl_spec E)) s \<and> sorted_wrt newer_first cs \<and> mc_files s' = mc_files s"
  using find_zombie_jsons_Inr [OF assms(2)] assms(1) by simp

end
