(* ===== verification/Clean_Properties.thy ===== *)
theory Clean_Properties
  imports Clean_Laws
begin

text \<open>
  What \<^verbatim>\<open>pop clean\<close> does to the machine: the cached artifacts it removes, the processes it ends and the
  networks it stops, and that its two modes agree; with a machine on which the properties are tried.
\<close>

text \<open>
  C39: what \<^verbatim>\<open>pop clean cache\<close> takes away is visible entries of the cache and nothing else, whatever is
  answered to its prompts and whatever fails on the way; with \<^verbatim>\<open>--all\<close>, a run without an error takes
  all of them (when their metadata can be read).
\<close>

theorem cache_cleaned:
  assumes run: "clean_cache E C cache remove_all s = (r, s')"
  shows "\<exists>gs. mc_files s' = without gs (mc_files s) \<and> set gs \<subseteq> path_join cache ` visible cache s \<and>
     (remove_all \<and> r = Inr () \<and> path_exists cache s \<and> reads_metadata E \<longrightarrow> set gs = path_join cache ` visible cache s)"
proof -
  have none: ?thesis if "mc_files s' = mc_files s" and "remove_all \<and> r = Inr () \<and> path_exists cache s \<and> reads_metadata E \<Longrightarrow> visible cache s = {}"
    using that by (intro exI [of _ "[]"]) auto
  show ?thesis
  proof (cases "path_exists cache s")
    case False
    with run show ?thesis by (intro none) (auto simp: clean_cache_def prog_simps)
  next
    case True
    have kept: "keeps keeps_files (returns (contents E cache))"
      unfolding contents_def by (intro frame_intros files.bindE files.each files.pure) 
    obtain q s1 where c: "contents E cache s = (q, s1)" by fastforce
    have f1: "mc_files s1 = mc_files s" by (rule files_of_run [OF kept c])
    show ?thesis
    proof (cases q)
      case (Inl e)
      with run True c f1 show ?thesis by (intro none) (auto simp: clean_cache_def prog_simps)
    next
      case (Inr items)
      note items = contents_Inr [OF c [unfolded Inr]]
      let ?fs = "map (\<lambda>(_, file, _). file) items"
      have fs: "set ?fs \<subseteq> path_join cache ` visible cache s" using items(2) by auto
      have all: "set ?fs = path_join cache ` visible cache s" if "reads_metadata E"
      proof -
        have "set ?fs = path_join cache ` fst ` set items" using items(2) by (force simp: image_image)
        with items(3) [OF that] show ?thesis by simp
      qed
      consider "items = []" | "items \<noteq> []" "remove_all" | "items \<noteq> []" "\<not> remove_all" by blast
      then show ?thesis
      proof cases
        case 1
        with run True c Inr f1 items(3) show ?thesis by (intro none) (auto simp: clean_cache_def prog_simps)
      next
        case 2
        have m: "each (\<lambda>(_, file, _). remove_file E file) items = each (remove_file E) ?fs"
          by (induction items) auto
        obtain r1 where e: "each (remove_file E) ?fs s1 = (r1, s')" and r: "r = Inr () \<longrightarrow> \<not> isl r1"
          using run True c Inr 2 by (auto simp: clean_cache_def prog_simps m split: prod.splits sum.splits)
        from each_remove_file [OF e] obtain gs hs where "?fs = gs @ hs" "mc_files s' = without gs (mc_files s1)"
          "\<not> isl r1 \<longrightarrow> hs = []" by blast
        with fs all f1 r show ?thesis by (intro exI [of _ gs]) auto
      next
        case 3
        let ?items = "map (\<lambda>(name, path, _). (name, path)) items"
        have "remove_selected E C ?items s1 = (r, s')"
          using run True c Inr 3 by (simp add: clean_cache_def bindE_apply gets_apply)
        then have "\<exists>gs. mc_files s' = without gs (mc_files s1) \<and> set gs \<subseteq> snd ` set ?items"
          by (rule remove_selected_run)
        moreover have "snd ` set ?items = set ?fs" by (force simp: image_image)
        ultimately obtain gs where "mc_files s' = without gs (mc_files s)" "set gs \<subseteq> set ?fs" by (auto simp: f1)
        with fs 3 show ?thesis by (intro exI [of _ gs]) auto
      qed
    qed
  qed
qed



text \<open>
  C40: with nothing to be asked, a command of \<^verbatim>\<open>pop clean\<close> with messages does to the machine what it
  does with \<^verbatim>\<open>--json\<close>, and for the cache and the networks it fails when that does and with the same error.
\<close>

theorem clean_modes_agree:
  "discard (execute_cache_json E cache True) = clean_cache E C cache True \<and>
   (stop_all \<or> path \<noteq> None \<longrightarrow> discard (execute_network_json E stop_all path keep) = clean_network E C stop_all path keep) \<and>
   (kill_all \<or> pid \<noteq> None \<longrightarrow> snd (execute_node_json E kill_all pid s) = snd (clean_nodes E C kill_all pid s))"
  by (intro conjI impI cache_modes network_modes nodes_modes)

section \<open>A machine on which the properties are tried\<close>

text \<open>
  Two nodes run, as \<^verbatim>\<open>pgrep\<close> and \<^verbatim>\<open>lsof\<close> tell; the world is the list of the processes. There are an
  artifact and a hidden file in the cache, a network and one that was cleared.
\<close>

definition zombie_dir :: string where
  "zombie_dir = ''/tmp/zombie-01234567-89ab-cdef-0123-456789abcdef''"

definition cleared_dir :: string where
  "cleared_dir = ''/tmp/zombie-11234567-89ab-cdef-0123-456789abcdef''"

definition lsof_answer :: string where
  "lsof_answer = ''COMMAND'' @ CHR 0x0A # ''ink-node 12 me 9u IPv4 0x1 0t0 TCP 127.0.0.1:9944 (LISTEN)''"

definition sample_run :: "string \<Rightarrow> string list \<Rightarrow> string option \<Rightarrow> tree \<Rightarrow> string list \<Rightarrow> outcome \<times> tree \<times> string list" where
  "sample_run program args dir files w =
     (if program = ''kill'' then
        (if list_ex (\<lambda>p. args = [''-9'', p]) w then (Exited True [] [], files, filter (\<lambda>p. args \<noteq> [''-9'', p]) w)
         else (Exited False [] ''No such process'', files, w))
      else if args = [''ink-node''] then (Exited True [1] [], files, w)
      else if program = ''lsof'' then (Exited True [2] [], files, w)
      else (Exited False [] [], files, w))"

definition clean_sourcing :: "string list sourcing_env" where
  "clean_sourcing = \<lparr>se_send = \<lambda>url w. (Inr (), w), se_body = \<lambda>url w. (Inr [], w), se_github = \<lambda>url w. (NotFound, w),
     se_releases = \<lambda>url w. (Inr [], w), se_tempdir = \<lambda>w. (Inr ''/tmp/t'', w), se_io = \<lambda>op w. (True, w), se_unpack = \<lambda>b. Inr [],
     se_clone = \<lambda>url r w. (Inr [], w), se_cargo = \<lambda>args t w. (Inr (), t, w), se_key_order = \<lambda>ks. ks\<rparr>"

definition clean_spec_env :: "string list spec_env" where
  "clean_spec_env = \<lparr>ce_sourcing = clean_sourcing, ce_url_parse = \<lambda>s. None, ce_url_bare = \<lambda>u. u, ce_os = ''linux'',
     ce_arch = ''x86_64'', ce_ss58 = \<lambda>b. [], sp_parse = \<lambda>b. Inl ''not JSON'', sp_pretty = \<lambda>j. [], sp_to_hex = \<lambda>b skip. [],
     sp_lossy = \<lambda>b. if b = [1] then ''12'' @ CHR 0x0A # ''34'' else if b = [2] then lsof_answer else [],
     sp_manifest = \<lambda>b. None, sp_find_workspace = \<lambda>files path. None, sp_canonical = \<lambda>files path. Some path,
     sp_manifest_at = \<lambda>files path. False, sp_glob = \<lambda>files pattern. Some [], sp_run = sample_run, sp_raw = \<lambda>b. Inr [],
     sp_plain = \<lambda>wasm preset name ident. Inr [], sp_wasm = \<lambda>b. Inr [], sp_presets = \<lambda>b. Inr [],
     sp_tempfile = \<lambda>w. (Inr ''/tmp/spec'', w), sp_image_tag = \<lambda>url w. (Inr [], w), sp_image_digest = \<lambda>image tag w. (Inr [], w),
     sp_temp_dir = ''/tmp'', sp_current_dir = None, sp_cache = Inr ''/cache''\<rparr>"

definition sample_clean :: "string list clean_env" where
  "sample_clean = \<lparr>cl_spec = clean_spec_env, cl_destroy = \<lambda>z files w. (Inl ''no process was attached'', files, w),
     cl_modified = \<lambda>path w. Some 1, cl_dir_len = \<lambda>path. 0, cl_left = \<lambda>path w p. True, cl_terminal = True, cl_initial = True\<rparr>"

definition declining :: "string list cli" where
  "declining = \<lparr>cli_confirm = \<lambda>prompt initial w. (Inr False, w), cli_input = \<lambda>prompt default w. (Inl ''interrupted'', w),
     cli_select = \<lambda>prompt items w. (Inl ''interrupted'', w), cli_multiselect = \<lambda>prompt items w. (Inr [], w)\<rparr>"

definition sample_machine :: "string list machine" where
  "sample_machine = \<lparr>mc_files = map (\<lambda>p. (p, \<lparr>file_content = [1], file_executable = False\<rparr>))
     [''/cache/polkadot'', ''/cache/.keep'', zombie_dir @ ''/zombie.json'', cleared_dir @ ''/zombie.json'', cleared_dir @ ''/.CLEARED''],
     mc_world = [''12'', ''34'', ''56'']\<rparr>"

lemma sample_clean_reads: "reads_metadata sample_clean"
  by (simp add: reads_metadata_def sample_clean_def clean_spec_env_def clean_sourcing_def)

lemma sample_clean_tidy: "tidy_shutdown sample_clean"
  by (simp add: tidy_shutdown_def sample_clean_def clean_spec_env_def sample_run_def Let_def)

lemma sample_clean_processes: "ordinary_processes sample_clean declining set"
  by (auto simp: ordinary_processes_def sample_clean_def clean_spec_env_def declining_def sample_run_def list_ex_iff)

theorem cache_cleaned_witness:
  "\<exists>s'. clean_cache sample_clean declining ''/cache'' True sample_machine = (Inr (), s') \<and>
     mc_files s' = without [''/cache/polkadot''] (mc_files sample_machine)"
proof -
  let ?r = "clean_cache sample_clean declining ''/cache'' True sample_machine"
  have "fst ?r = Inr ()" by code_simp
  then have r: "?r = (Inr (), snd ?r)" by (rule run_of_fst)
  have v: "visible ''/cache'' sample_machine = {''polkadot''}" by code_simp
  have "path_exists ''/cache'' sample_machine" by code_simp
  with cache_cleaned [OF r] sample_clean_reads obtain gs where
    gs: "mc_files (snd ?r) = without gs (mc_files sample_machine)" "set gs = path_join ''/cache'' ` {''polkadot''}"
    unfolding v by blast
  have "path_join ''/cache'' ''polkadot'' = ''/cache/polkadot''" by code_simp
  with gs(2) have "set gs = set [''/cache/polkadot'']" by simp
  then have "without gs t = without [''/cache/polkadot''] t" for t
    by (simp only: without_def list_all_iff)
  with r gs(1) show ?thesis by metis
qed



theorem clean_modes_agree_witness:
  "snd (execute_node_json sample_clean True None sample_machine) = snd (clean_nodes sample_clean declining True None sample_machine) \<and>
   discard (execute_network_json sample_clean True None False) = clean_network sample_clean declining True None False"
  using clean_modes_agree [of sample_clean "''/cache''" declining True None False True None sample_machine] by simp

end
