(* ===== verification/Spec2Isabelle.thy ===== *)
theory Spec2Isabelle
  imports Storage_Properties Layer_Properties Tx_Pool Builder_Properties Blockchain_Properties Dev_Properties
    Chain_Head_Properties Rpc_Properties Launch_Properties Spec_Runs Clean_Properties
begin

text \<open>
  A verification development for pop-cli, a command line tool for Polkadot chains and contracts.
  Its own core logic is in five parts. The fork of a live chain, \<^verbatim>\<open>crates/pop-fork\<close>: a node is forked at
  a block, reads fall through to it, blocks are built locally by running its runtime. Finding and
  fetching the binaries that the tool runs, \<^verbatim>\<open>crates/pop-common\<close>: a version is chosen among releases and
  cached files, and the binary built, downloaded or taken out of an archive. Local networks,
  \<^verbatim>\<open>crates/pop-chains/src/up\<close>: a configuration is turned into the binaries it needs and a network that
  runs them. Chain specifications, \<^verbatim>\<open>crates/pop-chains/src/build\<close> and \<^verbatim>\<open>pop build spec\<close>: a specification
  is generated from a runtime or a node, customized, and exported. Cleaning up, \<^verbatim>\<open>pop clean\<close>: cached
  artifacts are removed, nodes ended and networks stopped.

  \<^bold>\<open>How the parts interact.\<close> The RPC client sends requests to the node. The storage cache is a
  database with the rows fetched from it and the rows the fork has committed. The remote layer
  reads through the cache, prefetching by pages. The local layer adds the modifications of the block
  being built and the committed values of earlier blocks. The executor runs a function of the
  runtime, answering its reads from the local layer. The builder makes a block out of such
  calls; the blockchain owns the head, builds blocks, answers queries and calls.
  A network resolves a binary for its relay chain and for every parachain, from the registry of
  chains or from what the configuration names; a binary resolves its version and is sourced when
  it does not exist; adapting the configuration puts the paths of the binaries in its nodes.
  \<^verbatim>\<open>pop build spec\<close> configures a build from options and prompts, chooses a builder, builds the project,
  generates the specification and customizes it; the omni node it may need is resolved and sourced.
  \<^verbatim>\<open>pop clean\<close> removes what sourcing has put into the cache and stops what a network or a fork has left
  running; it finds a network by the directory that launching it made.

  \<^bold>\<open>Theories, in the order of the code.\<close> \<open>Prelude\<close>: machine integers, programs with state and errors
  (\<open>prog\<close>; \<open>loop_prog\<close> where not returning is possible), the conditions \<open>wp\<close> on their runs.
  \<open>Storage_Cache\<close> (\<^verbatim>\<open>cache.rs\<close>, \<^verbatim>\<open>models.rs\<close>), \<open>Rpc_Client\<close> (\<^verbatim>\<open>rpc.rs\<close>), \<open>Remote_Layer\<close> (\<^verbatim>\<open>remote.rs\<close>),
  \<open>Local_Layer\<close> (\<^verbatim>\<open>local.rs\<close>), \<open>Runtime_Executor\<close> (\<^verbatim>\<open>executor.rs\<close>), \<open>Substrate\<close> (the codecs and hashes of
  the Substrate crates as one record of parameters), \<open>Fork_Block\<close> (\<^verbatim>\<open>block.rs\<close>), \<open>Tx_Pool\<close>
  (\<^verbatim>\<open>txpool.rs\<close>), \<open>Slot_Inherent\<close> and \<open>Parachain_Inherent\<close> (\<^verbatim>\<open>inherent/\<close>), \<open>Block_Builder\<close>
  (\<^verbatim>\<open>builder.rs\<close>), \<open>Dev_Accounts\<close> (\<^verbatim>\<open>dev.rs\<close>), \<open>Fork_Blockchain\<close> (\<^verbatim>\<open>blockchain.rs\<close>). The server, \<^verbatim>\<open>rpc_server/\<close>: \<open>Rpc_Types\<close> (errors,
  parsers, values sent), \<open>Rpc_Methods\<close> (methods that read), \<open>Rpc_Author\<close> (methods that submit and
  build), \<open>Chain_Head\<close> (\<^verbatim>\<open>chain_head.rs\<close>: its handlers, and the steps they are made of as the
  relation \<open>ch_step\<close>). Binaries: \<open>Versions\<close> (\<^verbatim>\<open>polkadot_sdk.rs\<close>), \<open>Sourcing\<close> (\<^verbatim>\<open>sourcing/\<close>, the releases of
  \<^verbatim>\<open>git.rs\<close>; the files a machine holds are the record \<open>machine\<close>). Networks: \<open>Chain_Registry\<close>
  (\<^verbatim>\<open>registry/\<close>, \<^verbatim>\<open>up/chain_specs.rs\<close>, \<^verbatim>\<open>up/relay.rs\<close>, \<^verbatim>\<open>up/chains.rs\<close>, \<^verbatim>\<open>omni_node.rs\<close>), \<open>Zombienet\<close>
  (\<^verbatim>\<open>up/mod.rs\<close>). Specifications: \<open>Chain_Spec\<close> (\<open>ChainSpec\<close> of \<^verbatim>\<open>build/mod.rs\<close>, \<^verbatim>\<open>account_id.rs\<close>),
  \<open>Spec_Builder\<close> (the rest of \<^verbatim>\<open>build/mod.rs\<close>, \<^verbatim>\<open>build/runtime.rs\<close>, \<^verbatim>\<open>manifest.rs\<close>, \<^verbatim>\<open>build.rs\<close>), \<open>Build_Spec\<close>
  (\<^verbatim>\<open>commands/build/spec.rs\<close>, \<^verbatim>\<open>common/builds.rs\<close>, \<^verbatim>\<open>common/binary.rs\<close>). \<open>Clean\<close> (\<^verbatim>\<open>commands/clean.rs\<close>). A Rust struct is a
  record or datatype of the same shape, a method a definition of the same name (prefixed where
  two files use one name: \<open>remote_get\<close>, \<open>layer_get\<close>, \<open>bc_block_body\<close>). State that is shared behind
  locks is one record, \<open>fork\<close>; a poisoned lock is a flag in it.

  \<^bold>\<open>Laws.\<close> \<open>Cache_Laws\<close>: the tables as maps, the retry loop. \<open>Remote_Laws\<close>: \<open>remote_inv\<close>, under an
  \<open>honest\<close> node every cached row is the chain's; \<open>Availability\<close>: a dropped connection is ridden out.
  \<open>Local_Laws\<close>, \<open>Local_History\<close>: \<open>layer_value\<close>, the abstract history (block number to key to value)
  that the layer stands for, with \<open>fork_inv\<close> and \<open>history_inv\<close>. \<open>Keeps\<close>, \<open>Frames\<close>: programs
  that keep a relation, as a locale interpreted on the frames of a fork, a builder and a chain, and
  in \<open>Spec_Laws\<close> on the contents of a file, in \<open>Clean_Laws\<close> on the files and processes of a machine. \<open>Builder_Laws\<close>,
  \<open>Blockchain_Laws\<close>, \<open>Build_Laws\<close>: what a build does to the history. \<open>Chain_Head_Laws\<close>: the count of a follow subscription is the number of its
  operations, the identifiers are each in one place. \<open>Rpc_Laws\<close>: what the reading methods answer in
  terms of the history, what a submission does to pool and chain. \<open>Sourcing_Laws\<close>: fetching keeps the
  paths there are and makes the one of the binary. \<open>Resolve_Laws\<close>: the versions among which one is
  chosen. \<open>Spec_Laws\<close>: what is read from a specification after something was replaced in it.
  \<open>Clean_Laws\<close>: the two modes of a command as equations of programs, and what cleaning leaves alone.

  \<^bold>\<open>Properties.\<close> \<open>Storage_Properties\<close>, \<open>Layer_Properties\<close>, \<open>Builder_Properties\<close>, \<open>Blockchain_Properties\<close>,
  \<open>Fork_Setup\<close>, \<open>Dev_Properties\<close>, \<open>Chain_Head_Properties\<close>, \<open>Rpc_Properties\<close>, \<open>Sourcing_Properties\<close>,
  \<open>Zombienet_Properties\<close>, \<open>Launch_Properties\<close>, \<open>Spec_Properties\<close> (tried in \<open>Spec_Runs\<close>), \<open>Clean_Properties\<close>, each with the concrete
  runs they are applied to (\<open>Sample_Node\<close>, \<open>Sample_Runtime\<close>, \<open>Sample_Rpc\<close>).

  \<^bold>\<open>Bounds.\<close> Loops that the code bounds are structural or have a measure (31 attempts of a write);
  the request loop of the executor and the scans that follow a node's answers are partial functions
  whose \<open>None\<close> is not returning. The interleaving of chainHead requests is bounded by the number
  \<open>k\<close> of requests between the check of a limit and its count, \<open>1\<close> when requests run one by one. Block numbers are 32-bit words, slots and clocks 64-bit.

  \<^bold>\<open>Not modelled.\<close> Code that is not in the repository is a parameter: the node, the WebAssembly
  machine, SCALE codecs, hashes, tries; the network, git, cargo, Docker, archives, TOML, the parser of URLs, the
  text of JSON, the commands of a node, \<^verbatim>\<open>GenericChainSpec\<close>, the answers to prompts,
  the programs that list and end processes, the configuration types, the builder and the shutdown of the zombienet crates. Log output, status messages, progress bars, opening files and connections are left out, and so are the JSON that values are
  sent as, the choice of ports and the life of the server, and the retries of the HTTP client. Digits of a version are ASCII; the patterns of tags are the ones the repository
  has, matched as the regular expressions they are turned into. Tasks that run concurrently are
  modelled where they can interfere: building a block is split at its locks, a chainHead request at
  its accesses to the count. Other methods run as a whole. The other commands (\<^verbatim>\<open>crates/pop-cli\<close>), contracts,
  templates, calls by metadata, benchmarks and telemetry are not modelled: they are mostly calls of
  libraries and prompts.
\<close>

end
